(* ===== verification/Abi.thy ===== *)
theory Abi
  imports Prelude
begin

text \<open>
  The constants of the kernel ABI, from \<^verbatim>\<open>src/crates/shared/src/lib.rs\<close>: the \<open>Errno\<close> enumeration
  with its conversion from the wire representation, and the flag and signal numbers the
  components use.
\<close>

section \<open>Errno\<close>

datatype (plugins only: code size) Errno =
    EPERM | ENOENT | ESRCH | EINTR | EIO | ENXIO | E2BIG | EBADF
  | ECHILD | EAGAIN | ENOMEM | EACCES | EFAULT | EBUSY | EEXIST | EXDEV
  | ENOTDIR | EISDIR | EINVAL | ENFILE | EMFILE | ENOTTY | EFBIG | ENOSPC
  | ESPIPE | EROFS | EMLINK | EPIPE | ERANGE | EDEADLK | ENAMETOOLONG | ENOSYS
  | ENOTEMPTY | ELOOP | ENOMSG | EIDRM | ENODATA | EOVERFLOW | ENOTSOCK | EDESTADDRREQ
  | EMSGSIZE | EPROTOTYPE | ENOPROTOOPT | EPROTONOSUPPORT | EOPNOTSUPP | EAFNOSUPPORT | EADDRINUSE | EADDRNOTAVAIL
  | ENETUNREACH | ECONNABORTED | ECONNRESET | ECONNREFUSED | EISCONN | ENOTCONN | ESHUTDOWN | ETIMEDOUT
  | EALREADY | EINPROGRESS

type_synonym 'a kresult = "('a, Errno) result"

primrec errno_code :: "Errno \<Rightarrow> u32" where
  "errno_code EPERM = 1"
| "errno_code ENOENT = 2"
| "errno_code ESRCH = 3"
| "errno_code EINTR = 4"
| "errno_code EIO = 5"
| "errno_code ENXIO = 6"
| "errno_code E2BIG = 7"
| "errno_code EBADF = 9"
| "errno_code ECHILD = 10"
| "errno_code EAGAIN = 11"
| "errno_code ENOMEM = 12"
| "errno_code EACCES = 13"
| "errno_code EFAULT = 14"
| "errno_code EBUSY = 16"
| "errno_code EEXIST = 17"
| "errno_code EXDEV = 18"
| "errno_code ENOTDIR = 20"
| "errno_code EISDIR = 21"
| "errno_code EINVAL = 22"
| "errno_code ENFILE = 23"
| "errno_code EMFILE = 24"
| "errno_code ENOTTY = 25"
| "errno_code EFBIG = 27"
| "errno_code ENOSPC = 28"
| "errno_code ESPIPE = 29"
| "errno_code EROFS = 30"
| "errno_code EMLINK = 31"
| "errno_code EPIPE = 32"
| "errno_code ERANGE = 34"
| "errno_code EDEADLK = 35"
| "errno_code ENAMETOOLONG = 36"
| "errno_code ENOSYS = 38"
| "errno_code ENOTEMPTY = 39"
| "errno_code ELOOP = 40"
| "errno_code ENOMSG = 42"
| "errno_code EIDRM = 43"
| "errno_code ENODATA = 61"
| "errno_code EOVERFLOW = 75"
| "errno_code ENOTSOCK = 88"
| "errno_code EDESTADDRREQ = 89"
| "errno_code EMSGSIZE = 90"
| "errno_code EPROTOTYPE = 91"
| "errno_code ENOPROTOOPT = 92"
| "errno_code EPROTONOSUPPORT = 93"
| "errno_code EOPNOTSUPP = 95"
| "errno_code EAFNOSUPPORT = 97"
| "errno_code EADDRINUSE = 98"
| "errno_code EADDRNOTAVAIL = 99"
| "errno_code ENETUNREACH = 101"
| "errno_code ECONNABORTED = 103"
| "errno_code ECONNRESET = 104"
| "errno_code ECONNREFUSED = 111"
| "errno_code EISCONN = 106"
| "errno_code ENOTCONN = 107"
| "errno_code ESHUTDOWN = 108"
| "errno_code ETIMEDOUT = 110"
| "errno_code EALREADY = 114"
| "errno_code EINPROGRESS = 115"

text \<open>\<open>Errno::from_u32\<close>: the arms of the \<open>match\<close>, in order.\<close>

definition errno_arms :: "(u32 \<times> Errno) list" where
  "errno_arms =
    [(1, EPERM), (2, ENOENT), (3, ESRCH), (4, EINTR), (5, EIO), (6, ENXIO), (7, E2BIG), (9,
     EBADF), (10, ECHILD), (11, EAGAIN), (12, ENOMEM), (13, EACCES), (14, EFAULT), (16, EBUSY),
     (17, EEXIST), (18, EXDEV), (20, ENOTDIR), (21, EISDIR), (22, EINVAL), (23, ENFILE), (24,
     EMFILE), (25, ENOTTY), (27, EFBIG), (28, ENOSPC), (29, ESPIPE), (30, EROFS), (31, EMLINK),
     (32, EPIPE), (34, ERANGE), (35, EDEADLK), (36, ENAMETOOLONG), (38, ENOSYS), (39,
     ENOTEMPTY), (40, ELOOP), (42, ENOMSG), (43, EIDRM), (61, ENODATA), (75, EOVERFLOW), (88,
     ENOTSOCK), (89, EDESTADDRREQ), (90, EMSGSIZE), (91, EPROTOTYPE), (92, ENOPROTOOPT), (93,
     EPROTONOSUPPORT), (95, EOPNOTSUPP), (97, EAFNOSUPPORT), (98, EADDRINUSE), (99,
     EADDRNOTAVAIL), (101, ENETUNREACH), (103, ECONNABORTED), (104, ECONNRESET), (106,
     EISCONN), (111, ECONNREFUSED), (107, ENOTCONN), (108, ESHUTDOWN), (110, ETIMEDOUT), (114,
     EALREADY), (115, EINPROGRESS)]"

definition errno_from_u32 :: "u32 \<Rightarrow> Errno option" where
  "errno_from_u32 v = map_of errno_arms v"

section \<open>Flags\<close>

abbreviation (input) O_RDONLY :: u32 where "O_RDONLY \<equiv> 0"
abbreviation (input) O_WRONLY :: u32 where "O_WRONLY \<equiv> 1"
abbreviation (input) O_RDWR :: u32 where "O_RDWR \<equiv> 2"
abbreviation (input) O_ACCMODE :: u32 where "O_ACCMODE \<equiv> 3"
abbreviation (input) O_CREAT :: u32 where "O_CREAT \<equiv> 64"
abbreviation (input) O_EXCL :: u32 where "O_EXCL \<equiv> 128"
abbreviation (input) O_TRUNC :: u32 where "O_TRUNC \<equiv> 512"
abbreviation (input) O_APPEND :: u32 where "O_APPEND \<equiv> 1024"
abbreviation (input) O_NONBLOCK :: u32 where "O_NONBLOCK \<equiv> 2048"
abbreviation (input) O_CLOEXEC :: u32 where "O_CLOEXEC \<equiv> 524288"
abbreviation (input) O_CLOFORK :: u32 where "O_CLOFORK \<equiv> 8388608"
abbreviation (input) FD_CLOEXEC :: u32 where "FD_CLOEXEC \<equiv> 1"
abbreviation (input) FD_CLOFORK :: u32 where "FD_CLOFORK \<equiv> 2"
abbreviation (input) F_RDLCK :: u32 where "F_RDLCK \<equiv> 0"
abbreviation (input) F_WRLCK :: u32 where "F_WRLCK \<equiv> 1"
abbreviation (input) F_UNLCK :: u32 where "F_UNLCK \<equiv> 2"
abbreviation (input) O_DIRECTORY :: u32 where "O_DIRECTORY \<equiv> 65536"
abbreviation (input) O_NOFOLLOW :: u32 where "O_NOFOLLOW \<equiv> 131072"
abbreviation (input) AT_FDCWD :: u32 where "AT_FDCWD \<equiv> - 100"
abbreviation (input) MAP_SHARED :: u32 where "MAP_SHARED \<equiv> 1"
abbreviation (input) MAP_PRIVATE :: u32 where "MAP_PRIVATE \<equiv> 2"
abbreviation (input) MAP_ANONYMOUS :: u32 where "MAP_ANONYMOUS \<equiv> 0x20"
abbreviation (input) SEEK_SET :: u32 where "SEEK_SET \<equiv> 0"
abbreviation (input) SEEK_CUR :: u32 where "SEEK_CUR \<equiv> 1"
abbreviation (input) SEEK_END :: u32 where "SEEK_END \<equiv> 2"
abbreviation (input) AF_UNIX :: u32 where "AF_UNIX \<equiv> 1"
abbreviation (input) AF_INET :: u32 where "AF_INET \<equiv> 2"
abbreviation (input) AF_INET6 :: u32 where "AF_INET6 \<equiv> 10"
abbreviation (input) SOCK_STREAM :: u32 where "SOCK_STREAM \<equiv> 1"
abbreviation (input) SOCK_DGRAM :: u32 where "SOCK_DGRAM \<equiv> 2"
abbreviation (input) SOCK_NONBLOCK :: u32 where "SOCK_NONBLOCK \<equiv> 2048"
abbreviation (input) SOCK_CLOEXEC :: u32 where "SOCK_CLOEXEC \<equiv> 524288"
abbreviation (input) SHUT_RD :: u32 where "SHUT_RD \<equiv> 0"
abbreviation (input) SHUT_WR :: u32 where "SHUT_WR \<equiv> 1"
abbreviation (input) SHUT_RDWR :: u32 where "SHUT_RDWR \<equiv> 2"
abbreviation (input) MSG_PEEK :: u32 where "MSG_PEEK \<equiv> 2"
abbreviation (input) MSG_DONTWAIT :: u32 where "MSG_DONTWAIT \<equiv> 64"
abbreviation (input) MSG_NOSIGNAL :: u32 where "MSG_NOSIGNAL \<equiv> 0x4000"
abbreviation (input) POLLIN :: i16 where "POLLIN \<equiv> 1"
abbreviation (input) POLLPRI :: i16 where "POLLPRI \<equiv> 2"
abbreviation (input) POLLOUT :: i16 where "POLLOUT \<equiv> 4"
abbreviation (input) POLLERR :: i16 where "POLLERR \<equiv> 8"
abbreviation (input) POLLHUP :: i16 where "POLLHUP \<equiv> 16"
abbreviation (input) POLLNVAL :: i16 where "POLLNVAL \<equiv> 32"
abbreviation (input) MAP_FIXED :: u32 where "MAP_FIXED \<equiv> 0x10"
abbreviation (input) MAP_FAILED :: usize where "MAP_FAILED \<equiv> - 1"

section \<open>Signals\<close>

abbreviation (input) NSIG :: u32 where "NSIG \<equiv> 65"
abbreviation (input) SIGINT :: u32 where "SIGINT \<equiv> 2"
abbreviation (input) SIGQUIT :: u32 where "SIGQUIT \<equiv> 3"
abbreviation (input) SIGKILL :: u32 where "SIGKILL \<equiv> 9"
abbreviation (input) SIGPIPE :: u32 where "SIGPIPE \<equiv> 13"
abbreviation (input) SIGALRM :: u32 where "SIGALRM \<equiv> 14"
abbreviation (input) SIGCHLD :: u32 where "SIGCHLD \<equiv> 17"
abbreviation (input) SIGCONT :: u32 where "SIGCONT \<equiv> 18"
abbreviation (input) SIGSTOP :: u32 where "SIGSTOP \<equiv> 19"
abbreviation (input) SIGTSTP :: u32 where "SIGTSTP \<equiv> 20"
abbreviation (input) SIGXFSZ :: u32 where "SIGXFSZ \<equiv> 25"
abbreviation (input) SIGWINCH :: u32 where "SIGWINCH \<equiv> 28"
abbreviation (input) SA_RESTART :: u32 where "SA_RESTART \<equiv> 0x10000000"

section \<open>The errno conversion is the inverse of the enumeration\<close>

lemma errno_from_u32_code: "errno_from_u32 (errno_code e) = Some e"
  by (cases e) (simp_all add: errno_from_u32_def errno_arms_def)

lemma errno_code_inj: "errno_code e = errno_code e' \<Longrightarrow> e = e'"
  by (metis errno_from_u32_code option.inject)

lemma errno_from_u32_SomeD: "errno_from_u32 v = Some e \<Longrightarrow> errno_code e = v"
  by (auto simp: errno_from_u32_def errno_arms_def split: if_splits)

end
