(* ===== verification/Slots.thy ===== *)
theory Slots
  imports Prelude
begin

text \<open>
  Slot tables: the \<open>Vec<Option<T>>\<close> the kernel uses for file descriptors, open file
  descriptions, pipes, sockets and accept queues. Allocation takes the first empty slot and
  appends when there is none. The locale \<open>slot_table\<close> is the contract clients rely on: an
  allocation returns an index that was free, the value made from its argument is found there, and
  nothing else moves.
\<close>

section \<open>Lookup and first-fit insertion\<close>

type_synonym 'a slots = "'a option list"

text \<open>\<open>entries.get(idx).and_then(|slot| slot.as_ref())\<close>\<close>

definition slot_get :: "'a slots \<Rightarrow> nat \<Rightarrow> 'a option" where
  "slot_get s i = (if i < length s then s ! i else None)"

definition slot_insert :: "'a \<Rightarrow> 'a slots \<Rightarrow> nat \<times> 'a slots" where
  "slot_insert v s = (case position Option.is_none s of
     Some i \<Rightarrow> (i, s[i := Some v])
   | None \<Rightarrow> (length s, s @ [Some v]))"

text \<open>\<open>get_mut(idx)\<close> followed by a change of the value in place.\<close>

definition slot_modify :: "nat \<Rightarrow> ('a \<Rightarrow> 'a) \<Rightarrow> 'a slots \<Rightarrow> 'a slots" where
  "slot_modify i f s = (case slot_get s i of None \<Rightarrow> s | Some v \<Rightarrow> s[i := Some (f v)])"

lemma slot_get_Nil [simp]: "slot_get [] i = None"
  by (simp add: slot_get_def)

lemma slot_get_SomeD: "slot_get s i = Some v \<Longrightarrow> i < length s \<and> s ! i = Some v"
  by (auto simp: slot_get_def split: if_splits)

lemma slot_get_update [simp]:
  "slot_get (s[i := v]) j = (if i = j \<and> i < length s then v else slot_get s j)"
  by (auto simp: slot_get_def)

lemma slot_get_append:
  "slot_get (s @ s') j = (if j < length s then slot_get s j else slot_get s' (j - length s))"
  by (auto simp: slot_get_def nth_append)

lemma slot_get_snoc [simp]: "slot_get (s @ [x]) j = (if j = length s then x else slot_get s j)"
  by (auto simp: slot_get_def nth_append)

lemma slot_get_snoc2 [simp]:
  "slot_get (s @ [x, y]) j
    = (if j = length s then x else if j = Suc (length s) then y else slot_get s j)"
  using slot_get_snoc [of "s @ [x]" y j] by simp

lemma slot_get_Cons [simp]:
  "slot_get (x # s) 0 = x" "slot_get (x # s) (Suc i) = slot_get s i"
  by (auto simp: slot_get_def)

lemma slot_get_replicate_None [simp]: "slot_get (replicate n None) j = None"
  by (simp add: slot_get_def)

lemma slot_get_beyond: "length s \<le> i \<Longrightarrow> slot_get s i = None"
  by (simp add: slot_get_def)

lemma slot_get_modify:
  "slot_get (slot_modify i f s) j
    = (if i = j then map_option f (slot_get s j) else slot_get s j)"
  by (auto simp: slot_modify_def split: option.split dest: slot_get_SomeD)

lemma length_slot_modify [simp]: "length (slot_modify i f s) = length s"
  by (simp add: slot_modify_def split: option.split)

lemma slot_set_iff: "Some v \<in> set s \<longleftrightarrow> (\<exists>i. slot_get s i = Some v)"
  by (metis in_set_conv_nth slot_get_SomeD slot_get_def)

section \<open>The allocator contract\<close>

fun alloc_all :: "('v \<Rightarrow> 't \<Rightarrow> nat \<times> 't) \<Rightarrow> 'v list \<Rightarrow> 't \<Rightarrow> nat list \<times> 't" where
  "alloc_all alloc [] t = ([], t)"
| "alloc_all alloc (v # vs) t =
    (let (i, t') = alloc v t; (is, t'') = alloc_all alloc vs t' in (i # is, t''))"

locale slot_table =
  fixes wf :: "'t \<Rightarrow> bool"
    and get :: "'t \<Rightarrow> nat \<Rightarrow> 'v option"
    and alloc :: "'a \<Rightarrow> 't \<Rightarrow> nat \<times> 't"
    and mk :: "'a \<Rightarrow> nat \<Rightarrow> 'v"
  assumes alloc_wf: "wf t \<Longrightarrow> alloc v t = (i, t') \<Longrightarrow> wf t'"
    and alloc_fresh: "wf t \<Longrightarrow> alloc v t = (i, t') \<Longrightarrow> get t i = None"
    and alloc_get: "wf t \<Longrightarrow> alloc v t = (i, t') \<Longrightarrow> get t' i = Some (mk v i)"
    and alloc_frame: "wf t \<Longrightarrow> alloc v t = (i, t') \<Longrightarrow> j \<noteq> i \<Longrightarrow> get t' j = get t j"
begin

lemma alloc_keeps:
  "wf t \<Longrightarrow> alloc v t = (i, t') \<Longrightarrow> get t j = Some w \<Longrightarrow> get t' j = Some w"
  using alloc_fresh alloc_frame by (metis option.distinct(1))

lemma alloc_lookup: "wf t \<Longrightarrow> alloc v t = (i, t') \<Longrightarrow> get t' = (get t)(i \<mapsto> mk v i)"
  by (rule ext) (simp add: alloc_get alloc_frame)

lemma alloc_all_keeps:
  "wf t \<Longrightarrow> alloc_all alloc vs t = (is, t') \<Longrightarrow> get t j = Some w \<Longrightarrow> get t' j = Some w"
proof (induction vs arbitrary: t "is" t')
  case (Cons v vs)
  obtain i t1 where a: "alloc v t = (i, t1)" by (cases "alloc v t")
  obtain ks t2 where b: "alloc_all alloc vs t1 = (ks, t2)" by (cases "alloc_all alloc vs t1")
  show ?case
    using Cons.prems Cons.IH [OF _ b] alloc_keeps [OF _ a] alloc_wf [OF _ a] a b by simp
qed simp

lemma alloc_all_fresh:
  "wf t \<Longrightarrow> alloc_all alloc vs t = (is, t') \<Longrightarrow> i \<in> set is \<Longrightarrow> get t i = None"
proof (induction vs arbitrary: t "is" t')
  case (Cons v vs)
  obtain k t1 where a: "alloc v t = (k, t1)" by (cases "alloc v t")
  obtain ks t2 where b: "alloc_all alloc vs t1 = (ks, t2)" by (cases "alloc_all alloc vs t1")
  from Cons.prems a b have "i = k \<or> i \<in> set ks" by auto
  then show ?case
    using Cons.IH [OF alloc_wf [OF Cons.prems(1) a] b] alloc_fresh [OF Cons.prems(1) a]
      alloc_keeps [OF Cons.prems(1) a]
    by (metis not_None_eq)
qed simp

lemma alloc_all_distinct: "wf t \<Longrightarrow> alloc_all alloc vs t = (is, t') \<Longrightarrow> distinct is"
proof (induction vs arbitrary: t "is" t')
  case (Cons v vs)
  obtain k t1 where a: "alloc v t = (k, t1)" by (cases "alloc v t")
  obtain ks t2 where b: "alloc_all alloc vs t1 = (ks, t2)" by (cases "alloc_all alloc vs t1")
  note w = alloc_wf [OF Cons.prems(1) a]
  have "k \<notin> set ks"
    using alloc_all_fresh [OF w b] alloc_get [OF Cons.prems(1) a] by force
  with Cons.prems Cons.IH [OF w b] a b show ?case by auto
qed simp

lemma alloc_all_get:
  "wf t \<Longrightarrow> alloc_all alloc vs t = (is, t') \<Longrightarrow>
    map (get t') is = map2 (\<lambda>v i. Some (mk v i)) vs is"
proof (induction vs arbitrary: t "is" t')
  case (Cons v vs)
  obtain k t1 where a: "alloc v t = (k, t1)" by (cases "alloc v t")
  obtain ks t2 where b: "alloc_all alloc vs t1 = (ks, t2)" by (cases "alloc_all alloc vs t1")
  note w = alloc_wf [OF Cons.prems(1) a]
  show ?case
    using Cons.prems Cons.IH [OF w b] alloc_all_keeps [OF w b alloc_get [OF Cons.prems(1) a]] a b
    by auto
qed simp

end

text \<open>First-fit tables moreover return the lowest free index.\<close>

locale first_fit_table = slot_table +
  assumes alloc_lowest: "wf t \<Longrightarrow> alloc v t = (i, t') \<Longrightarrow> j < i \<Longrightarrow> get t j \<noteq> None"
begin

lemma alloc_index: "wf t \<Longrightarrow> alloc v t = (i, t') \<Longrightarrow> i = (LEAST k. get t k = None)"
  using alloc_lowest alloc_fresh
  by (metis (mono_tags, lifting) LeastI_ex Least_le le_neq_implies_less)

end

lemma slot_insert_fresh: "slot_insert v s = (i, s') \<Longrightarrow> slot_get s i = None"
  by (auto simp: slot_insert_def position_Some_iff slot_get_def Option.is_none_def
      split: option.splits)

lemma slot_insert_lookup: "slot_insert v s = (i, s') \<Longrightarrow> slot_get s' = (slot_get s)(i \<mapsto> v)"
  by (auto simp: slot_insert_def position_Some_iff slot_get_append slot_get_def nth_append nth_Cons'
      fun_eq_iff split: option.splits)

lemma slot_insert_lowest: "slot_insert v s = (i, s') \<Longrightarrow> j < i \<Longrightarrow> slot_get s j \<noteq> None"
  by (auto simp: slot_insert_def position_Some_iff position_None_iff slot_get_def
      Option.is_none_def all_set_conv_all_nth split: option.splits)

interpretation slots: first_fit_table "\<lambda>_. True" slot_get slot_insert "\<lambda>v i. v"
  by unfold_locales
    (auto simp: slot_insert_fresh slot_insert_lookup dest: slot_insert_lowest)

lemma slot_insert_length:
  "slot_insert v s = (i, s') \<Longrightarrow> i < length s' \<and> length s' = max (length s) (Suc i)"
  by (auto simp: slot_insert_def position_Some_iff split: option.splits)

section \<open>Iteration and counting\<close>

text \<open>The live entries with their indices, in order.\<close>

definition slot_iter :: "'a slots \<Rightarrow> (nat \<times> 'a) list" where
  "slot_iter s = List.map_filter (\<lambda>(i, e). map_option (Pair i) e) (enumerate 0 s)"

lemma slot_iter_Nil [simp]: "slot_iter [] = []"
  by (simp add: slot_iter_def)

lemma slot_iter_snoc [simp]:
  "slot_iter (s @ [x]) = slot_iter s @ (case x of None \<Rightarrow> [] | Some v \<Rightarrow> [(length s, v)])"
  by (simp add: slot_iter_def enumerate_append_eq List.map_filter_def split: option.split)

lemma slot_iter_set: "(i, v) \<in> set (slot_iter s) \<longleftrightarrow> slot_get s i = Some v"
  by (induction s rule: rev_induct) (auto simp: slot_get_beyond split: option.splits)

lemma length_slot_iter: "length (slot_iter s) \<le> length s"
  by (induction s rule: rev_induct) (auto split: option.split)

lemma slot_iter_bound: "(i, v) \<in> set (slot_iter s) \<Longrightarrow> i < length s"
  by (auto simp: slot_iter_set dest: slot_get_SomeD)

text \<open>The number of entries with a property.\<close>

definition count_where :: "('a \<Rightarrow> bool) \<Rightarrow> (nat \<Rightarrow> 'a option) \<Rightarrow> nat" where
  "count_where P m = card {n. \<exists>v. m n = Some v \<and> P v}"

lemma finite_dom_slot_get [simp]: "finite (dom (slot_get s))"
  by (rule finite_subset [of _ "{..<length s}"]) (auto dest: slot_get_SomeD)

lemma count_where_empty [simp]: "count_where P Map.empty = 0"
  by (simp add: count_where_def)

lemma count_where_bind:
  assumes "finite (dom m)" "m n = None"
  shows "count_where P (m(n \<mapsto> v)) = count_where P m + of_bool (P v)"
proof -
  have fin: "finite {n. \<exists>v. m n = Some v \<and> P v}" by (rule finite_subset [OF _ assms(1)]) auto
  have "{n'. \<exists>w. (m(n \<mapsto> v)) n' = Some w \<and> P w} =
      (if P v then insert n {n. \<exists>v. m n = Some v \<and> P v} else {n. \<exists>v. m n = Some v \<and> P v})"
    using assms(2) by (auto split: if_splits)
  with fin assms(2) show ?thesis by (auto simp: count_where_def)
qed

lemma count_where_remove:
  assumes "finite (dom m)" "m n = Some v"
  shows "count_where P m = count_where P (m(n := None)) + of_bool (P v)"
proof -
  have "(m(n := None))(n \<mapsto> v) = m" using assms(2) by (simp add: fun_eq_iff)
  with count_where_bind [of "m(n := None)" n P v] assms(1) show ?thesis by simp
qed

lemma count_where_replace:
  assumes "finite (dom m)" "m n = Some v"
  shows "count_where P (m(n \<mapsto> w)) + of_bool (P v) = count_where P m + of_bool (P w)"
  using count_where_bind [of "m(n := None)" n P w] count_where_remove [OF assms, of P] assms(1) by simp

lemma count_where_cong:
  assumes "\<And>n v. m n = Some v \<Longrightarrow> P v \<Longrightarrow> \<exists>w. m' n = Some w \<and> P' w"
    and "\<And>n v. m' n = Some v \<Longrightarrow> P' v \<Longrightarrow> \<exists>w. m n = Some w \<and> P w"
  shows "count_where P m = count_where P' m'"
proof -
  have "{n. \<exists>v. m n = Some v \<and> P v} = {n. \<exists>v. m' n = Some v \<and> P' v}" using assms by blast
  then show ?thesis by (simp add: count_where_def)
qed

lemma count_where_iter: "count_where P (slot_get s) = length (filter (\<lambda>(i, v). P v) (slot_iter s))"
proof (induction s rule: rev_induct)
  case (snoc x s)
  show ?case
  proof (cases x)
    case None
    then have g: "slot_get (s @ [x]) = slot_get s" by (auto simp: fun_eq_iff slot_get_beyond)
    show ?thesis unfolding g snoc by (simp add: None)
  next
    case (Some v)
    then have g: "slot_get (s @ [x]) = (slot_get s)(length s \<mapsto> v)" by (auto simp: fun_eq_iff slot_get_beyond)
    have "count_where P (slot_get (s @ [x])) = count_where P (slot_get s) + of_bool (P v)"
      unfolding g by (rule count_where_bind) (simp_all add: slot_get_beyond)
    then show ?thesis unfolding snoc by (simp add: Some del: slot_get_snoc)
  qed
qed (simp add: count_where_def)

end
