(* ===== verification/FdTable.thy ===== *)
theory FdTable
  imports Abi Slots
begin

text \<open>
  The per-process file descriptor table, from \<^verbatim>\<open>src/crates/kernel/src/fd.rs\<close>. A descriptor is an
  \<open>i32\<close>; a method that takes \<open>&mut self\<close> returns the updated table next to its result.
  \<open>get_mut\<close> is modelled by the update function its caller applies to the entry.
\<close>

section \<open>The table\<close>

record FdEntry =
  ofd_ref :: nat
  fd_flags :: u32

record FdTable =
  fdt_entries :: "FdEntry slots"
  fdt_max_fds :: nat

definition fdt_with_max :: "nat \<Rightarrow> FdTable" where
  "fdt_with_max m = \<lparr>fdt_entries = [], fdt_max_fds = m\<rparr>"

definition fdt_new :: FdTable where
  "fdt_new = fdt_with_max 1024"

definition fdt_alloc_at_min ::
    "FdTable \<Rightarrow> nat \<Rightarrow> u32 \<Rightarrow> i32 \<Rightarrow> i32 kresult \<times> FdTable" where
  "fdt_alloc_at_min t r flags min_fd =
    (let mn = nat (max (sint min_fd) 0);
         es = fdt_entries t;
         e = \<lparr>ofd_ref = r, fd_flags = flags\<rparr>
     in case position Option.is_none (drop mn es) of
          Some k \<Rightarrow>
            (let i = mn + k in
             if i \<ge> fdt_max_fds t then (Err EMFILE, t)
             else (Ok (word_of_nat i), t\<lparr>fdt_entries := es[i := Some e]\<rparr>))
        | None \<Rightarrow>
            (let next = max (length es) mn in
             if next \<ge> fdt_max_fds t then (Err EMFILE, t)
             else (Ok (word_of_nat next),
                   t\<lparr>fdt_entries := es @ replicate (next - length es) None @ [Some e]\<rparr>)))"

definition fdt_alloc :: "FdTable \<Rightarrow> nat \<Rightarrow> u32 \<Rightarrow> i32 kresult \<times> FdTable" where
  "fdt_alloc t r flags = fdt_alloc_at_min t r flags 0"

definition fdt_preopen_stdio :: "FdTable \<Rightarrow> FdTable" where
  "fdt_preopen_stdio t = fold (\<lambda>i t. snd (fdt_alloc t i 0)) [0, 1, 2] t"

definition fdt_free :: "FdTable \<Rightarrow> i32 \<Rightarrow> nat kresult \<times> FdTable" where
  "fdt_free t fd =
    (let idx = nat (sint fd) in
     if sint fd < 0 \<or> idx \<ge> length (fdt_entries t) then (Err EBADF, t)
     else (case fdt_entries t ! idx of
             Some e \<Rightarrow> (Ok (ofd_ref e), t\<lparr>fdt_entries := (fdt_entries t)[idx := None]\<rparr>)
           | None \<Rightarrow> (Err EBADF, t)))"

definition fdt_get :: "FdTable \<Rightarrow> i32 \<Rightarrow> FdEntry kresult" where
  "fdt_get t fd =
    (let idx = nat (sint fd) in
     if sint fd < 0 \<or> idx \<ge> length (fdt_entries t) then Err EBADF
     else ok_or (fdt_entries t ! idx) EBADF)"

definition fdt_get_mut :: "FdTable \<Rightarrow> i32 \<Rightarrow> (FdEntry \<Rightarrow> FdEntry) \<Rightarrow> unit kresult \<times> FdTable" where
  "fdt_get_mut t fd f =
    (let idx = nat (sint fd) in
     if sint fd < 0 \<or> idx \<ge> length (fdt_entries t) then (Err EBADF, t)
     else (case fdt_entries t ! idx of
             None \<Rightarrow> (Err EBADF, t)
           | Some e \<Rightarrow> (Ok (), t\<lparr>fdt_entries := (fdt_entries t)[idx := Some (f e)]\<rparr>)))"

definition fdt_iter :: "FdTable \<Rightarrow> (i32 \<times> FdEntry) list" where
  "fdt_iter t = List.map_filter (\<lambda>(i, e). map_option (Pair (word_of_nat i)) e)
     (enumerate 0 (fdt_entries t))"

definition fdt_from_raw :: "FdEntry slots \<Rightarrow> nat \<Rightarrow> FdTable" where
  "fdt_from_raw es m = \<lparr>fdt_entries = es, fdt_max_fds = m\<rparr>"

definition fdt_set_max_fds :: "FdTable \<Rightarrow> nat \<Rightarrow> FdTable" where
  "fdt_set_max_fds t m = t\<lparr>fdt_max_fds := m\<rparr>"

definition fdt_set_at ::
    "FdTable \<Rightarrow> i32 \<Rightarrow> nat \<Rightarrow> u32 \<Rightarrow> nat option kresult \<times> FdTable" where
  "fdt_set_at t fd r flags =
    (let idx = nat (sint fd) in
     if sint fd < 0 \<or> idx \<ge> fdt_max_fds t then (Err EBADF, t)
     else
       (let es = fdt_entries t @ replicate (Suc idx - length (fdt_entries t)) None;
            old = map_option ofd_ref (es ! idx)
        in (Ok old, t\<lparr>fdt_entries := es[idx := Some \<lparr>ofd_ref = r, fd_flags = flags\<rparr>]\<rparr>)))"

section \<open>The descriptor map a table stands for\<close>

text \<open>
  The abstract state is a partial map from descriptor numbers to entries. The size bound says
  that every index of the vector is representable as a non-negative \<open>i32\<close>.
\<close>

definition fdt_map :: "FdTable \<Rightarrow> nat \<Rightarrow> FdEntry option" where
  "fdt_map t = slot_get (fdt_entries t)"

definition fdt_wf :: "FdTable \<Rightarrow> bool" where
  "fdt_wf t \<longleftrightarrow> length (fdt_entries t) \<le> 2 ^ 31 \<and> fdt_max_fds t \<le> 2 ^ 31"

definition lowest_free :: "(nat \<rightharpoonup> 'a) \<Rightarrow> nat \<Rightarrow> nat" where
  "lowest_free m mn = (LEAST n. mn \<le> n \<and> m n = None)"

definition fd_min :: "i32 \<Rightarrow> nat" where
  "fd_min fd = nat (max (sint fd) 0)"

lemma lowest_free_eqI:
  assumes "mn \<le> i" "m i = None" "\<And>j. mn \<le> j \<Longrightarrow> j < i \<Longrightarrow> m j \<noteq> None"
  shows "lowest_free m mn = i"
  unfolding lowest_free_def
proof (rule Least_equality)
  fix y assume "mn \<le> y \<and> m y = None"
  then show "i \<le> y" using assms(3) [of y] by force
qed (use assms in simp)

lemma search_hit:
  assumes "position Option.is_none (drop mn es) = Some k"
  shows "mn + k < length es" and "es ! (mn + k) = None"
    and "lowest_free (slot_get es) mn = mn + k"
proof -
  from assms have k: "k < length es - mn" "Option.is_none (es ! (mn + k))"
      "\<And>j. j < k \<Longrightarrow> \<not> Option.is_none (es ! (mn + j))"
    by (auto simp: position_Some_iff)
  show l: "mn + k < length es" and n: "es ! (mn + k) = None"
    using k by (auto simp: Option.is_none_def)
  show "lowest_free (slot_get es) mn = mn + k"
  proof (rule lowest_free_eqI)
    fix j assume "mn \<le> j" "j < mn + k"
    then show "slot_get es j \<noteq> None"
      using k(3) [of "j - mn"] l by (simp add: slot_get_def Option.is_none_def)
  qed (use l n in \<open>simp_all add: slot_get_def\<close>)
qed

lemma search_miss:
  assumes "position Option.is_none (drop mn es) = None"
  shows "lowest_free (slot_get es) mn = max (length es) mn"
proof (rule lowest_free_eqI)
  fix j assume j: "mn \<le> j" "j < max (length es) mn"
  then have "es ! j \<in> set (drop mn es)"
    by (auto simp: in_set_conv_nth intro: exI [of _ "j - mn"])
  with assms j show "slot_get es j \<noteq> None"
    by (auto simp: position_None_iff slot_get_def Option.is_none_def)
qed (simp_all add: slot_get_def)

lemma slot_get_extend:
  "length es \<le> n \<Longrightarrow>
    slot_get (es @ replicate (n - length es) None @ [Some e]) = (slot_get es)(n \<mapsto> e)"
  by (auto simp: fun_eq_iff slot_get_append slot_get_beyond slot_get_def nth_append nth_Cons')

lemma fdt_alloc_at_min_full:
  assumes "n = lowest_free (fdt_map t) (fd_min min_fd)" "fdt_max_fds t \<le> n"
  shows "fdt_alloc_at_min t r flags min_fd = (Err EMFILE, t)"
proof (cases "position Option.is_none (drop (fd_min min_fd) (fdt_entries t))")
  case None
  with assms search_miss [OF None] show ?thesis
    by (simp add: fdt_alloc_at_min_def Let_def fd_min_def [symmetric] fdt_map_def)
next
  case (Some k)
  with assms search_hit [OF Some] show ?thesis
    by (simp add: fdt_alloc_at_min_def Let_def fd_min_def [symmetric] fdt_map_def)
qed

lemma fdt_alloc_at_min_free:
  assumes n: "n = lowest_free (fdt_map t) (fd_min min_fd)" "n < fdt_max_fds t"
  obtains es where
    "fdt_alloc_at_min t r flags min_fd = (Ok (word_of_nat n), t\<lparr>fdt_entries := es\<rparr>)"
    "slot_get es = (fdt_map t)(n \<mapsto> \<lparr>ofd_ref = r, fd_flags = flags\<rparr>)"
    "length es \<le> max (length (fdt_entries t)) (Suc n)"
proof (cases "position Option.is_none (drop (fd_min min_fd) (fdt_entries t))")
  case None
  have n_eq: "max (length (fdt_entries t)) (fd_min min_fd) = n"
    using search_miss [OF None] n(1) by (simp add: fdt_map_def)
  show ?thesis
  proof (rule that)
    show "fdt_alloc_at_min t r flags min_fd = (Ok (word_of_nat n), t\<lparr>fdt_entries :=
        fdt_entries t @ replicate (n - length (fdt_entries t)) None
          @ [Some \<lparr>ofd_ref = r, fd_flags = flags\<rparr>]\<rparr>)"
      using n(2) None by (simp add: fdt_alloc_at_min_def Let_def fd_min_def [symmetric] n_eq)
  qed (use n_eq in \<open>auto simp: slot_get_extend fdt_map_def\<close>)
next
  case (Some k)
  have hit: "fd_min min_fd + k = n" "n < length (fdt_entries t)"
    using search_hit [OF Some] n(1) by (simp_all add: fdt_map_def)
  show ?thesis
  proof (rule that)
    show "fdt_alloc_at_min t r flags min_fd = (Ok (word_of_nat n),
        t\<lparr>fdt_entries := (fdt_entries t)[n := Some \<lparr>ofd_ref = r, fd_flags = flags\<rparr>]\<rparr>)"
      using n(2) Some hit by (simp add: fdt_alloc_at_min_def Let_def fd_min_def [symmetric])
  qed (use hit in \<open>simp_all add: fdt_map_def fun_eq_iff\<close>)
qed

lemma lowest_free_props:
  assumes "finite (dom m)"
  shows "mn \<le> lowest_free m mn" and "m (lowest_free m mn) = None"
    and "mn \<le> j \<Longrightarrow> j < lowest_free m mn \<Longrightarrow> m j \<noteq> None"
proof -
  have "infinite ({mn..} - dom m)"
    using assms by (intro Diff_infinite_finite infinite_Ici)
  then have "{mn..} - dom m \<noteq> {}"
    by (metis finite.emptyI)
  then have "\<exists>n. mn \<le> n \<and> m n = None" by (auto simp: domIff)
  then have "mn \<le> lowest_free m mn \<and> m (lowest_free m mn) = None"
    unfolding lowest_free_def by (rule LeastI_ex)
  then show "mn \<le> lowest_free m mn" "m (lowest_free m mn) = None" by simp_all
  show "mn \<le> j \<Longrightarrow> j < lowest_free m mn \<Longrightarrow> m j \<noteq> None"
    using not_less_Least [of j "\<lambda>n. mn \<le> n \<and> m n = None"] by (simp add: lowest_free_def)
qed

lemma finite_dom_fdt_map [simp]: "finite (dom (fdt_map t))"
  by (rule finite_subset [of _ "{..<length (fdt_entries t)}"])
    (auto simp: fdt_map_def dest: slot_get_SomeD)

section \<open>Allocation, lookup, release\<close>

text \<open>
  C36: \<open>alloc_at_min\<close> implements POSIX allocation on the descriptor map. With \<open>n\<close> the lowest
  descriptor not below \<open>min_fd\<close> that is free, the call returns \<open>n\<close> as a non-negative \<open>i32\<close> and
  binds it to the given entry when \<open>n\<close> is under the limit; otherwise it fails with \<open>EMFILE\<close> and
  leaves the table alone. No other descriptor changes, and the table stays well-formed.
\<close>

theorem fdt_alloc_at_min_lowest:
  assumes "fdt_wf t" and "fdt_alloc_at_min t r flags min_fd = (res, t')"
  shows "let n = lowest_free (fdt_map t) (fd_min min_fd) in
      if n < fdt_max_fds t
      then res = Ok (word_of_nat n) \<and> sint (word_of_nat n :: i32) = int n \<and>
           fdt_map t' = (fdt_map t)(n \<mapsto> \<lparr>ofd_ref = r, fd_flags = flags\<rparr>) \<and>
           fdt_max_fds t' = fdt_max_fds t \<and> fdt_wf t'
      else res = Err EMFILE \<and> t' = t"
proof -
  define n where "n = lowest_free (fdt_map t) (fd_min min_fd)"
  show ?thesis
  proof (cases "n < fdt_max_fds t")
    case True
    then obtain es where
      "fdt_alloc_at_min t r flags min_fd = (Ok (word_of_nat n), t\<lparr>fdt_entries := es\<rparr>)"
      "slot_get es = (fdt_map t)(n \<mapsto> \<lparr>ofd_ref = r, fd_flags = flags\<rparr>)"
      "length es \<le> max (length (fdt_entries t)) (Suc n)"
      using fdt_alloc_at_min_free [OF n_def] by blast
    with True assms show ?thesis
      unfolding Let_def n_def [symmetric] by (auto simp: fdt_wf_def fdt_map_def word_bound_simps)
  next
    case False
    with assms fdt_alloc_at_min_full [OF n_def] show ?thesis
      unfolding Let_def n_def [symmetric] by simp
  qed
qed

theorem fdt_alloc_at_min_lowest_witness:
  "let t = \<lparr>fdt_entries = [Some \<lparr>ofd_ref = 0, fd_flags = 0\<rparr>, None,
      Some \<lparr>ofd_ref = 2, fd_flags = 0\<rparr>], fdt_max_fds = 1024\<rparr> in
   fdt_wf t \<and> fst (fdt_alloc_at_min t 7 1 (- 5)) = Ok 1 \<and>
   lowest_free (fdt_map t) (fd_min (- 5)) < 1024"
proof -
  let ?t = "\<lparr>fdt_entries = [Some \<lparr>ofd_ref = 0, fd_flags = 0\<rparr>, None,
      Some \<lparr>ofd_ref = 2, fd_flags = 0\<rparr>], fdt_max_fds = 1024\<rparr>"
  have wf: "fdt_wf ?t" by (simp add: fdt_wf_def)
  have run: "fdt_alloc_at_min ?t 7 1 (- 5) = (Ok 1, ?t\<lparr>fdt_entries :=
      [Some \<lparr>ofd_ref = 0, fd_flags = 0\<rparr>, Some \<lparr>ofd_ref = 7, fd_flags = 1\<rparr>,
       Some \<lparr>ofd_ref = 2, fd_flags = 0\<rparr>]\<rparr>)"
    by (simp add: fdt_alloc_at_min_def)
  show ?thesis
    using fdt_alloc_at_min_lowest [OF wf run] wf run
    by (simp add: Let_def split: if_splits)
qed

text \<open>Lookup, release and placement in terms of the descriptor map.\<close>

lemma fdt_get_eq:
  "fdt_get t fd = (if sint fd < 0 then Err EBADF else ok_or (fdt_map t (nat (sint fd))) EBADF)"
  by (auto simp: fdt_get_def Let_def fdt_map_def slot_get_def)

lemma fdt_get_OkD:
  "fdt_get t fd = Ok e \<Longrightarrow> 0 \<le> sint fd \<and> fdt_map t (nat (sint fd)) = Some e"
  by (auto simp: fdt_get_eq ok_or_def split: if_splits option.splits)

lemma fdt_free_Err:
  "fdt_get t fd = Err e \<Longrightarrow> fdt_free t fd = (Err EBADF, t)"
  by (auto simp: fdt_get_def fdt_free_def Let_def ok_or_def split: if_splits option.splits)

lemma fdt_free_Ok:
  assumes "fdt_get t fd = Ok e"
  obtains t' where "fdt_free t fd = (Ok (ofd_ref e), t')"
    "fdt_map t' = (fdt_map t)(nat (sint fd) := None)" "fdt_max_fds t' = fdt_max_fds t"
    "length (fdt_entries t') = length (fdt_entries t)"
  using assms that [of "t\<lparr>fdt_entries := (fdt_entries t)[nat (sint fd) := None]\<rparr>"]
  by (auto simp: fdt_get_def fdt_free_def fdt_map_def Let_def ok_or_def fun_eq_iff
      split: if_splits option.splits)

lemma fdt_set_at_Ok:
  assumes "0 \<le> sint fd" "nat (sint fd) < fdt_max_fds t"
  obtains t' where
    "fdt_set_at t fd r flags = (Ok (map_option ofd_ref (fdt_map t (nat (sint fd)))), t')"
    "fdt_map t' = (fdt_map t)(nat (sint fd) \<mapsto> \<lparr>ofd_ref = r, fd_flags = flags\<rparr>)"
    "fdt_max_fds t' = fdt_max_fds t"
    "length (fdt_entries t') = max (length (fdt_entries t)) (Suc (nat (sint fd)))"
proof -
  define n where "n = nat (sint fd)"
  define es where "es = fdt_entries t @ replicate (Suc n - length (fdt_entries t)) None"
  have get: "slot_get es = fdt_map t"
    by (auto simp: fun_eq_iff es_def fdt_map_def slot_get_append slot_get_beyond)
  have len: "n < length es" by (simp add: es_def)
  have "es ! n = fdt_map t n"
    using len by (simp add: get [symmetric] slot_get_def)
  with assms show ?thesis
    using get len
    by (intro that [of "t\<lparr>fdt_entries := es[n := Some \<lparr>ofd_ref = r, fd_flags = flags\<rparr>]\<rparr>"])
      (auto simp: fdt_set_at_def Let_def n_def [symmetric] es_def [symmetric] fdt_map_def fun_eq_iff,
       simp add: es_def)
qed

lemma fdt_set_at_Err:
  "sint fd < 0 \<or> fdt_max_fds t \<le> nat (sint fd) \<Longrightarrow> fdt_set_at t fd r flags = (Err EBADF, t)"
  by (auto simp: fdt_set_at_def Let_def)

lemma fdt_wf_free: "fdt_wf t \<Longrightarrow> fdt_free t fd = (res, t') \<Longrightarrow> fdt_wf t'"
  by (auto simp: fdt_free_def Let_def fdt_wf_def split: if_splits option.splits)

text \<open>The entries an iteration visits are exactly the bindings of the map.\<close>

lemma set_fdt_iter:
  "set (fdt_iter t) = {(word_of_nat n, e) |n e. fdt_map t n = Some e}"
proof -
  have "(i, e) \<in> set (enumerate 0 es) \<longleftrightarrow> i < length es \<and> es ! i = e" for i e and es :: "FdEntry slots"
    by (auto simp: in_set_enumerate_eq)
  then show ?thesis
    by (fastforce simp: fdt_iter_def fdt_map_def List.map_filter_def slot_get_def image_iff
        split: if_splits)
qed

text \<open>
  C35: descriptor lookup, release and placement agree with the descriptor map. \<open>get\<close> finds exactly
  the bound descriptors, \<open>free\<close> returns the open file description of a bound descriptor, unbinds
  that descriptor only, and is an \<open>EBADF\<close> without effect on any other; \<open>set_at\<close> returns the
  description it displaced and rebinds that descriptor only, for every number below the limit.
\<close>

theorem fdt_ops_refine_map:
  "(fdt_get t fd = (if sint fd < 0 then Err EBADF
           else ok_or (fdt_map t (nat (sint fd))) EBADF)) \<and>
         (case fdt_free t fd of (res, t') \<Rightarrow>
           res = map_sum id ofd_ref (fdt_get t fd) \<and>
           fdt_map t' = (if sint fd < 0 then fdt_map t else (fdt_map t)(nat (sint fd) := None)) \<and>
           fdt_max_fds t' = fdt_max_fds t) \<and>
         (case fdt_set_at t fd r flags of (res, t') \<Rightarrow>
           if 0 \<le> sint fd \<and> nat (sint fd) < fdt_max_fds t
           then res = Ok (map_option ofd_ref (fdt_map t (nat (sint fd)))) \<and>
                fdt_map t' = (fdt_map t)(nat (sint fd) \<mapsto> \<lparr>ofd_ref = r, fd_flags = flags\<rparr>)
           else res = Err EBADF \<and> t' = t)"
proof (intro conjI)
  show "fdt_get t fd = (if sint fd < 0 then Err EBADF
      else ok_or (fdt_map t (nat (sint fd))) EBADF)"
    by (rule fdt_get_eq)
  show "case fdt_free t fd of (res, t') \<Rightarrow>
      res = map_sum id ofd_ref (fdt_get t fd) \<and>
      fdt_map t' = (if sint fd < 0 then fdt_map t else (fdt_map t)(nat (sint fd) := None)) \<and>
      fdt_max_fds t' = fdt_max_fds t"
  proof (cases "fdt_get t fd")
    case (Inl e)
    then have "e = EBADF" "sint fd < 0 \<or> fdt_map t (nat (sint fd)) = None"
      by (auto simp: fdt_get_eq ok_or_def split: if_splits option.splits)
    with fdt_free_Err [OF Inl] Inl show ?thesis by auto
  next
    case (Inr e)
    then show ?thesis
      using fdt_get_OkD [OF Inr] by (rule_tac fdt_free_Ok [OF Inr]) auto
  qed
  show "case fdt_set_at t fd r flags of (res, t') \<Rightarrow>
      if 0 \<le> sint fd \<and> nat (sint fd) < fdt_max_fds t
      then res = Ok (map_option ofd_ref (fdt_map t (nat (sint fd)))) \<and>
           fdt_map t' = (fdt_map t)(nat (sint fd) \<mapsto> \<lparr>ofd_ref = r, fd_flags = flags\<rparr>)
      else res = Err EBADF \<and> t' = t"
  proof (cases "0 \<le> sint fd \<and> nat (sint fd) < fdt_max_fds t")
    case True
    then show ?thesis by (rule_tac fdt_set_at_Ok [of fd t r flags]) auto
  next
    case False
    then show ?thesis by (subst fdt_set_at_Err) auto
  qed
qed

end
