(* ===== verification/Handle_Refs.thy ===== *)
theory Handle_Refs
  imports Btree_Map
begin

text \<open>
  Handles of the host that several processes share after a fork or a spawn. The kernel counts the
  owners of a handle in a map from the handle to its count; a handle that is not in the map has one
  owner. The locale \<open>handle_refs\<close> is the contract of such a table; the tables for files
  (\<open>OfdTable\<close>) and for network connections (\<open>Socket\<close>) are its two interpretations.
\<close>

section \<open>The contract\<close>

text \<open>Release a handle \<open>n\<close> times; each result says whether the host has to close it.\<close>

fun close_n :: "('h \<Rightarrow> 'r \<Rightarrow> bool \<times> 'r) \<Rightarrow> nat \<Rightarrow> 'h \<Rightarrow> 'r \<Rightarrow> bool list \<times> 'r" where
  "close_n close 0 h refs = ([], refs)"
| "close_n close (Suc n) h refs =
    (let (b, refs') = close h refs; (bs, refs'') = close_n close n h refs' in (b # bs, refs''))"

lemma close_n_snoc:
  assumes "close_n close n h r = (bs, r1)" "close h r1 = (b, r2)"
  shows "close_n close (Suc n) h r = (bs @ [b], r2)"
  using assms
proof (induction n arbitrary: r bs)
  case (Suc n)
  obtain c s where 1: "close h r = (c, s)" by (cases "close h r")
  obtain cs u where 2: "close_n close n h s = (cs, u)" by (cases "close_n close n h s")
  show ?case
    using Suc.IH [of s cs] Suc.prems 1 2 by auto
qed simp

locale handle_refs =
  fixes wf :: "'r \<Rightarrow> bool"
    and owners :: "'r \<Rightarrow> 'h \<Rightarrow> nat"
    and fork_ref :: "'h \<Rightarrow> 'r \<Rightarrow> 'r"
    and close_ref :: "'h \<Rightarrow> 'r \<Rightarrow> bool \<times> 'r"
    and limit :: nat
  assumes owners_pos: "wf refs \<Longrightarrow> 0 < owners refs h"
    and fork_wf: "wf refs \<Longrightarrow> Suc (owners refs h) < limit \<Longrightarrow> wf (fork_ref h refs)"
    and fork_owners: "wf refs \<Longrightarrow> Suc (owners refs h) < limit \<Longrightarrow>
      owners (fork_ref h refs) = (owners refs)(h := Suc (owners refs h))"
    and close_wf: "wf refs \<Longrightarrow> close_ref h refs = (b, refs') \<Longrightarrow> wf refs'"
    and close_last: "wf refs \<Longrightarrow> close_ref h refs = (b, refs') \<Longrightarrow> b \<longleftrightarrow> owners refs h = 1"
    and close_owners: "wf refs \<Longrightarrow> close_ref h refs = (b, refs') \<Longrightarrow>
      owners refs' = (owners refs)(h := if b then 1 else owners refs h - 1)"
begin

lemma fork_n:
  "wf refs \<Longrightarrow> owners refs h + n < limit \<Longrightarrow> wf ((fork_ref h ^^ n) refs) \<and>
    owners ((fork_ref h ^^ n) refs) = (owners refs)(h := owners refs h + n)"
  by (induction n) (auto simp: fork_wf fork_owners)

lemma close_n_shared:
  assumes "wf refs" "n < owners refs h" "close_n close_ref n h refs = (bs, refs')"
  shows "bs = replicate n False \<and> wf refs' \<and> owners refs' = (owners refs)(h := owners refs h - n)"
  using assms
proof (induction n arbitrary: refs bs)
  case (Suc n)
  obtain b r1 where 1: "close_ref h refs = (b, r1)" by (cases "close_ref h refs")
  obtain cs r2 where 2: "close_n close_ref n h r1 = (cs, r2)" by (cases "close_n close_ref n h r1")
  note c = close_wf [OF Suc.prems(1) 1] close_last [OF Suc.prems(1) 1] close_owners [OF Suc.prems(1) 1]
  have "n < owners r1 h" and b: "\<not> b" using c Suc.prems(2) by auto
  with Suc.IH [OF c(1)] 2 Suc.prems(3) 1 c(3) show ?case by (auto simp: fun_eq_iff)
qed simp

lemma closed_by_last_owner:
  assumes "wf refs" "owners refs h + n < limit" "refs1 = (fork_ref h ^^ n) refs"
    and "close_n close_ref (n + owners refs h) h refs1 = (bs, refs2)"
  shows "bs = replicate (n + owners refs h - 1) False @ [True] \<and>
    owners refs2 = (owners refs)(h := 1) \<and> wf refs2"
proof -
  define k where "k = n + owners refs h - 1"
  have k: "n + owners refs h = Suc k" using owners_pos [OF assms(1), of h] by (simp add: k_def)
  obtain cs r where 1: "close_n close_ref k h refs1 = (cs, r)" by (cases "close_n close_ref k h refs1")
  obtain b r' where 2: "close_ref h r = (b, r')" by (cases "close_ref h r")
  from fork_n [OF assms(1,2)] assms(3) have w: "wf refs1"
      and ow: "owners refs1 = (owners refs)(h := owners refs h + n)"
    by simp_all
  have c: "cs = replicate k False" "wf r" "owners r = (owners refs)(h := 1)"
    using close_n_shared [OF w _ 1] k ow by (auto simp: fun_eq_iff)
  note d = close_last [OF c(2) 2] close_owners [OF c(2) 2] close_wf [OF c(2) 2]
  show ?thesis
    using assms(4) c d close_n_snoc [OF 1 2] k by simp
qed

end

section \<open>Counting in a map\<close>

type_synonym host_refs = "(int, u32) btree"

text \<open>The two updates on a map from handles to counts, and the reading of the map as owners.\<close>

definition refs_inc :: "int \<Rightarrow> host_refs \<Rightarrow> host_refs" where
  "refs_inc k refs =
    (let count = (case bt_get refs k of None \<Rightarrow> 1 | Some c \<Rightarrow> c) in bt_insert k (count + 1) refs)"

definition refs_dec :: "int \<Rightarrow> host_refs \<Rightarrow> bool \<times> host_refs" where
  "refs_dec k refs = (case bt_get refs k of
     Some count \<Rightarrow>
       (let count' = count - 1 in
        if count' = 0 then (True, bt_remove k refs) else (False, bt_insert k count' refs))
   | None \<Rightarrow> (True, refs))"

definition refs_owners :: "host_refs \<Rightarrow> int \<Rightarrow> nat" where
  "refs_owners refs k = (case bt_get refs k of None \<Rightarrow> 1 | Some c \<Rightarrow> unat c)"

definition hh_wf :: "host_refs \<Rightarrow> bool" where
  "hh_wf refs \<longleftrightarrow> bt_wf refs \<and> (\<forall>(h, c) \<in> set refs. c \<noteq> 0)"

lemma hh_wf_alt: "hh_wf refs \<longleftrightarrow> bt_wf refs \<and> (\<forall>h. bt_get refs h \<noteq> Some 0)"
  by (auto simp: hh_wf_def bt_get_in_set)

lemma refs_inc_laws:
  assumes "hh_wf refs" "Suc (refs_owners refs k) < 2 ^ 32"
  shows "hh_wf (refs_inc k refs) \<and> refs_owners (refs_inc k refs) = (refs_owners refs)(k := Suc (refs_owners refs k))"
proof -
  define c where "c = (case bt_get refs k of None \<Rightarrow> 1 | Some c \<Rightarrow> c)"
  have "unat c = refs_owners refs k" by (simp add: c_def refs_owners_def split: option.split)
  then have c1: "unat (c + 1) = Suc (refs_owners refs k)"
    using assms(2) by (simp add: unat_word_ariths)
  then have "c + 1 \<noteq> 0" by (metis nat.distinct(1) unat_0)
  then have "hh_wf (refs_inc k refs)"
    using assms(1) by (simp add: hh_wf_alt refs_inc_def c_def [symmetric])
  moreover have "refs_owners (refs_inc k refs) = (refs_owners refs)(k := Suc (refs_owners refs k))"
    by (simp add: fun_eq_iff refs_inc_def c_def [symmetric] c1 refs_owners_def [of "bt_insert _ _ _"])
      (simp add: refs_owners_def)
  ultimately show ?thesis ..
qed

lemma refs_dec_laws:
  assumes "hh_wf refs" "refs_dec k refs = (b, refs')"
  shows "hh_wf refs'" and "b \<longleftrightarrow> refs_owners refs k = 1"
    and "refs_owners refs' = (refs_owners refs)(k := if b then 1 else refs_owners refs k - 1)"
proof -
  have *: "bt_wf refs" and nz: "\<And>k. bt_get refs k \<noteq> Some 0"
    using assms(1) by (auto simp: hh_wf_alt)
  show "hh_wf refs'"
    using assms * nz by (auto simp: hh_wf_alt refs_dec_def Let_def split: option.splits if_splits)
  have sub: "unat (c - 1) = unat c - 1" if "c \<noteq> 0" for c :: u32
    using that by (metis unat_minus_one)
  show b: "b \<longleftrightarrow> refs_owners refs k = 1"
    using assms(2) by (auto simp: refs_dec_def refs_owners_def Let_def split: option.splits if_splits)
  show "refs_owners refs' = (refs_owners refs)(k := if b then 1 else refs_owners refs k - 1)"
    using assms(2) * nz [of k]
    by (auto simp: refs_dec_def refs_owners_def fun_eq_iff Let_def sub split: option.splits if_splits)
qed

lemma refs_owners_pos: "hh_wf refs \<Longrightarrow> 0 < refs_owners refs k"
  by (auto simp: refs_owners_def hh_wf_alt unat_gt_0 split: option.split)

interpretation map_refs: handle_refs hh_wf refs_owners refs_inc refs_dec "2 ^ 32"
  by unfold_locales ((rule refs_owners_pos refs_inc_laws [THEN conjunct1] refs_inc_laws [THEN conjunct2]
      refs_dec_laws), assumption+)+

end
