(* ===== verification/OfdTable.thy ===== *)
theory OfdTable
  imports Abi Slots Handle_Refs
begin

text \<open>
  Open file descriptions, from \<^verbatim>\<open>src/crates/kernel/src/ofd.rs\<close>: the per-process description table
  with its reference counts, the \<open>F_SETFL\<close> mask, and the global table that counts how many
  processes share a host file handle. Reference counts are \<open>u32\<close> and wrap.
\<close>

section \<open>Host handles shared across processes\<close>

definition host_handle_fork_ref :: "i64 \<Rightarrow> host_refs \<Rightarrow> host_refs" where
  "host_handle_fork_ref h refs =
    (let count = (case bt_get refs (sint h) of None \<Rightarrow> 1 | Some c \<Rightarrow> c)
     in bt_insert (sint h) (count + 1) refs)"

definition host_handle_close_ref :: "i64 \<Rightarrow> host_refs \<Rightarrow> bool \<times> host_refs" where
  "host_handle_close_ref h refs = (case bt_get refs (sint h) of
     Some count \<Rightarrow>
       (let count' = count - 1 in
        if count' = 0 then (True, bt_remove (sint h) refs)
        else (False, bt_insert (sint h) count' refs))
   | None \<Rightarrow> (True, refs))"

section \<open>Open file descriptions\<close>

datatype FileType =
    Regular | Directory | Pipe | CharDevice | Socket | EventFd | Epoll | TimerFd | SignalFd
  | MemFd | PtyMaster | PtySlave

record OpenFileDesc =
  ofd_file_type :: FileType
  ofd_status_flags :: u32
  ofd_host_handle :: i64
  ofd_offset :: i64
  ofd_ref_count :: u32
  ofd_owner_pid :: u32
  ofd_path :: bytes
  ofd_dir_host_handle :: i64
  ofd_dir_synth_state :: u8
  ofd_dir_entry_offset :: i64

abbreviation (input) SETFL_MODIFIABLE :: u32 where
  "SETFL_MODIFIABLE \<equiv> O_APPEND OR O_NONBLOCK"

type_synonym OfdTable = "OpenFileDesc slots"

definition ofdt_new :: OfdTable where
  "ofdt_new = []"

definition ofd_fresh :: "FileType \<Rightarrow> u32 \<Rightarrow> i64 \<Rightarrow> bytes \<Rightarrow> OpenFileDesc" where
  "ofd_fresh file_type status_flags host_handle path =
    \<lparr>ofd_file_type = file_type, ofd_status_flags = status_flags, ofd_host_handle = host_handle,
     ofd_offset = 0, ofd_ref_count = 1, ofd_owner_pid = 0, ofd_path = path,
     ofd_dir_host_handle = - 1, ofd_dir_synth_state = 0, ofd_dir_entry_offset = 0\<rparr>"

definition ofdt_create ::
    "FileType \<Rightarrow> u32 \<Rightarrow> i64 \<Rightarrow> bytes \<Rightarrow> OfdTable \<Rightarrow> nat \<times> OfdTable" where
  "ofdt_create file_type status_flags host_handle path t =
    slot_insert (ofd_fresh file_type status_flags host_handle path) t"

definition ofdt_get :: "OfdTable \<Rightarrow> nat \<Rightarrow> OpenFileDesc option" where
  "ofdt_get t idx = slot_get t idx"

definition ofdt_inc_ref :: "nat \<Rightarrow> OfdTable \<Rightarrow> OfdTable" where
  "ofdt_inc_ref idx t = slot_modify idx (\<lambda>d. d\<lparr>ofd_ref_count := ofd_ref_count d + 1\<rparr>) t"

definition ofdt_dec_ref :: "nat \<Rightarrow> OfdTable \<Rightarrow> bool \<times> OfdTable" where
  "ofdt_dec_ref idx t = (case slot_get t idx of
     Some ofd \<Rightarrow>
       (let ofd' = ofd\<lparr>ofd_ref_count := ofd_ref_count ofd - 1\<rparr> in
        if ofd_ref_count ofd' = 0 then (True, t[idx := None])
        else (False, t[idx := Some ofd']))
   | None \<Rightarrow> (False, t))"

definition ofdt_iter :: "OfdTable \<Rightarrow> (nat \<times> OpenFileDesc) list" where
  "ofdt_iter t = List.map_filter (\<lambda>(i, e). map_option (Pair i) e) (enumerate 0 t)"

definition ofdt_from_raw :: "OpenFileDesc slots \<Rightarrow> OfdTable" where
  "ofdt_from_raw entries = entries"

definition ofdt_set_status_flags :: "nat \<Rightarrow> u32 \<Rightarrow> OfdTable \<Rightarrow> OfdTable" where
  "ofdt_set_status_flags idx new_flags t = slot_modify idx
    (\<lambda>d. let preserved = ofd_status_flags d AND NOT SETFL_MODIFIABLE;
             updated = new_flags AND SETFL_MODIFIABLE
         in d\<lparr>ofd_status_flags := preserved OR updated\<rparr>) t"

section \<open>The number of processes that own a host handle\<close>

definition hh_owners :: "host_refs \<Rightarrow> i64 \<Rightarrow> nat" where
  "hh_owners refs h = refs_owners refs (sint h)"

lemma host_handle_refs:
  "host_handle_fork_ref h = refs_inc (sint h)" "host_handle_close_ref h = refs_dec (sint h)"
  by (simp_all add: fun_eq_iff host_handle_fork_ref_def host_handle_close_ref_def refs_inc_def refs_dec_def)

interpretation hh: handle_refs hh_wf hh_owners host_handle_fork_ref host_handle_close_ref "2 ^ 32"
proof unfold_locales
  fix refs refs' :: host_refs and h :: i64 and b :: bool
  assume wf: "hh_wf refs"
  then show "0 < hh_owners refs h" by (simp add: hh_owners_def refs_owners_pos)
  show "hh_wf (host_handle_fork_ref h refs)"
    "hh_owners (host_handle_fork_ref h refs) = (hh_owners refs)(h := Suc (hh_owners refs h))"
    if "Suc (hh_owners refs h) < 2 ^ 32"
    using refs_inc_laws [OF wf, of "sint h"] that
    by (simp_all add: hh_owners_def [abs_def] host_handle_refs fun_eq_iff)
  assume "host_handle_close_ref h refs = (b, refs')"
  then show "hh_wf refs'" "b \<longleftrightarrow> hh_owners refs h = 1"
    "hh_owners refs' = (hh_owners refs)(h := if b then 1 else hh_owners refs h - 1)"
    using refs_dec_laws [OF wf, of "sint h" b refs']
    by (simp_all add: hh_owners_def [abs_def] host_handle_refs fun_eq_iff)
qed

text \<open>
  A host handle is closed exactly when its last owner releases it. After a handle owned by
  \<open>k\<close> processes has been inherited by \<open>n\<close> more, the first \<open>n + k - 1\<close> releases keep the host
  handle open and the next one closes it; the ownership of every other handle is unchanged
  throughout and the handle is unshared again afterwards.
\<close>

theorem host_handle_closed_by_last_owner:
  assumes "hh_wf refs" and "hh_owners refs h + n < 2 ^ 32"
    and "refs1 = (host_handle_fork_ref h ^^ n) refs"
    and "close_n host_handle_close_ref (n + hh_owners refs h) h refs1 = (bs, refs2)"
  shows "bs = replicate (n + hh_owners refs h - 1) False @ [True] \<and>
    hh_owners refs2 = (hh_owners refs)(h := 1) \<and> hh_wf refs2"
  using assms by (rule hh.closed_by_last_owner)

theorem host_handle_closed_by_last_owner_witness:
  "hh_wf [] \<and> hh_owners [] 5 = 1 \<and>
   fst (close_n host_handle_close_ref 3 5 ((host_handle_fork_ref 5 ^^ 2) [])) = [False, False, True]"
proof -
  have *: "hh_wf []" "hh_owners [] 5 = 1" by (simp_all add: hh_wf_def hh_owners_def refs_owners_def)
  have "fst (close_n host_handle_close_ref (2 + hh_owners [] 5) 5 ((host_handle_fork_ref 5 ^^ 2) []))
      = replicate (2 + hh_owners [] 5 - 1) False @ [True]"
    using host_handle_closed_by_last_owner [of "[]" 5 2, OF _ _ refl prod.collapse [symmetric]] *
    by simp
  with * show ?thesis by (simp add: numeral_2_eq_2 numeral_3_eq_3)
qed

section \<open>Reference counts and status flags\<close>

interpretation ofdt: first_fit_table "\<lambda>_. True" ofdt_get
    "\<lambda>(ft, flags, h, p). ofdt_create ft flags h p" "\<lambda>(ft, flags, h, p) i. ofd_fresh ft flags h p"
  by unfold_locales
    (auto simp: ofdt_create_def ofdt_get_def slot_insert_lookup
      dest: slot_insert_fresh slot_insert_lowest)

lemma ofdt_create_get:
  "ofdt_create ft flags h p t = (i, t') \<Longrightarrow>
    ofdt_get t i = None \<and> ofdt_get t' = (ofdt_get t)(i \<mapsto> ofd_fresh ft flags h p)"
  using ofdt.alloc_fresh [of "(ft, flags, h, p)" t] ofdt.alloc_lookup [of "(ft, flags, h, p)" t]
  by simp

lemma ofdt_get_inc_ref:
  "ofdt_get (ofdt_inc_ref i t) j = (if i = j
     then map_option (\<lambda>d. d\<lparr>ofd_ref_count := ofd_ref_count d + 1\<rparr>) (ofdt_get t j)
     else ofdt_get t j)"
  by (simp add: ofdt_get_def ofdt_inc_ref_def slot_get_modify)

lemma ofdt_dec_ref_eq:
  "ofdt_dec_ref i t = (case ofdt_get t i of
     None \<Rightarrow> (False, t)
   | Some d \<Rightarrow> if ofd_ref_count d = 1 then (True, t[i := None])
       else (False, t[i := Some (d\<lparr>ofd_ref_count := ofd_ref_count d - 1\<rparr>)]))"
  by (simp add: ofdt_dec_ref_def ofdt_get_def Let_def split: option.split)

lemma ofdt_dec_ref_get:
  assumes "ofdt_get t i = Some d" "ofdt_dec_ref i t = (b, t')"
  shows "b \<longleftrightarrow> ofd_ref_count d = 1"
    and "ofdt_get t' = (ofdt_get t)(i := if ofd_ref_count d = 1 then None
           else Some (d\<lparr>ofd_ref_count := ofd_ref_count d - 1\<rparr>))"
proof -
  have "i < length t" using assms(1) by (auto simp: ofdt_get_def dest: slot_get_SomeD)
  then show "b \<longleftrightarrow> ofd_ref_count d = 1"
    and "ofdt_get t' = (ofdt_get t)(i := if ofd_ref_count d = 1 then None
           else Some (d\<lparr>ofd_ref_count := ofd_ref_count d - 1\<rparr>))"
    using assms by (auto simp: ofdt_dec_ref_eq ofdt_get_def fun_eq_iff split: if_splits)
qed

lemma setfl_mask_bit:
  "bit ((old AND NOT SETFL_MODIFIABLE) OR (new AND SETFL_MODIFIABLE)) n
    = (if n = 10 \<or> n = 11 then bit new n else bit (old :: u32) n)"
proof (cases "n < 32")
  case True
  define M :: u32 where "M = SETFL_MODIFIABLE"
  have "M = push_bit 10 1 OR push_bit 11 1"
    by (simp add: M_def push_bit_eq_mult)
  then have m: "bit M n \<longleftrightarrow> n = 10 \<or> n = 11"
    using True by (auto simp only: bit_or_iff bit_push_bit_iff) (auto simp: bit_1_iff)
  show ?thesis
    using True unfolding M_def [symmetric] by (auto simp: bit_or_iff bit_and_iff bit_not_iff m)
next
  case False
  then have "\<not> bit w n" for w :: u32 by (simp add: impossible_bit)
  then show ?thesis by auto
qed

text \<open>
  \<open>F_SETFL\<close> changes exactly the \<open>O_APPEND\<close> (bit 10) and \<open>O_NONBLOCK\<close> (bit 11) bits of the
  description it is applied to. Every other status bit, among them the access mode, every other
  field and every other description stay as they are.
\<close>

theorem ofdt_set_status_flags_exact:
  assumes "ofdt_get (ofdt_set_status_flags i new t) j = Some d'"
  shows "\<exists>d. ofdt_get t j = Some d \<and>
    (if i = j
     then d' = d\<lparr>ofd_status_flags := ofd_status_flags d'\<rparr> \<and>
          (\<forall>n. bit (ofd_status_flags d') n =
             (if n = 10 \<or> n = 11 then bit new n else bit (ofd_status_flags d) n))
     else d' = d)"
proof (cases "i = j")
  case True
  then show ?thesis
    using assms setfl_mask_bit
    by (auto simp: ofdt_get_def ofdt_set_status_flags_def slot_get_modify Let_def)
next
  case False
  then show ?thesis
    using assms by (simp add: ofdt_get_def ofdt_set_status_flags_def slot_get_modify)
qed

theorem ofdt_set_status_flags_exact_witness:
  "\<exists>d. ofdt_get (ofdt_set_status_flags 0 0xFFFFFFFF (snd (ofdt_create Regular 2 7 [] []))) 0 = Some d \<and>
     ofd_status_flags d = 0xC02 \<and> bit (ofd_status_flags d) 11"
proof -
  define d' where "d' = (ofd_fresh Regular 2 7 [])\<lparr>ofd_status_flags := 0xC02\<rparr>"
  have 1: "ofdt_get (ofdt_set_status_flags 0 0xFFFFFFFF (snd (ofdt_create Regular 2 7 [] []))) 0 = Some d'"
    by (simp add: d'_def ofdt_get_def ofdt_set_status_flags_def slot_modify_def ofdt_create_def
        slot_insert_def slot_get_def ofd_fresh_def)
  then show ?thesis
    using ofdt_set_status_flags_exact [OF 1] by (auto simp: d'_def)
qed

end
