(* ===== verification/PathNorm.thy ===== *)
theory PathNorm
  imports Prelude
begin

text \<open>
  Lexical path resolution, from \<^verbatim>\<open>src/crates/kernel/src/path.rs\<close>. Paths are byte strings; 47 is the
  separator and 46 the dot.
\<close>

section \<open>Resolution\<close>

text \<open>\<open>path.split(|&b| b == b'/')\<close>: one segment more than there are separators.\<close>

fun split_slash :: "bytes \<Rightarrow> bytes list" where
  "split_slash [] = [[]]"
| "split_slash (b # bs) =
    (if b = 47 then [] # split_slash bs
     else (case split_slash bs of [] \<Rightarrow> [[b]] | s # ss \<Rightarrow> (b # s) # ss))"

definition path_push :: "bytes list \<Rightarrow> bytes \<Rightarrow> bytes list" where
  "path_push components c =
    (if c = [] \<or> c = [46] then components
     else if c = [46, 46] then butlast components
     else components @ [c])"

definition path_join :: "bytes list \<Rightarrow> bytes" where
  "path_join components =
    (if components = [] then [47] else concat (map (\<lambda>c. 47 # c) components))"

definition path_components :: "bytes \<Rightarrow> bytes list" where
  "path_components p = foldl path_push [] (split_slash p)"

definition normalize_path :: "bytes \<Rightarrow> bytes" where
  "normalize_path path = path_join (path_components path)"

definition resolve_path :: "bytes \<Rightarrow> bytes \<Rightarrow> bytes" where
  "resolve_path path cwd =
    (if path \<noteq> [] \<and> hd path = 47 then normalize_path path
     else
       (let resolved = (if cwd \<noteq> [] \<and> last cwd = 47 then cwd else cwd @ [47])
        in normalize_path (resolved @ path)))"

section \<open>Normal paths\<close>

definition plain_component :: "bytes \<Rightarrow> bool" where
  "plain_component c \<longleftrightarrow> c \<noteq> [] \<and> c \<noteq> [46] \<and> c \<noteq> [46, 46] \<and> 47 \<notin> set c"

definition is_relative :: "bytes \<Rightarrow> bool" where
  "is_relative p \<longleftrightarrow> p = [] \<or> hd p \<noteq> 47"

lemma split_slash_not_Nil [simp]: "split_slash p \<noteq> []"
  by (induction p) (auto split: list.split)

lemma split_slash_append: "split_slash (a @ 47 # b) = split_slash a @ split_slash b"
  by (induction a) (auto split: list.split)

lemma split_slash_no_sep: "c \<in> set (split_slash p) \<Longrightarrow> 47 \<notin> set c"
proof (induction p arbitrary: c)
  case (Cons b bs)
  obtain s ss where s: "split_slash bs = s # ss" by (cases "split_slash bs") auto
  show ?case
    using Cons.prems Cons.IH [of s] Cons.IH [of c] by (auto simp: s split: if_splits)
qed simp

lemma split_slash_plain: "47 \<notin> set c \<Longrightarrow> split_slash c = [c]"
  by (induction c) auto

lemma split_slash_components:
  "\<forall>c\<in>set cs. 47 \<notin> set c \<Longrightarrow> cs \<noteq> [] \<Longrightarrow> split_slash (concat (map (\<lambda>c. 47 # c) cs)) = [] # cs"
proof (induction cs rule: rev_induct)
  case (snoc c cs)
  then show ?case
    by (cases "cs = []") (simp_all add: split_slash_append split_slash_plain)
qed simp

lemma path_push_plain:
  "47 \<notin> set c \<Longrightarrow> \<forall>d\<in>set cs. plain_component d \<Longrightarrow> \<forall>d\<in>set (path_push cs c). plain_component d"
  by (auto simp: path_push_def plain_component_def dest: in_set_butlastD)

lemma foldl_path_push_plain:
  "\<forall>c\<in>set ss. 47 \<notin> set c \<Longrightarrow> \<forall>d\<in>set cs. plain_component d \<Longrightarrow>
    \<forall>d\<in>set (foldl path_push cs ss). plain_component d"
proof (induction ss arbitrary: cs)
  case (Cons c ss)
  then show ?case using path_push_plain [of c cs] by simp
qed simp

lemma path_components_plain: "\<forall>c\<in>set (path_components p). plain_component c"
  unfolding path_components_def
  by (rule foldl_path_push_plain) (auto dest: split_slash_no_sep)

lemma foldl_path_push_id:
  "\<forall>c\<in>set ss. plain_component c \<Longrightarrow> foldl path_push cs ss = cs @ ss"
  by (induction ss arbitrary: cs) (auto simp: path_push_def plain_component_def)

lemma path_components_join:
  assumes "\<forall>c\<in>set cs. plain_component c"
  shows "path_components (path_join cs) = cs"
proof (cases "cs = []")
  case True
  then show ?thesis by (simp add: path_components_def path_join_def path_push_def)
next
  case False
  then have "split_slash (path_join cs) = [] # cs"
    using assms by (auto simp: path_join_def plain_component_def split_slash_components)
  then show ?thesis
    using assms by (simp add: path_components_def path_push_def foldl_path_push_id)
qed

lemma path_components_append:
  "path_components (a @ 47 # b) = foldl path_push (path_components a) (split_slash b)"
  by (simp add: path_components_def split_slash_append)

lemma resolve_path_relative:
  assumes "is_relative p"
  shows "resolve_path p cwd = path_join (foldl path_push (path_components cwd) (split_slash p))"
proof (cases "cwd \<noteq> [] \<and> last cwd = 47")
  case True
  define c where "c = butlast cwd"
  have cwd: "cwd = c @ [47]" using True by (metis append_butlast_last_id c_def)
  have "path_components cwd = path_components c"
    unfolding cwd path_components_append by (simp add: path_push_def)
  with True assms show ?thesis
    by (auto simp: resolve_path_def is_relative_def normalize_path_def cwd path_components_append)
next
  case False
  then have "resolve_path p cwd = normalize_path (cwd @ 47 # p)"
    using assms by (auto simp: resolve_path_def is_relative_def)
  then show ?thesis by (simp add: normalize_path_def path_components_append)
qed

lemma resolve_path_is_join: "\<exists>cs. (\<forall>c\<in>set cs. plain_component c) \<and> resolve_path p cwd = path_join cs"
  by (metis path_components_plain resolve_path_def normalize_path_def)

text \<open>
  C37: resolution always produces a normal absolute path: the root, or a sequence of components
  that are neither empty nor \<open>.\<close> nor \<open>..\<close> and contain no separator, each after one separator.
  Such a path is a fixed point of normalisation, so no path can escape the root.
\<close>

theorem resolve_path_normal:
  "(\<exists>cs. (\<forall>c\<in>set cs. plain_component c) \<and> resolve_path p cwd = path_join cs) \<and>
   normalize_path (resolve_path p cwd) = resolve_path p cwd"
  using resolve_path_is_join [of p cwd] by (auto simp: normalize_path_def path_components_join)

theorem resolve_path_normal_witness:
  "normalize_path (resolve_path [46, 46, 47, 97] [47, 98]) = resolve_path [46, 46, 47, 97] [47, 98]
   \<and> resolve_path [46, 46, 47, 97] [47, 98] = [47, 97]"
  using resolve_path_normal [of "[46, 46, 47, 97]" "[47, 98]"]
  by (simp add: resolve_path_def normalize_path_def path_components_def path_push_def path_join_def)

text \<open>
  Resolving a relative path in the directory another path resolves to is the same as
  resolving their concatenation, so \<open>chdir(a)\<close> followed by a use of \<open>b\<close> names the same file as
  \<open>a/b\<close>.
\<close>

theorem resolve_path_compose:
  assumes "a \<noteq> []" and "is_relative b"
  shows "resolve_path b (resolve_path a cwd) = resolve_path (a @ 47 # b) cwd"
proof -
  obtain cs where cs: "\<forall>c\<in>set cs. plain_component c" "resolve_path a cwd = path_join cs"
    using resolve_path_is_join by blast
  have lhs: "resolve_path b (resolve_path a cwd) = path_join (foldl path_push cs (split_slash b))"
    by (simp add: resolve_path_relative [OF assms(2)] cs path_components_join)
  have "cs = path_components (resolve_path a cwd)"
    using cs by (simp add: path_components_join)
  show ?thesis
  proof (cases "is_relative a")
    case True
    have "cs = foldl path_push (path_components cwd) (split_slash a)"
      using resolve_path_relative [OF True, of cwd] cs path_components_join
        foldl_path_push_plain [of "split_slash a" "path_components cwd"]
      by (metis path_components_plain split_slash_no_sep)
    moreover have "is_relative (a @ 47 # b)" using True assms(1) by (simp add: is_relative_def)
    ultimately show ?thesis
      unfolding lhs by (simp add: resolve_path_relative split_slash_append)
  next
    case False
    then have abs: "resolve_path a cwd = normalize_path a"
        "resolve_path (a @ 47 # b) cwd = normalize_path (a @ 47 # b)"
      by (auto simp: resolve_path_def is_relative_def)
    have "cs = path_components a"
      using cs abs(1) by (metis normalize_path_def path_components_join path_components_plain)
    then show ?thesis
      unfolding lhs abs(2) by (simp add: normalize_path_def path_components_append)
  qed
qed

theorem resolve_path_compose_witness:
  "is_relative [46, 46, 47, 98] \<and>
   resolve_path [46, 46, 47, 98] (resolve_path [97] [47]) = resolve_path [97, 47, 46, 46, 47, 98] [47]"
  using resolve_path_compose [of "[97]" "[46, 46, 47, 98]" "[47]"] by (simp add: is_relative_def)

end
