(* ===== verification/Wakeup.thy ===== *)
theory Wakeup
  imports Prelude
begin

text \<open>
  The wakeup event buffer, from \<^verbatim>\<open>src/crates/kernel/src/wakeup.rs\<close>. The state is the global event
  list together with the kernel mode flag of \<^verbatim>\<open>lib.rs\<close>, which \<open>push\<close> consults. \<open>drain\<close> returns the
  number of events written, the output buffer and the new state.
\<close>

section \<open>Events\<close>

abbreviation (input) WAKE_READABLE :: u8 where "WAKE_READABLE \<equiv> 1"
abbreviation (input) WAKE_WRITABLE :: u8 where "WAKE_WRITABLE \<equiv> 2"

record WakeupEvent =
  we_pipe_idx :: u32
  we_wake_type :: u8

record WakeupBuffer =
  wk_centralized :: bool
  wk_events :: "WakeupEvent list"

definition wakeup_push :: "u32 \<Rightarrow> u8 \<Rightarrow> WakeupBuffer \<Rightarrow> WakeupBuffer" where
  "wakeup_push pipe_idx wake_type wk =
    (if \<not> wk_centralized wk then wk
     else wk\<lparr>wk_events := wk_events wk @ [\<lparr>we_pipe_idx = pipe_idx, we_wake_type = wake_type\<rparr>]\<rparr>)"

definition wakeup_bytes :: "WakeupEvent \<Rightarrow> bytes" where
  "wakeup_bytes ev = to_le 4 (we_pipe_idx ev) @ [we_wake_type ev]"

fun wakeup_write :: "nat \<Rightarrow> WakeupEvent list \<Rightarrow> bytes \<Rightarrow> bytes" where
  "wakeup_write i [] out = out"
| "wakeup_write i (ev # evs) out = wakeup_write (i + 1) evs (copy_at (i * 5) (wakeup_bytes ev) out)"

definition wakeup_drain :: "bytes \<Rightarrow> u32 \<Rightarrow> WakeupBuffer \<Rightarrow> u32 \<times> bytes \<times> WakeupBuffer" where
  "wakeup_drain out max_events wk =
    (let events = wk_events wk;
         count = min (length events) (unat max_events);
         max_by_buf = length out div 5;
         count = min count max_by_buf
     in (word_of_nat count, wakeup_write 0 (take count events) out, wk\<lparr>wk_events := []\<rparr>))"

section \<open>What the host reads back\<close>

text \<open>The host's view of the buffer: \<open>n\<close> records of five bytes.\<close>

fun wakeup_decode :: "nat \<Rightarrow> bytes \<Rightarrow> WakeupEvent list" where
  "wakeup_decode 0 bs = []"
| "wakeup_decode (Suc n) bs =
    \<lparr>we_pipe_idx = from_le (take 4 bs), we_wake_type = bs ! 4\<rparr> # wakeup_decode n (drop 5 bs)"

lemma length_wakeup_bytes [simp]: "length (wakeup_bytes ev) = 5"
  by (simp add: wakeup_bytes_def)

lemma wakeup_write_eq:
  "5 * (i + length evs) \<le> length out \<Longrightarrow>
    wakeup_write i evs out = take (5 * i) out @ concat (map wakeup_bytes evs) @ drop (5 * (i + length evs)) out"
proof (induction evs arbitrary: i out)
  case (Cons ev evs)
  define out' where "out' = copy_at (i * 5) (wakeup_bytes ev) out"
  have len: "length out' = length out"
    using Cons.prems by (simp add: out'_def length_copy_at)
  have "take (5 * (i + 1)) out' = take (5 * i) out @ wakeup_bytes ev"
    using Cons.prems by (simp add: out'_def copy_at_def mult.commute [of i])
  moreover have "drop (5 * (i + 1 + length evs)) out' = drop (5 * (i + length (ev # evs))) out"
    using Cons.prems by (simp add: out'_def copy_at_def algebra_simps)
  ultimately show ?case
    using Cons.IH [of "i + 1" out'] Cons.prems len by (simp add: out'_def [symmetric])
qed simp

lemma wakeup_decode_encode:
  "wakeup_decode (length evs) (concat (map wakeup_bytes evs) @ rest) = evs"
proof (induction evs)
  case (Cons ev evs)
  have 4: "take 4 (wakeup_bytes ev) = to_le 4 (we_pipe_idx ev)" "wakeup_bytes ev ! 4 = we_wake_type ev"
    by (simp_all add: wakeup_bytes_def nth_append)
  show ?case using Cons 4 by (simp add: nth_append)
qed simp

text \<open>
  What \<open>drain\<close> writes, the host reads back: decoding the reported number of records gives the
  oldest pending events in order, as many as the buffer and the limit allow, and the bytes after
  them are untouched. Events that did not fit are not kept for the next call.
\<close>

theorem wakeup_drain_roundtrip:
  assumes "wakeup_drain out max_events wk = (n, out', wk')" and "events = wk_events wk"
    and "length events < 2 ^ 32"
  shows "unat n = min (min (length events) (unat max_events)) (length out div 5) \<and>
    wakeup_decode (unat n) out' = take (unat n) events \<and>
    length out' = length out \<and> drop (5 * unat n) out' = drop (5 * unat n) out \<and> wk_events wk' = []"
proof -
  define c where "c = min (min (length events) (unat max_events)) (length out div 5)"
  have c: "5 * (0 + length (take c events)) \<le> length out" "length (take c events) = c"
    by (auto simp: c_def)
  have n: "n = word_of_nat c" and e: "wk_events wk' = []"
      and w: "out' = wakeup_write 0 (take c events) out"
    using assms(1,2) by (auto simp: wakeup_drain_def Let_def c_def)
  have n_c: "unat n = c"
    using assms(3) by (simp add: n c_def unat_of_nat)
  have out': "out' = concat (map wakeup_bytes (take c events)) @ drop (5 * c) out"
    using wakeup_write_eq [OF c(1)] c(2) by (simp add: w)
  have "length (concat (map wakeup_bytes evs)) = 5 * length evs" for evs
    by (induction evs) simp_all
  then show ?thesis
    using wakeup_decode_encode [of "take c events"] c e
    by (simp add: c_def [symmetric] n_c) (simp add: out')
qed

theorem wakeup_drain_roundtrip_witness:
  "let evs = [\<lparr>we_pipe_idx = 258, we_wake_type = 1\<rparr>, \<lparr>we_pipe_idx = 7, we_wake_type = 2\<rparr>]
   in wakeup_drain (replicate 6 0) 9 \<lparr>wk_centralized = True, wk_events = evs\<rparr>
        = (1, [2, 1, 0, 0, 1, 0], \<lparr>wk_centralized = True, wk_events = []\<rparr>) \<and>
      wakeup_decode 1 [2, 1, 0, 0, 1, 0] = take 1 evs"
proof -
  let ?evs = "[\<lparr>we_pipe_idx = 258, we_wake_type = 1\<rparr>, \<lparr>we_pipe_idx = 7, we_wake_type = 2\<rparr>]"
  have run: "wakeup_drain (replicate 6 0) 9 \<lparr>wk_centralized = True, wk_events = ?evs\<rparr>
      = (1, [2, 1, 0, 0, 1, 0], \<lparr>wk_centralized = True, wk_events = []\<rparr>)"
    by code_simp
  show ?thesis
    using wakeup_drain_roundtrip [OF run refl] run by simp
qed

end
