(* ===== verification/PipeBuf.thy ===== *)
theory PipeBuf
  imports Slots Wakeup
begin

text \<open>
  Pipe buffers and the global pipe table, from \<^verbatim>\<open>src/crates/kernel/src/pipe.rs\<close>. A pipe is a ring
  buffer with reference-counted ends. Operations that push a wakeup event thread the wakeup
  buffer. A caller's destination slice is a byte list that is returned updated.
\<close>

section \<open>Data\<close>

abbreviation (input) DEFAULT_PIPE_CAPACITY :: nat where "DEFAULT_PIPE_CAPACITY \<equiv> 65536"
abbreviation (input) PIPE_BUF :: nat where "PIPE_BUF \<equiv> 4096"

record InFlightSocket =
  ifs_domain :: u8
  ifs_sock_type :: u8
  ifs_protocol :: u32
  ifs_state :: u8
  ifs_send_buf_idx :: "nat option"
  ifs_recv_buf_idx :: "nat option"
  ifs_global_pipes :: bool
  ifs_shut_rd :: bool
  ifs_shut_wr :: bool
  ifs_bind_addr :: bytes
  ifs_bind_port :: u16
  ifs_peer_addr :: bytes
  ifs_peer_port :: u16

record InFlightFd =
  iff_file_type :: u8
  iff_status_flags :: u32
  iff_host_handle :: i64
  iff_offset :: i64
  iff_path :: bytes
  iff_socket :: "InFlightSocket option"

record PipeBuffer =
  pb_buf :: bytes
  pb_head :: nat
  pb_tail :: nat
  pb_len :: nat
  pb_read_count :: u32
  pb_write_count :: u32
  pb_pipe_idx :: u32
  pb_ancillary_fds :: "InFlightFd list list"

section \<open>Pipe buffer operations\<close>

definition pb_new :: "nat \<Rightarrow> PipeBuffer" where
  "pb_new capacity = \<lparr>pb_buf = replicate capacity 0, pb_head = 0, pb_tail = 0, pb_len = 0,
     pb_read_count = 1, pb_write_count = 1, pb_pipe_idx = 0, pb_ancillary_fds = []\<rparr>"

definition pb_capacity :: "PipeBuffer \<Rightarrow> nat" where
  "pb_capacity p = length (pb_buf p)"

definition pb_available :: "PipeBuffer \<Rightarrow> nat" where
  "pb_available p = pb_len p"

definition pb_free_space :: "PipeBuffer \<Rightarrow> nat" where
  "pb_free_space p = pb_capacity p - pb_len p"

definition pb_is_empty :: "PipeBuffer \<Rightarrow> bool" where
  "pb_is_empty p \<longleftrightarrow> pb_len p = 0"

definition pb_write :: "bytes \<Rightarrow> PipeBuffer \<Rightarrow> WakeupBuffer \<Rightarrow> nat \<times> PipeBuffer \<times> WakeupBuffer" where
  "pb_write data p wk =
    (let cap = pb_capacity p; n = min (length data) (pb_free_space p) in
     if n = 0 then (0, p, wk)
     else
       (let first = cap - pb_tail p;
            buf' = (if n \<le> first then copy_at (pb_tail p) (take n data) (pb_buf p)
                    else copy_at 0 (slice first n data)
                           (copy_at (pb_tail p) (take first data) (pb_buf p)))
        in (n, p\<lparr>pb_buf := buf', pb_tail := (pb_tail p + n) mod cap, pb_len := pb_len p + n\<rparr>,
            wakeup_push (pb_pipe_idx p) WAKE_READABLE wk)))"

text \<open>The two-part copy out of the ring that \<open>peek\<close> and \<open>read\<close> both spell out.\<close>

definition pb_copy_out :: "PipeBuffer \<Rightarrow> nat \<Rightarrow> bytes \<Rightarrow> bytes" where
  "pb_copy_out p n buf =
    (let first = pb_capacity p - pb_head p in
     if n \<le> first then copy_at 0 (slice (pb_head p) (pb_head p + n) (pb_buf p)) buf
     else copy_at first (slice 0 (n - first) (pb_buf p))
            (copy_at 0 (slice (pb_head p) (pb_head p + first) (pb_buf p)) buf))"

definition pb_peek :: "bytes \<Rightarrow> PipeBuffer \<Rightarrow> nat \<times> bytes" where
  "pb_peek buf p =
    (let n = min (length buf) (pb_len p) in
     if n = 0 then (0, buf) else (n, pb_copy_out p n buf))"

definition pb_read ::
    "bytes \<Rightarrow> PipeBuffer \<Rightarrow> WakeupBuffer \<Rightarrow> nat \<times> bytes \<times> PipeBuffer \<times> WakeupBuffer" where
  "pb_read buf p wk =
    (let cap = pb_capacity p; n = min (length buf) (pb_len p) in
     if n = 0 then (0, buf, p, wk)
     else (n, pb_copy_out p n buf,
           p\<lparr>pb_head := (pb_head p + n) mod cap, pb_len := pb_len p - n\<rparr>,
           wakeup_push (pb_pipe_idx p) WAKE_WRITABLE wk))"

definition pb_close_read_end :: "PipeBuffer \<Rightarrow> WakeupBuffer \<Rightarrow> PipeBuffer \<times> WakeupBuffer" where
  "pb_close_read_end p wk =
    (p\<lparr>pb_read_count := saturating_sub (pb_read_count p) 1\<rparr>,
     wakeup_push (pb_pipe_idx p) WAKE_WRITABLE wk)"

definition pb_close_write_end :: "PipeBuffer \<Rightarrow> WakeupBuffer \<Rightarrow> PipeBuffer \<times> WakeupBuffer" where
  "pb_close_write_end p wk =
    (p\<lparr>pb_write_count := saturating_sub (pb_write_count p) 1\<rparr>,
     wakeup_push (pb_pipe_idx p) WAKE_READABLE wk)"

definition pb_add_reader :: "PipeBuffer \<Rightarrow> PipeBuffer" where
  "pb_add_reader p = p\<lparr>pb_read_count := pb_read_count p + 1\<rparr>"

definition pb_add_writer :: "PipeBuffer \<Rightarrow> PipeBuffer" where
  "pb_add_writer p = p\<lparr>pb_write_count := pb_write_count p + 1\<rparr>"

definition pb_is_read_end_open :: "PipeBuffer \<Rightarrow> bool" where
  "pb_is_read_end_open p \<longleftrightarrow> pb_read_count p > 0"

definition pb_is_write_end_open :: "PipeBuffer \<Rightarrow> bool" where
  "pb_is_write_end_open p \<longleftrightarrow> pb_write_count p > 0"

definition pb_is_fully_closed :: "PipeBuffer \<Rightarrow> bool" where
  "pb_is_fully_closed p \<longleftrightarrow> pb_read_count p = 0 \<and> pb_write_count p = 0"

definition pb_push_ancillary :: "InFlightFd list \<Rightarrow> PipeBuffer \<Rightarrow> PipeBuffer" where
  "pb_push_ancillary fds p =
    (if fds \<noteq> [] then p\<lparr>pb_ancillary_fds := pb_ancillary_fds p @ [fds]\<rparr> else p)"

definition pb_pop_ancillary :: "PipeBuffer \<Rightarrow> InFlightFd list option \<times> PipeBuffer" where
  "pb_pop_ancillary p = (case pb_ancillary_fds p of
     [] \<Rightarrow> (None, p)
   | fds # rest \<Rightarrow> (Some fds, p\<lparr>pb_ancillary_fds := rest\<rparr>))"

definition pb_has_ancillary :: "PipeBuffer \<Rightarrow> bool" where
  "pb_has_ancillary p \<longleftrightarrow> pb_ancillary_fds p \<noteq> []"

section \<open>The pipe table\<close>

record PipeTable =
  pt_pipes :: "PipeBuffer slots"
  pt_free_list :: "nat list"

definition pt_new :: PipeTable where
  "pt_new = \<lparr>pt_pipes = [], pt_free_list = []\<rparr>"

definition pb_at :: "PipeBuffer \<Rightarrow> nat \<Rightarrow> PipeBuffer" where
  "pb_at p i = p\<lparr>pb_pipe_idx := word_of_nat i\<rparr>"

definition pt_alloc :: "PipeBuffer \<Rightarrow> PipeTable \<Rightarrow> nat \<times> PipeTable" where
  "pt_alloc pipe t =
    (if pt_free_list t \<noteq> [] then
       (let i = last (pt_free_list t) in
        (i, t\<lparr>pt_pipes := (pt_pipes t)[i := Some (pb_at pipe i)],
              pt_free_list := butlast (pt_free_list t)\<rparr>))
     else
       (let i = length (pt_pipes t) in
        (i, t\<lparr>pt_pipes := pt_pipes t @ [Some (pb_at pipe i)]\<rparr>)))"

text \<open>The scan of \<open>sorted.windows(2)\<close> for the first window of two adjacent indices.\<close>

fun first_adjacent :: "nat list \<Rightarrow> (nat \<times> nat) option" where
  "first_adjacent (a # b # xs) = (if b = a + 1 then Some (a, b) else first_adjacent (b # xs))"
| "first_adjacent xs = None"

definition pt_alloc_pair ::
    "PipeBuffer \<Rightarrow> PipeBuffer \<Rightarrow> PipeTable \<Rightarrow> (nat \<times> nat) \<times> PipeTable" where
  "pt_alloc_pair first second t =
    (case (if length (pt_free_list t) \<ge> 2 then first_adjacent (sort (pt_free_list t)) else None) of
       Some (a, b) \<Rightarrow>
         ((a, b), t\<lparr>pt_free_list := filter (\<lambda>x. x \<noteq> a \<and> x \<noteq> b) (pt_free_list t),
                    pt_pipes := (pt_pipes t)[a := Some (pb_at first a), b := Some (pb_at second b)]\<rparr>)
     | None \<Rightarrow>
         (let a = length (pt_pipes t); b = a + 1 in
          ((a, b), t\<lparr>pt_pipes := pt_pipes t @ [Some (pb_at first a), Some (pb_at second b)]\<rparr>)))"

definition pt_get :: "PipeTable \<Rightarrow> nat \<Rightarrow> PipeBuffer option" where
  "pt_get t idx = slot_get (pt_pipes t) idx"

definition pt_get_mut :: "nat \<Rightarrow> (PipeBuffer \<Rightarrow> PipeBuffer) \<Rightarrow> PipeTable \<Rightarrow> PipeTable" where
  "pt_get_mut idx f t = t\<lparr>pt_pipes := slot_modify idx f (pt_pipes t)\<rparr>"

definition pt_free_if_closed :: "nat \<Rightarrow> PipeTable \<Rightarrow> PipeTable" where
  "pt_free_if_closed idx t = (case slot_get (pt_pipes t) idx of
     Some pipe \<Rightarrow>
       (if pb_is_fully_closed pipe
        then t\<lparr>pt_pipes := (pt_pipes t)[idx := None], pt_free_list := pt_free_list t @ [idx]\<rparr>
        else t)
   | None \<Rightarrow> t)"

section \<open>The byte queue a pipe stands for\<close>

definition pb_wf :: "PipeBuffer \<Rightarrow> bool" where
  "pb_wf p \<longleftrightarrow> pb_len p \<le> pb_capacity p \<and>
    (if pb_capacity p = 0 then pb_head p = 0 \<and> pb_tail p = 0
     else pb_head p < pb_capacity p \<and> pb_tail p = (pb_head p + pb_len p) mod pb_capacity p)"

definition pb_contents :: "PipeBuffer \<Rightarrow> bytes" where
  "pb_contents p = map (\<lambda>i. pb_buf p ! ((pb_head p + i) mod pb_capacity p)) [0..<pb_len p]"

lemma length_pb_contents [simp]: "length (pb_contents p) = pb_len p"
  by (simp add: pb_contents_def)

lemma mod_wrap: "a < 2 * c \<Longrightarrow> a mod c = (if a < c then a else a - c)" for a c :: nat
  by (simp add: mod_if [of a c])

lemma pb_new_wf [simp]: "pb_wf (pb_new c)" "pb_contents (pb_new c) = []"
  by (simp_all add: pb_wf_def pb_new_def pb_capacity_def pb_contents_def)

text \<open>Where a byte lands: index \<open>k\<close> of the ring holds byte number \<open>k - tail\<close>, counted around.\<close>

lemma ring_write_nth:
  fixes tail n cap :: nat
  assumes "length buf = cap" "tail < cap" "n \<le> cap" "n \<le> length data" "k < cap"
    and "buf' = (if n \<le> cap - tail then copy_at tail (take n data) buf
                 else copy_at 0 (slice (cap - tail) n data) (copy_at tail (take (cap - tail) data) buf))"
  defines "j \<equiv> if tail \<le> k then k - tail else k + cap - tail"
  shows "buf' ! k = (if j < n then data ! j else buf ! k)"
proof (cases "n \<le> cap - tail")
  case True
  then have "buf' ! k = (if tail \<le> k \<and> k < tail + n then take n data ! (k - tail) else buf ! k)"
    using assms by (simp add: nth_copy_at)
  then show ?thesis using True assms(2,3,5) by (auto simp: j_def)
next
  case False
  define b1 where "b1 = copy_at tail (take (cap - tail) data) buf"
  have len: "length b1 = cap" using assms(1-4) False by (simp add: b1_def length_copy_at)
  have b1: "b1 ! k = (if tail \<le> k then data ! (k - tail) else buf ! k)"
    using assms(1-5) False by (simp add: b1_def nth_copy_at)
  have "buf' ! k = (if k < n - (cap - tail) then slice (cap - tail) n data ! k else b1 ! k)"
    using assms(3,4,5,6) False len by (simp add: b1_def [symmetric] nth_copy_at length_slice)
  moreover have "slice (cap - tail) n data ! k = data ! (cap - tail + k)" if "k < n - (cap - tail)"
    using that assms(4) by (simp add: nth_slice)
  ultimately show ?thesis
    using b1 False assms(2,3,5) by (auto simp: j_def algebra_simps)
qed

lemma length_ring_write:
  fixes tail n cap :: nat
  assumes "length buf = cap" "tail < cap" "n \<le> cap" "n \<le> length data"
  shows "length (if n \<le> cap - tail then copy_at tail (take n data) buf
     else copy_at 0 (slice (cap - tail) n data) (copy_at tail (take (cap - tail) data) buf)) = cap"
  using assms by (simp add: length_copy_at length_slice)

lemma pb_write_fifo:
  assumes wf: "pb_wf p" and run: "pb_write data p wk = (n, p', wk')"
  shows "n = min (length data) (pb_free_space p)" and "pb_wf p'"
    and "pb_contents p' = pb_contents p @ take n data" and "pb_capacity p' = pb_capacity p"
proof -
  define cap where "cap = pb_capacity p"
  show n: "n = min (length data) (pb_free_space p)"
    using run by (auto simp: pb_write_def Let_def split: if_splits)
  have "pb_wf p' \<and> pb_contents p' = pb_contents p @ take n data \<and> pb_capacity p' = pb_capacity p"
  proof (cases "n = 0")
    case True
    then show ?thesis using run n wf by (auto simp: pb_write_def Let_def split: if_splits)
  next
    case False
    define buf' where "buf' = (if n \<le> cap - pb_tail p then copy_at (pb_tail p) (take n data) (pb_buf p)
       else copy_at 0 (slice (cap - pb_tail p) n data)
              (copy_at (pb_tail p) (take (cap - pb_tail p) data) (pb_buf p)))"
    have p': "p' = p\<lparr>pb_buf := buf', pb_tail := (pb_tail p + n) mod cap, pb_len := pb_len p + n\<rparr>"
      using run n False by (auto simp: pb_write_def Let_def cap_def buf'_def split: if_splits)
    have b: "length (pb_buf p) = cap" "pb_head p < cap" "pb_len p + n \<le> cap" "n \<le> length data"
        and tail: "pb_tail p = (pb_head p + pb_len p) mod cap"
      using wf n False
      by (auto simp: pb_wf_def pb_free_space_def cap_def pb_capacity_def split: if_splits)
    then have tl: "pb_tail p < cap"
      by (metis mod_less_divisor gr_implies_not0 neq0_conv)
    have len': "length buf' = cap"
      using length_ring_write [OF b(1) tl _ b(4)] b(3) by (simp add: buf'_def)
    have nth': "buf' ! k = (let j = if pb_tail p \<le> k then k - pb_tail p else k + cap - pb_tail p
        in if j < n then data ! j else pb_buf p ! k)" if "k < cap" for k
      using ring_write_nth [OF b(1) tl _ b(4) that buf'_def] b(3) by (simp add: Let_def)
    have "pb_contents p' ! i = (pb_contents p @ take n data) ! i" if i: "i < pb_len p + n" for i
    proof -
      have w: "(pb_head p + i) mod cap = (if pb_head p + i < cap then pb_head p + i else pb_head p + i - cap)"
          "pb_tail p = (if pb_head p + pb_len p < cap then pb_head p + pb_len p
             else pb_head p + pb_len p - cap)"
        using b(2,3) i by (auto simp: mod_wrap tail)
      have "pb_contents p' ! i = buf' ! ((pb_head p + i) mod cap)"
        using i by (simp add: p' pb_contents_def pb_capacity_def len')
      also have "\<dots> = (if i < pb_len p then pb_buf p ! ((pb_head p + i) mod cap)
          else data ! (i - pb_len p))"
        using b(2,3) i by (subst nth') (auto simp: w Let_def split: if_splits)
      also have "\<dots> = (pb_contents p @ take n data) ! i"
        using i by (auto simp: nth_append pb_contents_def cap_def)
      finally show ?thesis .
    qed
    then have "pb_contents p' = pb_contents p @ take n data"
      using b(4) by (intro nth_equalityI) (simp_all add: p')
    moreover have "pb_wf p'"
      using wf b len' by (auto simp: pb_wf_def p' pb_capacity_def cap_def [symmetric] tail mod_add_left_eq
          add.assoc)
    ultimately show ?thesis by (simp add: p' pb_capacity_def len' b(1))
  qed
  then show "pb_wf p'" "pb_contents p' = pb_contents p @ take n data" "pb_capacity p' = pb_capacity p"
    by simp_all
qed

lemma pb_copy_out_eq:
  assumes "pb_wf p" "n \<le> pb_len p" "n \<le> length buf" "n \<noteq> 0"
  shows "pb_copy_out p n buf = take n (pb_contents p) @ drop n buf"
proof -
  define cap where "cap = pb_capacity p"
  have b: "length (pb_buf p) = cap" "pb_head p < cap" "n \<le> cap"
    using assms by (auto simp: pb_wf_def cap_def pb_capacity_def split: if_splits)
  define first where "first = cap - pb_head p"
  have ring: "take n (pb_contents p) = (if n \<le> first then slice (pb_head p) (pb_head p + n) (pb_buf p)
      else slice (pb_head p) cap (pb_buf p) @ slice 0 (n - first) (pb_buf p))"
  proof (rule nth_equalityI)
    fix i assume "i < length (take n (pb_contents p))"
    then have i: "i < n" by simp
    then have "take n (pb_contents p) ! i = pb_buf p ! ((pb_head p + i) mod cap)"
      using assms(2) by (simp add: pb_contents_def cap_def)
    moreover have "(pb_head p + i) mod cap = (if i < first then pb_head p + i else i - first)"
      using b i by (auto simp: mod_wrap first_def)
    ultimately show "take n (pb_contents p) ! i = (if n \<le> first
        then slice (pb_head p) (pb_head p + n) (pb_buf p)
        else slice (pb_head p) cap (pb_buf p) @ slice 0 (n - first) (pb_buf p)) ! i"
      using b i by (auto simp: nth_append nth_slice length_slice first_def)
  qed (use assms(2) b in \<open>auto simp: length_slice first_def\<close>)
  show ?thesis
    using assms(3) b unfolding ring
    by (auto simp: pb_copy_out_def Let_def cap_def [symmetric] first_def [symmetric] copy_at_def length_slice)
      (auto simp: first_def length_slice)
qed

lemma pb_read_fifo:
  assumes wf: "pb_wf p" and run: "pb_read buf p wk = (n, buf', p', wk')"
  shows "n = min (length buf) (pb_len p)" and "pb_wf p'"
    and "buf' = take n (pb_contents p) @ drop n buf"
    and "pb_contents p' = drop n (pb_contents p)" and "pb_capacity p' = pb_capacity p"
proof -
  define cap where "cap = pb_capacity p"
  show n: "n = min (length buf) (pb_len p)"
    using run by (auto simp: pb_read_def Let_def split: if_splits)
  show "buf' = take n (pb_contents p) @ drop n buf"
    using run n pb_copy_out_eq [OF wf, of n buf] by (auto simp: pb_read_def Let_def split: if_splits)
  have "pb_wf p' \<and> pb_contents p' = drop n (pb_contents p) \<and> pb_capacity p' = pb_capacity p"
  proof (cases "n = 0")
    case True
    then show ?thesis using run n wf by (auto simp: pb_read_def Let_def split: if_splits)
  next
    case False
    have p': "p' = p\<lparr>pb_head := (pb_head p + n) mod cap, pb_len := pb_len p - n\<rparr>"
      using run n False by (auto simp: pb_read_def Let_def cap_def split: if_splits)
    have b: "pb_head p < cap" "pb_len p \<le> cap" "n \<le> pb_len p"
        and tail: "pb_tail p = (pb_head p + pb_len p) mod cap"
      using wf n False by (auto simp: pb_wf_def cap_def split: if_splits)
    have m: "((pb_head p + n) mod cap + i) mod cap = (pb_head p + (n + i)) mod cap" for i
      by (simp add: mod_add_left_eq add.assoc)
    then have "pb_contents p' = drop n (pb_contents p)"
      by (intro nth_equalityI)
        (auto simp: pb_contents_def p' pb_capacity_def cap_def less_diff_conv add.commute [of n])
    moreover have "pb_wf p'"
      using b m [of "pb_len p - n"] by (auto simp: pb_wf_def p' pb_capacity_def cap_def tail)
    ultimately show ?thesis by (simp add: p' pb_capacity_def)
  qed
  then show "pb_wf p'" "pb_contents p' = drop n (pb_contents p)" "pb_capacity p' = pb_capacity p"
    by simp_all
qed

text \<open>
  C12: the ring buffer implements a bounded byte queue, across the wrap-around of head and tail. A
  write appends the longest prefix of the data that fits and reports its length; a read moves the
  longest prefix of the queue that fits into the buffer, leaves the rest of the buffer alone and
  removes exactly those bytes; a peek delivers the same bytes and removes nothing.
\<close>

theorem pipe_refines_queue:
  assumes "pb_wf p"
  shows "(case pb_write data p wk of (n, p', wk') \<Rightarrow>
           n = min (length data) (pb_capacity p - length (pb_contents p)) \<and> pb_wf p' \<and>
           pb_capacity p' = pb_capacity p \<and> pb_contents p' = pb_contents p @ take n data) \<and>
         (case pb_read buf p wk of (n, buf', p', wk') \<Rightarrow>
           n = min (length buf) (length (pb_contents p)) \<and> pb_wf p' \<and>
           pb_capacity p' = pb_capacity p \<and>
           buf' = take n (pb_contents p) @ drop n buf \<and> pb_contents p' = drop n (pb_contents p) \<and>
           pb_peek buf p = (n, buf'))"
proof (intro conjI)
  show "case pb_write data p wk of (n, p', wk') \<Rightarrow>
      n = min (length data) (pb_capacity p - length (pb_contents p)) \<and> pb_wf p' \<and>
      pb_capacity p' = pb_capacity p \<and> pb_contents p' = pb_contents p @ take n data"
    using pb_write_fifo [OF assms] by (cases "pb_write data p wk") (auto simp: pb_free_space_def)
  have "pb_peek buf p = (fst (pb_read buf p wk), fst (snd (pb_read buf p wk)))"
    by (auto simp: pb_peek_def pb_read_def Let_def min_def)
  then show "case pb_read buf p wk of (n, buf', p', wk') \<Rightarrow>
      n = min (length buf) (length (pb_contents p)) \<and> pb_wf p' \<and> pb_capacity p' = pb_capacity p \<and>
      buf' = take n (pb_contents p) @ drop n buf \<and> pb_contents p' = drop n (pb_contents p) \<and>
      pb_peek buf p = (n, buf')"
    using pb_read_fifo [OF assms, of buf wk] by (cases "pb_read buf p wk") auto
qed

definition demo_pipe :: PipeBuffer where
  "demo_pipe = (pb_new 4)\<lparr>pb_buf := [5, 0, 3, 4], pb_head := 2, pb_tail := 1, pb_len := 3\<rparr>"

lemma demo_pipe_wf: "pb_wf demo_pipe" and demo_pipe_contents: "pb_contents demo_pipe = [3, 4, 5]"
  by (simp_all add: demo_pipe_def pb_wf_def pb_contents_def pb_capacity_def pb_new_def upt_rec)

theorem pipe_refines_queue_witness:
  "pb_wf demo_pipe \<and> pb_contents demo_pipe = [3, 4, 5] \<and>
   fst (pb_write [6, 7] demo_pipe \<lparr>wk_centralized = True, wk_events = []\<rparr>) = 1 \<and>
   fst (snd (pb_read [0, 0, 0, 0] demo_pipe \<lparr>wk_centralized = True, wk_events = []\<rparr>)) = [3, 4, 5, 0]"
proof -
  have "pb_capacity demo_pipe = 4" by (simp add: demo_pipe_def pb_capacity_def)
  with pipe_refines_queue [OF demo_pipe_wf, of "[6, 7]" "\<lparr>wk_centralized = True, wk_events = []\<rparr>"
      "[0, 0, 0, 0]"] demo_pipe_contents demo_pipe_wf
  show ?thesis by (auto split: prod.splits)
qed

section \<open>Sequences of reads and writes\<close>

datatype pipe_op = PWrite bytes | PRead bytes

text \<open>Runs a sequence and collects the bytes accepted by writes and those delivered by reads.\<close>

fun pb_run :: "pipe_op list \<Rightarrow> PipeBuffer \<Rightarrow> WakeupBuffer \<Rightarrow> bytes \<times> bytes \<times> PipeBuffer \<times> WakeupBuffer" where
  "pb_run [] p wk = ([], [], p, wk)"
| "pb_run (PWrite data # ops) p wk =
    (let (n, p1, wk1) = pb_write data p wk; (acc, del, p2, wk2) = pb_run ops p1 wk1
     in (take n data @ acc, del, p2, wk2))"
| "pb_run (PRead buf # ops) p wk =
    (let (n, buf', p1, wk1) = pb_read buf p wk; (acc, del, p2, wk2) = pb_run ops p1 wk1
     in (acc, take n buf' @ del, p2, wk2))"

lemma pb_run_fifo:
  "pb_wf p \<Longrightarrow> pb_run ops p wk = (acc, del, p', wk') \<Longrightarrow>
    pb_wf p' \<and> pb_contents p @ acc = del @ pb_contents p'"
proof (induction ops p wk arbitrary: acc del rule: pb_run.induct)
  case (1 p wk)
  then show ?case by simp
next
  case (2 data ops p wk)
  obtain n p1 wk1 where w: "pb_write data p wk = (n, p1, wk1)" by (cases "pb_write data p wk")
  obtain a d p2 wk2 where r: "pb_run ops p1 wk1 = (a, d, p2, wk2)" by (cases "pb_run ops p1 wk1")
  note f = pb_write_fifo [OF 2(2) w]
  show ?case
    using 2(1) [OF w [symmetric] refl refl f(2), of a d] 2(3) f(3) w r by auto
next
  case (3 buf ops p wk)
  obtain n buf' p1 wk1 where w: "pb_read buf p wk = (n, buf', p1, wk1)" by (cases "pb_read buf p wk")
  obtain a d p2 wk2 where r: "pb_run ops p1 wk1 = (a, d, p2, wk2)" by (cases "pb_run ops p1 wk1")
  note f = pb_read_fifo [OF 3(2) w]
  have "take n buf' = take n (pb_contents p)" using f(1,3) by simp
  then have "pb_contents p = take n buf' @ pb_contents p1" by (simp add: f(4))
  then show ?case
    using 3(1) [OF w [symmetric] refl refl refl f(2), of a d] 3(3) w r by auto
qed

text \<open>
  Over any interleaving of reads and writes a pipe neither loses, duplicates nor reorders
  bytes: what was queued at the start followed by everything the writes accepted is what the
  reads delivered, in order, followed by what is still queued.
\<close>

theorem pipe_trace_fifo:
  assumes "pb_wf p" and "pb_run ops p wk = (accepted, delivered, p', wk')"
  shows "pb_contents p @ accepted = delivered @ pb_contents p' \<and> pb_wf p'"
  using pb_run_fifo [OF assms] by simp

theorem pipe_trace_fifo_witness:
  "\<exists>p' wk'. pb_run [PWrite [6, 7], PRead [0, 0], PWrite [8]] demo_pipe \<lparr>wk_centralized = False, wk_events = []\<rparr>
     = ([6, 8], [3, 4], p', wk') \<and> pb_contents p' = [5, 6, 8]"
proof -
  let ?r = "pb_run [PWrite [6, 7], PRead [0, 0], PWrite [8]] demo_pipe \<lparr>wk_centralized = False, wk_events = []\<rparr>"
  obtain a d p' wk' where r: "?r = (a, d, p', wk')" by (cases ?r)
  have "a = [6, 8] \<and> d = [3, 4]"
    using r by (auto simp: demo_pipe_def pb_new_def pb_write_def pb_read_def pb_copy_out_def pb_capacity_def
        pb_free_space_def copy_at_def slice_def wakeup_push_def)
  moreover have "pb_contents demo_pipe @ a = d @ pb_contents p'"
    using pipe_trace_fifo [OF demo_pipe_wf r] by simp
  ultimately show ?thesis using r demo_pipe_contents by simp
qed

section \<open>The table of live pipes\<close>

text \<open>The free list holds every empty slot exactly once.\<close>

definition pt_wf :: "PipeTable \<Rightarrow> bool" where
  "pt_wf t \<longleftrightarrow> distinct (pt_free_list t) \<and>
    (\<forall>i. i \<in> set (pt_free_list t) \<longleftrightarrow> i < length (pt_pipes t) \<and> slot_get (pt_pipes t) i = None)"

lemma pt_new_wf [simp]: "pt_wf pt_new"
  by (simp add: pt_wf_def pt_new_def)

lemma pt_free_listD:
  "pt_wf t \<Longrightarrow> i \<in> set (pt_free_list t) \<Longrightarrow> i < length (pt_pipes t) \<and> pt_get t i = None"
  by (simp add: pt_wf_def pt_get_def)

lemma pt_alloc_cases:
  assumes "pt_wf t" "pt_alloc p t = (i, t')"
  obtains (reuse) fl where "pt_free_list t = fl @ [i]" "i < length (pt_pipes t)" "pt_get t i = None"
      "t' = t\<lparr>pt_pipes := (pt_pipes t)[i := Some (pb_at p i)], pt_free_list := fl\<rparr>"
  | (append) "pt_free_list t = []" "i = length (pt_pipes t)"
      "t' = t\<lparr>pt_pipes := pt_pipes t @ [Some (pb_at p i)]\<rparr>"
proof (cases "pt_free_list t" rule: rev_cases)
  case Nil
  then show ?thesis using assms(2) by (intro append) (auto simp: pt_alloc_def Let_def)
next
  case (snoc fl k)
  then show ?thesis
    using assms(2) pt_free_listD [OF assms(1), of k]
    by (intro reuse) (auto simp: pt_alloc_def Let_def)
qed

lemma pt_alloc_wf:
  assumes "pt_wf t" "pt_alloc p t = (i, t')"
  shows "pt_wf t'"
  using assms(1,2)
proof (cases rule: pt_alloc_cases)
  case (reuse fl)
  have "distinct (fl @ [i])" and mem: "\<And>k. k \<in> set (fl @ [i]) \<longleftrightarrow>
      k < length (pt_pipes t) \<and> slot_get (pt_pipes t) k = None"
    using assms(1) unfolding pt_wf_def reuse(1) by blast+
  moreover have "k \<in> set fl \<longleftrightarrow> k \<in> set (fl @ [i]) \<and> k \<noteq> i" for k
    using \<open>distinct _\<close> by auto
  ultimately show ?thesis
    unfolding pt_wf_def reuse(4) by (auto simp del: set_append)
next
  case append
  then show ?thesis using assms(1) by (auto simp: pt_wf_def slot_get_beyond)
qed

lemma pt_alloc_get:
  assumes "pt_wf t" "pt_alloc p t = (i, t')"
  shows "pt_get t i = None \<and> pt_get t' = (pt_get t)(i \<mapsto> pb_at p i)"
  using assms(1,2)
proof (cases rule: pt_alloc_cases)
  case (reuse fl)
  then show ?thesis by (auto simp: pt_get_def fun_eq_iff)
next
  case append
  then show ?thesis by (auto simp: pt_get_def fun_eq_iff slot_get_beyond)
qed

interpretation pt: slot_table pt_wf pt_get pt_alloc pb_at
  by unfold_locales (auto simp: pt_alloc_wf pt_alloc_get)

lemma first_adjacent_SomeD:
  "first_adjacent xs = Some (a, b) \<Longrightarrow> a \<in> set xs \<and> b \<in> set xs \<and> b = a + 1"
  by (induction xs rule: first_adjacent.induct) (auto split: if_splits)

lemma pt_alloc_pair_cases:
  assumes "pt_wf t" "pt_alloc_pair p q t = ((a, b), t')"
  obtains (reuse) "b = a + 1" "a \<in> set (pt_free_list t)" "b \<in> set (pt_free_list t)"
      "t' = t\<lparr>pt_free_list := filter (\<lambda>x. x \<noteq> a \<and> x \<noteq> b) (pt_free_list t),
             pt_pipes := (pt_pipes t)[a := Some (pb_at p a), b := Some (pb_at q b)]\<rparr>"
  | (append) "b = a + 1" "a = length (pt_pipes t)"
      "t' = t\<lparr>pt_pipes := pt_pipes t @ [Some (pb_at p a), Some (pb_at q b)]\<rparr>"
proof (cases "if length (pt_free_list t) \<ge> 2 then first_adjacent (sort (pt_free_list t)) else None")
  case None
  then show ?thesis
    using assms(2) by (intro append) (auto simp: pt_alloc_pair_def Let_def)
next
  case (Some ab)
  then have "ab = (a, b)" using assms(2) by (auto simp: pt_alloc_pair_def split: prod.splits)
  moreover from this Some have "a \<in> set (pt_free_list t) \<and> b \<in> set (pt_free_list t) \<and> b = a + 1"
    using first_adjacent_SomeD [of "sort (pt_free_list t)" a b] by (auto split: if_splits)
  ultimately show ?thesis
    using assms(2) Some by (intro reuse) (auto simp: pt_alloc_pair_def)
qed

lemma pt_wfD:
  assumes "pt_wf t"
  shows "distinct (pt_free_list t)"
    and "k \<in> set (pt_free_list t) \<longleftrightarrow> k < length (pt_pipes t) \<and> slot_get (pt_pipes t) k = None"
  using assms unfolding pt_wf_def by blast+

lemma pt_wfI:
  assumes "distinct (pt_free_list t)"
    and "\<And>k. k \<in> set (pt_free_list t) \<longleftrightarrow> k < length (pt_pipes t) \<and> slot_get (pt_pipes t) k = None"
  shows "pt_wf t"
  using assms unfolding pt_wf_def by blast

lemma pt_alloc_pair_wf:
  assumes "pt_wf t" "pt_alloc_pair p q t = ((a, b), t')"
  shows "pt_wf t'"
  using assms(1,2)
proof (cases rule: pt_alloc_pair_cases)
  case reuse
  note ab = pt_free_listD [OF assms(1) reuse(2)] pt_free_listD [OF assms(1) reuse(3)]
  show ?thesis
    unfolding reuse(4)
  proof (rule pt_wfI, goal_cases)
    case (2 k)
    then show ?case
      using ab pt_wfD(2) [OF assms(1), of k] by (cases "k = a"; cases "k = b") simp_all
  qed (use pt_wfD(1) [OF assms(1)] in simp)
next
  case append
  show ?thesis
    unfolding append(3)
  proof (rule pt_wfI, goal_cases)
    case (2 k)
    then show ?case
      using append(1,2) pt_wfD(2) [OF assms(1), of k]
      by (cases "k = a"; cases "k = b") (auto simp: slot_get_beyond)
  qed (use pt_wfD(1) [OF assms(1)] in simp)
qed

text \<open>
  The pair of pipes behind an injected TCP connection gets two adjacent indices, neither of
  which held a live pipe; both pipes are found there, know their own index, and every other pipe
  is where it was. The free list stays exact.
\<close>

theorem pt_alloc_pair_adjacent:
  assumes "pt_wf t" and "pt_alloc_pair p q t = ((a, b), t')"
  shows "b = a + 1 \<and> pt_get t a = None \<and> pt_get t b = None \<and>
    pt_get t' = (pt_get t)(a \<mapsto> pb_at p a, b \<mapsto> pb_at q b) \<and> pt_wf t'"
  using assms(1,2)
proof (cases rule: pt_alloc_pair_cases)
  case reuse
  then show ?thesis
    using pt_free_listD [OF assms(1)] pt_alloc_pair_wf [OF assms] by (auto simp: pt_get_def fun_eq_iff)
next
  case append
  then show ?thesis
    using pt_alloc_pair_wf [OF assms] by (auto simp: pt_get_def fun_eq_iff slot_get_beyond)
qed

definition closed_pipe :: PipeBuffer where
  "closed_pipe = (pb_new 1)\<lparr>pb_read_count := 0, pb_write_count := 0\<rparr>"

text \<open>Slots 0, 2 and 1 are freed in this order, so the last freed slot is not the first of a pair.\<close>

definition demo_table :: PipeTable where
  "demo_table = pt_free_if_closed 1 (pt_free_if_closed 3 (pt_free_if_closed 0
     \<lparr>pt_pipes = [Some closed_pipe, Some closed_pipe, Some (pb_new 1), Some closed_pipe],
      pt_free_list = []\<rparr>))"

theorem pt_alloc_pair_adjacent_witness:
  "pt_wf demo_table \<and> pt_free_list demo_table = [0, 3, 1] \<and>
   fst (pt_alloc_pair (pb_new 2) (pb_new 3) demo_table) = (0, 1) \<and>
   pt_get (snd (pt_alloc_pair (pb_new 2) (pb_new 3) demo_table)) 1 = Some (pb_at (pb_new 3) 1)"
proof -
  have t: "demo_table = \<lparr>pt_pipes = [None, None, Some (pb_new 1), None], pt_free_list = [0, 3, 1]\<rparr>"
    by (simp add: demo_table_def pt_free_if_closed_def slot_get_def closed_pipe_def pb_is_fully_closed_def
        numeral_3_eq_3)
  have wf: "pt_wf demo_table"
    by (auto simp: t pt_wf_def slot_get_def nth_Cons' numeral_3_eq_3 less_Suc_eq split: if_splits)
  have run: "pt_alloc_pair (pb_new 2) (pb_new 3) demo_table
      = ((0, 1), snd (pt_alloc_pair (pb_new 2) (pb_new 3) demo_table))"
    by (simp add: t pt_alloc_pair_def)
  show ?thesis
    using pt_alloc_pair_adjacent [OF wf run] wf run t by (metis PipeTable.select_convs(2) fst_conv fun_upd_same)
qed

lemma pt_free_if_closed_wf: "pt_wf t \<Longrightarrow> pt_wf (pt_free_if_closed i t)"
  by (cases "pt_get t i")
    (auto simp: pt_free_if_closed_def pt_wf_def pt_get_def dest: slot_get_SomeD)

lemma pt_free_if_closed_get:
  "pt_get (pt_free_if_closed i t) j = (if i = j then (case pt_get t j of
       Some p \<Rightarrow> if pb_is_fully_closed p then None else Some p | None \<Rightarrow> None) else pt_get t j)"
  by (auto simp: pt_free_if_closed_def pt_get_def split: option.split dest: slot_get_SomeD)

lemma pt_get_get_mut:
  "pt_get (pt_get_mut i f t) j = (if i = j then map_option f (pt_get t j) else pt_get t j)"
  by (simp add: pt_get_def pt_get_mut_def slot_get_modify)

lemma pt_get_mut_wf: "pt_wf t \<Longrightarrow> pt_wf (pt_get_mut i f t)"
  by (simp add: pt_wf_def pt_get_mut_def slot_get_modify)

end
