(* ===== verification/Lock.thy ===== *)
theory Lock
  imports Abi
begin

text \<open>
  Advisory byte-range locks, from \<^verbatim>\<open>src/crates/kernel/src/lock.rs\<close>, and the arm of \<open>sys_fcntl_lock\<close>
  in \<^verbatim>\<open>syscalls.rs\<close> that uses the table for files without a host lock. Offsets are \<open>i64\<close>; the end of
  a range is computed with wrap-around.
\<close>

section \<open>Locks and the lock table\<close>

record FileLock =
  fl_pid :: u32
  fl_lock_type :: u32
  fl_start :: i64
  fl_len :: i64

abbreviation (input) I64_MAX :: i64 where "I64_MAX \<equiv> 0x7FFFFFFFFFFFFFFF"

definition lock_end :: "i64 \<Rightarrow> i64 \<Rightarrow> i64" where
  "lock_end start len = (if len = 0 then I64_MAX else start + len)"

definition lock_overlaps :: "FileLock \<Rightarrow> i64 \<Rightarrow> i64 \<Rightarrow> bool" where
  "lock_overlaps l start len \<longleftrightarrow>
    (let self_end = lock_end (fl_start l) (fl_len l); other_end = lock_end start len
     in sint (fl_start l) < sint other_end \<and> sint start < sint self_end)"

definition lock_conflicts_with :: "FileLock \<Rightarrow> u32 \<Rightarrow> i64 \<Rightarrow> i64 \<Rightarrow> u32 \<Rightarrow> bool" where
  "lock_conflicts_with l lock_type start len pid =
    (if fl_pid l = pid then False
     else if \<not> lock_overlaps l start len then False
     else if fl_lock_type l = F_RDLCK \<and> lock_type = F_RDLCK then False
     else True)"

type_synonym LockTable = "(i64 \<times> FileLock) list"

definition lt_new :: LockTable where
  "lt_new = []"

fun lt_get_blocking_lock ::
    "LockTable \<Rightarrow> i64 \<Rightarrow> u32 \<Rightarrow> i64 \<Rightarrow> i64 \<Rightarrow> u32 \<Rightarrow> FileLock option" where
  "lt_get_blocking_lock [] host_handle lock_type start len pid = None"
| "lt_get_blocking_lock ((handle, l) # locks) host_handle lock_type start len pid =
    (if handle = host_handle \<and> lock_conflicts_with l lock_type start len pid then Some l
     else lt_get_blocking_lock locks host_handle lock_type start len pid)"

definition lt_set_lock :: "i64 \<Rightarrow> FileLock \<Rightarrow> LockTable \<Rightarrow> LockTable" where
  "lt_set_lock host_handle lock locks =
    (let kept = filter (\<lambda>(h, l). \<not> (h = host_handle \<and> fl_pid l = fl_pid lock \<and>
                  lock_overlaps l (fl_start lock) (fl_len lock))) locks
     in if fl_lock_type lock = F_UNLCK then kept else kept @ [(host_handle, lock)])"

definition lt_remove_all_for_pid :: "u32 \<Rightarrow> LockTable \<Rightarrow> LockTable" where
  "lt_remove_all_for_pid pid locks = filter (\<lambda>(h, l). fl_pid l \<noteq> pid) locks"

definition lt_remove_for_handle :: "i64 \<Rightarrow> u32 \<Rightarrow> LockTable \<Rightarrow> LockTable" where
  "lt_remove_for_handle host_handle pid locks =
    filter (\<lambda>(h, l). \<not> (h = host_handle \<and> fl_pid l = pid)) locks"

section \<open>Setting a lock through fcntl\<close>

abbreviation (input) F_SETLK :: u32 where "F_SETLK \<equiv> 13"
abbreviation (input) F_SETLKW :: u32 where "F_SETLKW \<equiv> 14"

text \<open>The \<open>F_SETLK | F_SETLKW\<close> arm, after the start offset has been resolved.\<close>

definition fcntl_setlk ::
    "u32 \<Rightarrow> u32 \<Rightarrow> u32 \<Rightarrow> i64 \<Rightarrow> i64 \<Rightarrow> i64 \<Rightarrow> u32 \<Rightarrow> LockTable \<Rightarrow> unit kresult \<times> LockTable" where
  "fcntl_setlk status_flags base_cmd lock_type host_handle start len lock_owner locks =
    (let access_mode = status_flags AND O_ACCMODE in
     if lock_type = F_RDLCK \<and> access_mode = O_WRONLY then (Err EBADF, locks)
     else if lock_type = F_WRLCK \<and> access_mode = O_RDONLY then (Err EBADF, locks)
     else if lock_type = F_UNLCK then
       (Ok (), lt_set_lock host_handle
          \<lparr>fl_pid = lock_owner, fl_lock_type = F_UNLCK, fl_start = start, fl_len = len\<rparr> locks)
     else if lt_get_blocking_lock locks host_handle lock_type start len lock_owner \<noteq> None then
       (if base_cmd = F_SETLK then (Err EAGAIN, locks) else (Err EDEADLK, locks))
     else
       (Ok (), lt_set_lock host_handle
          \<lparr>fl_pid = lock_owner, fl_lock_type = lock_type, fl_start = start, fl_len = len\<rparr> locks))"

section \<open>Reachable lock tables\<close>

inductive lock_reach :: "LockTable \<Rightarrow> bool" where
  start: "lock_reach lt_new"
| setlk: "lock_reach t \<Longrightarrow>
    lock_reach (snd (fcntl_setlk flags cmd lock_type h start len owner t))"
| exit: "lock_reach t \<Longrightarrow> lock_reach (lt_remove_all_for_pid pid t)"
| close: "lock_reach t \<Longrightarrow> lock_reach (lt_remove_for_handle h pid t)"

text \<open>A lock covers the offsets from its start up to its end.\<close>

definition lock_covers :: "FileLock \<Rightarrow> int \<Rightarrow> bool" where
  "lock_covers l x \<longleftrightarrow> sint (fl_start l) \<le> x \<and> x < sint (lock_end (fl_start l) (fl_len l))"

definition lock_compat :: "i64 \<times> FileLock \<Rightarrow> i64 \<times> FileLock \<Rightarrow> bool" where
  "lock_compat a b \<longleftrightarrow>
    (fst a = fst b \<and> lock_overlaps (snd a) (fl_start (snd b)) (fl_len (snd b)) \<longrightarrow>
     fl_pid (snd a) \<noteq> fl_pid (snd b) \<and> fl_lock_type (snd a) = F_RDLCK \<and> fl_lock_type (snd b) = F_RDLCK)"

lemma lock_covers_overlaps:
  "lock_covers l x \<Longrightarrow> lock_covers l' x \<Longrightarrow> lock_overlaps l (fl_start l') (fl_len l')"
  by (simp add: lock_covers_def lock_overlaps_def Let_def)

lemma lt_get_blocking_lock_None:
  "lt_get_blocking_lock t h ty s n pid = None \<longleftrightarrow>
    (\<forall>l. (h, l) \<in> set t \<longrightarrow> \<not> lock_conflicts_with l ty s n pid)"
  by (induction t h ty s n pid rule: lt_get_blocking_lock.induct) auto

lemma lt_set_lock_compat:
  assumes "sorted_wrt lock_compat t"
    and "fl_lock_type l = F_UNLCK \<or>
      lt_get_blocking_lock t h (fl_lock_type l) (fl_start l) (fl_len l) (fl_pid l) = None"
  shows "sorted_wrt lock_compat (lt_set_lock h l t)"
  using assms
  by (auto simp: lt_set_lock_def Let_def sorted_wrt_append sorted_wrt_filter lock_compat_def
      lt_get_blocking_lock_None lock_conflicts_with_def split: if_splits)

lemma fcntl_setlk_compat:
  "sorted_wrt lock_compat t \<Longrightarrow> sorted_wrt lock_compat (snd (fcntl_setlk flags cmd ty h s n owner t))"
  by (simp add: fcntl_setlk_def Let_def lt_set_lock_compat)

lemma lock_reach_compat: "lock_reach t \<Longrightarrow> sorted_wrt lock_compat t"
  by (induction rule: lock_reach.induct)
    (simp_all add: fcntl_setlk_compat lt_new_def lt_remove_all_for_pid_def lt_remove_for_handle_def
      sorted_wrt_filter)

lemma sorted_wrt_pair:
  assumes "sorted_wrt R xs" "x \<in> set xs" "y \<in> set xs" "x \<noteq> y"
  shows "R x y \<or> R y x"
  using assms by (induction xs) auto

lemma lock_reach_pair:
  assumes "lock_reach t" "(h, l) \<in> set t" "(h, l') \<in> set t" "l \<noteq> l'"
    and "lock_overlaps l (fl_start l') (fl_len l')"
  shows "fl_pid l \<noteq> fl_pid l' \<and> fl_lock_type l = F_RDLCK \<and> fl_lock_type l' = F_RDLCK"
  using sorted_wrt_pair [OF lock_reach_compat [OF assms(1)] assms(2,3)] assms(4,5)
  by (auto simp: lock_compat_def lock_overlaps_def Let_def)

text \<open>
  C11: in every lock table reachable through \<open>fcntl\<close>, \<open>close\<close> and process exit, two different
  owners never hold locks on the same byte of the same file unless both locks are read locks.
\<close>

theorem lock_exclusion:
  assumes "lock_reach t" and "(h, l) \<in> set t" and "(h, l') \<in> set t"
    and "fl_pid l \<noteq> fl_pid l'" and "lock_covers l x" and "lock_covers l' x"
  shows "fl_lock_type l = F_RDLCK \<and> fl_lock_type l' = F_RDLCK"
  using assms lock_reach_pair [OF assms(1-3) _ lock_covers_overlaps] by blast

definition demo_locks :: LockTable where
  "demo_locks = snd (fcntl_setlk 2 13 0 5 10 20 2 (snd (fcntl_setlk 2 13 0 5 0 0 1 lt_new)))"

lemma demo_locks_eq: "demo_locks =
    [(5, \<lparr>fl_pid = 1, fl_lock_type = 0, fl_start = 0, fl_len = 0\<rparr>),
     (5, \<lparr>fl_pid = 2, fl_lock_type = 0, fl_start = 10, fl_len = 20\<rparr>)]"
  by (simp add: demo_locks_def fcntl_setlk_def lt_new_def lt_set_lock_def lock_conflicts_with_def)

lemma demo_locks_reach: "lock_reach demo_locks"
  unfolding demo_locks_def by (intro lock_reach.intros)

theorem lock_exclusion_witness:
  "lock_reach demo_locks \<and>
   fl_lock_type \<lparr>fl_pid = 1, fl_lock_type = 0, fl_start = 0, fl_len = 0\<rparr> = F_RDLCK"
  using lock_exclusion [OF demo_locks_reach,
      of 5 "\<lparr>fl_pid = 1, fl_lock_type = 0, fl_start = 0, fl_len = 0\<rparr>"
         "\<lparr>fl_pid = 2, fl_lock_type = 0, fl_start = 10, fl_len = 20\<rparr>" 12] demo_locks_reach
  by (simp add: demo_locks_eq lock_covers_def lock_end_def)

text \<open>
  A lock is released as a whole. When an owner unlocks a range that overlaps one of its
  locks, it afterwards holds no lock on any byte of that lock, also on bytes outside the
  unlocked range; locks of other owners and on other files are untouched.
\<close>

theorem unlock_releases_whole_lock:
  assumes "lock_reach t" and "(h, l) \<in> set t" and "fl_pid l = owner"
    and "lock_overlaps l start len" and "lock_covers l x"
    and "fcntl_setlk flags cmd F_UNLCK h start len owner t = (res, t')"
  shows "res = Ok () \<and> (\<nexists>l'. (h, l') \<in> set t' \<and> fl_pid l' = owner \<and> lock_covers l' x) \<and>
    (\<forall>h' l'. fl_pid l' \<noteq> owner \<or> h' \<noteq> h \<longrightarrow> ((h', l') \<in> set t' \<longleftrightarrow> (h', l') \<in> set t))"
proof -
  have t': "res = Ok ()" "t' = filter (\<lambda>(h', l'). \<not> (h' = h \<and> fl_pid l' = owner \<and> lock_overlaps l' start len)) t"
    using assms(6) by (auto simp: fcntl_setlk_def Let_def lt_set_lock_def)
  have "False" if "(h, l') \<in> set t'" "fl_pid l' = owner" "lock_covers l' x" for l'
  proof -
    have "l \<noteq> l'" "(h, l') \<in> set t" using that assms(3,4) t' by auto
    with lock_reach_pair [OF assms(1,2)] lock_covers_overlaps [OF assms(5) that(3)] that(2) assms(3)
    show False by blast
  qed
  with t' show ?thesis by auto
qed

theorem unlock_releases_whole_lock_witness:
  "lock_covers \<lparr>fl_pid = 2, fl_lock_type = 0, fl_start = 10, fl_len = 20\<rparr> 12 \<and>
   (\<nexists>l'. (5, l') \<in> set (snd (fcntl_setlk 2 13 F_UNLCK 5 25 5 2 demo_locks)) \<and>
      fl_pid l' = 2 \<and> lock_covers l' 12)"
  using unlock_releases_whole_lock [OF demo_locks_reach,
      of 5 "\<lparr>fl_pid = 2, fl_lock_type = 0, fl_start = 10, fl_len = 20\<rparr>" 2 25 5 12 2 13,
      OF _ _ _ _ prod.collapse [symmetric]]
  by (simp add: demo_locks_eq lock_covers_def lock_end_def lock_overlaps_def)

end
