(* ===== verification/Memory.thy ===== *)
theory Memory
  imports Abi
begin

text \<open>
  The per-process memory manager, from \<^verbatim>\<open>src/crates/kernel/src/memory.rs\<close>: anonymous mappings, partial
  unmapping and the program break. Addresses are \<open>usize\<close> words; the saturating and checked
  additions of the source are kept.
\<close>

section \<open>Regions and operations\<close>

record MappedRegion =
  mr_addr :: usize
  mr_len :: usize
  mr_prot :: u32
  mr_flags :: u32

record MemoryManager =
  mm_mappings :: "MappedRegion list"
  mm_program_break :: usize
  mm_max_addr :: usize
  mm_data_limit :: u64
  mm_initial_brk :: usize

abbreviation (input) MMAP_BASE :: usize where "MMAP_BASE \<equiv> 0x04000000"
abbreviation (input) INITIAL_BRK :: usize where "INITIAL_BRK \<equiv> 0x01000000"
abbreviation (input) DEFAULT_MAX_ADDR :: usize where "DEFAULT_MAX_ADDR \<equiv> 0x40000000"

definition mm_new :: MemoryManager where
  "mm_new = \<lparr>mm_mappings = [], mm_program_break = INITIAL_BRK, mm_max_addr = DEFAULT_MAX_ADDR,
     mm_data_limit = - 1, mm_initial_brk = INITIAL_BRK\<rparr>"

definition mm_set_mappings :: "MappedRegion list \<Rightarrow> MemoryManager \<Rightarrow> MemoryManager" where
  "mm_set_mappings ms mm = mm\<lparr>mm_mappings := ms\<rparr>"

definition mr_end :: "MappedRegion \<Rightarrow> usize" where
  "mr_end m = saturating_add (mr_addr m) (mr_len m)"

fun gap_scan :: "MappedRegion list \<Rightarrow> usize \<Rightarrow> usize \<Rightarrow> usize + usize" where
  "gap_scan [] needed cursor = Inl cursor"
| "gap_scan (m # ms) needed cursor =
    (if mr_addr m < MMAP_BASE then gap_scan ms needed cursor
     else if mr_addr m \<ge> cursor \<and> mr_addr m - cursor \<ge> needed then Inr cursor
     else gap_scan ms needed (if mr_end m > cursor then mr_end m else cursor))"

definition mm_find_gap :: "MemoryManager \<Rightarrow> usize \<Rightarrow> usize option" where
  "mm_find_gap mm needed = (case gap_scan (mm_mappings mm) needed MMAP_BASE of
     Inr a \<Rightarrow> Some a
   | Inl cursor \<Rightarrow> if saturating_add cursor needed \<le> mm_max_addr mm then Some cursor else None)"

text \<open>\<open>partition_point\<close> on a vector partitioned by the predicate, then \<open>insert\<close>.\<close>

definition mm_insert_sorted :: "MappedRegion \<Rightarrow> MappedRegion list \<Rightarrow> MappedRegion list" where
  "mm_insert_sorted r ms =
    (let pos = length (takeWhile (\<lambda>m. mr_addr m < mr_addr r) ms) in insert_nth pos r ms)"

definition mm_mmap_anonymous ::
    "usize \<Rightarrow> usize \<Rightarrow> u32 \<Rightarrow> u32 \<Rightarrow> MemoryManager \<Rightarrow> usize \<times> MemoryManager" where
  "mm_mmap_anonymous hint len prot flags mm =
    (if len = 0 then (MAP_FAILED, mm)
     else (case checked_add len 0xFFFF of
       None \<Rightarrow> (MAP_FAILED, mm)
     | Some v \<Rightarrow>
        (let aligned_len = v AND NOT 0xFFFF;
             place = (\<lambda>addr ms. (addr, mm\<lparr>mm_mappings := mm_insert_sorted
               \<lparr>mr_addr = addr, mr_len = aligned_len, mr_prot = prot, mr_flags = flags\<rparr> ms\<rparr>))
         in if hint \<noteq> 0 \<and> (flags AND MAP_FIXED) \<noteq> 0 then
              (let end = saturating_add hint aligned_len in
               if end > mm_max_addr mm then (MAP_FAILED, mm)
               else place hint
                 (filter (\<lambda>m. mr_end m \<le> hint \<or> mr_addr m \<ge> end) (mm_mappings mm)))
            else (case mm_find_gap mm aligned_len of
                    Some a \<Rightarrow> place a (mm_mappings mm)
                  | None \<Rightarrow> (MAP_FAILED, mm)))))"

text \<open>What the loop of \<open>munmap\<close> pushes for one mapping.\<close>

definition munmap_region :: "usize \<Rightarrow> usize \<Rightarrow> MappedRegion \<Rightarrow> MappedRegion list" where
  "munmap_region addr unmap_end m =
    (if mr_end m \<le> addr \<or> mr_addr m \<ge> unmap_end then [m]
     else (if mr_addr m < addr then [m\<lparr>mr_len := addr - mr_addr m\<rparr>] else []) @
          (if mr_end m > unmap_end
           then [m\<lparr>mr_addr := unmap_end, mr_len := mr_end m - unmap_end\<rparr>] else []))"

definition mm_munmap :: "usize \<Rightarrow> usize \<Rightarrow> MemoryManager \<Rightarrow> bool \<times> MemoryManager" where
  "mm_munmap addr len mm =
    (if len = 0 then (False, mm)
     else
       (let unmap_end = saturating_add addr len;
            found = list_ex (\<lambda>m. \<not> (mr_end m \<le> addr \<or> mr_addr m \<ge> unmap_end)) (mm_mappings mm)
        in (found, mm\<lparr>mm_mappings := concat (map (munmap_region addr unmap_end) (mm_mappings mm))\<rparr>)))"

definition mm_get_brk :: "MemoryManager \<Rightarrow> usize" where
  "mm_get_brk mm = mm_program_break mm"

definition mm_set_brk_base :: "usize \<Rightarrow> MemoryManager \<Rightarrow> MemoryManager" where
  "mm_set_brk_base addr mm = mm\<lparr>mm_initial_brk := addr, mm_program_break := addr\<rparr>"

definition mm_set_brk :: "usize \<Rightarrow> MemoryManager \<Rightarrow> usize \<times> MemoryManager" where
  "mm_set_brk new_brk mm =
    (if new_brk = 0 then (mm_program_break mm, mm)
     else if new_brk > MMAP_BASE then (mm_program_break mm, mm)
     else if new_brk > mm_initial_brk mm \<and> new_brk - mm_initial_brk mm > mm_data_limit mm
     then (mm_program_break mm, mm)
     else (new_brk, mm\<lparr>mm_program_break := new_brk\<rparr>))"

definition mm_set_data_limit :: "u64 \<Rightarrow> MemoryManager \<Rightarrow> MemoryManager" where
  "mm_set_data_limit limit mm = mm\<lparr>mm_data_limit := limit\<rparr>"

definition mm_is_mapped :: "MemoryManager \<Rightarrow> usize \<Rightarrow> bool" where
  "mm_is_mapped mm addr =
    list_ex (\<lambda>m. addr \<ge> mr_addr m \<and> addr < mr_addr m + mr_len m) (mm_mappings mm)"

definition mm_can_grow_at :: "MemoryManager \<Rightarrow> usize \<Rightarrow> usize \<Rightarrow> bool" where
  "mm_can_grow_at mm addr len = (case checked_add addr len of
     None \<Rightarrow> False
   | Some end \<Rightarrow>
       if end > mm_max_addr mm then False
       else list_all (\<lambda>m. \<not> (addr < mr_end m \<and> end > mr_addr m)) (mm_mappings mm))"

definition mm_set_max_addr :: "usize \<Rightarrow> MemoryManager \<Rightarrow> MemoryManager" where
  "mm_set_max_addr addr mm = (if addr < mm_max_addr mm then mm\<lparr>mm_max_addr := addr\<rparr> else mm)"

fun extend_first :: "usize \<Rightarrow> usize \<Rightarrow> usize \<Rightarrow> MappedRegion list \<Rightarrow> MappedRegion list" where
  "extend_first addr old_len new_len [] = []"
| "extend_first addr old_len new_len (m # ms) =
    (if mr_addr m = addr \<and> mr_len m = old_len then m\<lparr>mr_len := new_len\<rparr> # ms
     else m # extend_first addr old_len new_len ms)"

definition mm_extend_mapping :: "usize \<Rightarrow> usize \<Rightarrow> usize \<Rightarrow> MemoryManager \<Rightarrow> MemoryManager" where
  "mm_extend_mapping addr old_len new_len mm =
    mm\<lparr>mm_mappings := extend_first addr old_len new_len (mm_mappings mm)\<rparr>"

section \<open>The address space a manager stands for\<close>

definition in_region :: "nat \<Rightarrow> MappedRegion \<Rightarrow> bool" where
  "in_region x m \<longleftrightarrow> unat (mr_addr m) \<le> x \<and> x < unat (mr_addr m) + unat (mr_len m)"

text \<open>The protection and flags of the mapping that holds an address.\<close>

definition prot_at :: "MappedRegion list \<Rightarrow> nat \<Rightarrow> (u32 \<times> u32) option" where
  "prot_at ms x = map_option (\<lambda>m. (mr_prot m, mr_flags m)) (find (in_region x) ms)"

definition mr_before :: "MappedRegion \<Rightarrow> MappedRegion \<Rightarrow> bool" where
  "mr_before a b \<longleftrightarrow> unat (mr_addr a) + unat (mr_len a) \<le> unat (mr_addr b)"

definition mr_ok :: "MappedRegion \<Rightarrow> bool" where
  "mr_ok m \<longleftrightarrow> mr_len m \<noteq> 0 \<and> unat (mr_addr m) + unat (mr_len m) < 2 ^ 64"

text \<open>
  Regions are sorted, disjoint, not empty, and end below the top of the address space; the upper
  bound for allocation has only been lowered from its default.
\<close>

definition mm_wf :: "MemoryManager \<Rightarrow> bool" where
  "mm_wf mm \<longleftrightarrow> sorted_wrt mr_before (mm_mappings mm) \<and> list_all mr_ok (mm_mappings mm) \<and>
    mm_max_addr mm \<le> DEFAULT_MAX_ADDR"

text \<open>No region straddles the base of the search area.\<close>

definition mm_no_straddle :: "MemoryManager \<Rightarrow> bool" where
  "mm_no_straddle mm \<longleftrightarrow> list_all (\<lambda>m. mr_addr m \<ge> MMAP_BASE \<or>
     unat (mr_addr m) + unat (mr_len m) \<le> unat MMAP_BASE) (mm_mappings mm)"

lemma unat_mr_end: "mr_ok m \<Longrightarrow> unat (mr_end m) = unat (mr_addr m) + unat (mr_len m)"
  by (simp add: mr_ok_def mr_end_def unat_saturating_add)

lemma prot_at_Cons:
  "prot_at (m # ms) x = (if in_region x m then Some (mr_prot m, mr_flags m) else prot_at ms x)"
  by (simp add: prot_at_def)

lemma prot_at_Nil [simp]: "prot_at [] x = None"
  by (simp add: prot_at_def)

lemma prot_at_append:
  "prot_at (ms @ ms') x = (case prot_at ms x of None \<Rightarrow> prot_at ms' x | Some v \<Rightarrow> Some v)"
  by (induction ms) (simp_all add: prot_at_Cons)

lemma prot_at_None_iff: "prot_at ms x = None \<longleftrightarrow> (\<forall>m\<in>set ms. \<not> in_region x m)"
  by (induction ms) (auto simp: prot_at_Cons)

section \<open>Unmapping\<close>

lemma munmap_region_prot:
  assumes "mr_ok m" "addr \<le> unmap_end"
  shows "prot_at (munmap_region addr unmap_end m) x =
    (if unat addr \<le> x \<and> x < unat unmap_end then None else prot_at [m] x)"
  using assms unat_mr_end [OF assms(1)]
  by (auto simp: munmap_region_def prot_at_Cons in_region_def word_le_nat_alt word_less_nat_alt
      unat_sub_if')

lemma munmap_region_within:
  assumes "mr_ok m" "addr \<le> unmap_end" "r \<in> set (munmap_region addr unmap_end m)"
  shows "mr_ok r" and "unat (mr_addr m) \<le> unat (mr_addr r)"
    and "unat (mr_addr r) + unat (mr_len r) \<le> unat (mr_addr m) + unat (mr_len m)"
proof -
  have lt: "unat (mr_addr m) + unat (mr_len m) < 2 ^ 64" and nz: "mr_len m \<noteq> 0"
    using assms(1) by (auto simp: mr_ok_def)
  have "mr_ok r \<and> unat (mr_addr m) \<le> unat (mr_addr r) \<and>
      unat (mr_addr r) + unat (mr_len r) \<le> unat (mr_addr m) + unat (mr_len m)"
    using assms unat_mr_end [OF assms(1)] lt nz
    by (auto simp: munmap_region_def mr_ok_def word_le_nat_alt word_less_nat_alt unat_sub_if'
        word_unat_eq_iff split: if_splits)
  then show "mr_ok r" "unat (mr_addr m) \<le> unat (mr_addr r)"
    "unat (mr_addr r) + unat (mr_len r) \<le> unat (mr_addr m) + unat (mr_len m)" by simp_all
qed

lemma munmap_region_sorted:
  "mr_ok m \<Longrightarrow> addr \<le> unmap_end \<Longrightarrow> sorted_wrt mr_before (munmap_region addr unmap_end m)"
  by (auto simp: munmap_region_def mr_before_def word_le_nat_alt word_less_nat_alt unat_sub_if'
      split: if_splits)

lemma munmap_list_prot:
  "list_all mr_ok ms \<Longrightarrow> addr \<le> unmap_end \<Longrightarrow>
    prot_at (concat (map (munmap_region addr unmap_end) ms)) x
      = (if unat addr \<le> x \<and> x < unat unmap_end then None else prot_at ms x)"
  by (induction ms) (simp_all add: prot_at_append munmap_region_prot prot_at_Cons)

lemma munmap_list_wf:
  assumes "sorted_wrt mr_before ms" "list_all mr_ok ms" "addr \<le> unmap_end"
  shows "sorted_wrt mr_before (concat (map (munmap_region addr unmap_end) ms)) \<and>
    list_all mr_ok (concat (map (munmap_region addr unmap_end) ms))"
  using assms(1,2)
proof (induction ms)
  case (Cons m ms)
  note w = munmap_region_within [OF _ assms(3)]
  have "mr_before r r'" if r: "r \<in> set (munmap_region addr unmap_end m)"
      and r': "r' \<in> set (munmap_region addr unmap_end m')" "m' \<in> set ms" for r r' m'
  proof -
    have "mr_before m m'" "mr_ok m" "mr_ok m'" using Cons.prems r'(2) by (auto simp: list_all_iff)
    with w(3) [OF _ r] w(2) [OF _ r'(1)] show ?thesis by (simp add: mr_before_def)
  qed
  moreover have "list_all mr_ok (munmap_region addr unmap_end m)"
    using Cons.prems w(1) by (auto simp: list_all_iff)
  ultimately show ?case
    using Cons munmap_region_sorted [OF _ assms(3), of m] by (simp add: sorted_wrt_append)
qed simp

text \<open>
  C14: \<open>munmap\<close> removes exactly the requested range. Afterwards no address of the range is mapped,
  every other address keeps its mapping with the same protection and flags, also where a mapping
  was trimmed or split, and the regions stay sorted, disjoint and non-empty. The result reports
  whether any address of the range was mapped.
\<close>

theorem munmap_exact:
  assumes "mm_wf mm" and "mm_munmap addr len mm = (found, mm')"
  shows "mm_wf mm' \<and>
    (\<forall>x. prot_at (mm_mappings mm') x =
       (if unat addr \<le> x \<and> x < min (unat addr + unat len) (2 ^ 64 - 1) then None
        else prot_at (mm_mappings mm) x)) \<and>
    (found \<longleftrightarrow> (\<exists>x. unat addr \<le> x \<and> x < min (unat addr + unat len) (2 ^ 64 - 1) \<and>
       prot_at (mm_mappings mm) x \<noteq> None))"
proof (cases "len = 0")
  case True
  then show ?thesis using assms by (auto simp: mm_munmap_def)
next
  case False
  define e where "e = saturating_add addr len"
  have e: "unat e = min (unat addr + unat len) (2 ^ 64 - 1)"
    by (simp add: e_def unat_saturating_add)
  have le: "addr \<le> e"
    using unsigned_less [of addr, where 'a = nat] by (simp add: word_le_nat_alt e)
  have mm': "mm' = mm\<lparr>mm_mappings := concat (map (munmap_region addr e) (mm_mappings mm))\<rparr>"
      and f: "found \<longleftrightarrow> (\<exists>m\<in>set (mm_mappings mm). \<not> (mr_end m \<le> addr \<or> mr_addr m \<ge> e))"
    using assms(2) False by (auto simp: mm_munmap_def Let_def e_def list_ex_iff)
  have ok: "sorted_wrt mr_before (mm_mappings mm)" "list_all mr_ok (mm_mappings mm)"
    using assms(1) by (simp_all add: mm_wf_def)
  have "\<not> (mr_end m \<le> addr \<or> mr_addr m \<ge> e) \<longleftrightarrow>
      (\<exists>x. unat addr \<le> x \<and> x < unat e \<and> in_region x m)" (is "_ \<longleftrightarrow> ?ex m")
    if "m \<in> set (mm_mappings mm)" for m
  proof -
    have m: "unat (mr_end m) = unat (mr_addr m) + unat (mr_len m)" "mr_ok m"
      using that ok(2) unat_mr_end by (auto simp: list_all_iff)
    have b: "0 < unat (mr_len m)" "unat (mr_addr m) + unat (mr_len m) < 2 ^ 64" "0 < unat len"
      using m(2) False by (auto simp: mr_ok_def unat_gt_0)
    have "?ex m" if "\<not> (mr_end m \<le> addr \<or> mr_addr m \<ge> e)"
      using that m(1) b e by (intro exI [of _ "max (unat addr) (unat (mr_addr m))"])
        (auto simp: in_region_def word_le_nat_alt max_def)
    then show ?thesis
      using m(1) by (auto simp: in_region_def word_le_nat_alt)
  qed
  then have "found \<longleftrightarrow> (\<exists>x. unat addr \<le> x \<and> x < unat e \<and> prot_at (mm_mappings mm) x \<noteq> None)"
    unfolding f prot_at_None_iff by blast
  with munmap_list_wf [OF ok le] munmap_list_prot [OF ok(2) le] show ?thesis
    using assms(1) unfolding e [symmetric] by (simp add: mm' mm_wf_def)
qed

definition split_region :: MappedRegion where
  "split_region = \<lparr>mr_addr = 0x04000000, mr_len = 0x30000, mr_prot = 3, mr_flags = 0x22\<rparr>"

theorem munmap_exact_witness:
  "\<exists>mm'. mm_wf (mm_new\<lparr>mm_mappings := [split_region]\<rparr>) \<and>
     mm_munmap 0x04010000 0x10000 (mm_new\<lparr>mm_mappings := [split_region]\<rparr>) = (True, mm') \<and>
     map mr_addr (mm_mappings mm') = [0x04000000, 0x04020000] \<and>
     prot_at (mm_mappings mm') 0x0401FFFF = None"
proof -
  have wf: "mm_wf (mm_new\<lparr>mm_mappings := [split_region]\<rparr>)"
    by (simp add: mm_wf_def split_region_def mr_ok_def mm_new_def)
  define mm' where "mm' = mm_new\<lparr>mm_mappings := [split_region\<lparr>mr_len := 0x10000\<rparr>,
    split_region\<lparr>mr_addr := 0x04020000, mr_len := 0x10000\<rparr>]\<rparr>"
  have run: "mm_munmap 0x04010000 0x10000 (mm_new\<lparr>mm_mappings := [split_region]\<rparr>) = (True, mm')"
    by (simp add: mm'_def mm_munmap_def munmap_region_def split_region_def mr_end_def saturating_add_def)
  show ?thesis
    using munmap_exact [OF wf run] wf run by (auto simp: mm'_def split_region_def)
qed

section \<open>Mapping\<close>

definition page_aligned_len :: "usize \<Rightarrow> nat" where
  "page_aligned_len len = (unat len + 65535) div 65536 * 65536"

lemma aligned_len:
  assumes "checked_add len 0xFFFF = Some v"
  shows "unat (v AND NOT 0xFFFF) = page_aligned_len len"
proof -
  have "unat v = unat len + 65535" using checked_add_SomeD [OF assms] by simp
  moreover have "(0xFFFF :: usize) = mask 16" by (simp add: mask_eq_exp_minus_1)
  ultimately show ?thesis
    using unat_and_not_mask [of v 16]
    by (simp add: page_aligned_len_def minus_mod_eq_div_mult)
qed

lemma gap_scan_free:
  assumes "sorted_wrt mr_before ms" "list_all mr_ok ms" "MMAP_BASE \<le> c"
    and "\<forall>m\<in>set ms. mr_addr m \<ge> MMAP_BASE \<or> unat (mr_addr m) + unat (mr_len m) \<le> unat MMAP_BASE"
  shows "case gap_scan ms needed c of
      Inr a \<Rightarrow> c \<le> a \<and> (\<forall>m\<in>set ms. unat (mr_addr m) + unat (mr_len m) \<le> unat a \<or>
                 unat a + unat needed \<le> unat (mr_addr m)) \<and>
               (\<exists>m\<in>set ms. unat a + unat needed \<le> unat (mr_addr m))
    | Inl a \<Rightarrow> c \<le> a \<and> (\<forall>m\<in>set ms. unat (mr_addr m) + unat (mr_len m) \<le> unat a)"
  using assms
proof (induction ms arbitrary: c)
  case (Cons m ms)
  have m: "unat (mr_end m) = unat (mr_addr m) + unat (mr_len m)"
    using Cons.prems(2) unat_mr_end by simp
  consider (low) "mr_addr m < MMAP_BASE"
    | (fit) "\<not> mr_addr m < MMAP_BASE" "mr_addr m \<ge> c \<and> mr_addr m - c \<ge> needed"
    | (step) "\<not> mr_addr m < MMAP_BASE" "\<not> (mr_addr m \<ge> c \<and> mr_addr m - c \<ge> needed)"
    by blast
  then show ?case
  proof cases
    case low
    with Cons.prems have "unat (mr_addr m) + unat (mr_len m) \<le> unat c"
      by (auto simp: word_le_nat_alt word_less_nat_alt)
    with low Cons.IH [of c] Cons.prems show ?thesis
      by (force simp: word_le_nat_alt split: sum.splits)
  next
    case fit
    then have le: "unat c + unat needed \<le> unat (mr_addr m)"
      by (auto simp: word_le_nat_alt unat_sub)
    have "\<forall>m'\<in>set ms. unat c + unat needed \<le> unat (mr_addr m')"
      using Cons.prems(1) le by (auto simp: mr_before_def)
    with fit le show ?thesis by auto
  next
    case step
    define c' where "c' = (if mr_end m > c then mr_end m else c)"
    have c': "c \<le> c'" "unat (mr_addr m) + unat (mr_len m) \<le> unat c'"
      using m by (auto simp: c'_def word_le_nat_alt word_less_nat_alt)
    with Cons.prems(3) have "MMAP_BASE \<le> c'" by simp
    with step c' Cons.IH [of c'] Cons.prems show ?thesis
      by (force simp: c'_def [symmetric] word_le_nat_alt split: sum.splits)
  qed
qed simp

lemma mm_insert_sorted_split:
  "mm_insert_sorted r ms = takeWhile (\<lambda>m. mr_addr m < mr_addr r) ms @ r #
     dropWhile (\<lambda>m. mr_addr m < mr_addr r) ms"
  by (simp add: mm_insert_sorted_def insert_nth_def takeWhile_eq_take [symmetric] dropWhile_eq_drop [symmetric])

lemma sorted_dropWhile_addr:
  assumes "sorted_wrt mr_before ms" "m \<in> set (dropWhile (\<lambda>m. mr_addr m < a) ms)"
  shows "\<not> mr_addr m < a"
  using assms
proof (induction ms)
  case (Cons n ms)
  then show ?case
    by (auto simp: mr_before_def word_less_nat_alt split: if_splits dest: set_dropWhileD)
qed simp

lemma mm_insert_sorted_wf:
  assumes "sorted_wrt mr_before ms" "list_all mr_ok ms" "mr_ok r"
    and free: "\<forall>m\<in>set ms. mr_before m r \<or> mr_before r m"
  shows "sorted_wrt mr_before (mm_insert_sorted r ms)"
    and "list_all mr_ok (mm_insert_sorted r ms)"
    and "prot_at (mm_insert_sorted r ms) x =
      (if in_region x r then Some (mr_prot r, mr_flags r) else prot_at ms x)"
proof -
  let ?P = "\<lambda>m. mr_addr m < mr_addr r"
  have ok: "0 < unat (mr_len m)" if "m \<in> set ms" for m
    using assms(2) that by (auto simp: list_all_iff mr_ok_def unat_gt_0)
  have 1: "mr_before m r" if "m \<in> set (takeWhile ?P ms)" for m
    using free set_takeWhileD [OF that] by (auto simp: mr_before_def word_less_nat_alt)
  have 2: "mr_before r m" if "m \<in> set (dropWhile ?P ms)" for m
    using free set_dropWhileD [OF that] sorted_dropWhile_addr [OF assms(1) that] ok [of m]
    by (fastforce simp: mr_before_def word_less_nat_alt)
  have s: "sorted_wrt mr_before (takeWhile ?P ms @ dropWhile ?P ms)" using assms(1) by simp
  then show "sorted_wrt mr_before (mm_insert_sorted r ms)"
    using 1 2 unfolding mm_insert_sorted_split sorted_wrt_append by auto
  have "list_all mr_ok (takeWhile ?P ms @ dropWhile ?P ms)" using assms(2) by simp
  then show "list_all mr_ok (mm_insert_sorted r ms)"
    using assms(3) unfolding mm_insert_sorted_split by (simp del: takeWhile_dropWhile_id)
  have "prot_at (takeWhile ?P ms) x = None" if "in_region x r"
    using that 1 by (fastforce simp: prot_at_None_iff in_region_def mr_before_def)
  then show "prot_at (mm_insert_sorted r ms) x =
      (if in_region x r then Some (mr_prot r, mr_flags r) else prot_at ms x)"
    using prot_at_append [of "takeWhile ?P ms" "dropWhile ?P ms" x]
    by (simp add: mm_insert_sorted_split prot_at_append prot_at_Cons split: option.split)
qed

lemma mm_find_gap_free:
  assumes wf: "mm_wf mm" "mm_no_straddle mm" and gap: "mm_find_gap mm needed = Some a"
    and "needed \<noteq> 0"
  shows "MMAP_BASE \<le> a" and "unat a + unat needed < 2 ^ 64"
    and "\<forall>m\<in>set (mm_mappings mm). unat (mr_addr m) + unat (mr_len m) \<le> unat a \<or>
      unat a + unat needed \<le> unat (mr_addr m)"
proof -
  have ms: "sorted_wrt mr_before (mm_mappings mm)" "list_all mr_ok (mm_mappings mm)"
      "unat (mm_max_addr mm) \<le> 0x40000000"
    using wf(1) by (simp_all add: mm_wf_def word_le_nat_alt)
  have ns: "\<forall>m\<in>set (mm_mappings mm). mr_addr m \<ge> MMAP_BASE \<or>
      unat (mr_addr m) + unat (mr_len m) \<le> unat MMAP_BASE"
    using wf(2) by (simp add: mm_no_straddle_def list_all_iff)
  note scan = gap_scan_free [OF ms(1,2) order_refl ns, of needed]
  have "MMAP_BASE \<le> a \<and> unat a + unat needed < 2 ^ 64 \<and>
      (\<forall>m\<in>set (mm_mappings mm). unat (mr_addr m) + unat (mr_len m) \<le> unat a \<or>
        unat a + unat needed \<le> unat (mr_addr m))"
  proof (cases "gap_scan (mm_mappings mm) needed MMAP_BASE")
    case (Inl c)
    then have c: "c = a" "saturating_add a needed \<le> mm_max_addr mm"
      using gap by (auto simp: mm_find_gap_def split: if_splits)
    then have "unat a + unat needed < 2 ^ 64"
      using ms(3) by (simp add: word_le_nat_alt unat_saturating_add)
    with Inl scan c(1) show ?thesis by simp
  next
    case (Inr c)
    moreover from this gap have "c = a" by (simp add: mm_find_gap_def)
    moreover from this Inr scan obtain m :: MappedRegion where
        "unat a + unat needed \<le> unat (mr_addr m)"
      by auto
    then have "unat a + unat needed < 2 ^ 64"
      using unsigned_less [of "mr_addr m", where 'a = nat] by simp
    ultimately show ?thesis using scan by simp
  qed
  then show "MMAP_BASE \<le> a" "unat a + unat needed < 2 ^ 64"
    "\<forall>m\<in>set (mm_mappings mm). unat (mr_addr m) + unat (mr_len m) \<le> unat a \<or>
      unat a + unat needed \<le> unat (mr_addr m)" by simp_all
qed

lemma gap_scan_where:
  "(case gap_scan ms needed c of Inl a \<Rightarrow> a | Inr a \<Rightarrow> a) \<in> insert c (mr_end ` set ms)"
proof (induction ms arbitrary: c)
  case (Cons m ms)
  from Cons.IH [of c] Cons.IH [of "mr_end m"] show ?case by auto
qed simp

lemma mm_find_gap_where: "mm_find_gap mm needed = Some a \<Longrightarrow> a \<in> insert MMAP_BASE (mr_end ` set (mm_mappings mm))"
  using gap_scan_where [of "mm_mappings mm" needed MMAP_BASE]
  by (auto simp: mm_find_gap_def split: sum.splits if_splits)

text \<open>
  C15: an anonymous mapping without \<open>MAP_FIXED\<close> is placed on free addresses. It either fails
  without effect or returns a non-zero address at or above the mapping base such that the length
  rounded up to whole pages starting there was unmapped; exactly those addresses become mapped,
  with the requested protection and flags, every other address is as before, and the regions stay
  sorted and disjoint. The address is a multiple of the page size if the mappings that are there end at
  multiples of it. No mapping may start below the mapping base and end above it.
\<close>

theorem mmap_anonymous_fresh:
  assumes "mm_wf mm" and "mm_no_straddle mm" and "hint = 0 \<or> flags AND MAP_FIXED = 0"
    and "mm_mmap_anonymous hint len prot flags mm = (a, mm')"
  shows "(a = MAP_FAILED \<and> mm' = mm) \<or>
    (len \<noteq> 0 \<and> MMAP_BASE \<le> a \<and> a \<noteq> MAP_FAILED \<and> mm_wf mm' \<and> mm_no_straddle mm' \<and>
     (\<forall>x. prot_at (mm_mappings mm') x =
       (if unat a \<le> x \<and> x < unat a + page_aligned_len len
        then Some (prot, flags) else prot_at (mm_mappings mm) x)) \<and>
     (\<forall>x. unat a \<le> x \<and> x < unat a + page_aligned_len len \<longrightarrow> prot_at (mm_mappings mm) x = None) \<and>
     ((\<forall>m\<in>set (mm_mappings mm). unat (mr_end m) mod 65536 = 0) \<longrightarrow> unat a mod 65536 = 0))"
proof (cases "a = MAP_FAILED \<and> mm' = mm")
  case False
  then obtain v where v: "len \<noteq> 0" "checked_add len 0xFFFF = Some v"
    using assms(4) by (auto simp: mm_mmap_anonymous_def split: option.splits if_splits)
  define n where "n = v AND NOT 0xFFFF"
  define r where "r = \<lparr>mr_addr = a, mr_len = n, mr_prot = prot, mr_flags = flags\<rparr>"
  have gap: "mm_find_gap mm n = Some a" and mm': "mm' = mm\<lparr>mm_mappings := mm_insert_sorted r (mm_mappings mm)\<rparr>"
    using assms(3,4) v False
    by (auto simp: mm_mmap_anonymous_def n_def r_def Let_def split: option.splits)
  have n: "unat n = page_aligned_len len" using aligned_len [OF v(2)] by (simp add: n_def)
  have "0 < unat len" using v(1) by (simp add: unat_gt_0)
  then have pos: "0 < unat n" by (simp add: n page_aligned_len_def)
  then have nz: "n \<noteq> 0" by auto
  note f = mm_find_gap_free [OF assms(1,2) gap nz]
  have ok: "sorted_wrt mr_before (mm_mappings mm)" "list_all mr_ok (mm_mappings mm)" "mr_ok r"
      "\<forall>m\<in>set (mm_mappings mm). mr_before m r \<or> mr_before r m"
    using assms(1) f(2,3) nz by (simp_all add: mm_wf_def r_def mr_ok_def mr_before_def)
  have r: "in_region x r \<longleftrightarrow> unat a \<le> x \<and> x < unat a + page_aligned_len len" for x
    by (simp add: in_region_def r_def n)
  have "a \<noteq> MAP_FAILED" using f(2) pos by (auto simp: unsigned_minus_1_eq_mask mask_eq_exp_minus_1)
  moreover have "mm_wf mm'"
    using mm_insert_sorted_wf(1,2) [OF ok] assms(1) by (simp add: mm' mm_wf_def)
  moreover have "mm_no_straddle mm'"
  proof -
    have "set (mm_insert_sorted r (mm_mappings mm)) = insert r (set (mm_mappings mm))"
      by (metis Un_insert_right mm_insert_sorted_split list.simps(15) set_append takeWhile_dropWhile_id)
    then show ?thesis
      using assms(2) f(1) by (simp add: mm' mm_no_straddle_def list_all_iff r_def)
  qed
  moreover have "prot_at (mm_mappings mm) x = None" if "in_region x r" for x
    using that f(3) by (auto simp: prot_at_None_iff in_region_def r_def)
  moreover have "unat a mod 65536 = 0" if "\<forall>m\<in>set (mm_mappings mm). unat (mr_end m) mod 65536 = 0"
    using mm_find_gap_where [OF gap] that by auto
  ultimately show ?thesis
    using v(1) f(1) mm_insert_sorted_wf(3) [OF ok] r by (auto simp: mm' r_def)
qed simp

theorem mmap_anonymous_fresh_witness:
  "\<exists>mm'. mm_wf (mm_new\<lparr>mm_mappings := [split_region]\<rparr>) \<and>
     mm_mmap_anonymous 0 1 3 0x22 (mm_new\<lparr>mm_mappings := [split_region]\<rparr>) = (0x04030000, mm') \<and>
     prot_at (mm_mappings mm') 0x04030000 = Some (3, 0x22) \<and> mm_wf mm'"
proof -
  let ?mm = "mm_new\<lparr>mm_mappings := [split_region]\<rparr>"
  have wf: "mm_wf ?mm" "mm_no_straddle ?mm"
    by (simp_all add: mm_wf_def mm_no_straddle_def split_region_def mr_ok_def mm_new_def)
  obtain mm' where run: "mm_mmap_anonymous 0 1 3 0x22 ?mm = (0x04030000, mm')"
    by (simp add: mm_mmap_anonymous_def checked_add_def mm_find_gap_def split_region_def mr_end_def
        saturating_add_def mm_new_def)
  show ?thesis
    using mmap_anonymous_fresh [OF wf _ run] wf run by (simp add: page_aligned_len_def)
qed

text \<open>
  The search for a gap skips every mapping that starts below the mapping base, also one that
  extends past it. After a \<open>MAP_FIXED\<close> mapping across the base, the next anonymous mapping is
  placed at the base, on top of addresses that are still mapped.
\<close>

theorem mmap_ignores_straddling_mapping:
  "\<exists>mm1 mm2. mm_mmap_anonymous 0x03FF0000 0x20000 1 0x32 mm_new = (0x03FF0000, mm1) \<and>
     mm_wf mm1 \<and> prot_at (mm_mappings mm1) 0x04000000 = Some (1, 0x32) \<and>
     mm_mmap_anonymous 0 0x10000 3 0x22 mm1 = (0x04000000, mm2) \<and> \<not> mm_wf mm2"
proof -
  define r where "r = \<lparr>mr_addr = 0x03FF0000 :: usize, mr_len = 0x20000 :: usize, mr_prot = 1 :: u32,
    mr_flags = 0x32 :: u32\<rparr>"
  define q where "q = \<lparr>mr_addr = 0x04000000 :: usize, mr_len = 0x10000 :: usize, mr_prot = 3 :: u32,
    mr_flags = 0x22 :: u32\<rparr>"
  have 1: "mm_mmap_anonymous 0x03FF0000 0x20000 1 0x32 mm_new = (0x03FF0000, mm_new\<lparr>mm_mappings := [r]\<rparr>)"
    by (simp add: mm_mmap_anonymous_def checked_add_def mm_new_def saturating_add_def
        mm_insert_sorted_def insert_nth_def r_def)
  have 2: "mm_mmap_anonymous 0 0x10000 3 0x22 (mm_new\<lparr>mm_mappings := [r]\<rparr>)
      = (0x04000000, mm_new\<lparr>mm_mappings := [r, q]\<rparr>)"
    by (simp add: mm_mmap_anonymous_def checked_add_def mm_new_def mm_find_gap_def saturating_add_def
        mm_insert_sorted_def insert_nth_def r_def q_def)
  have "mm_wf (mm_new\<lparr>mm_mappings := [r]\<rparr>)" "\<not> mm_wf (mm_new\<lparr>mm_mappings := [r, q]\<rparr>)"
      "prot_at [r] 0x04000000 = Some (1, 0x32)"
    by (simp_all add: mm_wf_def mm_new_def r_def q_def mr_ok_def mr_before_def prot_at_def in_region_def)
  with 1 2 show ?thesis by auto
qed

section \<open>The program break\<close>

text \<open>
  \<open>brk\<close> moves the break exactly when the request is admissible, and otherwise returns and keeps
  the current one. A break that starts at or below the mapping base never enters the mapping
  area, and every growth it grants is within the data limit.
\<close>

theorem set_brk_bounds:
  assumes "mm_set_brk new_brk mm = (res, mm')"
  shows "res = mm_get_brk mm' \<and> mm_mappings mm' = mm_mappings mm \<and>
    (mm_get_brk mm' = (if new_brk \<noteq> 0 \<and> new_brk \<le> MMAP_BASE \<and>
        (new_brk \<le> mm_initial_brk mm \<or>
         unat new_brk - unat (mm_initial_brk mm) \<le> unat (mm_data_limit mm))
      then new_brk else mm_get_brk mm)) \<and>
    (mm_get_brk mm \<le> MMAP_BASE \<longrightarrow> mm_get_brk mm' \<le> MMAP_BASE)"
  using assms
  by (auto simp: mm_set_brk_def mm_get_brk_def not_less word_le_nat_alt word_less_nat_alt unat_sub_if'
      split: if_splits)

theorem set_brk_bounds_witness:
  "mm_set_brk 0x01002000 (mm_set_data_limit 0x1000 mm_new)
     = (INITIAL_BRK, mm_set_data_limit 0x1000 mm_new) \<and>
   mm_get_brk (mm_set_data_limit 0x1000 mm_new) \<le> MMAP_BASE"
proof -
  have run: "mm_set_brk 0x01002000 (mm_set_data_limit 0x1000 mm_new)
      = (INITIAL_BRK, mm_set_data_limit 0x1000 mm_new)"
    by (simp add: mm_set_brk_def mm_set_data_limit_def mm_new_def)
  show ?thesis
    using set_brk_bounds [OF run] run by (simp add: mm_get_brk_def mm_set_data_limit_def mm_new_def)
qed

end
