(* ===== verification/Signal.thy ===== *)
theory Signal
  imports Abi
begin

text \<open>
  Signal state, from \<^verbatim>\<open>src/crates/kernel/src/signal.rs\<close>: dispositions, the pending and blocked masks
  (signal \<open>n\<close> is bit \<open>n - 1\<close>), and the queue of real-time signals and of \<open>sigqueue\<close> values, once for
  the process and once per thread.
\<close>

section \<open>Data\<close>

abbreviation (input) SIGRTMIN :: u32 where "SIGRTMIN \<equiv> 32"

definition sig_bit :: "u32 \<Rightarrow> u64" where
  "sig_bit signum = (if signum = 0 \<or> signum \<ge> 65 then 0 else push_bit (unat (signum - 1)) 1)"

datatype SignalHandler = HDefault | HIgnore | Handler u32

record SignalAction =
  sa_handler :: SignalHandler
  sa_flags :: u32
  sa_mask :: u64

definition sa_default :: SignalAction where
  "sa_default = \<lparr>sa_handler = HDefault, sa_flags = 0, sa_mask = 0\<rparr>"

datatype DefaultAction = Terminate | DIgnore | CoreDump | Stop | Continue

definition default_action :: "u32 \<Rightarrow> DefaultAction" where
  "default_action signum =
    (if signum \<in> {1, 2, 3, 4, 5, 6, 7, 8, 9, 10, 12, 13, 14, 15} then Terminate
     else if signum = SIGCHLD \<or> signum = SIGWINCH then DIgnore
     else if signum = SIGCONT then Continue
     else if signum = SIGSTOP \<or> signum = SIGTSTP then Stop
     else if signum \<ge> 1 \<and> signum < NSIG then Terminate
     else Terminate)"

definition should_discard_pending :: "u32 \<Rightarrow> SignalHandler \<Rightarrow> bool" where
  "should_discard_pending signum handler = (case handler of
     HIgnore \<Rightarrow> True
   | HDefault \<Rightarrow> default_action signum = DIgnore
   | Handler _ \<Rightarrow> False)"

record RtSigEntry =
  rt_signum :: u32
  rt_si_value :: i32
  rt_si_code :: i32

text \<open>\<open>u64::trailing_zeros\<close>\<close>

definition trailing_zeros :: "u64 \<Rightarrow> nat" where
  "trailing_zeros w = (case position (bit w) [0..<64] of Some i \<Rightarrow> i | None \<Rightarrow> 64)"

text \<open>\<open>iter_mut().find(..)\<close> with the update of the entry found, or \<open>push_back\<close>.\<close>

fun rt_replace :: "RtSigEntry \<Rightarrow> RtSigEntry list \<Rightarrow> RtSigEntry list" where
  "rt_replace e [] = [e]"
| "rt_replace e (x # xs) =
    (if rt_signum x = rt_signum e
     then x\<lparr>rt_si_value := rt_si_value e, rt_si_code := rt_si_code e\<rparr> # xs
     else x # rt_replace e xs)"

text \<open>Removal of the first entry of a signal, with its value and code.\<close>

definition rt_take :: "u32 \<Rightarrow> RtSigEntry list \<Rightarrow> (i32 \<times> i32) \<times> RtSigEntry list" where
  "rt_take signum q = (case position (\<lambda>e. rt_signum e = signum) q of
     Some pos \<Rightarrow> ((rt_si_value (q ! pos), rt_si_code (q ! pos)), remove_nth pos q)
   | None \<Rightarrow> ((0, 0), q))"

definition rt_any :: "u32 \<Rightarrow> RtSigEntry list \<Rightarrow> bool" where
  "rt_any signum q = list_ex (\<lambda>e. rt_signum e = signum) q"

text \<open>The part of \<open>raise_internal\<close> both states share: the new mask and the new queue.\<close>

definition sigq_raise :: "u32 \<Rightarrow> i32 \<Rightarrow> i32 \<Rightarrow> u64 \<Rightarrow> RtSigEntry list \<Rightarrow> u64 \<times> RtSigEntry list" where
  "sigq_raise signum si_value si_code pending q =
    (let e = \<lparr>rt_signum = signum, rt_si_value = si_value, rt_si_code = si_code\<rparr> in
     (pending OR sig_bit signum,
      if signum \<ge> SIGRTMIN then q @ [e]
      else if si_code \<noteq> 0 then rt_replace e q
      else q))"

section \<open>Per-thread state\<close>

record PerThreadSignalState =
  pts_blocked :: u64
  pts_pending :: u64
  pts_rt_queue :: "RtSigEntry list"
  pts_sigsuspend_saved_mask :: "u64 option"

definition pts_new :: PerThreadSignalState where
  "pts_new = \<lparr>pts_blocked = 0, pts_pending = 0, pts_rt_queue = [], pts_sigsuspend_saved_mask = None\<rparr>"

definition pts_raise_internal ::
    "u32 \<Rightarrow> i32 \<Rightarrow> i32 \<Rightarrow> PerThreadSignalState \<Rightarrow> bool \<times> PerThreadSignalState" where
  "pts_raise_internal signum si_value si_code s =
    (if signum = 0 \<or> signum \<ge> NSIG then (False, s)
     else
       (let (p, q) = sigq_raise signum si_value si_code (pts_pending s) (pts_rt_queue s)
        in (True, s\<lparr>pts_pending := p, pts_rt_queue := q\<rparr>)))"

definition pts_raise :: "u32 \<Rightarrow> PerThreadSignalState \<Rightarrow> bool \<times> PerThreadSignalState" where
  "pts_raise signum s = pts_raise_internal signum 0 0 s"

definition pts_raise_with_value :: "u32 \<Rightarrow> i32 \<Rightarrow> PerThreadSignalState \<Rightarrow> bool \<times> PerThreadSignalState" where
  "pts_raise_with_value signum si_value s = pts_raise_internal signum si_value (- 1) s"

definition pts_clear_pending :: "u32 \<Rightarrow> PerThreadSignalState \<Rightarrow> PerThreadSignalState" where
  "pts_clear_pending signum s =
    (if signum > 0 \<and> signum < NSIG
     then s\<lparr>pts_pending := pts_pending s AND NOT (sig_bit signum),
            pts_rt_queue := filter (\<lambda>e. rt_signum e \<noteq> signum) (pts_rt_queue s)\<rparr>
     else s)"

definition pts_is_blocked :: "PerThreadSignalState \<Rightarrow> u32 \<Rightarrow> bool" where
  "pts_is_blocked s signum =
    (if signum \<ge> NSIG then False else pts_blocked s AND sig_bit signum \<noteq> 0)"

definition pts_dequeue ::
    "PerThreadSignalState \<Rightarrow> (u32 \<times> i32 \<times> i32) option \<times> PerThreadSignalState" where
  "pts_dequeue s =
    (let deliverable = pts_pending s AND NOT (pts_blocked s) in
     if deliverable = 0 then (None, s)
     else
       (let signum = word_of_nat (trailing_zeros deliverable) + 1 in
        if signum \<ge> NSIG then (None, s)
        else
          (let ((v, c), q) = rt_take signum (pts_rt_queue s);
               p = (if signum \<ge> SIGRTMIN then
                      (if \<not> rt_any signum q then pts_pending s AND NOT (sig_bit signum) else pts_pending s)
                    else pts_pending s AND NOT (sig_bit signum))
           in (Some (signum, v, c), s\<lparr>pts_pending := p, pts_rt_queue := q\<rparr>))))"

section \<open>Process-wide state\<close>

record SignalState =
  ss_actions :: "SignalAction list"
  ss_blocked :: u64
  ss_pending :: u64
  ss_rt_queue :: "RtSigEntry list"

definition ss_new :: SignalState where
  "ss_new = \<lparr>ss_actions = replicate 65 sa_default, ss_blocked = 0, ss_pending = 0, ss_rt_queue = []\<rparr>"

definition ss_get_handler :: "SignalState \<Rightarrow> u32 \<Rightarrow> SignalHandler" where
  "ss_get_handler s signum =
    (if signum = 0 \<or> signum \<ge> 65 then HDefault else sa_handler (ss_actions s ! unat signum))"

definition ss_clear_pending :: "u32 \<Rightarrow> SignalState \<Rightarrow> SignalState" where
  "ss_clear_pending signum s =
    (if signum > 0 \<and> signum < NSIG
     then s\<lparr>ss_pending := ss_pending s AND NOT (sig_bit signum),
            ss_rt_queue := filter (\<lambda>e. rt_signum e \<noteq> signum) (ss_rt_queue s)\<rparr>
     else s)"

text \<open>\<open>clear\<close> has the same body as \<open>clear_pending\<close>.\<close>

definition ss_clear :: "u32 \<Rightarrow> SignalState \<Rightarrow> SignalState" where
  "ss_clear signum s = ss_clear_pending signum s"

definition ss_set_handler ::
    "u32 \<Rightarrow> SignalHandler \<Rightarrow> SignalState \<Rightarrow> (SignalHandler, unit) result \<times> SignalState" where
  "ss_set_handler signum handler s =
    (if signum = 0 \<or> signum \<ge> 65 then (Err (), s)
     else if signum = SIGKILL \<or> signum = SIGSTOP then (Err (), s)
     else
       (let i = unat signum;
            old = sa_handler (ss_actions s ! i);
            s = s\<lparr>ss_actions := (ss_actions s)[i := (ss_actions s ! i)\<lparr>sa_handler := handler\<rparr>]\<rparr>
        in (Ok old, if should_discard_pending signum handler then ss_clear_pending signum s else s)))"

definition ss_get_action :: "SignalState \<Rightarrow> u32 \<Rightarrow> SignalAction" where
  "ss_get_action s signum =
    (if signum = 0 \<or> signum \<ge> 65 then sa_default else ss_actions s ! unat signum)"

definition ss_set_action ::
    "u32 \<Rightarrow> SignalAction \<Rightarrow> SignalState \<Rightarrow> (SignalAction, unit) result \<times> SignalState" where
  "ss_set_action signum action s =
    (if signum = 0 \<or> signum \<ge> 65 then (Err (), s)
     else if signum = SIGKILL \<or> signum = SIGSTOP then (Err (), s)
     else
       (let i = unat signum;
            old = ss_actions s ! i;
            s = s\<lparr>ss_actions := (ss_actions s)[i := action]\<rparr>
        in (Ok old, if should_discard_pending signum (sa_handler action)
                    then ss_clear_pending signum s else s)))"

definition ss_raise_internal :: "u32 \<Rightarrow> i32 \<Rightarrow> i32 \<Rightarrow> SignalState \<Rightarrow> bool \<times> SignalState" where
  "ss_raise_internal signum si_value si_code s =
    (if signum = 0 \<or> signum \<ge> 65 then (False, s)
     else
       (let (p, q) = sigq_raise signum si_value si_code (ss_pending s) (ss_rt_queue s)
        in (True, s\<lparr>ss_pending := p, ss_rt_queue := q\<rparr>)))"

definition ss_raise :: "u32 \<Rightarrow> SignalState \<Rightarrow> bool \<times> SignalState" where
  "ss_raise signum s = ss_raise_internal signum 0 0 s"

definition ss_raise_with_value :: "u32 \<Rightarrow> i32 \<Rightarrow> SignalState \<Rightarrow> bool \<times> SignalState" where
  "ss_raise_with_value signum si_value s = ss_raise_internal signum si_value (- 1) s"

definition ss_is_pending :: "SignalState \<Rightarrow> u32 \<Rightarrow> bool" where
  "ss_is_pending s signum = (if signum \<ge> 65 then False else ss_pending s AND sig_bit signum \<noteq> 0)"

definition ss_consume_one :: "u32 \<Rightarrow> SignalState \<Rightarrow> (i32 \<times> i32) \<times> SignalState" where
  "ss_consume_one signum s =
    (if signum = 0 \<or> signum \<ge> NSIG then ((0, 0), s)
     else
       (let (vc, q) = rt_take signum (ss_rt_queue s);
            p = (if signum \<ge> SIGRTMIN then
                   (if \<not> rt_any signum q then ss_pending s AND NOT (sig_bit signum) else ss_pending s)
                 else ss_pending s AND NOT (sig_bit signum))
        in (vc, s\<lparr>ss_pending := p, ss_rt_queue := q\<rparr>)))"

definition ss_is_blocked :: "SignalState \<Rightarrow> u32 \<Rightarrow> bool" where
  "ss_is_blocked s signum = (if signum \<ge> 65 then False else ss_blocked s AND sig_bit signum \<noteq> 0)"

definition ss_deliverable :: "SignalState \<Rightarrow> u64" where
  "ss_deliverable s = ss_pending s AND NOT (ss_blocked s)"

definition ss_peek_deliverable :: "SignalState \<Rightarrow> u32 option" where
  "ss_peek_deliverable s =
    (let deliverable = ss_pending s AND NOT (ss_blocked s) in
     if deliverable = 0 then None
     else (let signum = word_of_nat (trailing_zeros deliverable) + 1
           in if signum \<ge> 65 then None else Some signum))"

definition ss_dequeue :: "SignalState \<Rightarrow> (u32 \<times> i32 \<times> i32) option \<times> SignalState" where
  "ss_dequeue s =
    (let deliverable = ss_pending s AND NOT (ss_blocked s) in
     if deliverable = 0 then (None, s)
     else
       (let signum = word_of_nat (trailing_zeros deliverable) + 1 in
        if signum \<ge> SIGRTMIN then
          (let ((v, c), q) = rt_take signum (ss_rt_queue s);
               p = (if \<not> rt_any signum q then ss_pending s AND NOT (sig_bit signum) else ss_pending s)
           in (Some (signum, v, c), s\<lparr>ss_pending := p, ss_rt_queue := q\<rparr>))
        else
          (let p = ss_pending s AND NOT (sig_bit signum);
               ((v, c), q) = rt_take signum (ss_rt_queue s)
           in (Some (signum, v, c), s\<lparr>ss_pending := p, ss_rt_queue := q\<rparr>))))"

definition ss_should_restart :: "SignalState \<Rightarrow> bool" where
  "ss_should_restart s =
    (let deliverable = ss_pending s AND NOT (ss_blocked s) in
     if deliverable = 0 then False
     else
       (let signum = word_of_nat (trailing_zeros deliverable) + 1 :: u32 in
        if signum \<ge> 65 then False
        else sa_flags (ss_actions s ! unat signum) AND SA_RESTART \<noteq> 0))"

definition ss_from_parts :: "SignalHandler list \<Rightarrow> u64 \<Rightarrow> SignalState" where
  "ss_from_parts handlers blocked =
    \<lparr>ss_actions = map (\<lambda>h. sa_default\<lparr>sa_handler := h\<rparr>) handlers, ss_blocked = blocked,
     ss_pending = 0, ss_rt_queue = []\<rparr>"

definition ss_from_actions :: "SignalAction list \<Rightarrow> u64 \<Rightarrow> SignalState" where
  "ss_from_actions actions blocked =
    \<lparr>ss_actions = actions, ss_blocked = blocked, ss_pending = 0, ss_rt_queue = []\<rparr>"

definition ss_from_parts_with_pending :: "SignalHandler list \<Rightarrow> u64 \<Rightarrow> u64 \<Rightarrow> SignalState" where
  "ss_from_parts_with_pending handlers blocked pending =
    \<lparr>ss_actions = map (\<lambda>h. sa_default\<lparr>sa_handler := h\<rparr>) handlers, ss_blocked = blocked,
     ss_pending = pending,
     ss_rt_queue = map (\<lambda>sig. \<lparr>rt_signum = sig, rt_si_value = 0, rt_si_code = 0\<rparr>)
       (filter (\<lambda>sig. pending AND sig_bit sig \<noteq> 0) (map word_of_nat [32..<65]))\<rparr>"

definition ss_handlers :: "SignalState \<Rightarrow> SignalHandler list" where
  "ss_handlers s = map sa_handler (ss_actions s)"

section \<open>Masks and queues\<close>

definition sig_valid :: "u32 \<Rightarrow> bool" where
  "sig_valid signum \<longleftrightarrow> signum \<noteq> 0 \<and> signum < 65"

definition sig_idx :: "u32 \<Rightarrow> nat" where
  "sig_idx signum = unat signum - 1"

text \<open>The queued values of one signal, oldest first.\<close>

definition sigvals :: "u32 \<Rightarrow> RtSigEntry list \<Rightarrow> (i32 \<times> i32) list" where
  "sigvals signum q =
    map (\<lambda>e. (rt_si_value e, rt_si_code e)) (filter (\<lambda>e. rt_signum e = signum) q)"

text \<open>
  The queue only holds valid pending signals, a real-time signal is pending exactly while it has
  queued instances, and a standard signal has at most one.
\<close>

definition sigq_wf :: "u64 \<Rightarrow> RtSigEntry list \<Rightarrow> bool" where
  "sigq_wf p q \<longleftrightarrow>
    (\<forall>s. sigvals s q \<noteq> [] \<longrightarrow> sig_valid s \<and> bit p (sig_idx s)) \<and>
    (\<forall>s. SIGRTMIN \<le> s \<and> s < 65 \<and> bit p (sig_idx s) \<longrightarrow> sigvals s q \<noteq> []) \<and>
    (\<forall>s. s < SIGRTMIN \<longrightarrow> length (sigvals s q) \<le> 1)"

lemma sigvals_simps [simp]:
  "sigvals s [] = []"
  "sigvals s (e # q) = (if rt_signum e = s then (rt_si_value e, rt_si_code e) # sigvals s q else sigvals s q)"
  "sigvals s (q @ q') = sigvals s q @ sigvals s q'"
  by (simp_all add: sigvals_def)

lemma rt_any_sigvals: "rt_any s q \<longleftrightarrow> sigvals s q \<noteq> []"
  by (induction q) (auto simp: rt_any_def)

lemma sig_valid_idx: "sig_valid s \<Longrightarrow> sig_idx s < 64 \<and> unat s = Suc (sig_idx s)"
  by (auto simp: sig_valid_def sig_idx_def word_less_nat_alt unat_gt_0 [symmetric])

lemma sig_idx_inj: "sig_valid s \<Longrightarrow> sig_valid t \<Longrightarrow> sig_idx s = sig_idx t \<Longrightarrow> s = t"
  using sig_valid_idx by (metis word_unat_eq_iff)

lemma bit_sig_bit: "bit (sig_bit s) i \<longleftrightarrow> sig_valid s \<and> i = sig_idx s"
proof (cases "sig_valid s")
  case True
  then have "unat (s - 1) = sig_idx s"
    by (simp add: sig_valid_def sig_idx_def unat_minus_one)
  with True sig_valid_idx [OF True] show ?thesis
    by (auto simp: sig_bit_def sig_valid_def not_le [symmetric] bit_exp_iff)
next
  case False
  then show ?thesis by (auto simp: sig_bit_def sig_valid_def not_less)
qed

lemma bit_raise_mask: "bit (p OR sig_bit s) i \<longleftrightarrow> bit p i \<or> (sig_valid s \<and> i = sig_idx s)"
  by (simp add: bit_or_iff bit_sig_bit)

lemma bit_clear_mask:
  "bit (p AND NOT (sig_bit s)) i \<longleftrightarrow> bit p i \<and> \<not> (sig_valid s \<and> i = sig_idx s)"
proof (cases "i < 64")
  case False
  then have "\<not> bit p i" by (simp add: impossible_bit)
  then show ?thesis by (simp add: bit_and_iff)
qed (simp add: bit_and_iff bit_not_iff bit_sig_bit)

lemma trailing_zeros_props:
  assumes "w \<noteq> 0"
  shows "trailing_zeros w < 64" and "bit w (trailing_zeros w)"
    and "i < trailing_zeros w \<Longrightarrow> \<not> bit w i"
proof -
  have "position (bit w) [0..<64] \<noteq> None"
  proof
    assume "position (bit w) [0..<64] = None"
    then have "w = 0" by (intro bit_word_eqI) (simp add: position_None_iff)
    with assms show False by simp
  qed
  then obtain k where k: "position (bit w) [0..<64] = Some k" by blast
  then have "trailing_zeros w = k" by (simp add: trailing_zeros_def)
  with k have "trailing_zeros w < 64 \<and> bit w (trailing_zeros w) \<and> (\<forall>i<trailing_zeros w. \<not> bit w i)"
    by (auto simp: position_Some_iff)
  then show "trailing_zeros w < 64" "bit w (trailing_zeros w)"
    "i < trailing_zeros w \<Longrightarrow> \<not> bit w i" by simp_all
qed

lemma next_signal:
  assumes "w \<noteq> 0"
  defines "s \<equiv> word_of_nat (trailing_zeros w) + 1 :: u32"
  shows "sig_valid s" and "sig_idx s = trailing_zeros w" and "\<not> 65 \<le> s"
proof -
  have "unat s = trailing_zeros w + 1"
    using trailing_zeros_props(1) [OF assms(1)]
    by (simp add: s_def unat_word_ariths unat_of_nat)
  with trailing_zeros_props(1) [OF assms(1)]
  show "sig_valid s" "sig_idx s = trailing_zeros w" "\<not> 65 \<le> s"
    by (auto simp: sig_valid_def sig_idx_def word_less_nat_alt word_le_nat_alt)
qed

lemma rt_take_Nil: "rt_take s [] = ((0, 0), [])"
  by (simp add: rt_take_def)

lemma rt_take_Cons:
  "rt_take s (e # q) = (if rt_signum e = s then ((rt_si_value e, rt_si_code e), q)
     else (case rt_take s q of (vc, q') \<Rightarrow> (vc, e # q')))"
  by (simp add: rt_take_def remove_nth_def split: option.split)

lemma rt_take_vals:
  assumes "rt_take s q = (vc, q')"
  shows "sigvals t q' = (if t = s then tl (sigvals s q) else sigvals t q)"
    and "vc = (case sigvals s q of [] \<Rightarrow> (0, 0) | x # _ \<Rightarrow> x)"
proof -
  have "sigvals t q' = (if t = s then tl (sigvals s q) else sigvals t q) \<and>
      vc = (case sigvals s q of [] \<Rightarrow> (0, 0) | x # _ \<Rightarrow> x)"
    using assms
    by (induction q arbitrary: q') (auto simp: rt_take_Nil rt_take_Cons split: if_splits prod.splits)
  then show "sigvals t q' = (if t = s then tl (sigvals s q) else sigvals t q)"
    and "vc = (case sigvals s q of [] \<Rightarrow> (0, 0) | x # _ \<Rightarrow> x)" by simp_all
qed

lemma rt_replace_vals:
  "length (sigvals (rt_signum e) q) \<le> 1 \<Longrightarrow> sigvals t (rt_replace e q) =
    (if t = rt_signum e then [(rt_si_value e, rt_si_code e)] else sigvals t q)"
  by (induction e q rule: rt_replace.induct) auto

section \<open>Raising and consuming keep mask and queue consistent\<close>

lemma sigq_wf_empty [simp]: "sigq_wf 0 []"
  by (simp add: sigq_wf_def)

lemma sigq_raise_wf:
  assumes "sigq_wf p q" "sig_valid s" "sigq_raise s v c p q = (p', q')"
  shows "sigq_wf p' q'"
proof -
  have p': "p' = p OR sig_bit s" using assms(3) by (simp add: sigq_raise_def Let_def)
  have q': "sigvals t q' = (if SIGRTMIN \<le> s then sigvals t q @ (if t = s then [(v, c)] else [])
      else if c \<noteq> 0 \<and> t = s then [(v, c)] else sigvals t q)" for t
    using assms(1,3) rt_replace_vals [of "\<lparr>rt_signum = s, rt_si_value = v, rt_si_code = c\<rparr>" q t]
    by (auto simp: sigq_raise_def Let_def sigq_wf_def not_le)
  have w: "\<And>t. sigvals t q \<noteq> [] \<Longrightarrow> sig_valid t \<and> bit p (sig_idx t)"
      "\<And>t. SIGRTMIN \<le> t \<Longrightarrow> t < 65 \<Longrightarrow> bit p (sig_idx t) \<Longrightarrow> sigvals t q \<noteq> []"
      "\<And>t. t < SIGRTMIN \<Longrightarrow> length (sigvals t q) \<le> 1"
    using assms(1) unfolding sigq_wf_def by blast+
  show ?thesis
    unfolding sigq_wf_def p' bit_raise_mask q'
  proof (intro conjI allI impI, goal_cases)
    case (1 t)
    then show ?case using assms(2) w(1) [of t] by (auto split: if_splits)
  next
    case (2 t)
    then show ?case using w(1) [of t] assms(2) by (auto split: if_splits)
  next
    case (3 t)
    then have "sig_valid t" by (auto simp: sig_valid_def)
    with 3 w(2) [of t] sig_idx_inj [OF assms(2), of t] assms(2) show ?case by auto
  next
    case (4 t)
    then show ?case using w(3) [of t] by auto
  qed
qed

text \<open>The common core of \<open>dequeue\<close> and \<open>consume_one\<close>.\<close>

definition sigq_consume :: "u32 \<Rightarrow> u64 \<Rightarrow> RtSigEntry list \<Rightarrow> (i32 \<times> i32) \<times> u64 \<times> RtSigEntry list" where
  "sigq_consume s p q = (let (vc, q') = rt_take s q in
    (vc, if SIGRTMIN \<le> s \<and> rt_any s q' then p else p AND NOT (sig_bit s), q'))"

lemma sigq_consume_props:
  assumes "sigq_wf p q" "sig_valid s" "sigq_consume s p q = (vc, p', q')"
  shows "sigq_wf p' q'"
    and "sigvals t q' = (if t = s then tl (sigvals s q) else sigvals t q)"
    and "vc = (case sigvals s q of [] \<Rightarrow> (0, 0) | x # _ \<Rightarrow> x)"
    and "bit p' i \<longleftrightarrow> bit p i \<and> (i \<noteq> sig_idx s \<or> (SIGRTMIN \<le> s \<and> tl (sigvals s q) \<noteq> []))"
proof -
  obtain q1 where take: "rt_take s q = (vc, q1)" and [simp]: "q' = q1"
    using assms(3) by (auto simp: sigq_consume_def split: prod.splits)
  note v = rt_take_vals [OF take]
  show q': "sigvals t q' = (if t = s then tl (sigvals s q) else sigvals t q)" for t
    using v(1) by simp
  show "vc = (case sigvals s q of [] \<Rightarrow> (0, 0) | x # _ \<Rightarrow> x)" by (fact v(2))
  show p': "bit p' i \<longleftrightarrow> bit p i \<and> (i \<noteq> sig_idx s \<or> (SIGRTMIN \<le> s \<and> tl (sigvals s q) \<noteq> []))" for i
    using assms(2,3) take v(1) [of s]
    by (auto simp: sigq_consume_def rt_any_sigvals bit_clear_mask split: if_splits)
  have w: "\<And>t. sigvals t q \<noteq> [] \<Longrightarrow> sig_valid t \<and> bit p (sig_idx t)"
      "\<And>t. SIGRTMIN \<le> t \<Longrightarrow> t < 65 \<Longrightarrow> bit p (sig_idx t) \<Longrightarrow> sigvals t q \<noteq> []"
      "\<And>t. t < SIGRTMIN \<Longrightarrow> length (sigvals t q) \<le> 1"
    using assms(1) unfolding sigq_wf_def by blast+
  have rt: "SIGRTMIN \<le> s" if "tl (sigvals s q) \<noteq> []"
    using w(3) [of s] that by (cases "sigvals s q") (auto simp: not_less [symmetric])
  show "sigq_wf p' q'"
    unfolding sigq_wf_def p' q'
  proof (intro conjI allI impI, goal_cases)
    case (1 t)
    then show ?case using w(1) [of t] assms(2) by (auto split: if_splits)
  next
    case (2 t)
    then have "sigvals t q \<noteq> []" by (auto split: if_splits)
    then show ?case using w(1) by blast
  next
    case (3 t)
    then have "sigvals t q \<noteq> []" by (auto split: if_splits)
    with 3 w(1) [of t] rt assms(2) show ?case by (auto split: if_splits dest: sig_idx_inj)
  next
    case (4 t)
    then have "sig_valid t" by (auto simp: sig_valid_def)
    with 4 w(2) [of t] show ?case by auto
  next
    case (5 t)
    then show ?case using w(3) [of t] by (auto simp: le_diff_conv)
  qed
qed

section \<open>The contract of a signal queue\<close>

definition deliverable_next :: "u64 \<Rightarrow> u32 \<Rightarrow> bool" where
  "deliverable_next d s \<longleftrightarrow> sig_valid s \<and> bit d (sig_idx s) \<and> (\<forall>i < sig_idx s. \<not> bit d i)"

fun raise_all :: "('v \<Rightarrow> 's \<Rightarrow> 's) \<Rightarrow> 'v list \<Rightarrow> 's \<Rightarrow> 's" where
  "raise_all f [] s = s"
| "raise_all f (v # vs) s = raise_all f vs (f v s)"

fun dequeue_n :: "('s \<Rightarrow> 'r option \<times> 's) \<Rightarrow> nat \<Rightarrow> 's \<Rightarrow> 'r option list \<times> 's" where
  "dequeue_n f 0 s = ([], s)"
| "dequeue_n f (Suc n) s = (let (r, s') = f s; (rs, s'') = dequeue_n f n s' in (r # rs, s''))"

text \<open>
  A state with a pending mask, a blocked mask and a queue. Raising a signal makes it pending and,
  for a real-time signal, appends an instance; dequeuing takes the oldest instance of the lowest
  deliverable signal.
\<close>

locale signal_queue =
  fixes pend :: "'s \<Rightarrow> u64" and blk :: "'s \<Rightarrow> u64" and que :: "'s \<Rightarrow> RtSigEntry list"
    and raise :: "u32 \<Rightarrow> i32 \<Rightarrow> i32 \<Rightarrow> 's \<Rightarrow> bool \<times> 's"
    and dequeue :: "'s \<Rightarrow> (u32 \<times> i32 \<times> i32) option \<times> 's"
  assumes raise_ok: "sig_valid s \<Longrightarrow> fst (raise s v c st)"
    and raise_blk: "blk (snd (raise s v c st)) = blk st"
    and raise_pend: "sig_valid s \<Longrightarrow>
      bit (pend (snd (raise s v c st))) i \<longleftrightarrow> bit (pend st) i \<or> i = sig_idx s"
    and raise_rt: "sig_valid s \<Longrightarrow> SIGRTMIN \<le> s \<Longrightarrow>
      sigvals t (que (snd (raise s v c st))) = sigvals t (que st) @ (if t = s then [(v, c)] else [])"
    and raise_wf: "sigq_wf (pend st) (que st) \<Longrightarrow> sig_valid s \<Longrightarrow>
      sigq_wf (pend (snd (raise s v c st))) (que (snd (raise s v c st)))"
    and dequeue_idle: "pend st AND NOT (blk st) = 0 \<Longrightarrow> dequeue st = (None, st)"
    and dequeue_next: "sigq_wf (pend st) (que st) \<Longrightarrow> deliverable_next (pend st AND NOT (blk st)) s \<Longrightarrow>
      \<exists>v c st'. dequeue st = (Some (s, v, c), st') \<and> blk st' = blk st \<and>
        sigq_wf (pend st') (que st') \<and>
        (v, c) = (case sigvals s (que st) of [] \<Rightarrow> (0, 0) | x # _ \<Rightarrow> x) \<and>
        (\<forall>t. sigvals t (que st') = (if t = s then tl (sigvals s (que st)) else sigvals t (que st))) \<and>
        (\<forall>i. bit (pend st') i \<longleftrightarrow> bit (pend st) i \<and>
           (i \<noteq> sig_idx s \<or> (SIGRTMIN \<le> s \<and> tl (sigvals s (que st)) \<noteq> [])))"
begin

lemma dequeue_rt_all:
  assumes "sigq_wf (pend st) (que st)" "SIGRTMIN \<le> s" "sig_valid s"
    and "\<not> bit (blk st) (sig_idx s)" "\<forall>i < sig_idx s. \<not> bit (pend st AND NOT (blk st)) i"
    and "sigvals s (que st) = vs"
  shows "fst (dequeue_n dequeue (length vs) st) = map (\<lambda>(v, c). Some (s, v, c)) vs \<and>
    \<not> bit (pend (snd (dequeue_n dequeue (length vs) st))) (sig_idx s)"
  using assms
proof (induction vs arbitrary: st)
  case Nil
  then show ?case by (auto simp: sigq_wf_def sig_valid_def)
next
  case (Cons x vs)
  obtain v c where x: "x = (v, c)" by (cases x)
  have idx: "sig_idx s < 64" using sig_valid_idx [OF assms(3)] by simp
  have "bit (pend st) (sig_idx s)" using Cons.prems(1,6) by (auto simp: sigq_wf_def)
  with Cons.prems(3-5) idx have "deliverable_next (pend st AND NOT (blk st)) s"
    by (simp add: deliverable_next_def bit_and_iff bit_not_iff)
  from dequeue_next [OF Cons.prems(1) this] obtain st' where
    d: "dequeue st = (Some (s, v, c), st')" "blk st' = blk st" "sigq_wf (pend st') (que st')"
      "sigvals s (que st') = vs" "\<And>i. bit (pend st') i \<Longrightarrow> bit (pend st) i"
    using Cons.prems(6) x by auto
  have "\<forall>i < sig_idx s. \<not> bit (pend st' AND NOT (blk st')) i"
    using Cons.prems(5) d(2,5) by (auto simp: bit_and_iff)
  with Cons.IH [OF d(3) Cons.prems(2,3)] Cons.prems(4) d show ?case
    by (auto simp: x split: prod.splits)
qed

lemma raise_all_rt:
  fixes vs :: "(i32 \<times> i32) list"
  assumes "sigq_wf (pend st) (que st)" "SIGRTMIN \<le> s" "sig_valid s"
  defines "st' \<equiv> raise_all (\<lambda>(v, c) st. snd (raise s v c st)) vs st"
  shows "sigq_wf (pend st') (que st') \<and> blk st' = blk st \<and>
    sigvals s (que st') = sigvals s (que st) @ vs \<and>
    (\<forall>i. bit (pend st') i \<longrightarrow> bit (pend st) i \<or> i = sig_idx s)"
  using assms(1) unfolding st'_def
proof (induction vs arbitrary: st)
  case (Cons x vs)
  obtain v c where x: "x = (v, c)" by (cases x)
  have w: "sigq_wf (pend (snd (raise s v c st))) (que (snd (raise s v c st)))"
    by (rule raise_wf [OF Cons.prems assms(3)])
  show ?case
    using Cons.IH [OF w] by (auto simp: x raise_blk raise_rt [OF assms(3,2)] raise_pend [OF assms(3)])
qed simp

lemma raise_dequeue_fifo:
  fixes vs :: "(i32 \<times> i32) list"
  assumes "sigq_wf (pend st) (que st)" "SIGRTMIN \<le> s" "sig_valid s"
    and "\<not> bit (blk st) (sig_idx s)" "\<forall>i < sig_idx s. \<not> bit (pend st AND NOT (blk st)) i"
  defines "st' \<equiv> raise_all (\<lambda>(v, c) st. snd (raise s v c st)) vs st"
    and "n \<equiv> length (sigvals s (que st)) + length vs"
  shows "fst (dequeue_n dequeue n st') = map (\<lambda>(v, c). Some (s, v, c)) (sigvals s (que st) @ vs) \<and>
    \<not> bit (pend (snd (dequeue_n dequeue n st'))) (sig_idx s)"
proof -
  note r = raise_all_rt [OF assms(1-3), of vs, folded st'_def]
  have "\<forall>i < sig_idx s. \<not> bit (pend st' AND NOT (blk st')) i"
    using assms(5) r by (auto simp: bit_and_iff)
  with dequeue_rt_all [OF _ assms(2,3), of st' "sigvals s (que st) @ vs"] r assms(4)
  show ?thesis by (simp add: n_def)
qed

end

lemma pts_dequeue_eq:
  "pts_dequeue s = (let d = pts_pending s AND NOT (pts_blocked s) in if d = 0 then (None, s) else
     (let sg = word_of_nat (trailing_zeros d) + 1;
          ((v, c), p, q) = sigq_consume sg (pts_pending s) (pts_rt_queue s)
      in (Some (sg, v, c), s\<lparr>pts_pending := p, pts_rt_queue := q\<rparr>)))"
  using next_signal(3) [of "pts_pending s AND NOT (pts_blocked s)"]
  by (auto simp: pts_dequeue_def sigq_consume_def Let_def split: prod.splits)

lemma ss_dequeue_eq:
  "ss_dequeue s = (let d = ss_pending s AND NOT (ss_blocked s) in if d = 0 then (None, s) else
     (let sg = word_of_nat (trailing_zeros d) + 1;
          ((v, c), p, q) = sigq_consume sg (ss_pending s) (ss_rt_queue s)
      in (Some (sg, v, c), s\<lparr>ss_pending := p, ss_rt_queue := q\<rparr>)))"
  by (auto simp: ss_dequeue_def sigq_consume_def Let_def split: prod.splits)

lemma deliverable_next_unique:
  assumes "deliverable_next d s"
  shows "d \<noteq> 0" and "word_of_nat (trailing_zeros d) + 1 = s"
proof -
  show nz: "d \<noteq> 0" using assms by (auto simp: deliverable_next_def)
  have "trailing_zeros d = sig_idx s"
    using trailing_zeros_props(2,3) [OF nz] assms
    by (metis deliverable_next_def linorder_neqE_nat)
  then show "word_of_nat (trailing_zeros d) + 1 = s"
    using next_signal(1,2) [OF nz] assms by (auto simp: deliverable_next_def intro: sig_idx_inj)
qed

lemma sigq_raise_rt:
  "SIGRTMIN \<le> s \<Longrightarrow> sigq_raise s v c p q = (p', q') \<Longrightarrow>
    sigvals t q' = sigvals t q @ (if t = s then [(v, c)] else [])"
  by (auto simp: sigq_raise_def Let_def)

lemma sigq_raise_pend:
  "sig_valid s \<Longrightarrow> sigq_raise s v c p q = (p', q') \<Longrightarrow> bit p' i \<longleftrightarrow> bit p i \<or> i = sig_idx s"
  by (auto simp: sigq_raise_def Let_def bit_raise_mask)

lemma sigq_consume_next:
  assumes "sigq_wf p q" "deliverable_next d s"
  shows "\<exists>v c p' q'. sigq_consume s p q = ((v, c), p', q') \<and> sigq_wf p' q' \<and>
    (v, c) = (case sigvals s q of [] \<Rightarrow> (0, 0) | x # _ \<Rightarrow> x) \<and>
    (\<forall>t. sigvals t q' = (if t = s then tl (sigvals s q) else sigvals t q)) \<and>
    (\<forall>i. bit p' i \<longleftrightarrow> bit p i \<and> (i \<noteq> sig_idx s \<or> (SIGRTMIN \<le> s \<and> tl (sigvals s q) \<noteq> [])))"
proof -
  obtain v c p' q' where r: "sigq_consume s p q = ((v, c), p', q')"
    by (cases "sigq_consume s p q") auto
  have v: "sig_valid s" using assms(2) by (simp add: deliverable_next_def)
  show ?thesis
    using r sigq_consume_props [OF assms(1) v r] by blast
qed

lemmas sigq_laws = sigq_raise_wf sigq_raise_rt sigq_raise_pend

lemma sig_valid_not: "sig_valid s \<Longrightarrow> \<not> (s = 0 \<or> 65 \<le> s)"
  by (auto simp: sig_valid_def)

interpretation psig: signal_queue ss_pending ss_blocked ss_rt_queue ss_raise_internal ss_dequeue
proof (unfold_locales, goal_cases)
  case (7 st s)
  from sigq_consume_next [OF 7] obtain v c p' q' where
    r: "sigq_consume s (ss_pending st) (ss_rt_queue st) = ((v, c), p', q')"
    and w: "sigq_wf p' q' \<and> (v, c) = (case sigvals s (ss_rt_queue st) of [] \<Rightarrow> (0, 0) | x # _ \<Rightarrow> x) \<and>
      (\<forall>t. sigvals t q' = (if t = s then tl (sigvals s (ss_rt_queue st)) else sigvals t (ss_rt_queue st))) \<and>
      (\<forall>i. bit p' i \<longleftrightarrow> bit (ss_pending st) i \<and>
         (i \<noteq> sig_idx s \<or> (SIGRTMIN \<le> s \<and> tl (sigvals s (ss_rt_queue st)) \<noteq> [])))"
    by blast
  have "ss_dequeue st = (Some (s, v, c), st\<lparr>ss_pending := p', ss_rt_queue := q'\<rparr>)"
    using deliverable_next_unique [OF 7(2)] r by (simp add: ss_dequeue_eq Let_def)
  with w show ?case
    by (intro exI [of _ v] exI [of _ c] exI [of _ "st\<lparr>ss_pending := p', ss_rt_queue := q'\<rparr>"]) simp
qed (auto simp: ss_raise_internal_def ss_dequeue_eq sig_valid_not split: prod.splits if_splits
    dest: sigq_laws)

interpretation tsig: signal_queue pts_pending pts_blocked pts_rt_queue pts_raise_internal pts_dequeue
proof (unfold_locales, goal_cases)
  case (7 st s)
  from sigq_consume_next [OF 7] obtain v c p' q' where
    r: "sigq_consume s (pts_pending st) (pts_rt_queue st) = ((v, c), p', q')"
    and w: "sigq_wf p' q' \<and> (v, c) = (case sigvals s (pts_rt_queue st) of [] \<Rightarrow> (0, 0) | x # _ \<Rightarrow> x) \<and>
      (\<forall>t. sigvals t q' = (if t = s then tl (sigvals s (pts_rt_queue st)) else sigvals t (pts_rt_queue st))) \<and>
      (\<forall>i. bit p' i \<longleftrightarrow> bit (pts_pending st) i \<and>
         (i \<noteq> sig_idx s \<or> (SIGRTMIN \<le> s \<and> tl (sigvals s (pts_rt_queue st)) \<noteq> [])))"
    by blast
  have "pts_dequeue st = (Some (s, v, c), st\<lparr>pts_pending := p', pts_rt_queue := q'\<rparr>)"
    using deliverable_next_unique [OF 7(2)] r by (simp add: pts_dequeue_eq Let_def)
  with w show ?case
    by (intro exI [of _ v] exI [of _ c] exI [of _ "st\<lparr>pts_pending := p', pts_rt_queue := q'\<rparr>"]) simp
qed (auto simp: pts_raise_internal_def pts_dequeue_eq sig_valid_not split: prod.splits if_splits
    dest: sigq_laws)

section \<open>Delivery\<close>

lemma sigq_clear_wf:
  assumes "sigq_wf p q" "sig_valid s"
  shows "sigq_wf (p AND NOT (sig_bit s)) (filter (\<lambda>e. rt_signum e \<noteq> s) q)"
proof -
  have v: "sigvals t (filter (\<lambda>e. rt_signum e \<noteq> s) q) = (if t = s then [] else sigvals t q)" for t
    by (induction q) auto
  have w: "\<And>t. sigvals t q \<noteq> [] \<Longrightarrow> sig_valid t \<and> bit p (sig_idx t)"
      "\<And>t. SIGRTMIN \<le> t \<Longrightarrow> t < 65 \<Longrightarrow> bit p (sig_idx t) \<Longrightarrow> sigvals t q \<noteq> []"
      "\<And>t. t < SIGRTMIN \<Longrightarrow> length (sigvals t q) \<le> 1"
    using assms(1) unfolding sigq_wf_def by blast+
  show ?thesis
    unfolding sigq_wf_def v bit_clear_mask
    using w(3) by (auto dest!: w(1) w(2) dest: sig_idx_inj split: if_splits)
qed

lemma and_sig_bit: "sig_valid t \<Longrightarrow> m AND sig_bit t \<noteq> 0 \<longleftrightarrow> bit m (sig_idx t)"
proof
  assume "sig_valid t" "bit m (sig_idx t)"
  then have "bit (m AND sig_bit t) (sig_idx t)" by (simp add: bit_and_iff bit_sig_bit)
  then show "m AND sig_bit t \<noteq> 0" by auto
next
  assume "m AND sig_bit t \<noteq> 0"
  then obtain i where "bit (m AND sig_bit t) i" by (metis bit_0_eq bit_word_eqI bot_apply bot_bool_def)
  then show "bit m (sig_idx t)" by (auto simp: bit_and_iff bit_sig_bit)
qed

lemma ss_is_pending_bit: "sig_valid t \<Longrightarrow> ss_is_pending s t \<longleftrightarrow> bit (ss_pending s) (sig_idx t)"
  and ss_is_blocked_bit: "sig_valid t \<Longrightarrow> ss_is_blocked s t \<longleftrightarrow> bit (ss_blocked s) (sig_idx t)"
  using and_sig_bit [of t] by (auto simp: ss_is_pending_def ss_is_blocked_def sig_valid_def)

text \<open>
  C33: \<open>dequeue\<close> delivers the lowest-numbered signal that is pending and not blocked, with the value
  of its oldest queued instance, and nothing exactly when no such signal exists; \<open>peek\<close> announces
  the same signal. The delivered signal stays pending only while further real-time instances of it
  are queued, of which the others keep their order; the pending state and the queued instances of every
  other signal, the mask and the dispositions are untouched.
\<close>

theorem dequeue_lowest_deliverable:
  assumes "sigq_wf (ss_pending s) (ss_rt_queue s)" and "ss_dequeue s = (r, s')"
  shows "sigq_wf (ss_pending s') (ss_rt_queue s') \<and> ss_blocked s' = ss_blocked s \<and>
    ss_actions s' = ss_actions s \<and> ss_peek_deliverable s = map_option fst r \<and>
    (case r of
       None \<Rightarrow> (\<forall>t. sig_valid t \<longrightarrow> \<not> (ss_is_pending s t \<and> \<not> ss_is_blocked s t)) \<and> s' = s
     | Some (sg, v, c) \<Rightarrow>
         ss_is_pending s sg \<and> \<not> ss_is_blocked s sg \<and>
         (\<forall>t. sig_valid t \<and> t < sg \<longrightarrow> \<not> (ss_is_pending s t \<and> \<not> ss_is_blocked s t)) \<and>
         (v, c) = (case sigvals sg (ss_rt_queue s) of [] \<Rightarrow> (0, 0) | x # _ \<Rightarrow> x) \<and>
         (\<forall>t. sig_valid t \<longrightarrow> (ss_is_pending s' t \<longleftrightarrow> ss_is_pending s t \<and>
            (t \<noteq> sg \<or> SIGRTMIN \<le> sg \<and> tl (sigvals sg (ss_rt_queue s)) \<noteq> []))) \<and>
         (\<forall>t. sigvals t (ss_rt_queue s') = (if t = sg then tl (sigvals t (ss_rt_queue s)) else sigvals t (ss_rt_queue s))))"
proof -
  define d where "d = ss_pending s AND NOT (ss_blocked s)"
  have D: "bit d (sig_idx t) \<longleftrightarrow> ss_is_pending s t \<and> \<not> ss_is_blocked s t" if "sig_valid t" for t
    using that sig_valid_idx [OF that]
    by (simp add: d_def bit_and_iff bit_not_iff ss_is_pending_bit ss_is_blocked_bit)
  show ?thesis
  proof (cases "d = 0")
    case True
    then have "ss_peek_deliverable s = None" "r = None" "s' = s"
      using assms(2) by (auto simp: ss_dequeue_eq ss_peek_deliverable_def d_def)
    with True assms(1) D show ?thesis by auto
  next
    case False
    define sg where "sg = (word_of_nat (trailing_zeros d) + 1 :: u32)"
    note n = next_signal [OF False, folded sg_def]
    have lt: "t < sg \<Longrightarrow> sig_valid t \<Longrightarrow> sig_idx t < sig_idx sg" for t
      using sig_valid_idx [of t] sig_valid_idx [OF n(1)] by (simp add: word_less_nat_alt)
    obtain v c p q where k: "sigq_consume sg (ss_pending s) (ss_rt_queue s) = ((v, c), p, q)"
      by (cases "sigq_consume sg (ss_pending s) (ss_rt_queue s)") auto
    note c = sigq_consume_props [OF assms(1) n(1) k]
    have r: "r = Some (sg, v, c)" "s' = s\<lparr>ss_pending := p, ss_rt_queue := q\<rparr>"
      using assms(2) False k by (simp_all add: ss_dequeue_eq d_def [symmetric] sg_def)
    have "ss_peek_deliverable s = Some sg"
      using False n(3) by (simp add: ss_peek_deliverable_def d_def [symmetric] sg_def)
    moreover have "\<forall>t. sig_valid t \<longrightarrow> (ss_is_pending s' t \<longleftrightarrow> ss_is_pending s t \<and>
        (t \<noteq> sg \<or> SIGRTMIN \<le> sg \<and> tl (sigvals sg (ss_rt_queue s)) \<noteq> []))"
      using c(4) n(1) by (auto simp: r ss_is_pending_bit dest: sig_idx_inj)
    moreover have "\<forall>t. sigvals t (ss_rt_queue s') = (if t = sg then tl (sigvals t (ss_rt_queue s)) else sigvals t (ss_rt_queue s))"
      using c(2) by (simp add: r)
    moreover have "\<forall>t. sig_valid t \<and> t < sg \<longrightarrow> \<not> (ss_is_pending s t \<and> \<not> ss_is_blocked s t)"
      using D trailing_zeros_props(3) [OF False] n(2) lt by auto
    moreover have "ss_is_pending s sg \<and> \<not> ss_is_blocked s sg"
      using D [OF n(1)] trailing_zeros_props(2) [OF False] n(2) by auto
    ultimately show ?thesis using r c(1,3) by simp
  qed
qed

definition demo_signals :: SignalState where
  "demo_signals = snd (ss_raise 17 (snd (ss_raise_with_value 34 6 (snd (ss_raise_with_value 34 5
     (ss_new\<lparr>ss_blocked := sig_bit 17\<rparr>))))))"

lemma demo_signals_wf: "sigq_wf (ss_pending demo_signals) (ss_rt_queue demo_signals)"
  unfolding demo_signals_def ss_raise_def ss_raise_with_value_def
  by (intro psig.raise_wf) (simp_all add: ss_new_def sig_valid_def)

theorem dequeue_lowest_deliverable_witness:
  "sigq_wf (ss_pending demo_signals) (ss_rt_queue demo_signals) \<and>
   (\<exists>s'. ss_dequeue demo_signals = (Some (34, 5, - 1), s') \<and> ss_is_pending s' 34) \<and>
   ss_peek_deliverable demo_signals = Some 34"
proof -
  have "fst (ss_dequeue demo_signals) = Some (34, 5, - 1) \<and> ss_is_pending (snd (ss_dequeue demo_signals)) 34"
    by code_simp
  then obtain s' where run: "ss_dequeue demo_signals = (Some (34, 5, - 1), s')" and "ss_is_pending s' 34"
    by (cases "ss_dequeue demo_signals") auto
  then show ?thesis
    using dequeue_lowest_deliverable [OF demo_signals_wf run] demo_signals_wf by auto
qed

text \<open>
  Real-time signals directed at a thread are queued and delivered in order. If nothing with a
  lower number is deliverable and the signal is not blocked, then after raising it once for every
  element of \<open>vs\<close> the following deliveries return exactly the instances that were already queued
  and then those of \<open>vs\<close>, in order, each with its own value and code, and then the signal is no
  longer pending.
\<close>

theorem thread_rt_signals_fifo:
  assumes "sigq_wf (pts_pending st) (pts_rt_queue st)" and "SIGRTMIN \<le> s" and "sig_valid s"
    and "\<not> bit (pts_blocked st) (sig_idx s)"
    and "\<forall>i < sig_idx s. \<not> bit (pts_pending st AND NOT (pts_blocked st)) i"
    and "st' = raise_all (\<lambda>(v, c) st. snd (pts_raise_internal s v c st)) vs st"
    and "n = length (sigvals s (pts_rt_queue st)) + length vs"
  shows "fst (dequeue_n pts_dequeue n st') =
      map (\<lambda>(v, c). Some (s, v, c)) (sigvals s (pts_rt_queue st) @ vs) \<and>
    \<not> bit (pts_pending (snd (dequeue_n pts_dequeue n st'))) (sig_idx s)"
  unfolding assms(6,7) by (rule tsig.raise_dequeue_fifo [OF assms(1-5)])

theorem thread_rt_signals_fifo_witness:
  "fst (dequeue_n pts_dequeue 2 (snd (pts_raise_with_value 40 8 (snd (pts_raise_with_value 40 7 pts_new)))))
     = [Some (40, 7, - 1), Some (40, 8, - 1)]"
proof -
  have 40: "SIGRTMIN \<le> (40 :: u32)" "sig_valid 40" by (simp_all add: sig_valid_def)
  show ?thesis
    using thread_rt_signals_fifo [OF _ 40, of pts_new _ "[(7, - 1), (8, - 1)]" 2, OF _ _ _ refl]
    by (simp add: pts_new_def pts_raise_with_value_def)
qed

section \<open>Dispositions\<close>

definition ss_wf :: "SignalState \<Rightarrow> bool" where
  "ss_wf s \<longleftrightarrow> length (ss_actions s) = 65 \<and> sigq_wf (ss_pending s) (ss_rt_queue s) \<and>
    sa_handler (ss_actions s ! 9) = HDefault \<and> sa_handler (ss_actions s ! 19) = HDefault"

text \<open>The signal states a process goes through, whatever mask it installs.\<close>

inductive sig_reach :: "SignalState \<Rightarrow> bool" where
  init: "sig_reach ss_new"
| raise: "sig_reach s \<Longrightarrow> sig_reach (snd (ss_raise_internal signum v c s))"
| deliver: "sig_reach s \<Longrightarrow> sig_reach (snd (ss_dequeue s))"
| consume: "sig_reach s \<Longrightarrow> sig_reach (snd (ss_consume_one signum s))"
| clear: "sig_reach s \<Longrightarrow> sig_reach (ss_clear_pending signum s)"
| action: "sig_reach s \<Longrightarrow> sig_reach (snd (ss_set_action signum a s))"
| handler: "sig_reach s \<Longrightarrow> sig_reach (snd (ss_set_handler signum h s))"
| mask: "sig_reach s \<Longrightarrow> sig_reach (s\<lparr>ss_blocked := m\<rparr>)"

lemma ss_clear_pending_wf: "ss_wf s \<Longrightarrow> ss_wf (ss_clear_pending signum s)"
  using sigq_clear_wf [of "ss_pending s" "ss_rt_queue s" signum]
  by (auto simp: ss_wf_def ss_clear_pending_def sig_valid_def)

lemma ss_consume_one_eq:
  "ss_consume_one signum s = (if signum = 0 \<or> signum \<ge> NSIG then ((0, 0), s)
     else (let (vc, p, q) = sigq_consume signum (ss_pending s) (ss_rt_queue s)
           in (vc, s\<lparr>ss_pending := p, ss_rt_queue := q\<rparr>)))"
  by (auto simp: ss_consume_one_def sigq_consume_def Let_def split: prod.splits)

lemma ss_raise_wf: "ss_wf s \<Longrightarrow> ss_wf (snd (ss_raise_internal signum v c s))"
  using psig.raise_wf [of s signum v c]
  by (cases "sig_valid signum") (auto simp: ss_wf_def ss_raise_internal_def sig_valid_def split: prod.splits)

lemma ss_dequeue_wf: "ss_wf s \<Longrightarrow> ss_wf (snd (ss_dequeue s))"
  using next_signal(1) [of "ss_pending s AND NOT (ss_blocked s)"]
  by (auto simp: ss_wf_def ss_dequeue_eq Let_def split: prod.split dest: sigq_consume_props(1))

lemma ss_consume_wf: "ss_wf s \<Longrightarrow> ss_wf (snd (ss_consume_one signum s))"
  by (auto simp: ss_wf_def ss_consume_one_eq Let_def sig_valid_def not_le split: prod.split
      dest: sigq_consume_props(1))

lemma unat_numeral_9: "unat x = 9 \<Longrightarrow> x = (9 :: u32)"
  and unat_numeral_19: "unat x = 19 \<Longrightarrow> x = (19 :: u32)"
  by (simp_all add: word_unat_eq_iff)

lemma ss_actions_wf:
  assumes "ss_wf s" "signum \<noteq> 0" "signum < 65" "signum \<noteq> SIGKILL" "signum \<noteq> SIGSTOP"
  shows "ss_wf (s\<lparr>ss_actions := (ss_actions s)[unat signum := a]\<rparr>)"
proof -
  have "unat signum \<noteq> 9" "unat signum \<noteq> 19"
    using assms(4,5) unat_numeral_9 unat_numeral_19 by blast+
  with assms(1) show ?thesis by (simp add: ss_wf_def)
qed

lemma sig_reach_wf: "sig_reach s \<Longrightarrow> ss_wf s"
proof (induction rule: sig_reach.induct)
  case init
  show ?case by (simp add: ss_wf_def ss_new_def sa_default_def)
next
  case (action s signum a)
  then show ?case by (simp add: ss_set_action_def Let_def not_le ss_actions_wf ss_clear_pending_wf)
next
  case (handler s signum h)
  then show ?case by (simp add: ss_set_handler_def Let_def not_le ss_actions_wf ss_clear_pending_wf)
next
  case (mask s m)
  then show ?case by (simp add: ss_wf_def)
qed (simp_all add: ss_raise_wf ss_dequeue_wf ss_consume_wf ss_clear_pending_wf)

text \<open>
  Along every sequence of signal operations, whatever handlers, masks and signals are used,
  the dispositions of \<open>SIGKILL\<close> and \<open>SIGSTOP\<close> stay the default ones, and the pending mask and the
  queue stay consistent: a real-time signal is pending exactly while instances of it are queued.
\<close>

theorem kill_and_stop_stay_default:
  assumes "sig_reach s"
  shows "ss_get_handler s SIGKILL = HDefault \<and> ss_get_handler s SIGSTOP = HDefault \<and>
    (\<forall>t. SIGRTMIN \<le> t \<and> t < 65 \<longrightarrow> (ss_is_pending s t \<longleftrightarrow> rt_any t (ss_rt_queue s)))"
proof -
  have wf: "ss_wf s" by (rule sig_reach_wf [OF assms])
  have "ss_is_pending s t \<longleftrightarrow> rt_any t (ss_rt_queue s)" if "SIGRTMIN \<le> t" "t < 65" for t
  proof -
    have v: "sig_valid t" using that by (auto simp: sig_valid_def)
    show ?thesis
      using wf that unfolding ss_is_pending_bit [OF v] rt_any_sigvals ss_wf_def sigq_wf_def by blast
  qed
  with wf show ?thesis by (simp add: ss_wf_def ss_get_handler_def)
qed

theorem kill_and_stop_stay_default_witness:
  "sig_reach (snd (ss_set_handler 9 HIgnore ss_new)) \<and>
   ss_get_handler (snd (ss_set_handler 9 HIgnore ss_new)) SIGKILL = HDefault"
proof -
  have r: "sig_reach (snd (ss_set_handler 9 HIgnore ss_new))" by (intro sig_reach.intros)
  then show ?thesis using kill_and_stop_stay_default [OF r] by simp
qed

text \<open>
  Installing an action for any other valid signal returns the old action, is visible for that
  signal only, and discards its pending instances exactly when the new disposition ignores it.
\<close>

theorem set_action_effect:
  assumes "ss_wf s" and "sig_valid g" and "g \<noteq> SIGKILL" and "g \<noteq> SIGSTOP"
    and "ss_set_action g a s = (res, s')"
  shows "res = Ok (ss_get_action s g) \<and>
    (\<forall>t. ss_get_action s' t = (if t = g then a else ss_get_action s t)) \<and>
    (\<forall>t. sig_valid t \<longrightarrow> (ss_is_pending s' t \<longleftrightarrow> ss_is_pending s t \<and>
       \<not> (t = g \<and> (sa_handler a = HIgnore \<or>
            sa_handler a = HDefault \<and> (g = SIGCHLD \<or> g = SIGWINCH)))))"
proof -
  have g: "g \<noteq> 0" "g < 65" "\<not> 65 \<le> g" using assms(2) by (auto simp: sig_valid_def)
  have len: "unat g < length (ss_actions s)"
    using assms(1) g(2) by (simp add: ss_wf_def word_less_nat_alt)
  define s1 where "s1 = s\<lparr>ss_actions := (ss_actions s)[unat g := a]\<rparr>"
  have s': "s' = (if should_discard_pending g (sa_handler a) then ss_clear_pending g s1 else s1)"
      and res: "res = Ok (ss_get_action s g)"
    using assms(3-5) g by (auto simp: ss_set_action_def Let_def s1_def ss_get_action_def)
  have "ss_get_action s' t = (if t = g then a else ss_get_action s t)" for t
    using len g by (auto simp: s' ss_get_action_def ss_clear_pending_def s1_def nth_list_update
        word_unat_eq_iff [symmetric])
  moreover have "should_discard_pending g (sa_handler a) \<longleftrightarrow> sa_handler a = HIgnore \<or>
      sa_handler a = HDefault \<and> (g = SIGCHLD \<or> g = SIGWINCH)"
    by (auto simp: should_discard_pending_def default_action_def split: SignalHandler.split)
  moreover have "ss_is_pending s' t \<longleftrightarrow> ss_is_pending s t \<and> \<not> (t = g \<and> should_discard_pending g (sa_handler a))"
    if "sig_valid t" for t
    using that assms(2) g
    by (auto simp: ss_is_pending_bit s' s1_def ss_clear_pending_def bit_clear_mask word_gt_0 dest: sig_idx_inj)
  ultimately show ?thesis using res by auto
qed

theorem set_action_effect_witness:
  "ss_wf (snd (ss_raise 10 ss_new)) \<and> ss_is_pending (snd (ss_raise 10 ss_new)) 10 \<and>
   \<not> ss_is_pending (snd (ss_set_action 10 \<lparr>sa_handler = HIgnore, sa_flags = 0, sa_mask = 0\<rparr>
       (snd (ss_raise 10 ss_new)))) 10"
proof -
  have wf: "ss_wf (snd (ss_raise 10 ss_new))"
    unfolding ss_raise_def by (intro sig_reach_wf sig_reach.intros)
  have v: "sig_valid 10" by (simp add: sig_valid_def)
  have p: "ss_is_pending (snd (ss_raise 10 ss_new)) 10"
    by (simp add: ss_raise_def ss_raise_internal_def sigq_raise_def ss_new_def ss_is_pending_def sig_bit_def)
  show ?thesis
    using set_action_effect [OF wf v _ _ prod.collapse [symmetric],
        of "\<lparr>sa_handler = HIgnore, sa_flags = 0, sa_mask = 0\<rparr>"] wf v p
    by simp
qed

end
