(* ===== verification/Terminal.thy ===== *)
theory Terminal
  imports Abi
begin

text \<open>
  Terminal state and line discipline, from \<^verbatim>\<open>src/crates/kernel/src/terminal.rs\<close>: the termios codec
  and the processing of one input byte with its echo and signal.
\<close>

section \<open>State\<close>

abbreviation (input) ISIG :: u32 where "ISIG \<equiv> 1"
abbreviation (input) ICANON :: u32 where "ICANON \<equiv> 2"
abbreviation (input) ECHO :: u32 where "ECHO \<equiv> 8"
abbreviation (input) ECHOE :: u32 where "ECHOE \<equiv> 16"
abbreviation (input) ECHOK :: u32 where "ECHOK \<equiv> 32"
abbreviation (input) ECHONL :: u32 where "ECHONL \<equiv> 64"
abbreviation (input) NOFLSH :: u32 where "NOFLSH \<equiv> 128"
abbreviation (input) IEXTEN :: u32 where "IEXTEN \<equiv> 32768"
abbreviation (input) INLCR :: u32 where "INLCR \<equiv> 64"
abbreviation (input) IGNCR :: u32 where "IGNCR \<equiv> 128"
abbreviation (input) ICRNL :: u32 where "ICRNL \<equiv> 256"
abbreviation (input) IXON :: u32 where "IXON \<equiv> 1024"
abbreviation (input) IXANY :: u32 where "IXANY \<equiv> 2048"
abbreviation (input) IMAXBEL :: u32 where "IMAXBEL \<equiv> 8192"
abbreviation (input) OPOST :: u32 where "OPOST \<equiv> 1"
abbreviation (input) ONLCR :: u32 where "ONLCR \<equiv> 4"

abbreviation (input) VINTR :: nat where "VINTR \<equiv> 0"
abbreviation (input) VQUIT :: nat where "VQUIT \<equiv> 1"
abbreviation (input) VERASE :: nat where "VERASE \<equiv> 2"
abbreviation (input) VKILL :: nat where "VKILL \<equiv> 3"
abbreviation (input) VEOF :: nat where "VEOF \<equiv> 4"
abbreviation (input) VTIME :: nat where "VTIME \<equiv> 5"
abbreviation (input) VMIN :: nat where "VMIN \<equiv> 6"
abbreviation (input) VSUSP :: nat where "VSUSP \<equiv> 10"
abbreviation (input) VEOL :: nat where "VEOL \<equiv> 11"

record WinSize =
  ws_row :: u16
  ws_col :: u16
  ws_xpixel :: u16
  ws_ypixel :: u16

record TerminalState =
  c_iflag :: u32
  c_oflag :: u32
  c_cflag :: u32
  c_lflag :: u32
  c_line :: u8
  c_cc :: bytes
  c_ispeed :: u32
  c_ospeed :: u32
  tt_winsize :: WinSize
  foreground_pgid :: i32
  session_id :: i32
  line_buffer :: bytes
  cooked_buffer :: bytes

definition term_new :: TerminalState where
  "term_new =
    (let cc = (replicate 32 0)[0 := 0x03, 1 := 0x1C, 2 := 0x7F, 3 := 0x15, 4 := 0x04, 8 := 0x11,
        9 := 0x13, 10 := 0x1A, 6 := 1, 5 := 0]
     in \<lparr>c_iflag = ICRNL OR IXON OR IXANY OR IMAXBEL, c_oflag = OPOST OR ONLCR,
         c_cflag = 0x30 OR 0x80 OR 0x400 OR 15,
         c_lflag = ECHO OR ECHOE OR ECHOK OR ICANON OR ISIG OR IEXTEN, c_line = 0, c_cc = cc,
         c_ispeed = 15, c_ospeed = 15,
         tt_winsize = \<lparr>ws_row = 24, ws_col = 80, ws_xpixel = 0, ws_ypixel = 0\<rparr>,
         foreground_pgid = 1, session_id = 0, line_buffer = [], cooked_buffer = []\<rparr>)"

section \<open>The termios layout\<close>

definition write_termios :: "TerminalState \<Rightarrow> bytes \<Rightarrow> bytes" where
  "write_termios t buf =
    (let buf = copy_at 0 (to_le 4 (c_iflag t)) buf;
         buf = copy_at 4 (to_le 4 (c_oflag t)) buf;
         buf = copy_at 8 (to_le 4 (c_cflag t)) buf;
         buf = copy_at 12 (to_le 4 (c_lflag t)) buf;
         buf = buf[16 := c_line t];
         buf = copy_at 17 (c_cc t) buf;
         buf = copy_at 49 [0, 0, 0] buf;
         buf = copy_at 52 (to_le 4 (c_ispeed t)) buf
     in copy_at 56 (to_le 4 (c_ospeed t)) buf)"

definition read_termios :: "bytes \<Rightarrow> TerminalState \<Rightarrow> TerminalState" where
  "read_termios buf t = t\<lparr>
     c_iflag := from_le (slice 0 4 buf),
     c_oflag := from_le (slice 4 8 buf),
     c_cflag := from_le (slice 8 12 buf),
     c_lflag := from_le (slice 12 16 buf),
     c_line := buf ! 16,
     c_cc := slice 17 49 buf,
     c_ispeed := from_le (slice 52 56 buf),
     c_ospeed := from_le (slice 56 60 buf)\<rparr>"

section \<open>The line discipline\<close>

definition flag_set :: "u32 \<Rightarrow> u32 \<Rightarrow> bool" where
  "flag_set flags f \<longleftrightarrow> flags AND f \<noteq> 0"

definition is_canonical :: "TerminalState \<Rightarrow> bool" where
  "is_canonical t \<longleftrightarrow> flag_set (c_lflag t) ICANON"

text \<open>The input mapping by \<open>c_iflag\<close>; \<open>None\<close> is a discarded carriage return.\<close>

definition map_input :: "u32 \<Rightarrow> u8 \<Rightarrow> u8 option" where
  "map_input iflag byte =
    (if flag_set iflag ICRNL \<and> byte = 13 then Some 10
     else if flag_set iflag INLCR \<and> byte = 10 then Some 13
     else if flag_set iflag IGNCR \<and> byte = 13 then None
     else Some byte)"

definition isig_char :: "TerminalState \<Rightarrow> u8 \<Rightarrow> u32 option" where
  "isig_char t byte =
    (if byte = c_cc t ! VINTR then Some SIGINT
     else if byte = c_cc t ! VQUIT then Some SIGQUIT
     else if byte = c_cc t ! VSUSP then Some SIGTSTP
     else None)"

definition process_input_byte ::
    "TerminalState \<Rightarrow> u8 \<Rightarrow> (bytes \<times> u32 option) \<times> TerminalState" where
  "process_input_byte t byte0 =
    (let do_echo = flag_set (c_lflag t) ECHO in
     case map_input (c_iflag t) byte0 of
       None \<Rightarrow> (([], None), t)
     | Some byte \<Rightarrow>
       (case (if flag_set (c_lflag t) ISIG then isig_char t byte else None) of
          Some signum \<Rightarrow>
            ((if do_echo then [94, byte XOR 0x40, 10] else [], Some signum),
             if \<not> flag_set (c_lflag t) NOFLSH
             then t\<lparr>line_buffer := [], cooked_buffer := []\<rparr> else t)
        | None \<Rightarrow>
          if \<not> flag_set (c_lflag t) ICANON then (([], None), t)
          else if byte = c_cc t ! VERASE then
            (if line_buffer t \<noteq> []
             then ((if do_echo \<and> flag_set (c_lflag t) ECHOE then [8, 32, 8] else [], None),
                   t\<lparr>line_buffer := butlast (line_buffer t)\<rparr>)
             else (([], None), t))
          else if byte = c_cc t ! VKILL then
            ((if do_echo \<and> flag_set (c_lflag t) ECHOK
              then concat (replicate (length (line_buffer t)) [8, 32, 8]) else [], None),
             t\<lparr>line_buffer := []\<rparr>)
          else if byte = c_cc t ! VEOF then
            (([], None), t\<lparr>cooked_buffer := cooked_buffer t @ line_buffer t, line_buffer := []\<rparr>)
          else if byte = 10 \<or> byte = c_cc t ! VEOL then
            ((if do_echo \<or> (flag_set (c_lflag t) ECHONL \<and> byte = 10) then [byte] else [], None),
             t\<lparr>cooked_buffer := cooked_buffer t @ line_buffer t @ [byte], line_buffer := []\<rparr>)
          else
            ((if do_echo then [byte] else [], None), t\<lparr>line_buffer := line_buffer t @ [byte]\<rparr>)))"

definition read_cooked :: "bytes \<Rightarrow> TerminalState \<Rightarrow> nat \<times> bytes \<times> TerminalState" where
  "read_cooked buf t =
    (let n = min (length buf) (length (cooked_buffer t)) in
     if n = 0 then (0, buf, t)
     else (n, copy_at 0 (take n (cooked_buffer t)) buf,
           t\<lparr>cooked_buffer := drop n (cooked_buffer t)\<rparr>))"

definition has_cooked_data :: "TerminalState \<Rightarrow> bool" where
  "has_cooked_data t \<longleftrightarrow> cooked_buffer t \<noteq> []"

definition term_vmin :: "TerminalState \<Rightarrow> u8" where
  "term_vmin t = c_cc t ! VMIN"

definition term_vtime :: "TerminalState \<Rightarrow> u8" where
  "term_vtime t = c_cc t ! VTIME"

section \<open>The codec round trip\<close>

definition same_attrs :: "TerminalState \<Rightarrow> TerminalState \<Rightarrow> bool" where
  "same_attrs t u \<longleftrightarrow> c_iflag t = c_iflag u \<and> c_oflag t = c_oflag u \<and> c_cflag t = c_cflag u \<and>
    c_lflag t = c_lflag u \<and> c_line t = c_line u \<and> c_cc t = c_cc u \<and>
    c_ispeed t = c_ispeed u \<and> c_ospeed t = c_ospeed u"

lemma write_termios_eq:
  assumes "length (c_cc t) = 32" "60 \<le> length buf"
  shows "write_termios t buf = to_le 4 (c_iflag t) @ to_le 4 (c_oflag t) @ to_le 4 (c_cflag t) @
    to_le 4 (c_lflag t) @ [c_line t] @ c_cc t @ [0, 0, 0] @ to_le 4 (c_ispeed t) @
    to_le 4 (c_ospeed t) @ drop 60 buf"
proof -
  have put: "copy_at (length xs) ys (xs @ zs) = xs @ ys @ drop (length ys) zs" for xs ys zs :: bytes
    by (simp add: copy_at_def)
  have 1: "copy_at 0 ys zs = ys @ drop (length ys) zs" for ys zs :: bytes
    by (simp add: copy_at_def)
  define a where "a = to_le 4 (c_iflag t)"
  define b where "b = to_le 4 (c_oflag t)"
  define c where "c = to_le 4 (c_cflag t)"
  define d where "d = to_le 4 (c_lflag t)"
  define e where "e = to_le 4 (c_ispeed t)"
  define f where "f = to_le 4 (c_ospeed t)"
  have l: "length a = 4" "length b = 4" "length c = 4" "length d = 4" "length e = 4" "length f = 4"
    by (simp_all add: a_def b_def c_def d_def e_def f_def)
  have upd: "(xs @ zs)[length xs := y] = xs @ y # tl zs" if "zs \<noteq> []" for xs zs :: bytes and y
    using that by (cases zs) simp_all
  show ?thesis
    unfolding write_termios_def Let_def a_def [symmetric] b_def [symmetric] c_def [symmetric]
      d_def [symmetric] e_def [symmetric] f_def [symmetric] 1
    using l assms put [of a b] put [of "a @ b" c] put [of "a @ b @ c" d]
      upd [of _ "a @ b @ c @ d"] put [of "a @ b @ c @ d @ [c_line t]" "c_cc t"]
      put [of "a @ b @ c @ d @ [c_line t] @ c_cc t" "[0, 0, 0]"]
      put [of "a @ b @ c @ d @ [c_line t] @ c_cc t @ [0, 0, 0]" e]
      put [of "a @ b @ c @ d @ [c_line t] @ c_cc t @ [0, 0, 0] @ e" f]
    by (simp add: drop_Suc [symmetric] tl_drop)
qed

text \<open>
  \<open>tcgetattr\<close> and \<open>tcsetattr\<close> agree on the layout: the attributes written to a buffer of at
  least 60 bytes and read back into any terminal are the attributes of the first terminal; the
  rest of the buffer and the line buffers of the second terminal are untouched.
\<close>

theorem termios_roundtrip:
  assumes "length (c_cc t) = 32" and "60 \<le> length buf"
  shows "same_attrs (read_termios (write_termios t buf) u) t \<and>
    length (write_termios t buf) = length buf \<and> drop 60 (write_termios t buf) = drop 60 buf \<and>
    line_buffer (read_termios (write_termios t buf) u) = line_buffer u \<and>
    cooked_buffer (read_termios (write_termios t buf) u) = cooked_buffer u"
  using assms unfolding write_termios_eq [OF assms]
  by (simp add: read_termios_def same_attrs_def slice_def nth_append)

theorem termios_roundtrip_witness:
  "length (c_cc term_new) = 32 \<and>
   same_attrs (read_termios (write_termios (term_new\<lparr>c_lflag := 5\<rparr>) (replicate 60 255)) term_new)
     (term_new\<lparr>c_lflag := 5\<rparr>)"
  using termios_roundtrip [of "term_new\<lparr>c_lflag := 5\<rparr>" "replicate 60 255" term_new]
  by (simp add: term_new_def)

section \<open>Line editing\<close>

definition feed_input :: "TerminalState \<Rightarrow> bytes \<Rightarrow> TerminalState" where
  "feed_input t bs = fold (\<lambda>b t. snd (process_input_byte t b)) bs t"

text \<open>A byte the line discipline treats as data, and a terminal whose erase and kill keys work.\<close>

definition plain_byte :: "TerminalState \<Rightarrow> u8 \<Rightarrow> bool" where
  "plain_byte t b \<longleftrightarrow> b \<noteq> 10 \<and> b \<noteq> 13 \<and> b \<noteq> c_cc t ! VERASE \<and> b \<noteq> c_cc t ! VKILL \<and>
    b \<noteq> c_cc t ! VEOF \<and> b \<noteq> c_cc t ! VEOL \<and>
    (flag_set (c_lflag t) ISIG \<longrightarrow> isig_char t b = None)"

definition edit_ok :: "TerminalState \<Rightarrow> bool" where
  "edit_ok t \<longleftrightarrow> is_canonical t \<and> \<not> flag_set (c_iflag t) INLCR \<and>
    c_cc t ! VERASE \<noteq> 10 \<and> c_cc t ! VERASE \<noteq> 13 \<and> c_cc t ! VKILL \<noteq> 10 \<and> c_cc t ! VKILL \<noteq> 13 \<and>
    c_cc t ! VKILL \<noteq> c_cc t ! VERASE \<and> c_cc t ! VEOF \<noteq> 10 \<and>
    (flag_set (c_lflag t) ISIG \<longrightarrow> isig_char t 10 = None \<and> isig_char t (c_cc t ! VERASE) = None \<and>
      isig_char t (c_cc t ! VKILL) = None)"

lemma feed_input_simps [simp]:
  "feed_input t [] = t"
  "feed_input t (b # bs) = feed_input (snd (process_input_byte t b)) bs"
  "feed_input t (bs @ cs) = feed_input (feed_input t bs) cs"
  by (simp_all add: feed_input_def)

lemma settings_line_buffer [simp]:
  "plain_byte (t\<lparr>line_buffer := l\<rparr>) = plain_byte t" "edit_ok (t\<lparr>line_buffer := l\<rparr>) = edit_ok t"
  by (simp_all add: fun_eq_iff plain_byte_def edit_ok_def is_canonical_def isig_char_def)

lemma process_plain:
  "edit_ok t \<Longrightarrow> plain_byte t b \<Longrightarrow>
    snd (process_input_byte t b) = t\<lparr>line_buffer := line_buffer t @ [b]\<rparr>"
  by (simp add: process_input_byte_def map_input_def plain_byte_def edit_ok_def is_canonical_def)

lemma process_erase:
  "edit_ok t \<Longrightarrow>
    snd (process_input_byte t (c_cc t ! VERASE)) = t\<lparr>line_buffer := butlast (line_buffer t)\<rparr>"
  by (simp add: process_input_byte_def map_input_def edit_ok_def is_canonical_def)

lemma process_newline:
  "edit_ok t \<Longrightarrow> snd (process_input_byte t 10) =
    t\<lparr>line_buffer := [], cooked_buffer := cooked_buffer t @ line_buffer t @ [10]\<rparr>"
  by (simp add: process_input_byte_def map_input_def edit_ok_def is_canonical_def)

lemma process_kill:
  "edit_ok t \<Longrightarrow> snd (process_input_byte t (c_cc t ! VKILL)) = t\<lparr>line_buffer := []\<rparr>"
  by (simp add: process_input_byte_def map_input_def edit_ok_def is_canonical_def)

text \<open>What is typed, the byte that arrives for it, and what it does to the line in a reference editor.\<close>

datatype key = Key u8 | EraseKey | KillKey

primrec key_byte :: "TerminalState \<Rightarrow> key \<Rightarrow> u8" where
  "key_byte t (Key b) = b"
| "key_byte t EraseKey = c_cc t ! VERASE"
| "key_byte t KillKey = c_cc t ! VKILL"

primrec edit_key :: "key \<Rightarrow> bytes \<Rightarrow> bytes" where
  "edit_key (Key b) l = l @ [b]"
| "edit_key EraseKey l = butlast l"
| "edit_key KillKey l = []"

definition edit_line :: "key list \<Rightarrow> bytes \<Rightarrow> bytes" where
  "edit_line ks l = fold edit_key ks l"

definition key_ok :: "TerminalState \<Rightarrow> key \<Rightarrow> bool" where
  "key_ok t c = (case c of Key b \<Rightarrow> plain_byte t b | _ \<Rightarrow> True)"

lemma process_key:
  "edit_ok t \<Longrightarrow> key_ok t c \<Longrightarrow>
    snd (process_input_byte t (key_byte t c)) = t\<lparr>line_buffer := edit_key c (line_buffer t)\<rparr>"
  by (cases c) (simp_all add: key_ok_def process_plain process_erase process_kill)

lemma key_line_buffer [simp]:
  "key_byte (t\<lparr>line_buffer := l\<rparr>) = key_byte t" "key_ok (t\<lparr>line_buffer := l\<rparr>) = key_ok t"
proof
  show "key_byte (t\<lparr>line_buffer := l\<rparr>) c = key_byte t c" for c by (cases c) simp_all
qed (simp add: fun_eq_iff key_ok_def split: key.split)

lemma feed_keys:
  "edit_ok t \<Longrightarrow> list_all (key_ok t) ks \<Longrightarrow>
    feed_input t (map (key_byte t) ks) = t\<lparr>line_buffer := edit_line ks (line_buffer t)\<rparr>"
proof (induction ks arbitrary: t)
  case (Cons c ks)
  then show ?case
    using Cons.IH [of "t\<lparr>line_buffer := edit_key c (line_buffer t)\<rparr>"] by (simp add: process_key edit_line_def)
qed (simp add: edit_line_def)

text \<open>
  C34: in canonical mode the terminal edits lines as the keys say. For every sequence of ordinary
  characters, erase keys and kill keys, the line under construction is the one a reference editor
  makes of them, where erase drops the last character, if there is one, and kill drops all; nothing
  becomes readable before the newline. The newline makes exactly that line readable, and a reader
  with a large enough buffer gets it whole.
\<close>

theorem line_editing:
  assumes "edit_ok t" and "list_all (key_ok t) ks"
  defines "line \<equiv> edit_line ks (line_buffer t)"
  shows "feed_input t (map (key_byte t) ks) = t\<lparr>line_buffer := line\<rparr> \<and>
    feed_input t (map (key_byte t) ks @ [10]) =
      t\<lparr>line_buffer := [], cooked_buffer := cooked_buffer t @ line @ [10]\<rparr> \<and>
    (cooked_buffer t = [] \<and> length line < length buf \<longrightarrow>
      read_cooked buf (feed_input t (map (key_byte t) ks @ [10])) =
        (Suc (length line), line @ [10] @ drop (Suc (length line)) buf, t\<lparr>line_buffer := [], cooked_buffer := []\<rparr>))"
proof -
  note k = feed_keys [OF assms(1,2), folded line_def]
  have n: "feed_input t (map (key_byte t) ks @ [10]) =
      t\<lparr>line_buffer := [], cooked_buffer := cooked_buffer t @ line @ [10]\<rparr>"
    using process_newline [of "t\<lparr>line_buffer := line\<rparr>"] assms(1) k by simp
  then have "read_cooked buf (feed_input t (map (key_byte t) ks @ [10])) =
      (Suc (length line), line @ [10] @ drop (Suc (length line)) buf, t\<lparr>line_buffer := [], cooked_buffer := []\<rparr>)"
    if "cooked_buffer t = []" "length line < length buf"
    using that by (simp add: read_cooked_def copy_at_def Let_def min_absorb2)
  with k n show ?thesis by blast
qed

lemma term_new_edit_ok: "edit_ok term_new"
  by (simp add: edit_ok_def is_canonical_def flag_set_def isig_char_def term_new_def)

theorem line_editing_witness:
  "edit_ok term_new \<and>
   fst (snd (read_cooked [0, 0, 0] (feed_input term_new
     (map (key_byte term_new) [Key 120, KillKey, Key 104, Key 105, Key 106, EraseKey] @ [10])))) = [104, 105, 10]"
proof -
  have p: "list_all (key_ok term_new) [Key 120, KillKey, Key 104, Key 105, Key 106, EraseKey]"
    by (simp add: key_ok_def plain_byte_def flag_set_def isig_char_def term_new_def)
  have "line_buffer term_new = []" "cooked_buffer term_new = []" by (simp_all add: term_new_def)
  then show ?thesis
    using line_editing [OF term_new_edit_ok p, of "[0, 0, 0]"] term_new_edit_ok
    by (auto simp: edit_line_def simp del: feed_input_simps list.map)
qed

end
