(* ===== verification/Pty.thy ===== *)
theory Pty
  imports Terminal Slots
begin

text \<open>
  Pseudo-terminals, from \<^verbatim>\<open>src/crates/kernel/src/pty.rs\<close>: the two directions of a pair through the line
  discipline and the output processing, and the fixed table of pairs.
\<close>

section \<open>A pair\<close>

record PtyPair =
  pty_terminal :: TerminalState
  pty_input_buf :: bytes
  pty_output_buf :: bytes
  pty_locked :: bool
  pty_master_refs :: u32
  pty_slave_refs :: u32

definition pty_new :: PtyPair where
  "pty_new = \<lparr>pty_terminal = term_new, pty_input_buf = [], pty_output_buf = [], pty_locked = True,
     pty_master_refs = 0, pty_slave_refs = 0\<rparr>"

text \<open>One byte of output after \<open>OPOST\<close> and \<open>ONLCR\<close>, the inner \<open>if\<close> of the three output loops.\<close>

definition opost_byte :: "bool \<Rightarrow> bool \<Rightarrow> u8 \<Rightarrow> bytes" where
  "opost_byte opost onlcr b = (if opost \<and> onlcr \<and> b = 10 then [13, 10] else [b])"

definition process_master_input :: "PtyPair \<Rightarrow> u8 \<Rightarrow> u32 option \<times> PtyPair" where
  "process_master_input p byte =
    (let opost = flag_set (c_oflag (pty_terminal p)) OPOST;
         onlcr = flag_set (c_oflag (pty_terminal p)) ONLCR;
         ((echo, signal), term) = process_input_byte (pty_terminal p) byte;
         p = p\<lparr>pty_terminal := term\<rparr>;
         p = (if signal \<noteq> None \<and> \<not> flag_set (c_lflag term) NOFLSH then p\<lparr>pty_input_buf := []\<rparr> else p);
         p = p\<lparr>pty_output_buf := pty_output_buf p @ concat (map (opost_byte opost onlcr) echo)\<rparr>
     in if signal \<noteq> None then (signal, p)
        else if \<not> is_canonical term then
          (let p = p\<lparr>pty_input_buf := pty_input_buf p @ [byte]\<rparr> in
           (None, if flag_set (c_lflag term) ECHO
                  then p\<lparr>pty_output_buf := pty_output_buf p @ opost_byte opost onlcr byte\<rparr> else p))
        else (None, p))"

definition slave_read :: "bytes \<Rightarrow> PtyPair \<Rightarrow> nat \<times> bytes \<times> PtyPair" where
  "slave_read buf p =
    (if is_canonical (pty_terminal p) then
       (let (n, buf', term) = read_cooked buf (pty_terminal p)
        in if n > 0 then (n, buf', p\<lparr>pty_terminal := term\<rparr>) else (0, buf', p\<lparr>pty_terminal := term\<rparr>))
     else
       (let n = min (length buf) (length (pty_input_buf p))
        in (n, copy_at 0 (take n (pty_input_buf p)) buf,
            p\<lparr>pty_input_buf := drop n (pty_input_buf p)\<rparr>)))"

definition slave_has_data :: "PtyPair \<Rightarrow> bool" where
  "slave_has_data p = (if is_canonical (pty_terminal p) then has_cooked_data (pty_terminal p)
     else pty_input_buf p \<noteq> [])"

definition slave_write :: "bytes \<Rightarrow> PtyPair \<Rightarrow> nat \<times> PtyPair" where
  "slave_write data p =
    (let opost = flag_set (c_oflag (pty_terminal p)) OPOST;
         onlcr = flag_set (c_oflag (pty_terminal p)) ONLCR
     in (length data,
         p\<lparr>pty_output_buf := pty_output_buf p @ concat (map (opost_byte opost onlcr) data)\<rparr>))"

definition master_read :: "bytes \<Rightarrow> PtyPair \<Rightarrow> nat \<times> bytes \<times> PtyPair" where
  "master_read buf p =
    (let n = min (length buf) (length (pty_output_buf p))
     in (n, copy_at 0 (take n (pty_output_buf p)) buf,
         p\<lparr>pty_output_buf := drop n (pty_output_buf p)\<rparr>))"

definition master_has_data :: "PtyPair \<Rightarrow> bool" where
  "master_has_data p \<longleftrightarrow> pty_output_buf p \<noteq> []"

definition pty_is_alive :: "PtyPair \<Rightarrow> bool" where
  "pty_is_alive p \<longleftrightarrow> pty_master_refs p > 0 \<or> pty_slave_refs p > 0"

section \<open>The table\<close>

abbreviation (input) MAX_PTYS :: nat where "MAX_PTYS \<equiv> 64"

type_synonym pty_table = "PtyPair slots"

definition alloc_pty :: "pty_table \<Rightarrow> nat option \<times> pty_table" where
  "alloc_pty table = (case position Option.is_none table of
     Some i \<Rightarrow> (Some i, table[i := Some pty_new])
   | None \<Rightarrow> (None, table))"

definition get_pty :: "pty_table \<Rightarrow> nat \<Rightarrow> PtyPair option" where
  "get_pty table idx = (if idx \<ge> MAX_PTYS then None else table ! idx)"

definition free_pty :: "nat \<Rightarrow> pty_table \<Rightarrow> pty_table" where
  "free_pty idx table = (if idx < MAX_PTYS then table[idx := None] else table)"

section \<open>Input\<close>

definition feed_master :: "PtyPair \<Rightarrow> bytes \<Rightarrow> PtyPair" where
  "feed_master p bs = fold (\<lambda>b p. snd (process_master_input p b)) bs p"

lemma process_keeps_settings:
  "process_input_byte t b = (r, t') \<Longrightarrow> c_lflag t' = c_lflag t \<and> c_iflag t' = c_iflag t \<and>
    c_oflag t' = c_oflag t \<and> c_cc t' = c_cc t"
  by (auto simp: process_input_byte_def Let_def split: option.splits if_splits)

text \<open>
  A signal character written to the master raises its signal in canonical and in raw mode,
  never reaches the slave as data, and, unless \<open>NOFLSH\<close> is set, discards every input byte that has
  not been read yet.
\<close>

theorem pty_signal_char:
  assumes "flag_set (c_lflag (pty_terminal p)) ISIG"
    and "map_input (c_iflag (pty_terminal p)) b = Some b'"
    and "isig_char (pty_terminal p) b' = Some g"
    and "process_master_input p b = (r, p')"
  shows "r = Some g \<and>
    (if flag_set (c_lflag (pty_terminal p)) NOFLSH
     then pty_input_buf p' = pty_input_buf p \<and> pty_terminal p' = pty_terminal p
     else pty_input_buf p' = [] \<and> line_buffer (pty_terminal p') = [] \<and>
          cooked_buffer (pty_terminal p') = [] \<and> \<not> slave_has_data p')"
  using assms
  by (auto simp: process_master_input_def process_input_byte_def Let_def slave_has_data_def
      has_cooked_data_def)

theorem pty_signal_char_witness:
  "\<exists>p'. process_master_input (pty_new\<lparr>pty_terminal := term_new\<lparr>line_buffer := [97]\<rparr>\<rparr>) 3 = (Some SIGINT, p') \<and>
     line_buffer (pty_terminal p') = []"
proof -
  let ?p = "pty_new\<lparr>pty_terminal := term_new\<lparr>line_buffer := [97]\<rparr>\<rparr>"
  have h: "flag_set (c_lflag (pty_terminal ?p)) ISIG" "map_input (c_iflag (pty_terminal ?p)) 3 = Some 3"
      "isig_char (pty_terminal ?p) 3 = Some SIGINT" "\<not> flag_set (c_lflag (pty_terminal ?p)) NOFLSH"
    by (simp_all add: flag_set_def map_input_def isig_char_def term_new_def)
  show ?thesis
    using pty_signal_char [OF h(1-3) prod.collapse [symmetric]] h(4)
    by (intro exI [of _ "snd (process_master_input ?p 3)"]) (simp add: prod_eq_iff)
qed

text \<open>
  With \<open>ICANON\<close> and \<open>ISIG\<close> off, every byte written to the master reaches the slave unchanged and
  in order, whatever the input flags are: \<open>ICRNL\<close>, \<open>INLCR\<close> and \<open>IGNCR\<close> have no effect on the data in
  raw mode.
\<close>

theorem pty_raw_input_transparent:
  assumes "\<not> is_canonical (pty_terminal p)" and "\<not> flag_set (c_lflag (pty_terminal p)) ISIG"
  shows "pty_input_buf (feed_master p bs) = pty_input_buf p @ bs"
  using assms
proof (induction bs arbitrary: p)
  case (Cons b bs)
  define p' where "p' = snd (process_master_input p b)"
  have "pty_input_buf p' = pty_input_buf p @ [b]" "pty_terminal p' = pty_terminal p"
    using Cons.prems
    by (auto simp: p'_def process_master_input_def process_input_byte_def is_canonical_def Let_def
        split: option.splits)
  with Cons.IH [of p'] Cons.prems show ?case by (simp add: feed_master_def p'_def [symmetric])
qed (simp add: feed_master_def)

theorem pty_raw_input_transparent_witness:
  "\<not> is_canonical (pty_terminal (pty_new\<lparr>pty_terminal := term_new\<lparr>c_lflag := 0, c_iflag := IGNCR\<rparr>\<rparr>)) \<and>
   pty_input_buf (feed_master (pty_new\<lparr>pty_terminal := term_new\<lparr>c_lflag := 0, c_iflag := IGNCR\<rparr>\<rparr>) [97, 13, 98])
     = [97, 13, 98]"
  using pty_raw_input_transparent [of "pty_new\<lparr>pty_terminal := term_new\<lparr>c_lflag := 0, c_iflag := IGNCR\<rparr>\<rparr>"
      "[97, 13, 98]"]
  by (simp add: is_canonical_def flag_set_def pty_new_def)

section \<open>The table of pairs\<close>

lemma alloc_pty_Some:
  assumes "length table = MAX_PTYS" "alloc_pty table = (Some i, table')"
  shows "i < MAX_PTYS" and "get_pty table i = None" and "get_pty table' = (get_pty table)(i \<mapsto> pty_new)"
    and "length table' = MAX_PTYS" and "\<forall>j<i. get_pty table j \<noteq> None"
  using assms
  by (auto simp: alloc_pty_def get_pty_def position_Some_iff Option.is_none_def fun_eq_iff
      split: option.splits)

lemma alloc_pty_None:
  assumes "length table = MAX_PTYS" "alloc_pty table = (None, table')"
  shows "table' = table" and "\<forall>j<MAX_PTYS. get_pty table j \<noteq> None"
  using assms
  by (auto simp: alloc_pty_def get_pty_def position_None_iff all_set_conv_all_nth Option.is_none_def
      split: option.splits)

end
