(* ===== verification/Mqueue.thy ===== *)
theory Mqueue
  imports Abi Btree_Map "HOL-Library.List_Lexorder" "HOL-Library.Multiset"
begin

text \<open>
  POSIX message queues, from \<^verbatim>\<open>src/crates/kernel/src/mqueue.rs\<close>: named queues with messages in
  priority order, the descriptor table, and notifications. Queue names are byte strings in the
  order of the source's \<open>BTreeMap\<close>.
\<close>

section \<open>Data\<close>

abbreviation (input) O_LARGEFILE :: u32 where "O_LARGEFILE \<equiv> 32768"
abbreviation (input) MQD_BASE :: u32 where "MQD_BASE \<equiv> 0x40000000"
abbreviation (input) SIGEV_SIGNAL :: u32 where "SIGEV_SIGNAL \<equiv> 0"
abbreviation (input) SIGEV_NONE :: u32 where "SIGEV_NONE \<equiv> 1"

record MqMessage =
  mm_data :: bytes
  mm_priority :: u32

record MqNotification =
  mn_pid :: u32
  mn_signo :: u32

record MqQueue =
  mq_name :: bytes
  mq_maxmsg :: u32
  mq_msgsize :: u32
  mq_messages :: "MqMessage list"
  mq_unlinked :: bool
  mq_open_count :: u32
  mq_notification :: "MqNotification option"
  mq_mode :: u32

record MqDescriptor =
  md_queue_name :: bytes
  md_access_mode :: u32
  md_nonblock :: bool

record MqAttr =
  ma_flags :: u32
  ma_maxmsg :: u32
  ma_msgsize :: u32
  ma_curmsgs :: u32

record MqueueTable =
  mt_queues :: "(bytes, MqQueue) btree"
  mt_descriptors :: "(u32, MqDescriptor) btree"
  mt_next_mqd :: u32
  mt_pending_notification :: "MqNotification option"

section \<open>Operations\<close>

definition mq_table_new :: MqueueTable where
  "mq_table_new = \<lparr>mt_queues = [], mt_descriptors = [], mt_next_mqd = MQD_BASE,
     mt_pending_notification = None\<rparr>"

definition mq_set_pending_notification :: "MqNotification \<Rightarrow> MqueueTable \<Rightarrow> MqueueTable" where
  "mq_set_pending_notification notif t = t\<lparr>mt_pending_notification := Some notif\<rparr>"

definition mq_take_pending_notification :: "MqueueTable \<Rightarrow> MqNotification option \<times> MqueueTable" where
  "mq_take_pending_notification t =
    (mt_pending_notification t, t\<lparr>mt_pending_notification := None\<rparr>)"

definition is_mqd :: "MqueueTable \<Rightarrow> u32 \<Rightarrow> bool" where
  "is_mqd t fd = bt_contains (mt_descriptors t) fd"

definition mq_is_nonblock :: "MqueueTable \<Rightarrow> u32 \<Rightarrow> bool option" where
  "mq_is_nonblock t mqd = map_option md_nonblock (bt_get (mt_descriptors t) mqd)"

definition mq_open ::
    "bytes \<Rightarrow> u32 \<Rightarrow> u32 \<Rightarrow> u32 \<Rightarrow> u32 \<Rightarrow> bool \<Rightarrow> MqueueTable \<Rightarrow> u32 kresult \<times> MqueueTable" where
  "mq_open name flags0 mode attr_maxmsg attr_msgsize has_attr t =
    (let flags = flags0 AND NOT O_LARGEFILE;
         access_mode = flags AND O_ACCMODE;
         creating = (flags AND O_CREAT \<noteq> 0);
         exclusive = (flags AND O_EXCL \<noteq> 0);
         nonblock = (flags AND O_NONBLOCK \<noteq> 0);
         finish = (\<lambda>queues.
           (let mqd = mt_next_mqd t in
            (Ok mqd, t\<lparr>mt_queues := queues, mt_next_mqd := mt_next_mqd t + 1,
               mt_descriptors := bt_insert mqd \<lparr>md_queue_name = name, md_access_mode = access_mode,
                 md_nonblock = nonblock\<rparr> (mt_descriptors t)\<rparr>)))
     in if name = [] \<or> length name > 255 then (Err EINVAL, t)
     else
       (let exists = (case bt_get (mt_queues t) name of None \<Rightarrow> False | Some q \<Rightarrow> \<not> mq_unlinked q) in
        if creating \<and> exclusive \<and> exists then (Err EEXIST, t)
        else if \<not> creating \<and> \<not> exists then (Err ENOENT, t)
        else if exists then
          (case bt_get (mt_queues t) name of
             Some q \<Rightarrow> finish (bt_insert name (q\<lparr>mq_open_count := mq_open_count q + 1\<rparr>) (mt_queues t))
           | None \<Rightarrow> finish (mt_queues t))
        else
          (let maxmsg = (if has_attr then attr_maxmsg else 10);
               msgsize = (if has_attr then attr_msgsize else 8192)
           in if maxmsg = 0 \<or> msgsize = 0 then (Err EINVAL, t)
              else finish (bt_insert name
                \<lparr>mq_name = name, mq_maxmsg = maxmsg, mq_msgsize = msgsize, mq_messages = [],
                 mq_unlinked = False, mq_open_count = 1, mq_notification = None, mq_mode = mode\<rparr>
                (mt_queues t)))))"

definition mq_close :: "u32 \<Rightarrow> MqueueTable \<Rightarrow> unit kresult \<times> MqueueTable" where
  "mq_close mqd t = (case bt_get (mt_descriptors t) mqd of
     None \<Rightarrow> (Err EBADF, t)
   | Some desc \<Rightarrow>
       (let t = t\<lparr>mt_descriptors := bt_remove mqd (mt_descriptors t)\<rparr> in
        (Ok (), case bt_get (mt_queues t) (md_queue_name desc) of
           None \<Rightarrow> t
         | Some q \<Rightarrow>
             (let q = q\<lparr>mq_open_count := saturating_sub (mq_open_count q) 1\<rparr> in
              if mq_open_count q = 0 \<and> mq_unlinked q
              then t\<lparr>mt_queues := bt_remove (md_queue_name desc) (mt_queues t)\<rparr>
              else t\<lparr>mt_queues := bt_insert (md_queue_name desc) q (mt_queues t)\<rparr>))))"

definition mq_unlink :: "bytes \<Rightarrow> MqueueTable \<Rightarrow> unit kresult \<times> MqueueTable" where
  "mq_unlink name t = (case bt_get (mt_queues t) name of
     None \<Rightarrow> (Err ENOENT, t)
   | Some q \<Rightarrow>
       if mq_unlinked q then (Err ENOENT, t)
       else if mq_open_count q = 0 then (Ok (), t\<lparr>mt_queues := bt_remove name (mt_queues t)\<rparr>)
       else (Ok (), t\<lparr>mt_queues := bt_insert name (q\<lparr>mq_unlinked := True\<rparr>) (mt_queues t)\<rparr>))"

text \<open>The insertion in front of the first message of lower priority.\<close>

definition mq_insert :: "MqMessage \<Rightarrow> MqMessage list \<Rightarrow> MqMessage list" where
  "mq_insert msg ms = (case position (\<lambda>m. mm_priority msg > mm_priority m) ms of
     Some i \<Rightarrow> insert_nth i msg ms
   | None \<Rightarrow> ms @ [msg])"

definition mq_send :: "u32 \<Rightarrow> bytes \<Rightarrow> u32 \<Rightarrow> MqueueTable \<Rightarrow> MqNotification option kresult \<times> MqueueTable" where
  "mq_send mqd data priority t = (case bt_get (mt_descriptors t) mqd of
     None \<Rightarrow> (Err EBADF, t)
   | Some desc \<Rightarrow>
       if md_access_mode desc = O_RDONLY then (Err EBADF, t)
       else (case bt_get (mt_queues t) (md_queue_name desc) of
          None \<Rightarrow> (Err EBADF, t)
        | Some q \<Rightarrow>
            if length data > unat (mq_msgsize q) then (Err EMSGSIZE, t)
            else if length (mq_messages q) \<ge> unat (mq_maxmsg q) then (Err EAGAIN, t)
            else
              (let was_empty = (mq_messages q = []);
                   q1 = q\<lparr>mq_messages := mq_insert \<lparr>mm_data = data, mm_priority = priority\<rparr> (mq_messages q)\<rparr>;
                   notification = (if was_empty then mq_notification q else None);
                   q2 = (if was_empty then q1\<lparr>mq_notification := None\<rparr> else q1)
               in (Ok notification, t\<lparr>mt_queues := bt_insert (md_queue_name desc) q2 (mt_queues t)\<rparr>))))"

definition mq_receive :: "u32 \<Rightarrow> u32 \<Rightarrow> MqueueTable \<Rightarrow> MqMessage kresult \<times> MqueueTable" where
  "mq_receive mqd buf_size t = (case bt_get (mt_descriptors t) mqd of
     None \<Rightarrow> (Err EBADF, t)
   | Some desc \<Rightarrow>
       if md_access_mode desc = O_WRONLY then (Err EBADF, t)
       else (case bt_get (mt_queues t) (md_queue_name desc) of
          None \<Rightarrow> (Err EBADF, t)
        | Some q \<Rightarrow>
            if buf_size < mq_msgsize q then (Err EMSGSIZE, t)
            else (case mq_messages q of
                [] \<Rightarrow> (Err EAGAIN, t)
              | msg # rest \<Rightarrow>
                  (Ok msg, t\<lparr>mt_queues :=
                     bt_insert (md_queue_name desc) (q\<lparr>mq_messages := rest\<rparr>) (mt_queues t)\<rparr>))))"

definition mq_notify :: "u32 \<Rightarrow> u32 \<Rightarrow> u32 option \<Rightarrow> u32 \<Rightarrow> MqueueTable \<Rightarrow> unit kresult \<times> MqueueTable" where
  "mq_notify mqd pid sigev_notify signo t = (case bt_get (mt_descriptors t) mqd of
     None \<Rightarrow> (Err EBADF, t)
   | Some desc \<Rightarrow> (case bt_get (mt_queues t) (md_queue_name desc) of
       None \<Rightarrow> (Err EBADF, t)
     | Some q \<Rightarrow>
         (let put = (\<lambda>n. (Ok (), t\<lparr>mt_queues :=
                bt_insert (md_queue_name desc) (q\<lparr>mq_notification := n\<rparr>) (mt_queues t)\<rparr>))
          in case sigev_notify of
               None \<Rightarrow> put None
             | Some s \<Rightarrow>
                 if s = SIGEV_NONE then
                   (if mq_notification q \<noteq> None then (Err EBUSY, t)
                    else put (Some \<lparr>mn_pid = pid, mn_signo = 0\<rparr>))
                 else if s = SIGEV_SIGNAL then
                   (if mq_notification q \<noteq> None then (Err EBUSY, t)
                    else put (Some \<lparr>mn_pid = pid, mn_signo = signo\<rparr>))
                 else (Err EINVAL, t))))"

definition mq_getsetattr :: "u32 \<Rightarrow> u32 option \<Rightarrow> MqueueTable \<Rightarrow> MqAttr kresult \<times> MqueueTable" where
  "mq_getsetattr mqd new_flags t = (case bt_get (mt_descriptors t) mqd of
     None \<Rightarrow> (Err EBADF, t)
   | Some desc \<Rightarrow> (case bt_get (mt_queues t) (md_queue_name desc) of
       None \<Rightarrow> (Err EBADF, t)
     | Some q \<Rightarrow>
         (Ok \<lparr>ma_flags = (if md_nonblock desc then O_NONBLOCK else 0), ma_maxmsg = mq_maxmsg q,
              ma_msgsize = mq_msgsize q, ma_curmsgs = word_of_nat (length (mq_messages q))\<rparr>,
          case new_flags of
            None \<Rightarrow> t
          | Some flags \<Rightarrow> t\<lparr>mt_descriptors := bt_insert mqd
              (desc\<lparr>md_nonblock := (flags AND O_NONBLOCK \<noteq> 0)\<rparr>) (mt_descriptors t)\<rparr>)))"

definition mq_cleanup_process :: "u32 \<Rightarrow> MqueueTable \<Rightarrow> MqueueTable" where
  "mq_cleanup_process pid t = t\<lparr>mt_queues := bt_map_values (\<lambda>name q.
     case mq_notification q of
       Some notif \<Rightarrow> if mn_pid notif = pid then q\<lparr>mq_notification := None\<rparr> else q
     | None \<Rightarrow> q) (mt_queues t)\<rparr>"

section \<open>Priority order\<close>

definition prio_key :: "MqMessage \<Rightarrow> int" where
  "prio_key m = - uint (mm_priority m)"

lemma prio_key_less: "mm_priority x < mm_priority m \<longleftrightarrow> prio_key m < prio_key x"
  by (simp add: prio_key_def word_less_def)

lemma mq_insert_simps [simp]:
  "mq_insert m [] = [m]"
  "mq_insert m (x # xs) = (if prio_key m < prio_key x then m # x # xs else x # mq_insert m xs)"
  by (auto simp: mq_insert_def insert_nth_def prio_key_less split: option.split)

lemma mset_mq_insert [simp]: "mset (mq_insert m ms) = add_mset m (mset ms)"
  by (induction ms) auto

lemma length_mq_insert [simp]: "length (mq_insert m ms) = Suc (length ms)"
  by (induction ms) auto

lemma set_mq_insert [simp]: "set (mq_insert m ms) = insert m (set ms)"
  by (induction ms) auto

lemma sorted_mq_insert: "sorted (map prio_key ms) \<Longrightarrow> sorted (map prio_key (mq_insert m ms))"
  by (induction ms) auto

lemma filter_mq_insert:
  "sorted (map prio_key ms) \<Longrightarrow>
    filter (\<lambda>x. prio_key x = k) (mq_insert m ms) =
      filter (\<lambda>x. prio_key x = k) ms @ (if prio_key m = k then [m] else [])"
proof (induction ms)
  case (Cons x xs)
  have "filter (\<lambda>x. prio_key x = prio_key m) (x # xs) = []" if "prio_key m < prio_key x"
    using Cons.prems that by (auto simp: filter_empty_conv)
  with Cons show ?case by auto
qed simp

lemma fold_mq_insert_sorted:
  "sorted (map prio_key acc) \<Longrightarrow> sorted (map prio_key (fold mq_insert ms acc)) \<and>
    mset (fold mq_insert ms acc) = mset acc + mset ms \<and>
    filter (\<lambda>x. prio_key x = k) (fold mq_insert ms acc)
      = filter (\<lambda>x. prio_key x = k) acc @ filter (\<lambda>x. prio_key x = k) ms"
  by (induction ms arbitrary: acc) (simp_all add: sorted_mq_insert filter_mq_insert)

lemma fold_mq_insert_sort: "fold mq_insert ms [] = sort_key prio_key ms"
proof -
  have "filter (\<lambda>x. prio_key k = prio_key x) (fold mq_insert ms [])
      = filter (\<lambda>x. prio_key k = prio_key x) ms" for k
    using fold_mq_insert_sorted [of "[]" ms "prio_key k"] by (simp add: eq_commute)
  then show ?thesis
    using fold_mq_insert_sorted [of "[]" ms]
    by (intro properties_for_sort_key [symmetric]) simp_all
qed

section \<open>Sending and receiving through a descriptor\<close>

text \<open>A descriptor open for both directions on a queue with the given messages and limits.\<close>

definition mq_ready :: "MqueueTable \<Rightarrow> u32 \<Rightarrow> MqMessage list \<Rightarrow> u32 \<Rightarrow> u32 \<Rightarrow> bool" where
  "mq_ready t mqd ms maxmsg msgsize \<longleftrightarrow>
    (case bt_get (mt_descriptors t) mqd of None \<Rightarrow> False | Some d \<Rightarrow>
       md_access_mode d \<noteq> O_RDONLY \<and> md_access_mode d \<noteq> O_WRONLY \<and>
       (case bt_get (mt_queues t) (md_queue_name d) of None \<Rightarrow> False | Some q \<Rightarrow>
          mq_messages q = ms \<and> mq_maxmsg q = maxmsg \<and> mq_msgsize q = msgsize))"

fun mq_send_all :: "u32 \<Rightarrow> MqMessage list \<Rightarrow> MqueueTable \<Rightarrow> bool \<times> MqueueTable" where
  "mq_send_all mqd [] t = (True, t)"
| "mq_send_all mqd (m # ms) t =
    (let (r, t') = mq_send mqd (mm_data m) (mm_priority m) t; (ok, t'') = mq_send_all mqd ms t'
     in (\<not> isl r \<and> ok, t''))"

fun mq_receive_n :: "nat \<Rightarrow> u32 \<Rightarrow> u32 \<Rightarrow> MqueueTable \<Rightarrow> MqMessage kresult list \<times> MqueueTable" where
  "mq_receive_n 0 mqd buf_size t = ([], t)"
| "mq_receive_n (Suc n) mqd buf_size t =
    (let (r, t') = mq_receive mqd buf_size t; (rs, t'') = mq_receive_n n mqd buf_size t'
     in (r # rs, t''))"

lemma mq_send_ready:
  assumes "mq_ready t mqd ms mx sz" "length data \<le> unat sz" "length ms < unat mx"
  obtains n t' where "mq_send mqd data prio t = (Ok n, t')"
    "mq_ready t' mqd (mq_insert \<lparr>mm_data = data, mm_priority = prio\<rparr> ms) mx sz"
proof -
  have "\<exists>n t'. mq_send mqd data prio t = (Ok n, t') \<and>
      mq_ready t' mqd (mq_insert \<lparr>mm_data = data, mm_priority = prio\<rparr> ms) mx sz"
    using assms by (auto simp: mq_ready_def mq_send_def Let_def split: option.splits)
  with that show ?thesis by blast
qed

lemma mq_receive_ready:
  assumes "mq_ready t mqd (m # ms) mx sz" "sz \<le> buf_size"
  obtains t' where "mq_receive mqd buf_size t = (Ok m, t')" "mq_ready t' mqd ms mx sz"
proof -
  obtain d q where d: "bt_get (mt_descriptors t) mqd = Some d" "md_access_mode d \<noteq> O_RDONLY"
      "md_access_mode d \<noteq> O_WRONLY" "bt_get (mt_queues t) (md_queue_name d) = Some q"
      "mq_messages q = m # ms" "mq_maxmsg q = mx" "mq_msgsize q = sz"
    using assms(1) by (auto simp: mq_ready_def split: option.splits)
  show ?thesis
  proof (rule that)
    show "mq_receive mqd buf_size t = (Ok m, t\<lparr>mt_queues :=
        bt_insert (md_queue_name d) (q\<lparr>mq_messages := ms\<rparr>) (mt_queues t)\<rparr>)"
      using d assms(2) by (simp add: mq_receive_def)
  qed (use d in \<open>simp add: mq_ready_def\<close>)
qed

lemma mq_send_all_ready:
  assumes "mq_ready t mqd acc mx sz" "list_all (\<lambda>m. length (mm_data m) \<le> unat sz) ms"
    and "length acc + length ms \<le> unat mx"
  shows "\<exists>t'. mq_send_all mqd ms t = (True, t') \<and> mq_ready t' mqd (fold mq_insert ms acc) mx sz"
  using assms
proof (induction ms arbitrary: t acc)
  case (Cons m ms)
  have "length (mm_data m) \<le> unat sz" "length acc < unat mx" using Cons.prems by simp_all
  then obtain n t1 where s: "mq_send mqd (mm_data m) (mm_priority m) t = (Ok n, t1)"
      "mq_ready t1 mqd (mq_insert \<lparr>mm_data = mm_data m, mm_priority = mm_priority m\<rparr> acc) mx sz"
    using mq_send_ready [OF Cons.prems(1)] by metis
  then have "mq_ready t1 mqd (mq_insert m acc) mx sz" by (cases m) simp
  from Cons.IH [OF this] Cons.prems s(1) show ?case by auto
qed simp

lemma mq_receive_n_ready:
  assumes "mq_ready t mqd ms mx sz" "sz \<le> buf_size"
  shows "\<exists>t'. mq_receive_n (length ms) mqd buf_size t = (map Ok ms, t') \<and> mq_ready t' mqd [] mx sz"
  using assms(1)
proof (induction ms arbitrary: t)
  case (Cons m ms)
  then obtain t1 where r: "mq_receive mqd buf_size t = (Ok m, t1)" "mq_ready t1 mqd ms mx sz"
    using mq_receive_ready [OF _ assms(2)] by metis
  with Cons.IH [OF r(2)] show ?case by auto
qed simp

text \<open>
  C32: a message queue is a stable priority queue. Any sequence of messages that respects the
  queue's limits is accepted, and receiving as many messages as were sent returns exactly these
  messages ordered by descending priority, messages of equal priority in the order they were
  sent; then the queue is empty again.
\<close>

theorem mq_stable_priority_queue:
  assumes "mq_ready t mqd [] maxmsg msgsize" and "length ms \<le> unat maxmsg"
    and "list_all (\<lambda>m. length (mm_data m) \<le> unat msgsize) ms" and "msgsize \<le> buf_size"
  shows "\<exists>t1 t2. mq_send_all mqd ms t = (True, t1) \<and>
    mq_receive_n (length ms) mqd buf_size t1 = (map Ok (sort_key prio_key ms), t2) \<and>
    mq_ready t2 mqd [] maxmsg msgsize"
proof -
  obtain t1 where s: "mq_send_all mqd ms t = (True, t1)"
      "mq_ready t1 mqd (sort_key prio_key ms) maxmsg msgsize"
    using mq_send_all_ready [OF assms(1,3)] assms(2) by (auto simp: fold_mq_insert_sort)
  with mq_receive_n_ready [OF s(2) assms(4)] show ?thesis by auto
qed

definition demo_mq :: MqueueTable where
  "demo_mq = snd (mq_open [113] (O_RDWR OR O_CREAT) 0x1A4 3 4 True mq_table_new)"

lemma demo_mq_ready: "mq_ready demo_mq MQD_BASE [] 3 4"
  by (simp add: demo_mq_def mq_open_def mq_table_new_def mq_ready_def Let_def)

theorem mq_stable_priority_queue_witness:
  "\<exists>t1 t2. mq_send_all MQD_BASE [\<lparr>mm_data = [1], mm_priority = 2\<rparr>, \<lparr>mm_data = [2], mm_priority = 7\<rparr>,
       \<lparr>mm_data = [3], mm_priority = 2\<rparr>] demo_mq = (True, t1) \<and>
     mq_receive_n 3 MQD_BASE 4 t1 = ([Ok \<lparr>mm_data = [2], mm_priority = 7\<rparr>,
       Ok \<lparr>mm_data = [1], mm_priority = 2\<rparr>, Ok \<lparr>mm_data = [3], mm_priority = 2\<rparr>], t2)"
proof -
  let ?ms = "[\<lparr>mm_data = [1], mm_priority = 2\<rparr>, \<lparr>mm_data = [2], mm_priority = 7\<rparr>,
    \<lparr>mm_data = [3], mm_priority = 2\<rparr>]"
  have l: "length ?ms = 3" by simp
  have "sort_key prio_key ?ms = [\<lparr>mm_data = [2], mm_priority = 7\<rparr>,
      \<lparr>mm_data = [1], mm_priority = 2\<rparr>, \<lparr>mm_data = [3], mm_priority = 2\<rparr>]"
    by (simp add: prio_key_def)
  then show ?thesis
    using mq_stable_priority_queue [OF demo_mq_ready, of ?ms 4] unfolding l
    by (auto simp del: mq_send_all.simps mq_receive_n.simps)
qed

section \<open>Reachable tables\<close>

definition queue_ok :: "MqQueue \<Rightarrow> bool" where
  "queue_ok q \<longleftrightarrow> mq_maxmsg q \<noteq> 0 \<and> mq_msgsize q \<noteq> 0 \<and>
    length (mq_messages q) \<le> unat (mq_maxmsg q) \<and>
    list_all (\<lambda>m. length (mm_data m) \<le> unat (mq_msgsize q)) (mq_messages q) \<and>
    sorted (map prio_key (mq_messages q))"

definition mq_wf :: "MqueueTable \<Rightarrow> bool" where
  "mq_wf t \<longleftrightarrow> bt_wf (mt_queues t) \<and> bt_wf (mt_descriptors t) \<and>
    (\<forall>n q. bt_get (mt_queues t) n = Some q \<longrightarrow> queue_ok q)"

inductive mq_reach :: "MqueueTable \<Rightarrow> bool" where
  init: "mq_reach mq_table_new"
| mopen: "mq_reach t \<Longrightarrow> mq_reach (snd (mq_open name flags mode maxmsg msgsize has_attr t))"
| mclose: "mq_reach t \<Longrightarrow> mq_reach (snd (mq_close mqd t))"
| munlink: "mq_reach t \<Longrightarrow> mq_reach (snd (mq_unlink name t))"
| msend: "mq_reach t \<Longrightarrow> mq_reach (snd (mq_send mqd data prio t))"
| mreceive: "mq_reach t \<Longrightarrow> mq_reach (snd (mq_receive mqd buf_size t))"
| mnotify: "mq_reach t \<Longrightarrow> mq_reach (snd (mq_notify mqd pid sev signo t))"
| mattr: "mq_reach t \<Longrightarrow> mq_reach (snd (mq_getsetattr mqd new_flags t))"
| mcleanup: "mq_reach t \<Longrightarrow> mq_reach (mq_cleanup_process pid t)"

lemma mq_wf_get: "mq_wf t \<Longrightarrow> bt_get (mt_queues t) n = Some q \<Longrightarrow> queue_ok q"
  by (auto simp: mq_wf_def)

lemma mq_wf_put [intro]:
  "mq_wf t \<Longrightarrow> queue_ok q \<Longrightarrow> mq_wf (t\<lparr>mt_queues := bt_insert n q (mt_queues t)\<rparr>)"
  by (auto simp: mq_wf_def)

lemma mq_wf_drop [intro]: "mq_wf t \<Longrightarrow> mq_wf (t\<lparr>mt_queues := bt_remove n (mt_queues t)\<rparr>)"
  by (auto simp: mq_wf_def)

lemma mq_wf_descriptors [simp]:
  "mq_wf (t\<lparr>mt_next_mqd := k\<rparr>) = mq_wf t"
  "mq_wf t \<Longrightarrow> mq_wf (t\<lparr>mt_descriptors := bt_insert d x (mt_descriptors t)\<rparr>)"
  "mq_wf t \<Longrightarrow> mq_wf (t\<lparr>mt_descriptors := bt_remove d (mt_descriptors t)\<rparr>)"
  by (auto simp: mq_wf_def)

lemma queue_ok_fields [simp]:
  "queue_ok (q\<lparr>mq_open_count := c\<rparr>) = queue_ok q"
  "queue_ok (q\<lparr>mq_unlinked := u\<rparr>) = queue_ok q"
  "queue_ok (q\<lparr>mq_notification := n\<rparr>) = queue_ok q"
  by (simp_all add: queue_ok_def)

lemma queue_ok_insert:
  "queue_ok q \<Longrightarrow> length (mq_messages q) < unat (mq_maxmsg q) \<Longrightarrow> length data \<le> unat (mq_msgsize q) \<Longrightarrow>
    queue_ok (q\<lparr>mq_messages := mq_insert \<lparr>mm_data = data, mm_priority = p\<rparr> (mq_messages q)\<rparr>)"
  by (auto simp: queue_ok_def sorted_mq_insert list_all_iff)

lemma mq_open_wf:
  assumes "mq_wf t"
  shows "mq_wf (snd (mq_open name flags mode maxmsg msgsize has_attr t))"
proof -
  have fin: "mq_wf (t\<lparr>mt_queues := bt_insert name q (mt_queues t), mt_next_mqd := k,
      mt_descriptors := bt_insert d x (mt_descriptors t)\<rparr>)" if "queue_ok q" for q k d x
    using assms that by (auto simp: mq_wf_def)
  have new: "queue_ok \<lparr>mq_name = name, mq_maxmsg = a, mq_msgsize = b, mq_messages = [],
      mq_unlinked = False, mq_open_count = 1, mq_notification = None, mq_mode = mode\<rparr>"
    if "a \<noteq> 0" "b \<noteq> 0" for a b
    using that by (simp add: queue_ok_def)
  show ?thesis
    using assms fin new mq_wf_get [OF assms, of name]
    by (cases "bt_get (mt_queues t) name") (simp_all add: mq_open_def Let_def)
qed

lemma mq_send_wf:
  assumes "mq_wf t"
  shows "mq_wf (snd (mq_send mqd data prio t))"
proof (cases "snd (mq_send mqd data prio t) = t")
  case False
  then obtain d q where d: "bt_get (mt_descriptors t) mqd = Some d" "md_access_mode d \<noteq> O_RDONLY"
      "bt_get (mt_queues t) (md_queue_name d) = Some q" "length data \<le> unat (mq_msgsize q)"
      "length (mq_messages q) < unat (mq_maxmsg q)"
    by (auto simp: mq_send_def not_less not_le split: option.splits if_splits)
  define q1 where "q1 = q\<lparr>mq_messages := mq_insert \<lparr>mm_data = data, mm_priority = prio\<rparr> (mq_messages q)\<rparr>"
  have "queue_ok q1"
    unfolding q1_def by (rule queue_ok_insert [OF mq_wf_get [OF assms d(3)] d(5,4)])
  moreover have "snd (mq_send mqd data prio t) = t\<lparr>mt_queues := bt_insert (md_queue_name d)
      (if mq_messages q = [] then q1\<lparr>mq_notification := None\<rparr> else q1) (mt_queues t)\<rparr>"
    using d by (simp add: mq_send_def Let_def q1_def)
  ultimately show ?thesis using assms by (simp add: mq_wf_put)
qed (use assms in simp)

lemma mq_receive_wf:
  assumes "mq_wf t"
  shows "mq_wf (snd (mq_receive mqd buf_size t))"
proof (cases "snd (mq_receive mqd buf_size t) = t")
  case False
  then obtain n q m ms where q: "bt_get (mt_queues t) n = Some q" "mq_messages q = m # ms"
      "snd (mq_receive mqd buf_size t) = t\<lparr>mt_queues := bt_insert n (q\<lparr>mq_messages := ms\<rparr>) (mt_queues t)\<rparr>"
    by (auto simp: mq_receive_def split: option.splits if_splits list.splits)
  moreover have "queue_ok (q\<lparr>mq_messages := ms\<rparr>)"
    using mq_wf_get [OF assms q(1)] q(2) by (simp add: queue_ok_def)
  ultimately show ?thesis using assms by (simp add: mq_wf_put)
qed (use assms in simp)

lemma mq_close_wf:
  assumes "mq_wf t"
  shows "mq_wf (snd (mq_close mqd t))"
proof (cases "bt_get (mt_descriptors t) mqd")
  case (Some d)
  define t1 where "t1 = t\<lparr>mt_descriptors := bt_remove mqd (mt_descriptors t)\<rparr>"
  have w: "mq_wf t1" using assms by (simp add: t1_def)
  show ?thesis
  proof (cases "bt_get (mt_queues t1) (md_queue_name d)")
    case None
    with Some w show ?thesis by (simp add: mq_close_def t1_def Let_def)
  next
    case (Some q)
    define q1 where "q1 = q\<lparr>mq_open_count := saturating_sub (mq_open_count q) 1\<rparr>"
    have "queue_ok q1" using mq_wf_get [OF w Some] by (simp add: q1_def)
    moreover have "snd (mq_close mqd t) = (if mq_open_count q1 = 0 \<and> mq_unlinked q1
        then t1\<lparr>mt_queues := bt_remove (md_queue_name d) (mt_queues t1)\<rparr>
        else t1\<lparr>mt_queues := bt_insert (md_queue_name d) q1 (mt_queues t1)\<rparr>)"
      using \<open>bt_get (mt_descriptors t) mqd = Some d\<close> Some
      by (simp add: mq_close_def Let_def t1_def q1_def)
    ultimately show ?thesis using w by (simp add: mq_wf_put mq_wf_drop)
  qed
qed (use assms in \<open>simp add: mq_close_def\<close>)

lemma mq_unlink_wf: "mq_wf t \<Longrightarrow> mq_wf (snd (mq_unlink name t))"
  by (cases "bt_get (mt_queues t) name")
    (simp_all add: mq_unlink_def mq_wf_put mq_wf_drop mq_wf_get)

lemma mq_notify_wf:
  assumes "mq_wf t"
  shows "mq_wf (snd (mq_notify mqd pid sev signo t))"
proof (cases "snd (mq_notify mqd pid sev signo t) = t")
  case False
  then obtain n q x where q: "bt_get (mt_queues t) n = Some q" "snd (mq_notify mqd pid sev signo t)
      = t\<lparr>mt_queues := bt_insert n (q\<lparr>mq_notification := x\<rparr>) (mt_queues t)\<rparr>"
    by (auto simp: mq_notify_def Let_def split: option.splits if_splits)
  then show ?thesis using assms by (simp add: mq_wf_put mq_wf_get)
qed (use assms in simp)

lemma mq_cleanup_wf: "mq_wf t \<Longrightarrow> mq_wf (mq_cleanup_process pid t)"
  by (auto simp: mq_wf_def mq_cleanup_process_def bt_get_map_values split: option.split)

lemma mq_reach_wf: "mq_reach t \<Longrightarrow> mq_wf t"
proof (induction rule: mq_reach.induct)
  case init
  show ?case by (simp add: mq_wf_def mq_table_new_def)
next
  case (mattr t mqd new_flags)
  then show ?case by (auto simp: mq_getsetattr_def split: option.split)
qed (simp_all add: mq_open_wf mq_close_wf mq_unlink_wf mq_send_wf mq_receive_wf mq_notify_wf
    mq_cleanup_wf)

text \<open>
  In every table reachable through the message queue calls, no queue holds more messages than
  its limit or a message longer than its limit, and its messages are in priority order.
\<close>

theorem mq_limits_respected:
  assumes "mq_reach t" and "bt_get (mt_queues t) name = Some q"
  shows "length (mq_messages q) \<le> unat (mq_maxmsg q) \<and>
    (\<forall>m\<in>set (mq_messages q). length (mm_data m) \<le> unat (mq_msgsize q)) \<and>
    sorted_wrt (\<lambda>a b. mm_priority b \<le> mm_priority a) (mq_messages q)"
proof -
  have ok: "queue_ok q" by (rule mq_wf_get [OF mq_reach_wf [OF assms(1)] assms(2)])
  have "mm_priority b \<le> mm_priority a \<longleftrightarrow> prio_key a \<le> prio_key b" for a b
    by (simp add: prio_key_def word_le_def)
  with ok show ?thesis by (simp add: queue_ok_def list_all_iff sorted_map)
qed

theorem mq_limits_respected_witness:
  "mq_reach (snd (mq_send MQD_BASE [1, 2] 5 demo_mq)) \<and>
   (\<exists>q. bt_get (mt_queues (snd (mq_send MQD_BASE [1, 2] 5 demo_mq))) [113] = Some q \<and>
     length (mq_messages q) = 1 \<and> length (mq_messages q) \<le> unat (mq_maxmsg q))"
proof -
  have r: "mq_reach (snd (mq_send MQD_BASE [1, 2] 5 demo_mq))"
    unfolding demo_mq_def by (intro mq_reach.intros)
  obtain q where q: "bt_get (mt_queues (snd (mq_send MQD_BASE [1, 2] 5 demo_mq))) [113] = Some q"
      "length (mq_messages q) = 1"
    by (simp add: demo_mq_def mq_open_def mq_table_new_def mq_send_def Let_def)
  show ?thesis using mq_limits_respected [OF r q(1)] r q by auto
qed

text \<open>
  Re-creating a queue under a name that was unlinked while a descriptor was still open replaces
  the old queue. The old descriptor then names the new queue: a message sent through it is
  received through the new descriptor, and a message still waiting in the old queue is lost.
\<close>

theorem mq_recreate_aliases_unlinked_queue:
  "(let (r1, t) = mq_open [113] (O_RDWR OR O_CREAT) 0x1A4 3 4 True mq_table_new;
         (r2, t) = mq_send MQD_BASE [1] 0 t;
         (r3, t) = mq_unlink [113] t;
         (r4, t) = mq_open [113] (O_RDWR OR O_CREAT OR O_EXCL) 0x1A4 3 4 True t;
         (r5, t) = mq_receive MQD_BASE 4 t;
         (r6, t) = mq_send MQD_BASE [2] 0 t;
         (r7, t) = mq_receive (MQD_BASE + 1) 4 t
     in r1 = Ok MQD_BASE \<and> \<not> isl r2 \<and> r3 = Ok () \<and> r4 = Ok (MQD_BASE + 1) \<and>
        r5 = Err EAGAIN \<and> r7 = Ok \<lparr>mm_data = [2], mm_priority = 0\<rparr>)"
  by (simp add: mq_open_def mq_table_new_def mq_send_def mq_unlink_def mq_receive_def Let_def)

end
