(* ===== verification/Ipc.thy ===== *)
theory Ipc
  imports Abi Btree_Map
begin

text \<open>
  System V IPC, from \<^verbatim>\<open>src/crates/kernel/src/ipc.rs\<close>: message queues, semaphore sets and shared memory
  segments in one table. The three maps are keyed by the signed identifier. The wall clock
  (\<open>current_time_secs\<close>) is an argument \<open>now\<close> of the operations that read it.
\<close>

section \<open>Data\<close>

abbreviation (input) IPC_CREAT :: u32 where "IPC_CREAT \<equiv> 512"
abbreviation (input) IPC_EXCL :: u32 where "IPC_EXCL \<equiv> 1024"
abbreviation (input) IPC_NOWAIT :: u32 where "IPC_NOWAIT \<equiv> 2048"
abbreviation (input) IPC_PRIVATE :: i32 where "IPC_PRIVATE \<equiv> 0"
abbreviation (input) IPC_RMID :: i32 where "IPC_RMID \<equiv> 0"
abbreviation (input) IPC_SET :: i32 where "IPC_SET \<equiv> 1"
abbreviation (input) IPC_STAT :: i32 where "IPC_STAT \<equiv> 2"
abbreviation (input) MSG_NOERROR :: u32 where "MSG_NOERROR \<equiv> 4096"
abbreviation (input) MSG_EXCEPT :: u32 where "MSG_EXCEPT \<equiv> 8192"
abbreviation (input) MSGMAX :: nat where "MSGMAX \<equiv> 8192"
abbreviation (input) MSGMNB :: u32 where "MSGMNB \<equiv> 16384"
abbreviation (input) SEMMSL :: nat where "SEMMSL \<equiv> 32"

record MsgEntry =
  me_mtype :: i32
  me_data :: bytes

record MsgQueue =
  sq_key :: i32
  sq_id :: i32
  sq_mode :: u32
  sq_uid :: u32
  sq_gid :: u32
  sq_cuid :: u32
  sq_cgid :: u32
  sq_qbytes :: u32
  sq_messages :: "MsgEntry list"
  sq_cbytes :: u32
  sq_lspid :: i32
  sq_lrpid :: i32
  sq_stime :: i64
  sq_rtime :: i64
  sq_ctime :: i64
  sq_seq :: i32

record MsgQueueInfo =
  qi_key :: i32
  qi_uid :: u32
  qi_gid :: u32
  qi_cuid :: u32
  qi_cgid :: u32
  qi_mode :: u32
  qi_seq :: i32
  qi_stime :: i64
  qi_rtime :: i64
  qi_ctime :: i64
  qi_cbytes :: u32
  qi_qnum :: u32
  qi_qbytes :: u32
  qi_lspid :: i32
  qi_lrpid :: i32

record SemValue =
  sv_val :: u16
  sv_pid :: u32
  sv_ncnt :: u32
  sv_zcnt :: u32

record SemSet =
  sm_key :: i32
  sm_id :: i32
  sm_mode :: u32
  sm_uid :: u32
  sm_gid :: u32
  sm_cuid :: u32
  sm_cgid :: u32
  sm_nsems :: u32
  sm_values :: "SemValue list"
  sm_otime :: i64
  sm_ctime :: i64
  sm_seq :: i32

record SemSetInfo =
  si_key :: i32
  si_uid :: u32
  si_gid :: u32
  si_cuid :: u32
  si_cgid :: u32
  si_mode :: u32
  si_seq :: i32
  si_nsems :: u32
  si_otime :: i64
  si_ctime :: i64

record SemOp =
  so_num :: u16
  so_op :: i16
  so_flg :: u16

record ShmSegment =
  sh_key :: i32
  sh_id :: i32
  sh_mode :: u32
  sh_uid :: u32
  sh_gid :: u32
  sh_cuid :: u32
  sh_cgid :: u32
  sh_segsz :: u32
  sh_data :: bytes
  sh_cpid :: i32
  sh_lpid :: i32
  sh_nattch :: u32
  sh_atime :: i64
  sh_dtime :: i64
  sh_ctime :: i64
  sh_seq :: i32

record ShmSegInfo =
  hi_key :: i32
  hi_uid :: u32
  hi_gid :: u32
  hi_cuid :: u32
  hi_cgid :: u32
  hi_mode :: u32
  hi_seq :: i32
  hi_segsz :: u32
  hi_cpid :: i32
  hi_lpid :: i32
  hi_nattch :: u32
  hi_atime :: i64
  hi_dtime :: i64
  hi_ctime :: i64

datatype SemCtlResult = SemOk | SemValueOf i32 | SemStat SemSetInfo | SemAll "u16 list"

record IpcTable =
  ipc_msg_queues :: "(int, MsgQueue) btree"
  ipc_sem_sets :: "(int, SemSet) btree"
  ipc_shm_segments :: "(int, ShmSegment) btree"
  ipc_next_id :: i32

definition ipc_new :: IpcTable where
  "ipc_new = \<lparr>ipc_msg_queues = [], ipc_sem_sets = [], ipc_shm_segments = [], ipc_next_id = 0\<rparr>"

definition ipc_alloc_id :: "IpcTable \<Rightarrow> i32 \<times> IpcTable" where
  "ipc_alloc_id t = (ipc_next_id t, t\<lparr>ipc_next_id := (ipc_next_id t + 1) AND 0x7FFFFFFF\<rparr>)"

section \<open>Message queues\<close>

definition msgget :: "i64 \<Rightarrow> i32 \<Rightarrow> u32 \<Rightarrow> u32 \<Rightarrow> u32 \<Rightarrow> IpcTable \<Rightarrow> i32 kresult \<times> IpcTable" where
  "msgget now key flags uid gid t =
    (let creating = (flags AND IPC_CREAT \<noteq> 0);
         exclusive = (flags AND IPC_EXCL \<noteq> 0);
         mode = flags AND 0x1FF
     in case (if key \<noteq> IPC_PRIVATE then find (\<lambda>q. sq_key q = key) (map snd (ipc_msg_queues t)) else None) of
          Some q \<Rightarrow> if creating \<and> exclusive then (Err EEXIST, t) else (Ok (sq_id q), t)
        | None \<Rightarrow>
            if \<not> creating \<and> key \<noteq> IPC_PRIVATE then (Err ENOENT, t)
            else
              (let (id, t) = ipc_alloc_id t;
                   q = \<lparr>sq_key = key, sq_id = id, sq_mode = mode, sq_uid = uid, sq_gid = gid,
                        sq_cuid = uid, sq_cgid = gid, sq_qbytes = MSGMNB, sq_messages = [],
                        sq_cbytes = 0, sq_lspid = 0, sq_lrpid = 0, sq_stime = 0, sq_rtime = 0,
                        sq_ctime = now, sq_seq = id\<rparr>
               in (Ok id, t\<lparr>ipc_msg_queues := bt_insert (sint id) q (ipc_msg_queues t)\<rparr>)))"

definition msgsnd :: "i64 \<Rightarrow> i32 \<Rightarrow> i32 \<Rightarrow> bytes \<Rightarrow> u32 \<Rightarrow> u32 \<Rightarrow> IpcTable \<Rightarrow> unit kresult \<times> IpcTable" where
  "msgsnd now qid mtype data flags pid t =
    (if sint mtype \<le> 0 then (Err EINVAL, t)
     else (case bt_get (ipc_msg_queues t) (sint qid) of
       None \<Rightarrow> (Err EINVAL, t)
     | Some q \<Rightarrow>
         if length data > MSGMAX then (Err EINVAL, t)
         else if sq_cbytes q + word_of_nat (length data) > sq_qbytes q then
           (if flags AND IPC_NOWAIT \<noteq> 0 then (Err EAGAIN, t) else (Err EAGAIN, t))
         else
           (Ok (), t\<lparr>ipc_msg_queues := bt_insert (sint qid)
              (q\<lparr>sq_cbytes := sq_cbytes q + word_of_nat (length data),
                 sq_messages := sq_messages q @ [\<lparr>me_mtype = mtype, me_data = data\<rparr>],
                 sq_lspid := pid, sq_stime := now\<rparr>) (ipc_msg_queues t)\<rparr>)))"

text \<open>The message a receive selects.\<close>

definition msg_select :: "i32 \<Rightarrow> bool \<Rightarrow> MsgEntry list \<Rightarrow> nat option" where
  "msg_select msgtype except ms =
    (if msgtype = 0 then (if ms = [] then None else Some 0)
     else if sint msgtype > 0 then
       (if except then position (\<lambda>m. me_mtype m \<noteq> msgtype) ms
        else position (\<lambda>m. me_mtype m = msgtype) ms)
     else position (\<lambda>m. sint (me_mtype m) \<le> sint (- msgtype)) ms)"

definition msgrcv ::
    "i64 \<Rightarrow> i32 \<Rightarrow> u32 \<Rightarrow> i32 \<Rightarrow> u32 \<Rightarrow> u32 \<Rightarrow> IpcTable \<Rightarrow> MsgEntry kresult \<times> IpcTable" where
  "msgrcv now qid max_size msgtype flags pid t = (case bt_get (ipc_msg_queues t) (sint qid) of
     None \<Rightarrow> (Err EINVAL, t)
   | Some q \<Rightarrow>
       (let noerror = (flags AND MSG_NOERROR \<noteq> 0);
            except = (flags AND MSG_EXCEPT \<noteq> 0)
        in case msg_select msgtype except (sq_messages q) of
             None \<Rightarrow> if flags AND IPC_NOWAIT \<noteq> 0 then (Err ENOMSG, t) else (Err EAGAIN, t)
           | Some idx \<Rightarrow>
               (let msg = sq_messages q ! idx in
                if length (me_data msg) > unat max_size \<and> \<not> noerror then (Err E2BIG, t)
                else
                  (let truncated_len = min (length (me_data msg)) (unat max_size);
                       data = (if truncated_len < length (me_data msg)
                               then take truncated_len (me_data msg) else me_data msg);
                       q' = q\<lparr>sq_messages := remove_nth idx (sq_messages q),
                              sq_cbytes := saturating_sub (sq_cbytes q) (word_of_nat (length data)),
                              sq_lrpid := pid, sq_rtime := now\<rparr>
                   in (Ok \<lparr>me_mtype = me_mtype msg, me_data = data\<rparr>,
                       t\<lparr>ipc_msg_queues := bt_insert (sint qid) q' (ipc_msg_queues t)\<rparr>)))))"

definition msgctl :: "i64 \<Rightarrow> i32 \<Rightarrow> i32 \<Rightarrow> IpcTable \<Rightarrow> MsgQueueInfo option kresult \<times> IpcTable" where
  "msgctl now qid cmd t =
    (if cmd = IPC_STAT then
       (case bt_get (ipc_msg_queues t) (sint qid) of
          None \<Rightarrow> (Err EINVAL, t)
        | Some q \<Rightarrow>
            (Ok (Some \<lparr>qi_key = sq_key q, qi_uid = sq_uid q, qi_gid = sq_gid q, qi_cuid = sq_cuid q,
                qi_cgid = sq_cgid q, qi_mode = sq_mode q, qi_seq = sq_seq q, qi_stime = sq_stime q,
                qi_rtime = sq_rtime q, qi_ctime = sq_ctime q, qi_cbytes = sq_cbytes q,
                qi_qnum = word_of_nat (length (sq_messages q)), qi_qbytes = sq_qbytes q,
                qi_lspid = sq_lspid q, qi_lrpid = sq_lrpid q\<rparr>), t))
     else if cmd = IPC_RMID then
       (case bt_get (ipc_msg_queues t) (sint qid) of
          None \<Rightarrow> (Err EINVAL, t)
        | Some q \<Rightarrow> (Ok None, t\<lparr>ipc_msg_queues := bt_remove (sint qid) (ipc_msg_queues t)\<rparr>))
     else if cmd = IPC_SET then
       (case bt_get (ipc_msg_queues t) (sint qid) of
          None \<Rightarrow> (Err EINVAL, t)
        | Some q \<Rightarrow> (Ok None, t\<lparr>ipc_msg_queues :=
            bt_insert (sint qid) (q\<lparr>sq_ctime := now\<rparr>) (ipc_msg_queues t)\<rparr>))
     else (Err EINVAL, t))"

section \<open>Semaphores\<close>

definition semget :: "i64 \<Rightarrow> i32 \<Rightarrow> u32 \<Rightarrow> u32 \<Rightarrow> u32 \<Rightarrow> u32 \<Rightarrow> IpcTable \<Rightarrow> i32 kresult \<times> IpcTable" where
  "semget now key nsems flags uid gid t =
    (let creating = (flags AND IPC_CREAT \<noteq> 0); exclusive = (flags AND IPC_EXCL \<noteq> 0)
     in case (if key \<noteq> IPC_PRIVATE then find (\<lambda>s. sm_key s = key) (map snd (ipc_sem_sets t)) else None) of
          Some s \<Rightarrow> if creating \<and> exclusive then (Err EEXIST, t) else (Ok (sm_id s), t)
        | None \<Rightarrow>
            if \<not> creating \<and> key \<noteq> IPC_PRIVATE then (Err ENOENT, t)
            else if nsems = 0 \<or> unat nsems > SEMMSL then (Err EINVAL, t)
            else
              (let (id, t) = ipc_alloc_id t;
                   s = \<lparr>sm_key = key, sm_id = id, sm_mode = flags AND 0x1FF, sm_uid = uid, sm_gid = gid,
                        sm_cuid = uid, sm_cgid = gid, sm_nsems = nsems,
                        sm_values = replicate (unat nsems) \<lparr>sv_val = 0, sv_pid = 0, sv_ncnt = 0, sv_zcnt = 0\<rparr>,
                        sm_otime = 0, sm_ctime = now, sm_seq = id\<rparr>
               in (Ok id, t\<lparr>ipc_sem_sets := bt_insert (sint id) s (ipc_sem_sets t)\<rparr>)))"

text \<open>The first pass: the first operation that cannot proceed decides the error.\<close>

fun sem_validate :: "u32 \<Rightarrow> SemValue list \<Rightarrow> SemOp list \<Rightarrow> unit kresult" where
  "sem_validate nsems vals [] = Ok ()"
| "sem_validate nsems vals (op # ops) =
    (if unat (so_num op) \<ge> unat nsems then Err EFBIG
     else
       (let cur = int (unat (sv_val (vals ! unat (so_num op)))) in
        if sint (so_op op) < 0 then
          (if cur + sint (so_op op) < 0 then Err EAGAIN else sem_validate nsems vals ops)
        else if so_op op = 0 then
          (if cur \<noteq> 0 then Err EAGAIN else sem_validate nsems vals ops)
        else sem_validate nsems vals ops))"

definition sem_apply :: "u32 \<Rightarrow> SemOp \<Rightarrow> SemValue list \<Rightarrow> SemValue list" where
  "sem_apply pid op vals =
    (let i = unat (so_num op); sem = vals ! i;
         sem = (if so_op op \<noteq> 0
                then sem\<lparr>sv_val := word_of_int (int (unat (sv_val sem)) + sint (so_op op))\<rparr> else sem)
     in vals[i := sem\<lparr>sv_pid := pid\<rparr>])"

definition semop :: "i64 \<Rightarrow> i32 \<Rightarrow> SemOp list \<Rightarrow> u32 \<Rightarrow> IpcTable \<Rightarrow> unit kresult \<times> IpcTable" where
  "semop now semid sops pid t = (case bt_get (ipc_sem_sets t) (sint semid) of
     None \<Rightarrow> (Err EINVAL, t)
   | Some s \<Rightarrow> (case sem_validate (sm_nsems s) (sm_values s) sops of
       Inl e \<Rightarrow> (Err e, t)
     | Inr _ \<Rightarrow> (Ok (), t\<lparr>ipc_sem_sets := bt_insert (sint semid)
         (s\<lparr>sm_values := fold (sem_apply pid) sops (sm_values s), sm_otime := now\<rparr>) (ipc_sem_sets t)\<rparr>)))"

definition semctl :: "i64 \<Rightarrow> i32 \<Rightarrow> i32 \<Rightarrow> i32 \<Rightarrow> i32 \<Rightarrow> IpcTable \<Rightarrow> SemCtlResult kresult \<times> IpcTable" where
  "semctl now semid semnum cmd arg t =
    (case bt_get (ipc_sem_sets t) (sint semid) of
       None \<Rightarrow> (Err EINVAL, t)
     | Some s \<Rightarrow>
        (let value_of = (\<lambda>f. if sint semnum < 0 \<or> unat semnum \<ge> unat (sm_nsems s) then (Err EINVAL, t)
                           else (Ok (SemValueOf (f (sm_values s ! unat semnum))), t))
         in if cmd = IPC_STAT then
              (Ok (SemStat \<lparr>si_key = sm_key s, si_uid = sm_uid s, si_gid = sm_gid s, si_cuid = sm_cuid s,
                 si_cgid = sm_cgid s, si_mode = sm_mode s, si_seq = sm_seq s, si_nsems = sm_nsems s,
                 si_otime = sm_otime s, si_ctime = sm_ctime s\<rparr>), t)
            else if cmd = IPC_RMID then
              (Ok SemOk, t\<lparr>ipc_sem_sets := bt_remove (sint semid) (ipc_sem_sets t)\<rparr>)
            else if cmd = IPC_SET then
              (Ok SemOk, t\<lparr>ipc_sem_sets := bt_insert (sint semid) (s\<lparr>sm_ctime := now\<rparr>) (ipc_sem_sets t)\<rparr>)
            else if cmd = 12 then value_of (\<lambda>v. ucast (sv_val v))
            else if cmd = 16 then
              (if sint semnum < 0 \<or> unat semnum \<ge> unat (sm_nsems s) then (Err EINVAL, t)
               else if sint arg < 0 \<or> sint arg > 32767 then (Err ERANGE, t)
               else (Ok SemOk, t\<lparr>ipc_sem_sets := bt_insert (sint semid)
                 (s\<lparr>sm_values := (sm_values s)[unat semnum := (sm_values s ! unat semnum)\<lparr>sv_val := ucast arg\<rparr>],
                    sm_ctime := now\<rparr>) (ipc_sem_sets t)\<rparr>))
            else if cmd = 13 then (Ok (SemAll (map sv_val (sm_values s))), t)
            else if cmd = 11 then value_of sv_pid
            else if cmd = 14 then value_of sv_ncnt
            else if cmd = 15 then value_of sv_zcnt
            else (Err EINVAL, t)))"

definition semctl_set_all :: "i64 \<Rightarrow> i32 \<Rightarrow> u16 list \<Rightarrow> IpcTable \<Rightarrow> unit kresult \<times> IpcTable" where
  "semctl_set_all now semid values t = (case bt_get (ipc_sem_sets t) (sint semid) of
     None \<Rightarrow> (Err EINVAL, t)
   | Some s \<Rightarrow>
       if length values \<noteq> unat (sm_nsems s) then (Err EINVAL, t)
       else (Ok (), t\<lparr>ipc_sem_sets := bt_insert (sint semid)
         (s\<lparr>sm_values := map2 (\<lambda>sem v. sem\<lparr>sv_val := v\<rparr>) (sm_values s) values, sm_ctime := now\<rparr>)
         (ipc_sem_sets t)\<rparr>))"

section \<open>Shared memory\<close>

definition shmget :: "i64 \<Rightarrow> i32 \<Rightarrow> u32 \<Rightarrow> u32 \<Rightarrow> u32 \<Rightarrow> u32 \<Rightarrow> u32 \<Rightarrow> IpcTable \<Rightarrow> i32 kresult \<times> IpcTable" where
  "shmget now key seg_size flags pid uid gid t =
    (let creating = (flags AND IPC_CREAT \<noteq> 0); exclusive = (flags AND IPC_EXCL \<noteq> 0)
     in case (if key \<noteq> IPC_PRIVATE then find (\<lambda>s. sh_key s = key) (map snd (ipc_shm_segments t)) else None) of
          Some seg \<Rightarrow> if creating \<and> exclusive then (Err EEXIST, t) else (Ok (sh_id seg), t)
        | None \<Rightarrow>
            if \<not> creating \<and> key \<noteq> IPC_PRIVATE then (Err ENOENT, t)
            else if seg_size = 0 then (Err EINVAL, t)
            else
              (let (id, t) = ipc_alloc_id t;
                   seg = \<lparr>sh_key = key, sh_id = id, sh_mode = flags AND 0x1FF, sh_uid = uid, sh_gid = gid,
                          sh_cuid = uid, sh_cgid = gid, sh_segsz = seg_size,
                          sh_data = replicate (unat seg_size) 0, sh_cpid = pid, sh_lpid = 0, sh_nattch = 0,
                          sh_atime = 0, sh_dtime = 0, sh_ctime = now, sh_seq = id\<rparr>
               in (Ok id, t\<lparr>ipc_shm_segments := bt_insert (sint id) seg (ipc_shm_segments t)\<rparr>)))"

definition shmat :: "i64 \<Rightarrow> i32 \<Rightarrow> u32 \<Rightarrow> IpcTable \<Rightarrow> u32 kresult \<times> IpcTable" where
  "shmat now shmid pid t = (case bt_get (ipc_shm_segments t) (sint shmid) of
     None \<Rightarrow> (Err EINVAL, t)
   | Some seg \<Rightarrow> (Ok (sh_segsz seg), t\<lparr>ipc_shm_segments := bt_insert (sint shmid)
       (seg\<lparr>sh_nattch := sh_nattch seg + 1, sh_lpid := pid, sh_atime := now\<rparr>) (ipc_shm_segments t)\<rparr>))"

definition shm_read_chunk :: "i32 \<Rightarrow> u32 \<Rightarrow> bytes \<Rightarrow> IpcTable \<Rightarrow> u32 kresult \<times> bytes" where
  "shm_read_chunk shmid offset buf t = (case bt_get (ipc_shm_segments t) (sint shmid) of
     None \<Rightarrow> (Err EINVAL, buf)
   | Some seg \<Rightarrow>
       (let start = unat offset in
        if start \<ge> length (sh_data seg) then (Ok 0, buf)
        else
          (let end = min (start + length buf) (length (sh_data seg)); len = end - start
           in (Ok (word_of_nat len), copy_at 0 (slice start end (sh_data seg)) buf))))"

definition shm_write_chunk :: "i32 \<Rightarrow> u32 \<Rightarrow> bytes \<Rightarrow> IpcTable \<Rightarrow> u32 kresult \<times> IpcTable" where
  "shm_write_chunk shmid offset data t = (case bt_get (ipc_shm_segments t) (sint shmid) of
     None \<Rightarrow> (Err EINVAL, t)
   | Some seg \<Rightarrow>
       (let start = unat offset in
        if start \<ge> length (sh_data seg) then (Ok 0, t)
        else
          (let end = min (start + length data) (length (sh_data seg)); len = end - start
           in (Ok (word_of_nat len), t\<lparr>ipc_shm_segments := bt_insert (sint shmid)
                (seg\<lparr>sh_data := copy_at start (take len data) (sh_data seg)\<rparr>) (ipc_shm_segments t)\<rparr>))))"

definition shmdt :: "i64 \<Rightarrow> i32 \<Rightarrow> u32 \<Rightarrow> IpcTable \<Rightarrow> unit kresult \<times> IpcTable" where
  "shmdt now shmid pid t = (case bt_get (ipc_shm_segments t) (sint shmid) of
     None \<Rightarrow> (Err EINVAL, t)
   | Some seg \<Rightarrow> (Ok (), t\<lparr>ipc_shm_segments := bt_insert (sint shmid)
       (seg\<lparr>sh_nattch := saturating_sub (sh_nattch seg) 1, sh_lpid := pid, sh_dtime := now\<rparr>)
       (ipc_shm_segments t)\<rparr>))"

definition shmctl :: "i64 \<Rightarrow> i32 \<Rightarrow> i32 \<Rightarrow> IpcTable \<Rightarrow> ShmSegInfo option kresult \<times> IpcTable" where
  "shmctl now shmid cmd t =
    (if cmd = IPC_STAT then
       (case bt_get (ipc_shm_segments t) (sint shmid) of
          None \<Rightarrow> (Err EINVAL, t)
        | Some seg \<Rightarrow>
            (Ok (Some \<lparr>hi_key = sh_key seg, hi_uid = sh_uid seg, hi_gid = sh_gid seg, hi_cuid = sh_cuid seg,
                hi_cgid = sh_cgid seg, hi_mode = sh_mode seg, hi_seq = sh_seq seg, hi_segsz = sh_segsz seg,
                hi_cpid = sh_cpid seg, hi_lpid = sh_lpid seg, hi_nattch = sh_nattch seg,
                hi_atime = sh_atime seg, hi_dtime = sh_dtime seg, hi_ctime = sh_ctime seg\<rparr>), t))
     else if cmd = IPC_RMID then
       (case bt_get (ipc_shm_segments t) (sint shmid) of
          None \<Rightarrow> (Err EINVAL, t)
        | Some seg \<Rightarrow> (Ok None, t\<lparr>ipc_shm_segments := bt_remove (sint shmid) (ipc_shm_segments t)\<rparr>))
     else if cmd = IPC_SET then
       (case bt_get (ipc_shm_segments t) (sint shmid) of
          None \<Rightarrow> (Err EINVAL, t)
        | Some seg \<Rightarrow> (Ok None, t\<lparr>ipc_shm_segments :=
            bt_insert (sint shmid) (seg\<lparr>sh_ctime := now\<rparr>) (ipc_shm_segments t)\<rparr>))
     else (Err EINVAL, t))"

section \<open>Semaphore operations are atomic\<close>

text \<open>The net change a list of operations asks of one semaphore.\<close>

definition sem_delta :: "SemOp list \<Rightarrow> nat \<Rightarrow> int" where
  "sem_delta ops i = sum_list (map (\<lambda>op. sint (so_op op)) (filter (\<lambda>op. unat (so_num op) = i) ops))"

lemma length_sem_apply [simp]: "length (fold (sem_apply pid) ops vals) = length vals"
  by (induction ops arbitrary: vals) (simp_all add: sem_apply_def Let_def)

lemma sem_apply_val:
  "i < length vals \<Longrightarrow> sv_val (sem_apply pid op vals ! i) =
    sv_val (vals ! i) + (if unat (so_num op) = i then word_of_int (sint (so_op op)) else 0)"
  by (auto simp: sem_apply_def Let_def nth_list_update wi_hom_add [symmetric])

lemma fold_sem_apply_val:
  "i < length vals \<Longrightarrow>
    sv_val (fold (sem_apply pid) ops vals ! i) = sv_val (vals ! i) + word_of_int (sem_delta ops i)"
proof (induction ops arbitrary: vals)
  case (Cons op ops)
  have "length (sem_apply pid op vals) = length vals" by (simp add: sem_apply_def Let_def)
  with Cons show ?case
    by (simp add: sem_apply_val sem_delta_def wi_hom_add [symmetric] add.assoc)
qed (simp add: sem_delta_def)

lemma sem_validate_OkD:
  "sem_validate n vals ops = Ok u \<Longrightarrow> op \<in> set ops \<Longrightarrow> unat (so_num op) < unat n \<and>
    0 \<le> int (unat (sv_val (vals ! unat (so_num op)))) + sint (so_op op)"
  by (induction n vals ops rule: sem_validate.induct) (auto simp: Let_def split: if_splits)

lemma sem_delta_distinct:
  assumes "distinct (map so_num ops)" "op \<in> set ops"
  shows "sem_delta ops (unat (so_num op)) = sint (so_op op)"
  using assms
proof (induction ops)
  case (Cons o' ops)
  have none: "sem_delta ops (unat (so_num o')) = 0" if "so_num o' \<notin> so_num ` set ops" for o'
  proof -
    have "filter (\<lambda>p. unat (so_num p) = unat (so_num o')) ops = []"
      using that by (force simp: filter_empty_conv word_unat_eq_iff [symmetric])
    then show ?thesis by (simp add: sem_delta_def)
  qed
  show ?case
  proof (cases "op = o'")
    case True
    with Cons.prems none [of o'] show ?thesis by (simp add: sem_delta_def)
  next
    case False
    then have "so_num op \<noteq> so_num o'" using Cons.prems by (metis distinct.simps(2) image_eqI list.set_map list.simps(9) set_ConsD)
    then have "unat (so_num op) \<noteq> unat (so_num o')" by (simp add: word_unat_eq_iff [symmetric])
    with False Cons show ?thesis by (simp add: sem_delta_def eq_commute)
  qed
qed simp

lemma sem_delta_untouched: "i \<notin> (\<lambda>op. unat (so_num op)) ` set ops \<Longrightarrow> sem_delta ops i = 0"
proof -
  assume "i \<notin> (\<lambda>op. unat (so_num op)) ` set ops"
  then have "filter (\<lambda>op. unat (so_num op) = i) ops = []" by (auto simp: filter_empty_conv)
  then show ?thesis by (simp add: sem_delta_def)
qed

text \<open>
  C30: \<open>semop\<close> applies all operations or none. A failure leaves the whole table unchanged. When it
  succeeds on distinct semaphores whose values do not exceed 65535, every semaphore of the set
  changes by exactly the amount requested for it and none becomes negative; no other set changes.
\<close>

theorem semop_all_or_nothing:
  assumes "bt_get (ipc_sem_sets t) (sint semid) = Some s" and "length (sm_values s) = unat (sm_nsems s)"
    and "semop now semid ops pid t = (res, t')" and "distinct (map so_num ops)"
    and "\<forall>op\<in>set ops. int (unat (sv_val (sm_values s ! unat (so_num op)))) + sint (so_op op) < 65536"
  shows "case res of
      Inl e \<Rightarrow> t' = t
    | Inr _ \<Rightarrow> \<exists>s'. bt_get (ipc_sem_sets t') = (bt_get (ipc_sem_sets t))(sint semid \<mapsto> s') \<and>
        length (sm_values s') = length (sm_values s) \<and>
        (\<forall>i<length (sm_values s). 0 \<le> int (unat (sv_val (sm_values s ! i))) + sem_delta ops i \<and>
           int (unat (sv_val (sm_values s' ! i))) = int (unat (sv_val (sm_values s ! i))) + sem_delta ops i)"
proof (cases "sem_validate (sm_nsems s) (sm_values s) ops")
  case (Inl e)
  then have "res = Err e" "t' = t" using assms(1,3) by (simp_all add: semop_def)
  then show ?thesis by simp
next
  case (Inr u)
  define s' where "s' = s\<lparr>sm_values := fold (sem_apply pid) ops (sm_values s), sm_otime := now\<rparr>"
  have r: "res = Ok ()" "t' = t\<lparr>ipc_sem_sets := bt_insert (sint semid) s' (ipc_sem_sets t)\<rparr>"
    using assms(1,3) Inr by (auto simp: semop_def s'_def)
  have range: "0 \<le> int (unat (sv_val (sm_values s ! i))) + sem_delta ops i \<and>
      int (unat (sv_val (sm_values s ! i))) + sem_delta ops i < 65536" for i
  proof (cases "\<exists>op\<in>set ops. unat (so_num op) = i")
    case True
    then obtain op where op: "op \<in> set ops" "unat (so_num op) = i" by blast
    with sem_delta_distinct [OF assms(4) op(1)] sem_validate_OkD [OF Inr op(1)] assms(5)
    show ?thesis by auto
  next
    case False
    then have "sem_delta ops i = 0" by (intro sem_delta_untouched) auto
    then show ?thesis using unsigned_less [of "sv_val (sm_values s ! i)", where 'a = int] by simp
  qed
  have val: "int (unat (sv_val (sm_values s' ! i))) = int (unat (sv_val (sm_values s ! i))) + sem_delta ops i"
    if "i < length (sm_values s)" for i
  proof -
    have "uint (sv_val (sm_values s' ! i)) = (uint (sv_val (sm_values s ! i)) + sem_delta ops i) mod 2 ^ 16"
      using fold_sem_apply_val [OF that, of pid ops]
      by (simp add: s'_def uint_word_ariths take_bit_eq_mod unsigned_of_int mod_add_right_eq)
    also have "\<dots> = uint (sv_val (sm_values s ! i)) + sem_delta ops i"
      using range [of i] by (intro mod_pos_pos_trivial) simp_all
    finally show ?thesis by simp
  qed
  have upd: "bt_get (ipc_sem_sets t') = (bt_get (ipc_sem_sets t))(sint semid \<mapsto> s')"
    by (simp add: r(2) fun_eq_iff)
  have "length (sm_values s') = length (sm_values s)" by (simp add: s'_def)
  with upd val range show ?thesis unfolding r(1) sum.case
    by blast
qed

text \<open>
  Operations on the same semaphore are checked against its value before the call, not one after
  the other. Two decrements of a semaphore with value 1 in one call both pass the check, and the
  value wraps around to 65535.
\<close>

theorem semop_repeated_decrement_wraps:
  "let op = \<lparr>so_num = 0, so_op = - 1, so_flg = 0\<rparr>;
       t = snd (semget 0 IPC_PRIVATE 1 0 0 0 ipc_new);
       t = snd (semctl 0 0 0 16 1 t);
       (r1, t) = semop 0 0 [op, op] 7 t;
       (r2, t) = semctl 0 0 0 12 0 t
   in r1 = Ok () \<and> r2 = Ok (SemValueOf 65535)"
  by (simp add: semget_def ipc_alloc_id_def ipc_new_def semctl_def semop_def sem_apply_def Let_def
      unsigned_minus_1_eq_mask mask_eq_exp_minus_1)

definition demo_sems :: IpcTable where
  "demo_sems = snd (semctl_set_all 0 0 [2, 3] (snd (semget 0 IPC_PRIVATE 2 0 0 0 ipc_new)))"

theorem semop_all_or_nothing_witness:
  "\<exists>t' s'. semop 9 0 [\<lparr>so_num = 0, so_op = - 2, so_flg = 0\<rparr>, \<lparr>so_num = 1, so_op = 4, so_flg = 0\<rparr>] 7 demo_sems
       = (Ok (), t') \<and> bt_get (ipc_sem_sets t') 0 = Some s' \<and> int (unat (sv_val (sm_values s' ! 1))) = 7"
proof -
  let ?ops = "[\<lparr>so_num = 0, so_op = - 2, so_flg = 0\<rparr>, \<lparr>so_num = 1, so_op = 4, so_flg = 0\<rparr>]"
  have "map_option (\<lambda>s. (sm_nsems s, sm_values s)) (bt_get (ipc_sem_sets demo_sems) (sint (0 :: i32)))
      = Some (2, [\<lparr>sv_val = 2, sv_pid = 0, sv_ncnt = 0, sv_zcnt = 0\<rparr>, \<lparr>sv_val = 3, sv_pid = 0, sv_ncnt = 0, sv_zcnt = 0\<rparr>])"
    by code_simp
  then obtain s where s: "bt_get (ipc_sem_sets demo_sems) (sint (0 :: i32)) = Some s" "sm_nsems s = 2"
      "sm_values s = [\<lparr>sv_val = 2, sv_pid = 0, sv_ncnt = 0, sv_zcnt = 0\<rparr>, \<lparr>sv_val = 3, sv_pid = 0, sv_ncnt = 0, sv_zcnt = 0\<rparr>]"
    by auto
  obtain res t' where run: "semop 9 0 ?ops 7 demo_sems = (res, t')" by (cases "semop 9 0 ?ops 7 demo_sems")
  have ok: "res = Ok ()" using run s by (simp add: semop_def)
  have "sem_delta ?ops 1 = 4" by (simp add: sem_delta_def)
  with semop_all_or_nothing [OF s(1) _ run] s ok run show ?thesis by (auto simp: fun_upd_def)
qed

section \<open>Message queues\<close>

definition msg_matches :: "i32 \<Rightarrow> bool \<Rightarrow> MsgEntry \<Rightarrow> bool" where
  "msg_matches msgtype except m \<longleftrightarrow>
    (if msgtype = 0 then True
     else if sint msgtype > 0 then (me_mtype m = msgtype) \<noteq> except
     else sint (me_mtype m) \<le> sint (- msgtype))"

lemma msg_select_position: "msg_select msgtype except ms = position (msg_matches msgtype except) ms"
  by (cases ms) (auto simp: msg_select_def msg_matches_def [abs_def])

text \<open>
  \<open>msgrcv\<close> takes the oldest message of the requested kind. It removes exactly that message and
  returns it with its type, cut to the caller's size only under \<open>MSG_NOERROR\<close>. It fails, with the
  queue unchanged, exactly when no message matches or the one selected is too long and may not be
  cut; in the latter case the error is \<open>E2BIG\<close>.
\<close>

theorem msgrcv_oldest_match:
  assumes "bt_get (ipc_msg_queues t) (sint qid) = Some q"
    and "msgrcv now qid max_size msgtype flags pid t = (res, t')"
  defines "P \<equiv> msg_matches msgtype (flags AND MSG_EXCEPT \<noteq> 0)"
  shows "(if \<forall>m\<in>set (sq_messages q). \<not> P m then t' = t \<and>
            res = Err (if flags AND IPC_NOWAIT \<noteq> 0 then ENOMSG else EAGAIN)
     else \<exists>older m newer. sq_messages q = older @ m # newer \<and> P m \<and> (\<forall>x\<in>set older. \<not> P x) \<and>
       (if length (me_data m) > unat max_size \<and> flags AND MSG_NOERROR = 0
        then res = Err E2BIG \<and> t' = t
        else res = Ok \<lparr>me_mtype = me_mtype m, me_data = take (unat max_size) (me_data m)\<rparr> \<and>
          (\<exists>q'. bt_get (ipc_msg_queues t') = (bt_get (ipc_msg_queues t))(sint qid \<mapsto> q') \<and>
             sq_messages q' = older @ newer)))"
proof (cases "position P (sq_messages q)")
  case None
  then have "t' = t" "res = Err (if flags AND IPC_NOWAIT \<noteq> 0 then ENOMSG else EAGAIN)"
    using assms(1,2) by (simp_all add: msgrcv_def msg_select_position P_def split: if_splits)
  with None show ?thesis by (simp add: position_None_iff)
next
  case (Some i)
  note i = position_split [OF Some]
  define m where "m = sq_messages q ! i"
  have sel: "msg_select msgtype (flags AND MSG_EXCEPT \<noteq> 0) (sq_messages q) = Some i"
    using Some by (simp add: msg_select_position P_def)
  have ex: "\<not> (\<forall>m\<in>set (sq_messages q). \<not> P m)" using i(2,4) by auto
  have tk: "(if min (length xs) k < length xs then take (min (length xs) k) xs else xs) = take k xs"
    for xs :: bytes and k by (auto simp: min_def)
  have "if length (me_data m) > unat max_size \<and> flags AND MSG_NOERROR = 0
        then res = Err E2BIG \<and> t' = t
        else res = Ok \<lparr>me_mtype = me_mtype m, me_data = take (unat max_size) (me_data m)\<rparr> \<and>
          (\<exists>q'. bt_get (ipc_msg_queues t') = (bt_get (ipc_msg_queues t))(sint qid \<mapsto> q') \<and>
             sq_messages q' = take i (sq_messages q) @ drop (Suc i) (sq_messages q))"
    using assms(1,2) sel
    by (auto simp: msgrcv_def Let_def m_def tk remove_nth_def fun_eq_iff split: if_splits)
  with i(1-3) have "\<exists>older m newer. sq_messages q = older @ m # newer \<and> P m \<and> (\<forall>x\<in>set older. \<not> P x) \<and>
       (if length (me_data m) > unat max_size \<and> flags AND MSG_NOERROR = 0
        then res = Err E2BIG \<and> t' = t
        else res = Ok \<lparr>me_mtype = me_mtype m, me_data = take (unat max_size) (me_data m)\<rparr> \<and>
          (\<exists>q'. bt_get (ipc_msg_queues t') = (bt_get (ipc_msg_queues t))(sint qid \<mapsto> q') \<and>
             sq_messages q' = older @ newer))"
    unfolding m_def by blast
  with ex show ?thesis by (simp only: if_False)
qed

definition demo_msgs :: IpcTable where
  "demo_msgs = snd (msgsnd 0 0 5 [1, 2, 3] 0 7 (snd (msgsnd 0 0 4 [9] 0 7
     (snd (msgget 0 IPC_PRIVATE 0 0 0 ipc_new)))))"

theorem msgrcv_oldest_match_witness:
  "\<exists>t'. msgrcv 0 0 2 5 MSG_NOERROR 8 demo_msgs = (Ok \<lparr>me_mtype = 5, me_data = [1, 2]\<rparr>, t')"
proof -
  have "map_option sq_messages (bt_get (ipc_msg_queues demo_msgs) (sint (0 :: i32)))
      = Some [\<lparr>me_mtype = 4, me_data = [9]\<rparr>, \<lparr>me_mtype = 5, me_data = [1, 2, 3]\<rparr>]"
    by code_simp
  then obtain q where q: "bt_get (ipc_msg_queues demo_msgs) (sint (0 :: i32)) = Some q"
      "sq_messages q = [\<lparr>me_mtype = 4, me_data = [9]\<rparr>, \<lparr>me_mtype = 5, me_data = [1, 2, 3]\<rparr>]"
    by auto
  obtain res t' where run: "msgrcv 0 0 2 5 MSG_NOERROR 8 demo_msgs = (res, t')"
    by (cases "msgrcv 0 0 2 5 MSG_NOERROR 8 demo_msgs")
  have "\<exists>older m newer. sq_messages q = older @ m # newer \<and> me_mtype m = 5 \<and>
      res = Ok \<lparr>me_mtype = me_mtype m, me_data = take 2 (me_data m)\<rparr>"
    using msgrcv_oldest_match [OF q(1) run] q(2) by (auto simp: msg_matches_def)
  then show ?thesis
    using run q(2) by (auto simp: Cons_eq_append_conv)
qed

section \<open>The invariant of the table\<close>

definition msgq_ok :: "int \<Rightarrow> MsgQueue \<Rightarrow> bool" where
  "msgq_ok k q \<longleftrightarrow> sint (sq_id q) = k \<and> sq_qbytes q = MSGMNB \<and> sq_cbytes q \<le> sq_qbytes q \<and>
    sum_list (map (length \<circ> me_data) (sq_messages q)) \<le> unat (sq_cbytes q) \<and>
    (\<forall>m\<in>set (sq_messages q). sint (me_mtype m) > 0 \<and> length (me_data m) \<le> MSGMAX)"

definition semset_ok :: "int \<Rightarrow> SemSet \<Rightarrow> bool" where
  "semset_ok k s \<longleftrightarrow> sint (sm_id s) = k \<and> 0 < unat (sm_nsems s) \<and> unat (sm_nsems s) \<le> SEMMSL \<and>
    length (sm_values s) = unat (sm_nsems s)"

definition shmseg_ok :: "int \<Rightarrow> ShmSegment \<Rightarrow> bool" where
  "shmseg_ok k seg \<longleftrightarrow> sint (sh_id seg) = k \<and> sh_segsz seg \<noteq> 0 \<and> length (sh_data seg) = unat (sh_segsz seg)"

definition ipc_wf :: "IpcTable \<Rightarrow> bool" where
  "ipc_wf t \<longleftrightarrow>
    bt_all msgq_ok (ipc_msg_queues t) \<and> bt_all semset_ok (ipc_sem_sets t) \<and> bt_all shmseg_ok (ipc_shm_segments t)"

text \<open>The tables that the operations of the module can produce.\<close>

inductive ipc_reach :: "IpcTable \<Rightarrow> bool" where
  new: "ipc_reach ipc_new"
| msgget: "ipc_reach t \<Longrightarrow> ipc_reach (snd (msgget now key flags uid gid t))"
| msgsnd: "ipc_reach t \<Longrightarrow> ipc_reach (snd (msgsnd now qid mtype data flags pid t))"
| msgrcv: "ipc_reach t \<Longrightarrow> ipc_reach (snd (msgrcv now qid max_size msgtype flags pid t))"
| msgctl: "ipc_reach t \<Longrightarrow> ipc_reach (snd (msgctl now qid cmd t))"
| semget: "ipc_reach t \<Longrightarrow> ipc_reach (snd (semget now key nsems flags uid gid t))"
| semop: "ipc_reach t \<Longrightarrow> ipc_reach (snd (semop now semid sops pid t))"
| semctl: "ipc_reach t \<Longrightarrow> ipc_reach (snd (semctl now semid semnum cmd arg t))"
| semctl_set_all: "ipc_reach t \<Longrightarrow> ipc_reach (snd (semctl_set_all now semid values t))"
| shmget: "ipc_reach t \<Longrightarrow> ipc_reach (snd (shmget now key seg_size flags pid uid gid t))"
| shmat: "ipc_reach t \<Longrightarrow> ipc_reach (snd (shmat now shmid pid t))"
| shm_write_chunk: "ipc_reach t \<Longrightarrow> ipc_reach (snd (shm_write_chunk shmid offset data t))"
| shmdt: "ipc_reach t \<Longrightarrow> ipc_reach (snd (shmdt now shmid pid t))"
| shmctl: "ipc_reach t \<Longrightarrow> ipc_reach (snd (shmctl now shmid cmd t))"

lemma msgq_ok_send:
  assumes "msgq_ok k q" "length data \<le> MSGMAX" "0 < sint mtype"
    and "\<not> sq_qbytes q < sq_cbytes q + word_of_nat (length data)"
  shows "msgq_ok k (q\<lparr>sq_cbytes := sq_cbytes q + word_of_nat (length data),
      sq_messages := sq_messages q @ [\<lparr>me_mtype = mtype, me_data = data\<rparr>], sq_lspid := pid, sq_stime := now\<rparr>)"
proof -
  have "unat (sq_cbytes q) \<le> 16384" using assms(1) by (auto simp: msgq_ok_def word_le_nat_alt)
  then have "unat (sq_cbytes q + word_of_nat (length data)) = unat (sq_cbytes q) + length data"
    using assms(2) by (simp add: unat_word_ariths unat_of_nat)
  with assms show ?thesis by (auto simp: msgq_ok_def)
qed

lemma msgq_ok_receive:
  assumes "msgq_ok k q" "i < length (sq_messages q)" "n \<le> length (me_data (sq_messages q ! i))"
  shows "msgq_ok k (q\<lparr>sq_messages := remove_nth i (sq_messages q),
      sq_cbytes := saturating_sub (sq_cbytes q) (word_of_nat n), sq_lrpid := pid, sq_rtime := now\<rparr>)"
proof -
  have "length (me_data (sq_messages q ! i)) \<le> 8192" using assms(1,2) by (simp add: msgq_ok_def)
  with assms(3) have "n \<le> 8192" by simp
  then have "unat (saturating_sub (sq_cbytes q) (word_of_nat n)) = unat (sq_cbytes q) - n"
    by (simp add: unat_saturating_sub unat_of_nat)
  moreover have "sum_list (map (length \<circ> me_data) (remove_nth i (sq_messages q))) + length (me_data (sq_messages q ! i))
      = sum_list (map (length \<circ> me_data) (sq_messages q))"
    using remove_nth_sum_list [OF assms(2), of "length \<circ> me_data"] by simp
  ultimately show ?thesis
    using assms remove_nth_set [of i "sq_messages q"] by (auto simp: msgq_ok_def word_le_nat_alt)
qed

lemma msg_select_bound: "msg_select msgtype except ms = Some i \<Longrightarrow> i < length ms"
  by (simp add: msg_select_position position_Some_iff)

lemma ipc_wf_alloc_id: "ipc_alloc_id t = (i, t') \<Longrightarrow> ipc_wf t \<Longrightarrow> ipc_wf t'"
  by (auto simp: ipc_alloc_id_def ipc_wf_def)

lemma ipc_wf_msg:
  "ipc_wf t \<Longrightarrow> bt_all msgq_ok m \<Longrightarrow> ipc_wf (t\<lparr>ipc_msg_queues := m\<rparr>)"
  "ipc_wf t \<Longrightarrow> bt_all semset_ok s \<Longrightarrow> ipc_wf (t\<lparr>ipc_sem_sets := s\<rparr>)"
  "ipc_wf t \<Longrightarrow> bt_all shmseg_ok h \<Longrightarrow> ipc_wf (t\<lparr>ipc_shm_segments := h\<rparr>)"
  by (simp_all add: ipc_wf_def)

lemma ipc_wfD:
  "ipc_wf t \<Longrightarrow> bt_all msgq_ok (ipc_msg_queues t)"
  "ipc_wf t \<Longrightarrow> bt_all semset_ok (ipc_sem_sets t)"
  "ipc_wf t \<Longrightarrow> bt_all shmseg_ok (ipc_shm_segments t)"
  by (simp_all add: ipc_wf_def)

lemma ipc_entryD:
  "bt_get (ipc_msg_queues t) k = Some q \<Longrightarrow> ipc_wf t \<Longrightarrow> msgq_ok k q"
  "bt_get (ipc_sem_sets t) k = Some s \<Longrightarrow> ipc_wf t \<Longrightarrow> semset_ok k s"
  "bt_get (ipc_shm_segments t) k = Some seg \<Longrightarrow> ipc_wf t \<Longrightarrow> shmseg_ok k seg"
  by (auto simp: ipc_wf_def dest: bt_allD)

lemmas ipc_wf_intros = ipc_wf_msg bt_all_insert bt_all_remove ipc_wfD

lemma ipc_wf_msgget: "ipc_wf t \<Longrightarrow> ipc_wf (snd (msgget now key flags uid gid t))"
  by (auto simp: msgget_def Let_def msgq_ok_def intro!: ipc_wf_intros
      dest: ipc_wf_alloc_id split: option.split prod.split)

lemma ipc_wf_msgsnd: "ipc_wf t \<Longrightarrow> ipc_wf (snd (msgsnd now qid mtype data flags pid t))"
  by (auto simp: msgsnd_def intro!: ipc_wf_msg bt_all_insert msgq_ok_send
      intro: ipc_wfD dest!: ipc_entryD(1) split: option.split)

lemma ipc_wf_msgrcv:
  assumes "ipc_wf t"
  shows "ipc_wf (snd (msgrcv now qid max_size msgtype flags pid t))"
proof (cases "bt_get (ipc_msg_queues t) (sint qid)")
  case (Some q)
  have data: "length (if n < length xs then take n xs else xs) \<le> length xs" for n and xs :: bytes
    by simp
  show ?thesis
  proof (cases "msg_select msgtype (flags AND MSG_EXCEPT \<noteq> 0) (sq_messages q)")
    case (Some i)
    note ok = msgq_ok_receive [OF ipc_entryD(1) [OF \<open>bt_get _ _ = Some q\<close> assms] msg_select_bound [OF Some] data]
    show ?thesis
      using \<open>bt_get _ _ = Some q\<close> Some assms
      by (simp add: msgrcv_def Let_def ipc_wf_msg bt_all_insert [OF ipc_wfD(1) ok] del: length_take)
  qed (use Some assms in \<open>simp add: msgrcv_def\<close>)
qed (use assms in \<open>simp add: msgrcv_def\<close>)

lemma ipc_wf_msgctl: "ipc_wf t \<Longrightarrow> ipc_wf (snd (msgctl now qid cmd t))"
  by (auto simp: msgctl_def msgq_ok_def intro!: ipc_wf_intros
      dest!: ipc_entryD(1) split: option.split)

lemma ipc_wf_semget: "ipc_wf t \<Longrightarrow> ipc_wf (snd (semget now key nsems flags uid gid t))"
  by (auto simp: semget_def Let_def semset_ok_def unat_gt_0 intro!: ipc_wf_intros
      dest: ipc_wf_alloc_id split: option.split prod.split)

lemma ipc_wf_semop: "ipc_wf t \<Longrightarrow> ipc_wf (snd (semop now semid sops pid t))"
  by (auto simp: semop_def semset_ok_def intro!: ipc_wf_intros
      dest!: ipc_entryD(2) split: option.split sum.split)

lemma ipc_wf_semctl: "ipc_wf t \<Longrightarrow> ipc_wf (snd (semctl now semid semnum cmd arg t))"
  by (auto simp: semctl_def Let_def semset_ok_def intro!: ipc_wf_intros
      dest!: ipc_entryD(2) split: option.split)

lemma ipc_wf_semctl_set_all: "ipc_wf t \<Longrightarrow> ipc_wf (snd (semctl_set_all now semid values t))"
  by (auto simp: semctl_set_all_def semset_ok_def intro!: ipc_wf_intros
      dest!: ipc_entryD(2) split: option.split)

lemma ipc_wf_shmget: "ipc_wf t \<Longrightarrow> ipc_wf (snd (shmget now key seg_size flags pid uid gid t))"
  by (auto simp: shmget_def Let_def shmseg_ok_def intro!: ipc_wf_intros
      dest: ipc_wf_alloc_id split: option.split prod.split)

lemma ipc_wf_shmat: "ipc_wf t \<Longrightarrow> ipc_wf (snd (shmat now shmid pid t))"
  by (auto simp: shmat_def shmseg_ok_def intro!: ipc_wf_intros
      dest!: ipc_entryD(3) split: option.split)

lemma ipc_wf_shm_write: "ipc_wf t \<Longrightarrow> ipc_wf (snd (shm_write_chunk shmid offset data t))"
  by (auto simp: shm_write_chunk_def Let_def shmseg_ok_def length_copy_at intro!: ipc_wf_intros
      dest!: ipc_entryD(3) split: option.split)

lemma ipc_wf_shmdt: "ipc_wf t \<Longrightarrow> ipc_wf (snd (shmdt now shmid pid t))"
  by (auto simp: shmdt_def shmseg_ok_def intro!: ipc_wf_intros
      dest!: ipc_entryD(3) split: option.split)

lemma ipc_wf_shmctl: "ipc_wf t \<Longrightarrow> ipc_wf (snd (shmctl now shmid cmd t))"
  by (auto simp: shmctl_def shmseg_ok_def intro!: ipc_wf_intros
      dest!: ipc_entryD(3) split: option.split)

text \<open>
  C31: after any sequence of operations the System V table is consistent. Each object is stored under
  its own identifier. A queue never accounts for more than 16384 bytes, and the bytes it holds are at
  most what it accounts for; each message has a positive type and at most 8192 bytes. A semaphore set
  has between 1 and 32 semaphores, as many as it declares. A segment has as many bytes as it declares.
\<close>

theorem ipc_reach_wf: "ipc_reach t \<Longrightarrow> ipc_wf t"
proof (induction rule: ipc_reach.induct)
  case new
  show ?case by (simp add: ipc_new_def ipc_wf_def)
qed (rule ipc_wf_msgget ipc_wf_msgsnd ipc_wf_msgrcv ipc_wf_msgctl ipc_wf_semget ipc_wf_semop
    ipc_wf_semctl ipc_wf_semctl_set_all ipc_wf_shmget ipc_wf_shmat ipc_wf_shm_write ipc_wf_shmdt
    ipc_wf_shmctl, assumption)+

theorem ipc_reach_wf_witness: "ipc_wf demo_msgs \<and> ipc_wf demo_sems"
  unfolding demo_msgs_def demo_sems_def by (intro conjI ipc_reach_wf ipc_reach.intros)

section \<open>Shared memory segments\<close>

text \<open>
  A segment is a byte array shared by all its users. A write that starts inside the segment
  stores the longest prefix of the data that fits and returns its length; a read of that many bytes
  at the same offset returns exactly them, and every other byte of the segment, and every other
  segment, is what it was.
\<close>

theorem shm_write_read:
  fixes data :: bytes
  assumes "ipc_wf t" and "bt_get (ipc_shm_segments t) (sint shmid) = Some seg"
    and "unat offset < unat (sh_segsz seg)"
  defines "n \<equiv> min (length data) (unat (sh_segsz seg) - unat offset)"
  shows "\<exists>t' seg'. shm_write_chunk shmid offset data t = (Ok (word_of_nat n), t') \<and>
    bt_get (ipc_shm_segments t') = (bt_get (ipc_shm_segments t))(sint shmid \<mapsto> seg') \<and>
    length (sh_data seg') = length (sh_data seg) \<and>
    (\<forall>k<length (sh_data seg). sh_data seg' ! k =
       (if unat offset \<le> k \<and> k < unat offset + n then data ! (k - unat offset) else sh_data seg ! k)) \<and>
    (\<forall>buf. length buf = n \<longrightarrow> shm_read_chunk shmid offset buf t' = (Ok (word_of_nat n), take n data))"
proof -
  let ?s = "unat offset"
  have len: "length (sh_data seg) = unat (sh_segsz seg)"
    using ipc_entryD(3) [OF assms(2,1)] by (simp add: shmseg_ok_def)
  define seg' where "seg' = seg\<lparr>sh_data := copy_at ?s (take n data) (sh_data seg)\<rparr>"
  define t' where "t' = t\<lparr>ipc_shm_segments := bt_insert (sint shmid) seg' (ipc_shm_segments t)\<rparr>"
  have n: "min (?s + length data) (length (sh_data seg)) - ?s = n" and fit: "?s + n \<le> length (sh_data seg)"
    using assms(3) len by (auto simp: n_def)
  have wr: "shm_write_chunk shmid offset data t = (Ok (word_of_nat n), t')"
    unfolding shm_write_chunk_def assms(2) option.case Let_def n using assms(3) len
    by (simp add: seg'_def t'_def)
  have tn: "length (take n data) = n" by (simp add: n_def)
  have nth: "sh_data seg' ! k = (if ?s \<le> k \<and> k < ?s + n then data ! (k - ?s) else sh_data seg ! k)"
    if "k < length (sh_data seg)" for k
    using that fit unfolding seg'_def by (auto simp: nth_copy_at tn simp del: length_take)
  have len': "length (sh_data seg') = length (sh_data seg)"
    using fit unfolding seg'_def by (simp add: length_copy_at tn del: length_take)
  have "slice ?s (?s + n) (sh_data seg') = take n data"
    using fit len' by (intro nth_equalityI) (auto simp: vec_simps nth n_def)
  then have "shm_read_chunk shmid offset buf t' = (Ok (word_of_nat n), take n data)" if "length buf = n" for buf
    using that assms(3) len len' fit
    by (simp add: shm_read_chunk_def t'_def Let_def min_absorb1 copy_at_def n_def)
  with wr nth len' show ?thesis
    by (intro exI [of _ t'] exI [of _ seg']) (auto simp: t'_def fun_eq_iff)
qed

definition demo_shm :: IpcTable where
  "demo_shm = snd (shmget 0 IPC_PRIVATE 4 0 7 0 0 ipc_new)"

theorem shm_write_read_witness:
  "\<exists>t'. shm_write_chunk 0 2 [5, 6, 7] demo_shm = (Ok 2, t') \<and> shm_read_chunk 0 2 [0, 0] t' = (Ok 2, [5, 6])"
proof -
  have wf: "ipc_wf demo_shm" unfolding demo_shm_def by (intro ipc_wf_shmget) (simp add: ipc_wf_def ipc_new_def)
  have "map_option sh_segsz (bt_get (ipc_shm_segments demo_shm) (sint (0 :: i32))) = Some 4" by code_simp
  then obtain seg where seg: "bt_get (ipc_shm_segments demo_shm) (sint (0 :: i32)) = Some seg" "sh_segsz seg = 4"
    by auto
  have m: "min (length [5 :: u8, 6, 7]) (unat (sh_segsz seg) - unat (2 :: u32)) = 2"
      "unat (2 :: u32) < unat (sh_segsz seg)"
    by (simp_all add: seg(2))
  from shm_write_read [OF wf seg(1) m(2), of "[5, 6, 7]", unfolded m(1)] obtain t' where
    "shm_write_chunk 0 2 [5, 6, 7] demo_shm = (Ok (word_of_nat 2), t')"
    "length buf = 2 \<Longrightarrow> shm_read_chunk 0 2 buf t' = (Ok (word_of_nat 2), take 2 [5, 6, 7])" for buf
    by blast
  from this(1) this(2) [of "[0, 0]"] show ?thesis by simp
qed

end
