(* ===== verification/Pshared.thy ===== *)
theory Pshared
  imports Abi Btree_Map "HOL-Library.Multiset"
begin

text \<open>
  The process-shared pthread primitives kept by the kernel, from
  \<^verbatim>\<open>src/crates/kernel/src/pshared.rs\<close>: mutexes, condition variables and barriers under one allocator of
  identifiers. A call that has to block returns \<open>EAGAIN\<close> and is retried by the host, so that a blocking
  operation of a process is a sequence of calls.
\<close>

section \<open>Data\<close>

abbreviation (input) MUTEX_TYPE_RECURSIVE :: u32 where "MUTEX_TYPE_RECURSIVE \<equiv> 1"
abbreviation (input) MUTEX_TYPE_ERRORCHECK :: u32 where "MUTEX_TYPE_ERRORCHECK \<equiv> 2"
abbreviation (input) PTHREAD_BARRIER_SERIAL_THREAD :: i32 where "PTHREAD_BARRIER_SERIAL_THREAD \<equiv> - 1"

record PSharedMutex =
  pm_owner :: u32
  pm_recursive_count :: u32
  pm_mtype :: u32

record CondWaiter =
  cw_pid :: u32
  cw_mutex_id :: u32
  cw_signaled :: bool

type_synonym PSharedCond = "CondWaiter list"

record BarrierWaiter =
  bw_pid :: u32
  bw_is_serial :: bool
  bw_released :: bool

record PSharedBarrier =
  pb_count :: u32
  pb_waiters :: "BarrierWaiter list"

record PSharedTable =
  ps_mutexes :: "(u32, PSharedMutex) btree"
  ps_conds :: "(u32, PSharedCond) btree"
  ps_barriers :: "(u32, PSharedBarrier) btree"
  ps_next_id :: u32

definition ps_new :: PSharedTable where
  "ps_new = \<lparr>ps_mutexes = [], ps_conds = [], ps_barriers = [], ps_next_id = 1\<rparr>"

definition ps_alloc_id :: "PSharedTable \<Rightarrow> u32 \<times> PSharedTable" where
  "ps_alloc_id t =
    (let n = ps_next_id t + 1 in (ps_next_id t, t\<lparr>ps_next_id := (if n = 0 then 1 else n)\<rparr>))"

section \<open>Mutexes\<close>

definition mutex_init :: "u32 \<Rightarrow> PSharedTable \<Rightarrow> u32 \<times> PSharedTable" where
  "mutex_init mtype t =
    (let (id, t) = ps_alloc_id t
     in (id, t\<lparr>ps_mutexes := bt_insert id
          \<lparr>pm_owner = 0, pm_recursive_count = 0, pm_mtype = mtype AND 0xF\<rparr> (ps_mutexes t)\<rparr>))"

definition mutex_destroy :: "u32 \<Rightarrow> PSharedTable \<Rightarrow> unit kresult \<times> PSharedTable" where
  "mutex_destroy mid t = (case bt_get (ps_mutexes t) mid of
     None \<Rightarrow> (Err EINVAL, t)
   | Some m \<Rightarrow> if pm_owner m \<noteq> 0 then (Err EBUSY, t)
       else (Ok (), t\<lparr>ps_mutexes := bt_remove mid (ps_mutexes t)\<rparr>))"

definition mutex_trylock :: "u32 \<Rightarrow> u32 \<Rightarrow> PSharedTable \<Rightarrow> unit kresult \<times> PSharedTable" where
  "mutex_trylock mid pid t = (case bt_get (ps_mutexes t) mid of
     None \<Rightarrow> (Err EINVAL, t)
   | Some m \<Rightarrow>
       if pm_owner m = 0 then
         (Ok (), t\<lparr>ps_mutexes := bt_insert mid (m\<lparr>pm_owner := pid, pm_recursive_count := 0\<rparr>) (ps_mutexes t)\<rparr>)
       else if pm_owner m = pid then
         (if pm_mtype m = MUTEX_TYPE_RECURSIVE then
            (Ok (), t\<lparr>ps_mutexes := bt_insert mid
               (m\<lparr>pm_recursive_count := saturating_add (pm_recursive_count m) 1\<rparr>) (ps_mutexes t)\<rparr>)
          else if pm_mtype m = MUTEX_TYPE_ERRORCHECK then (Err EDEADLK, t)
          else (Err EBUSY, t))
       else (Err EBUSY, t))"

definition mutex_lock :: "u32 \<Rightarrow> u32 \<Rightarrow> PSharedTable \<Rightarrow> unit kresult \<times> PSharedTable" where
  "mutex_lock mid pid t = (case mutex_trylock mid pid t of
     (Inr (), t) \<Rightarrow> (Ok (), t)
   | (Inl e, t) \<Rightarrow> (Err (if e = EBUSY then EAGAIN else e), t))"

definition mutex_unlock :: "u32 \<Rightarrow> u32 \<Rightarrow> PSharedTable \<Rightarrow> unit kresult \<times> PSharedTable" where
  "mutex_unlock mid pid t = (case bt_get (ps_mutexes t) mid of
     None \<Rightarrow> (Err EINVAL, t)
   | Some m \<Rightarrow>
       if pm_owner m \<noteq> pid then (Err EPERM, t)
       else if pm_mtype m = MUTEX_TYPE_RECURSIVE \<and> pm_recursive_count m > 0 then
         (Ok (), t\<lparr>ps_mutexes := bt_insert mid
            (m\<lparr>pm_recursive_count := pm_recursive_count m - 1\<rparr>) (ps_mutexes t)\<rparr>)
       else
         (Ok (), t\<lparr>ps_mutexes := bt_insert mid
            (m\<lparr>pm_owner := 0, pm_recursive_count := 0\<rparr>) (ps_mutexes t)\<rparr>))"

section \<open>Condition variables\<close>

definition cond_init :: "PSharedTable \<Rightarrow> u32 \<times> PSharedTable" where
  "cond_init t =
    (let (id, t) = ps_alloc_id t in (id, t\<lparr>ps_conds := bt_insert id [] (ps_conds t)\<rparr>))"

definition cond_destroy :: "u32 \<Rightarrow> PSharedTable \<Rightarrow> unit kresult \<times> PSharedTable" where
  "cond_destroy cid t = (case bt_get (ps_conds t) cid of
     None \<Rightarrow> (Err EINVAL, t)
   | Some ws \<Rightarrow> if ws \<noteq> [] then (Err EBUSY, t)
       else (Ok (), t\<lparr>ps_conds := bt_remove cid (ps_conds t)\<rparr>))"

definition cond_wait_begin :: "u32 \<Rightarrow> u32 \<Rightarrow> u32 \<Rightarrow> PSharedTable \<Rightarrow> unit kresult \<times> PSharedTable" where
  "cond_wait_begin cid mid pid t = (case bt_get (ps_mutexes t) mid of
     None \<Rightarrow> (Err EINVAL, t)
   | Some m \<Rightarrow>
       if pm_owner m \<noteq> pid then (Err EPERM, t)
       else
         (let t = t\<lparr>ps_mutexes := bt_insert mid (m\<lparr>pm_owner := 0, pm_recursive_count := 0\<rparr>) (ps_mutexes t)\<rparr>
          in case bt_get (ps_conds t) cid of
               None \<Rightarrow> (Err EINVAL, t)
             | Some ws \<Rightarrow>
                 (Ok (), if \<exists>w\<in>set ws. cw_pid w = pid then t
                         else t\<lparr>ps_conds := bt_insert cid
                           (ws @ [\<lparr>cw_pid = pid, cw_mutex_id = mid, cw_signaled = False\<rparr>]) (ps_conds t)\<rparr>)))"

definition cond_wait_check :: "u32 \<Rightarrow> u32 \<Rightarrow> u32 \<Rightarrow> PSharedTable \<Rightarrow> unit kresult \<times> PSharedTable" where
  "cond_wait_check cid mid pid t = (case bt_get (ps_conds t) cid of
     None \<Rightarrow> (Err EINVAL, t)
   | Some ws \<Rightarrow> (case position (\<lambda>w. cw_pid w = pid) ws of
       None \<Rightarrow> (Err EINVAL, t)
     | Some idx \<Rightarrow>
         if cw_mutex_id (ws ! idx) \<noteq> mid then (Err EINVAL, t)
         else if \<not> cw_signaled (ws ! idx) then (Err EAGAIN, t)
         else (case bt_get (ps_mutexes t) mid of
           None \<Rightarrow> (Err EINVAL, t)
         | Some m \<Rightarrow>
             if pm_owner m \<noteq> 0 \<and> pm_owner m \<noteq> pid then (Err EAGAIN, t)
             else (Ok (), t\<lparr>
               ps_mutexes := bt_insert mid (m\<lparr>pm_owner := pid, pm_recursive_count := 0\<rparr>) (ps_mutexes t),
               ps_conds := bt_insert cid (remove_nth idx ws) (ps_conds t)\<rparr>))))"

definition cond_wait_abort :: "u32 \<Rightarrow> u32 \<Rightarrow> PSharedTable \<Rightarrow> PSharedTable" where
  "cond_wait_abort cid pid t = (case bt_get (ps_conds t) cid of
     None \<Rightarrow> t
   | Some ws \<Rightarrow> t\<lparr>ps_conds := bt_insert cid (filter (\<lambda>w. cw_pid w \<noteq> pid) ws) (ps_conds t)\<rparr>)"

text \<open>The loop of \<open>cond_signal\<close>: it marks the first entry that is not marked and returns its owner.\<close>

fun signal_first :: "CondWaiter list \<Rightarrow> u32 \<times> CondWaiter list" where
  "signal_first [] = (0, [])"
| "signal_first (w # ws) =
    (if \<not> cw_signaled w then (cw_pid w, w\<lparr>cw_signaled := True\<rparr> # ws)
     else (let (p, ws) = signal_first ws in (p, w # ws)))"

definition cond_signal :: "u32 \<Rightarrow> PSharedTable \<Rightarrow> u32 kresult \<times> PSharedTable" where
  "cond_signal cid t = (case bt_get (ps_conds t) cid of
     None \<Rightarrow> (Err EINVAL, t)
   | Some ws \<Rightarrow> (let (p, ws) = signal_first ws in (Ok p, t\<lparr>ps_conds := bt_insert cid ws (ps_conds t)\<rparr>)))"

definition cond_broadcast :: "u32 \<Rightarrow> PSharedTable \<Rightarrow> u32 kresult \<times> PSharedTable" where
  "cond_broadcast cid t = (case bt_get (ps_conds t) cid of
     None \<Rightarrow> (Err EINVAL, t)
   | Some ws \<Rightarrow> (Ok (word_of_nat (length (filter (\<lambda>w. \<not> cw_signaled w) ws))),
       t\<lparr>ps_conds := bt_insert cid (map (\<lambda>w. if \<not> cw_signaled w then w\<lparr>cw_signaled := True\<rparr> else w) ws)
           (ps_conds t)\<rparr>))"

section \<open>Barriers\<close>

definition barrier_init :: "u32 \<Rightarrow> PSharedTable \<Rightarrow> u32 kresult \<times> PSharedTable" where
  "barrier_init n t =
    (if n = 0 then (Err EINVAL, t)
     else (let (id, t) = ps_alloc_id t
           in (Ok id, t\<lparr>ps_barriers := bt_insert id \<lparr>pb_count = n, pb_waiters = []\<rparr> (ps_barriers t)\<rparr>)))"

definition barrier_destroy :: "u32 \<Rightarrow> PSharedTable \<Rightarrow> unit kresult \<times> PSharedTable" where
  "barrier_destroy bid t = (case bt_get (ps_barriers t) bid of
     None \<Rightarrow> (Err EINVAL, t)
   | Some b \<Rightarrow> if pb_waiters b \<noteq> [] then (Err EBUSY, t)
       else (Ok (), t\<lparr>ps_barriers := bt_remove bid (ps_barriers t)\<rparr>))"

definition barrier_step :: "u32 \<Rightarrow> PSharedBarrier \<Rightarrow> i32 kresult \<times> PSharedBarrier" where
  "barrier_step pid b = (case position (\<lambda>w. bw_pid w = pid) (pb_waiters b) of
     Some idx \<Rightarrow>
       if bw_released (pb_waiters b ! idx) then
         (Ok (if bw_is_serial (pb_waiters b ! idx) then PTHREAD_BARRIER_SERIAL_THREAD else 0),
          b\<lparr>pb_waiters := remove_nth idx (pb_waiters b)\<rparr>)
       else (Err EAGAIN, b)
   | None \<Rightarrow>
       (let ws = pb_waiters b @ [\<lparr>bw_pid = pid, bw_is_serial = False, bw_released = False\<rparr>]
        in if word_of_nat (length ws) = pb_count b then
             (let last_idx = length ws - 1;
                  ws = ws[last_idx := (ws ! last_idx)\<lparr>bw_is_serial := True\<rparr>];
                  ws = map (\<lambda>w. w\<lparr>bw_released := True\<rparr>) ws
              in (Ok PTHREAD_BARRIER_SERIAL_THREAD, b\<lparr>pb_waiters := remove_nth last_idx ws\<rparr>))
           else (Err EAGAIN, b\<lparr>pb_waiters := ws\<rparr>)))"

definition barrier_wait :: "u32 \<Rightarrow> u32 \<Rightarrow> PSharedTable \<Rightarrow> i32 kresult \<times> PSharedTable" where
  "barrier_wait bid pid t = (case bt_get (ps_barriers t) bid of
     None \<Rightarrow> (Err EINVAL, t)
   | Some b \<Rightarrow> (let (r, b) = barrier_step pid b in (r, t\<lparr>ps_barriers := bt_insert bid b (ps_barriers t)\<rparr>)))"

text \<open>A sequence of \<open>pthread_barrier_wait\<close> calls, by the process named at each step.\<close>

fun barrier_waits :: "u32 \<Rightarrow> u32 list \<Rightarrow> PSharedTable \<Rightarrow> i32 kresult list \<times> PSharedTable" where
  "barrier_waits bid [] t = ([], t)"
| "barrier_waits bid (pid # pids) t =
    (let (r, t) = barrier_wait bid pid t; (rs, t) = barrier_waits bid pids t in (r # rs, t))"

definition ps_cleanup_process :: "u32 \<Rightarrow> PSharedTable \<Rightarrow> PSharedTable" where
  "ps_cleanup_process pid t = t\<lparr>
     ps_mutexes := bt_map_values (\<lambda>_ m. if pm_owner m = pid then m\<lparr>pm_owner := 0, pm_recursive_count := 0\<rparr> else m)
       (ps_mutexes t),
     ps_conds := bt_map_values (\<lambda>_ ws. filter (\<lambda>w. cw_pid w \<noteq> pid) ws) (ps_conds t),
     ps_barriers := bt_map_values (\<lambda>_ b. b\<lparr>pb_waiters := filter (\<lambda>w. bw_pid w \<noteq> pid) (pb_waiters b)\<rparr>)
       (ps_barriers t)\<rparr>"

section \<open>Recursive mutexes\<close>

lemma word_of_nat_pos: "n < 2 ^ 32 \<Longrightarrow> (0 < (word_of_nat n :: u32)) = (n \<noteq> 0)"
  by (simp add: word_less_nat_alt unat_of_nat)

lemma saturating_Suc: "Suc k < 2 ^ 32 \<Longrightarrow> saturating_add (word_of_nat k) 1 = (word_of_nat (Suc k) :: u32)"
  unfolding word_unat_eq_iff unat_saturating_add
  using unat_word_of_nat [of k, where 'a = 32] unat_word_of_nat [of "Suc k", where 'a = 32]
  by (simp del: of_nat_Suc)

lemma trylock_recursive_iter:
  assumes "bt_get (ps_mutexes t) mid = Some m" "pm_owner m = 0" "pm_mtype m = MUTEX_TYPE_RECURSIVE" "pid \<noteq> 0"
  shows "k < 2 ^ 32 \<Longrightarrow> bt_get (ps_mutexes (((\<lambda>t. snd (mutex_trylock mid pid t)) ^^ Suc k) t)) mid =
    Some (m\<lparr>pm_owner := pid, pm_recursive_count := word_of_nat k\<rparr>)"
proof (induction k)
  case 0
  with assms show ?case by (simp add: mutex_trylock_def)
next
  case (Suc k)
  have "saturating_add (word_of_nat k) 1 = (word_of_nat (Suc k) :: u32)"
    using Suc.prems by (rule saturating_Suc)
  moreover have "bt_get (ps_mutexes (snd (mutex_trylock mid pid u))) mid =
      Some (m\<lparr>pm_owner := pid, pm_recursive_count := saturating_add c 1\<rparr>)"
    if "bt_get (ps_mutexes u) mid = Some (m\<lparr>pm_owner := pid, pm_recursive_count := c\<rparr>)" for u c
    using that assms(3,4) by (simp add: mutex_trylock_def)
  moreover note Suc.IH [OF Suc_lessD [OF Suc.prems]]
  ultimately show ?case by (subst funpow.simps) (simp only: o_apply)
qed

lemma unlock_recursive_iter:
  assumes "bt_get (ps_mutexes t) mid = Some (m\<lparr>pm_owner := pid, pm_recursive_count := word_of_nat k\<rparr>)"
    and "pm_mtype m = MUTEX_TYPE_RECURSIVE" "k < 2 ^ 32"
  shows "j \<le> k \<Longrightarrow> bt_get (ps_mutexes (((\<lambda>t. snd (mutex_unlock mid pid t)) ^^ j) t)) mid =
    Some (m\<lparr>pm_owner := pid, pm_recursive_count := word_of_nat (k - j)\<rparr>)"
proof (induction j)
  case (Suc j)
  have "0 < (word_of_nat (k - j) :: u32)"
    using Suc.prems assms(3) by (subst word_of_nat_pos) simp_all
  moreover have "word_of_nat (k - j) - 1 = (word_of_nat (k - Suc j) :: u32)"
    using Suc.prems by (simp add: of_nat_diff)
  moreover have "bt_get (ps_mutexes (snd (mutex_unlock mid pid u))) mid =
      Some (m\<lparr>pm_owner := pid, pm_recursive_count := c - 1\<rparr>)"
    if "bt_get (ps_mutexes u) mid = Some (m\<lparr>pm_owner := pid, pm_recursive_count := c\<rparr>)" "0 < c" for u c
    using that assms(2) by (simp add: mutex_unlock_def)
  moreover note Suc.IH [OF Suc_leD [OF Suc.prems]]
  ultimately show ?case by (simp only: funpow.simps o_apply)
qed (use assms in simp)

text \<open>
  A recursive mutex locked \<open>k\<close> times by one process is held by it until it has unlocked it \<open>k\<close>
  times. Up to then every other process is refused, on locking (\<open>EBUSY\<close>) and on unlocking (\<open>EPERM\<close>),
  and nothing changes; after the \<open>k\<close>-th unlock another process can lock it.
\<close>

theorem recursive_mutex_depth:
  assumes "bt_get (ps_mutexes t) mid = Some m" "pm_owner m = 0" "pm_mtype m = MUTEX_TYPE_RECURSIVE"
    and "pid \<noteq> 0" "other \<noteq> pid" "j < k" "k \<le> 2 ^ 32"
  defines "held \<equiv> ((\<lambda>t. snd (mutex_unlock mid pid t)) ^^ j) (((\<lambda>t. snd (mutex_trylock mid pid t)) ^^ k) t)"
  shows "mutex_trylock mid other held = (Err EBUSY, held) \<and> mutex_unlock mid other held = (Err EPERM, held) \<and>
    (\<exists>t'. mutex_unlock mid pid held = (Ok (), t') \<and>
       fst (mutex_trylock mid other t') = (if Suc j = k then Ok () else Err EBUSY))"
proof -
  obtain k' where k: "k = Suc k'" "k' < 2 ^ 32" using assms(6,7) by (cases k) auto
  have h: "bt_get (ps_mutexes held) mid = Some (m\<lparr>pm_owner := pid, pm_recursive_count := word_of_nat (k' - j)\<rparr>)"
    using unlock_recursive_iter [OF trylock_recursive_iter [OF assms(1-4) k(2)] assms(3) k(2)] assms(6)
    by (simp add: held_def k(1))
  have "(0 < (word_of_nat (k' - j) :: u32)) = (Suc j \<noteq> k)"
    using k assms(6) by (subst word_of_nat_pos) auto
  with h assms(3-5) show ?thesis by (auto simp: mutex_trylock_def mutex_unlock_def)
qed

definition demo_mutex :: PSharedTable where
  "demo_mutex = snd (mutex_init 1 ps_new)"

theorem recursive_mutex_depth_witness:
  "\<exists>held t'. held = snd (mutex_unlock 1 5 (snd (mutex_trylock 1 5 (snd (mutex_trylock 1 5 demo_mutex))))) \<and>
    mutex_trylock 1 6 held = (Err EBUSY, held) \<and> mutex_unlock 1 5 held = (Ok (), t') \<and>
    fst (mutex_trylock 1 6 t') = Ok ()"
proof -
  have "bt_get (ps_mutexes demo_mutex) 1 = Some \<lparr>pm_owner = 0, pm_recursive_count = 0, pm_mtype = 1\<rparr>"
    by code_simp
  moreover have "(f ^^ 2) x = f (f x)" for f :: "PSharedTable \<Rightarrow> PSharedTable" and x
    by (simp add: numeral_2_eq_2)
  ultimately show ?thesis
    using recursive_mutex_depth [of demo_mutex 1 _ 5 6 1 2] by auto
qed

section \<open>Condition variables\<close>

abbreviation unsignaled :: "CondWaiter list \<Rightarrow> nat" where
  "unsignaled ws \<equiv> length (filter (\<lambda>w. \<not> cw_signaled w) ws)"

lemma signal_first_pids [simp]: "map cw_pid (snd (signal_first ws)) = map cw_pid ws"
  by (induction ws) (auto split: prod.split)

lemma signal_first_append:
  "snd (signal_first (ws @ zs)) =
    (if unsignaled ws > 0 then snd (signal_first ws) @ zs else ws @ snd (signal_first zs))"
  by (induction ws) (auto split: prod.split)

lemma unsignaled_signal_first: "unsignaled (snd (signal_first ws)) = unsignaled ws - 1"
  by (induction ws) (auto split: prod.split)

lemma signal_first_iter:
  assumes "\<not> cw_signaled w"
  shows "\<exists>vs. map cw_pid vs = map cw_pid ws \<and> unsignaled vs = unsignaled ws - k \<and>
    ((\<lambda>ws. snd (signal_first ws)) ^^ k) (ws @ [w]) = vs @ [w\<lparr>cw_signaled := (k > unsignaled ws)\<rparr>]"
proof (induction k)
  case 0
  have "w\<lparr>cw_signaled := False\<rparr> = w" using assms by (cases w) simp
  then show ?case by (intro exI [of _ ws]) simp
next
  case (Suc k)
  then obtain vs where vs: "map cw_pid vs = map cw_pid ws" "unsignaled vs = unsignaled ws - k"
      "((\<lambda>ws. snd (signal_first ws)) ^^ k) (ws @ [w]) = vs @ [w\<lparr>cw_signaled := (k > unsignaled ws)\<rparr>]" by blast
  show ?case
  proof (cases "unsignaled vs > 0")
    case True
    with vs show ?thesis
      by (intro exI [of _ "snd (signal_first vs)"]) (auto simp: signal_first_append unsignaled_signal_first)
  next
    case False
    with vs show ?thesis by (intro exI [of _ vs]) (auto simp: signal_first_append)
  qed
qed

lemma cond_signal_iter:
  "bt_get (ps_conds t) cid = Some ws \<Longrightarrow>
    bt_get (ps_conds (((\<lambda>t. snd (cond_signal cid t)) ^^ k) t)) cid = Some (((\<lambda>ws. snd (signal_first ws)) ^^ k) ws) \<and>
    ps_mutexes (((\<lambda>t. snd (cond_signal cid t)) ^^ k) t) = ps_mutexes t"
  by (induction k) (auto simp: cond_signal_def split: prod.split)

text \<open>
  C28: waiting on a condition variable releases the mutex, and the waiters are woken in the order of
  their arrival. If \<open>n\<close> processes ahead of the waiter have not been signalled yet, its polls report
  that it must wait until \<open>n + 1\<close> signals have been sent; after that, with the mutex still free, a poll
  succeeds, gives the mutex back to the waiter and removes it from the queue.
\<close>

theorem cond_wait_wakes_in_order:
  assumes "bt_get (ps_conds t) cid = Some ws" "bt_get (ps_mutexes t) mid = Some m"
    and "pm_owner m = pid" "pid \<notin> cw_pid ` set ws"
  shows "\<exists>t1. cond_wait_begin cid mid pid t = (Ok (), t1) \<and> map_option pm_owner (bt_get (ps_mutexes t1) mid) = Some 0 \<and>
    (\<forall>k. let tk = ((\<lambda>t. snd (cond_signal cid t)) ^^ k) t1; (res, t2) = cond_wait_check cid mid pid tk
         in if k \<le> unsignaled ws then res = Err EAGAIN \<and> t2 = tk
            else res = Ok () \<and> map_option pm_owner (bt_get (ps_mutexes t2) mid) = Some pid \<and>
              map_option (map cw_pid) (bt_get (ps_conds t2) cid) = Some (map cw_pid ws))"
proof -
  let ?w = "\<lparr>cw_pid = pid, cw_mutex_id = mid, cw_signaled = False\<rparr>"
  obtain t1 where t1: "cond_wait_begin cid mid pid t = (Ok (), t1)" "bt_get (ps_conds t1) cid = Some (ws @ [?w])"
      "bt_get (ps_mutexes t1) mid = Some (m\<lparr>pm_owner := 0, pm_recursive_count := 0\<rparr>)"
  proof -
    have "\<not> (\<exists>w\<in>set ws. cw_pid w = pid)" using assms(4) by auto
    with assms(1-3) that show ?thesis by (simp add: cond_wait_begin_def)
  qed
  have pos: "position (\<lambda>w. cw_pid w = pid) (vs @ [v]) = Some (length vs)"
    if "map cw_pid vs = map cw_pid ws" "cw_pid v = pid" for vs v
  proof -
    have "pid \<notin> cw_pid ` set vs" using that(1) assms(4) by (metis list.set_map)
    then have "cw_pid (vs ! j) \<noteq> pid" if "j < length vs" for j using that by (metis image_eqI nth_mem)
    with that(2) show ?thesis by (auto simp: position_Some_iff nth_append)
  qed
  show ?thesis
  proof (intro exI [of _ t1] conjI allI)
    fix k
    obtain vs where vs: "map cw_pid vs = map cw_pid ws"
        "((\<lambda>ws. snd (signal_first ws)) ^^ k) (ws @ [?w]) = vs @ [?w\<lparr>cw_signaled := (k > unsignaled ws)\<rparr>]"
      using signal_first_iter [of ?w ws k] by auto
    show "let tk = ((\<lambda>t. snd (cond_signal cid t)) ^^ k) t1; (res, t2) = cond_wait_check cid mid pid tk
         in if k \<le> unsignaled ws then res = Err EAGAIN \<and> t2 = tk
            else res = Ok () \<and> map_option pm_owner (bt_get (ps_mutexes t2) mid) = Some pid \<and>
              map_option (map cw_pid) (bt_get (ps_conds t2) cid) = Some (map cw_pid ws)"
      using cond_signal_iter [OF t1(2), of k] t1(3) vs pos [OF vs(1)]
      by (auto simp: cond_wait_check_def Let_def remove_nth_def)
  qed (use t1 in auto)
qed

definition demo_cond :: PSharedTable where
  "demo_cond = snd (mutex_trylock 1 5 (snd (cond_init (snd (mutex_init 0 ps_new)))))"

theorem cond_wait_wakes_in_order_witness:
  "\<exists>t1. cond_wait_begin 2 1 5 demo_cond = (Ok (), t1) \<and> fst (cond_wait_check 2 1 5 t1) = Err EAGAIN \<and>
    fst (cond_wait_check 2 1 5 (snd (cond_signal 2 t1))) = Ok ()"
proof -
  have "bt_get (ps_conds demo_cond) 2 = Some []"
    "bt_get (ps_mutexes demo_cond) 1 = Some \<lparr>pm_owner = 5, pm_recursive_count = 0, pm_mtype = 0\<rparr>"
    by code_simp+
  from cond_wait_wakes_in_order [OF this, of 5] obtain t1 where t1: "cond_wait_begin 2 1 5 demo_cond = (Ok (), t1)"
    "\<forall>k. fst (cond_wait_check 2 1 5 (((\<lambda>t. snd (cond_signal 2 t)) ^^ k) t1)) = (if k \<le> 0 then Err EAGAIN else Ok ())"
    by (simp add: Let_def split_beta) metis
  from t1(1) spec [OF t1(2), of 0] spec [OF t1(2), of 1] show ?thesis by simp
qed

section \<open>Barriers\<close>

abbreviation arrived :: "u32 \<Rightarrow> BarrierWaiter" where
  "arrived p \<equiv> \<lparr>bw_pid = p, bw_is_serial = False, bw_released = False\<rparr>"

abbreviation leaving :: "u32 \<Rightarrow> BarrierWaiter" where
  "leaving p \<equiv> \<lparr>bw_pid = p, bw_is_serial = False, bw_released = True\<rparr>"

lemma position_waiters:
  assumes "\<And>p. bw_pid (w p) = p"
  shows "position (\<lambda>x. bw_pid x = pid) (map w ps) = position (\<lambda>p. p = pid) ps"
  by (induction ps) (simp_all add: assms)

lemma remove_nth_position:
  "position (\<lambda>p. p = q) ps = Some i \<Longrightarrow> remove_nth i (map f ps) = map f (remove1 q ps) \<and> i < length ps \<and> ps ! i = q"
  by (induction ps arbitrary: i) (auto simp: remove_nth_def split: if_splits)

lemma barrier_waits_append:
  "barrier_waits bid (ps @ qs) t = (let (rs, t) = barrier_waits bid ps t; (rs', t) = barrier_waits bid qs t in (rs @ rs', t))"
  by (induction ps arbitrary: t) (simp_all add: Let_def split_beta)

lemma barrier_wait_step:
  "bt_get (ps_barriers t) bid = Some b \<Longrightarrow> barrier_step pid b = (r, b') \<Longrightarrow>
    \<exists>t'. barrier_wait bid pid t = (r, t') \<and> bt_get (ps_barriers t') bid = Some b'"
  by (simp add: barrier_wait_def)

lemma barrier_arrive:
  assumes "q \<notin> set ps" "Suc (length ps) < n" "n < 2 ^ 32"
  shows "barrier_step q \<lparr>pb_count = word_of_nat n, pb_waiters = map arrived ps\<rparr> =
    (Err EAGAIN, \<lparr>pb_count = word_of_nat n, pb_waiters = map arrived (ps @ [q])\<rparr>)"
proof -
  have "position (\<lambda>p. p = q) ps = None" using assms(1) by (auto simp: position_None_iff)
  moreover have "(word_of_nat (Suc (length ps)) :: u32) \<noteq> word_of_nat n"
    unfolding word_unat_eq_iff using assms(2,3) by (simp only: unat_of_nat mod_less) simp
  ultimately show ?thesis by (simp add: barrier_step_def position_waiters)
qed

lemma barrier_arrivals:
  "distinct (ps @ qs) \<Longrightarrow> length (ps @ qs) < n \<Longrightarrow> n < 2 ^ 32 \<Longrightarrow>
    bt_get (ps_barriers t) bid = Some \<lparr>pb_count = word_of_nat n, pb_waiters = map arrived ps\<rparr> \<Longrightarrow>
    \<exists>t'. barrier_waits bid qs t = (replicate (length qs) (Err EAGAIN), t') \<and>
      bt_get (ps_barriers t') bid = Some \<lparr>pb_count = word_of_nat n, pb_waiters = map arrived (ps @ qs)\<rparr>"
proof (induction qs arbitrary: ps t)
  case (Cons q qs)
  then obtain u where u: "barrier_wait bid q t = (Err EAGAIN, u)"
      "bt_get (ps_barriers u) bid = Some \<lparr>pb_count = word_of_nat n, pb_waiters = map arrived (ps @ [q])\<rparr>"
    using barrier_wait_step [OF Cons.prems(4) barrier_arrive [of q ps n]] by auto
  with Cons.IH [of "ps @ [q]" u] Cons.prems(1-3) show ?case by auto
qed simp

lemma barrier_release:
  assumes "q \<notin> set ps"
  shows "barrier_step q \<lparr>pb_count = word_of_nat (Suc (length ps)), pb_waiters = map arrived ps\<rparr> =
    (Ok PTHREAD_BARRIER_SERIAL_THREAD,
     \<lparr>pb_count = word_of_nat (Suc (length ps)), pb_waiters = map leaving ps\<rparr>)"
proof -
  have "position (\<lambda>p. p = q) ps = None" using assms by (auto simp: position_None_iff)
  then show ?thesis
    by (simp add: barrier_step_def position_waiters Let_def remove_nth_def list_update_append nth_append o_def)
qed

lemma barrier_departures:
  "mset qs = mset ps \<Longrightarrow> bt_get (ps_barriers t) bid = Some \<lparr>pb_count = c, pb_waiters = map leaving ps\<rparr> \<Longrightarrow>
    \<exists>t'. barrier_waits bid qs t = (replicate (length qs) (Ok 0), t') \<and>
      bt_get (ps_barriers t') bid = Some \<lparr>pb_count = c, pb_waiters = []\<rparr>"
proof (induction qs arbitrary: ps t)
  case (Cons q qs)
  then have "q \<in> set ps" by (metis list.set_intros(1) mset_eq_setD)
  then obtain i where i: "position (\<lambda>p. p = q) ps = Some i"
    by (cases "position (\<lambda>p. p = q) ps") (auto simp: position_None_iff)
  then have "barrier_step q \<lparr>pb_count = c, pb_waiters = map leaving ps\<rparr> =
      (Ok 0, \<lparr>pb_count = c, pb_waiters = map leaving (remove1 q ps)\<rparr>)"
    using remove_nth_position [OF i, of leaving] by (simp add: barrier_step_def position_waiters)
  then obtain u where "barrier_wait bid q t = (Ok 0, u)"
      "bt_get (ps_barriers u) bid = Some \<lparr>pb_count = c, pb_waiters = map leaving (remove1 q ps)\<rparr>"
    using barrier_wait_step [OF Cons.prems(2)] by blast
  moreover have "mset qs = mset (remove1 q ps)" using Cons.prems(1) by (simp flip: Cons.prems(1))
  ultimately show ?case using Cons.IH [of "remove1 q ps" u] by auto
qed simp

text \<open>
  C29: one round of a barrier for \<open>n + 1\<close> processes. The first \<open>n\<close> arrivals are told to wait, the last
  one is released at once as the serial process, and then each of the others is released with 0, in
  whatever order they retry. The barrier is left as it was, ready for the next round.
\<close>

theorem barrier_round:
  assumes "bt_get (ps_barriers t) bid = Some \<lparr>pb_count = word_of_nat (Suc (length ps)), pb_waiters = []\<rparr>"
    and "distinct (ps @ [l])" "Suc (length ps) < 2 ^ 32" "mset rs = mset ps"
  shows "\<exists>t'. barrier_waits bid (ps @ [l] @ rs) t =
      (replicate (length ps) (Err EAGAIN) @ [Ok PTHREAD_BARRIER_SERIAL_THREAD] @ replicate (length ps) (Ok 0), t') \<and>
    bt_get (ps_barriers t') bid = bt_get (ps_barriers t) bid"
proof -
  obtain u where u: "barrier_waits bid ps t = (replicate (length ps) (Err EAGAIN), u)"
      "bt_get (ps_barriers u) bid = Some \<lparr>pb_count = word_of_nat (Suc (length ps)), pb_waiters = map arrived ps\<rparr>"
    using barrier_arrivals [of "[]" ps "Suc (length ps)" t bid] assms by auto
  obtain v where v: "barrier_wait bid l u = (Ok PTHREAD_BARRIER_SERIAL_THREAD, v)"
      "bt_get (ps_barriers v) bid = Some \<lparr>pb_count = word_of_nat (Suc (length ps)), pb_waiters = map leaving ps\<rparr>"
    using barrier_wait_step [OF u(2) barrier_release] assms(2) by auto
  have "length rs = length ps" using assms(4) by (rule mset_eq_length)
  with barrier_departures [OF assms(4) v(2)] u(1) v(1) assms(1) show ?thesis
    by (auto simp: barrier_waits_append)
qed

definition demo_barrier :: PSharedTable where
  "demo_barrier = snd (barrier_init 3 ps_new)"

theorem barrier_round_witness:
  "\<exists>t'. barrier_waits 1 [7, 8, 9, 8, 7] demo_barrier = ([Err EAGAIN, Err EAGAIN, Ok (- 1), Ok 0, Ok 0], t')"
proof -
  have "bt_get (ps_barriers demo_barrier) 1 = Some \<lparr>pb_count = word_of_nat (Suc (length [7 :: u32, 8])), pb_waiters = []\<rparr>"
    by code_simp
  from barrier_round [OF this, of 9 "[8, 7]"] show ?thesis by (auto simp: add_mset_commute)
qed

text \<open>
  A released process that has not retried yet is counted as an arrival of the next round. On a
  barrier for two, the process 8 passes a second time although process 7 arrived only once.
\<close>

theorem barrier_reuse_counts_stale_waiter:
  "fst (barrier_waits 1 [7, 8, 8] (snd (barrier_init 2 ps_new))) = [Err EAGAIN, Ok (- 1), Ok (- 1)]"
  by code_simp

end
