(* ===== verification/Socket.thy ===== *)
theory Socket
  imports Abi Slots Handle_Refs
begin

text \<open>
  Socket state, from \<^verbatim>\<open>src/crates/kernel/src/socket.rs\<close>: the per-process socket table, the options of a
  socket, the owners of host network handles, and the accept queues that the processes sharing a
  listening socket have in common.
\<close>

section \<open>Network handles shared across processes\<close>

definition host_net_handle_fork_ref :: "i32 \<Rightarrow> host_refs \<Rightarrow> host_refs" where
  "host_net_handle_fork_ref h refs =
    (let count = (case bt_get refs (sint h) of None \<Rightarrow> 1 | Some c \<Rightarrow> c)
     in bt_insert (sint h) (count + 1) refs)"

definition host_net_handle_close_ref :: "i32 \<Rightarrow> host_refs \<Rightarrow> bool \<times> host_refs" where
  "host_net_handle_close_ref h refs = (case bt_get refs (sint h) of
     Some count \<Rightarrow>
       (let count' = count - 1 in
        if count' = 0 then (True, bt_remove (sint h) refs)
        else (False, bt_insert (sint h) count' refs))
   | None \<Rightarrow> (True, refs))"

section \<open>Sockets\<close>

datatype SocketDomain = DomUnix | DomInet | DomInet6

datatype SocketType = Stream | Dgram

datatype SocketState = Unbound | Bound | Listening | Connected | Closed

record Datagram =
  dg_data :: bytes
  dg_src_addr :: bytes
  dg_src_port :: u16

record SocketInfo =
  sk_domain :: SocketDomain
  sk_sock_type :: SocketType
  sk_protocol :: u32
  sk_state :: SocketState
  sk_peer_idx :: "nat option"
  sk_recv_buf_idx :: "nat option"
  sk_send_buf_idx :: "nat option"
  sk_shut_rd :: bool
  sk_shut_wr :: bool
  sk_host_net_handle :: "i32 option"
  sk_options :: "(u32 \<times> u32 \<times> u32) list"
  sk_bind_addr :: bytes
  sk_bind_port :: u16
  sk_peer_addr :: bytes
  sk_peer_port :: u16
  sk_listen_backlog :: "nat list"
  sk_shared_backlog_idx :: "nat option"
  sk_dgram_queue :: "Datagram list"
  sk_global_pipes :: bool
  sk_oob_byte :: "u8 option"
  sk_recv_timeout_us :: u64
  sk_send_timeout_us :: u64
  sk_bind_path :: "bytes option"

definition sk_new :: "SocketDomain \<Rightarrow> SocketType \<Rightarrow> u32 \<Rightarrow> SocketInfo" where
  "sk_new domain sock_type protocol =
    \<lparr>sk_domain = domain, sk_sock_type = sock_type, sk_protocol = protocol, sk_state = Unbound,
     sk_peer_idx = None, sk_recv_buf_idx = None, sk_send_buf_idx = None, sk_shut_rd = False,
     sk_shut_wr = False, sk_host_net_handle = None, sk_options = [], sk_bind_addr = [0, 0, 0, 0],
     sk_bind_port = 0, sk_peer_addr = [0, 0, 0, 0], sk_peer_port = 0, sk_listen_backlog = [],
     sk_shared_backlog_idx = None, sk_dgram_queue = [], sk_global_pipes = False, sk_oob_byte = None,
     sk_recv_timeout_us = 0, sk_send_timeout_us = 0, sk_bind_path = None\<rparr>"

fun opts_set :: "u32 \<Rightarrow> u32 \<Rightarrow> u32 \<Rightarrow> (u32 \<times> u32 \<times> u32) list \<Rightarrow> (u32 \<times> u32 \<times> u32) list" where
  "opts_set level optname val [] = [(level, optname, val)]"
| "opts_set level optname val ((l, n, v) # opts) =
    (if l = level \<and> n = optname then (l, n, val) # opts else (l, n, v) # opts_set level optname val opts)"

definition sk_set_option :: "u32 \<Rightarrow> u32 \<Rightarrow> u32 \<Rightarrow> SocketInfo \<Rightarrow> SocketInfo" where
  "sk_set_option level optname val s = s\<lparr>sk_options := opts_set level optname val (sk_options s)\<rparr>"

fun opts_get :: "u32 \<Rightarrow> u32 \<Rightarrow> (u32 \<times> u32 \<times> u32) list \<Rightarrow> u32 option" where
  "opts_get level optname [] = None"
| "opts_get level optname ((l, n, v) # opts) =
    (if l = level \<and> n = optname then Some v else opts_get level optname opts)"

definition sk_get_option :: "SocketInfo \<Rightarrow> u32 \<Rightarrow> u32 \<Rightarrow> u32 option" where
  "sk_get_option s level optname = opts_get level optname (sk_options s)"

text \<open>The hand-written \<open>Clone\<close>: what a child does not inherit is what may be consumed only once.\<close>

definition sk_clone :: "SocketInfo \<Rightarrow> SocketInfo" where
  "sk_clone s = s\<lparr>sk_listen_backlog := [], sk_dgram_queue := [], sk_oob_byte := None\<rparr>"

type_synonym SocketTable = "SocketInfo slots"

definition skt_new :: SocketTable where
  "skt_new = []"

definition skt_alloc :: "SocketInfo \<Rightarrow> SocketTable \<Rightarrow> nat \<times> SocketTable" where
  "skt_alloc info t = slot_insert info t"

definition skt_free :: "nat \<Rightarrow> SocketTable \<Rightarrow> SocketTable" where
  "skt_free idx t = (if idx < length t then t[idx := None] else t)"

definition skt_get :: "SocketTable \<Rightarrow> nat \<Rightarrow> SocketInfo option" where
  "skt_get t idx = slot_get t idx"

definition skt_get_mut :: "nat \<Rightarrow> (SocketInfo \<Rightarrow> SocketInfo) \<Rightarrow> SocketTable \<Rightarrow> SocketTable" where
  "skt_get_mut idx f t = slot_modify idx f t"

definition skt_len :: "SocketTable \<Rightarrow> nat" where
  "skt_len t = length t"

definition skt_insert_at :: "nat \<Rightarrow> SocketInfo \<Rightarrow> SocketTable \<Rightarrow> SocketTable" where
  "skt_insert_at idx info t = (t @ replicate (Suc idx - length t) None)[idx := Some info]"

section \<open>Shared accept queues\<close>

record PendingConnection =
  pc_peer_addr :: bytes
  pc_peer_port :: u16
  pc_recv_pipe_idx :: nat
  pc_send_pipe_idx :: nat

record SharedBacklog =
  bl_queue :: "PendingConnection list"
  bl_ref_count :: u32
  bl_in_use :: bool

type_synonym SharedBacklogTable = "SharedBacklog list"

definition blt_new :: SharedBacklogTable where
  "blt_new = []"

definition blt_alloc :: "SharedBacklogTable \<Rightarrow> nat \<times> SharedBacklogTable" where
  "blt_alloc t = (case position (\<lambda>e. \<not> bl_in_use e) t of
     Some i \<Rightarrow> (i, t[i := (t ! i)\<lparr>bl_queue := [], bl_ref_count := 1, bl_in_use := True\<rparr>])
   | None \<Rightarrow> (length t, t @ [\<lparr>bl_queue = [], bl_ref_count = 1, bl_in_use = True\<rparr>]))"

definition blt_add_ref :: "nat \<Rightarrow> SharedBacklogTable \<Rightarrow> SharedBacklogTable" where
  "blt_add_ref idx t =
    (if idx < length t \<and> bl_in_use (t ! idx)
     then t[idx := (t ! idx)\<lparr>bl_ref_count := saturating_add (bl_ref_count (t ! idx)) 1\<rparr>] else t)"

definition blt_dec_ref :: "nat \<Rightarrow> SharedBacklogTable \<Rightarrow> SharedBacklogTable" where
  "blt_dec_ref idx t =
    (if idx < length t \<and> bl_in_use (t ! idx) then
       (let e = (t ! idx)\<lparr>bl_ref_count := saturating_sub (bl_ref_count (t ! idx)) 1\<rparr>
        in t[idx := (if bl_ref_count e = 0 then e\<lparr>bl_queue := [], bl_in_use := False\<rparr> else e)])
     else t)"

definition blt_push :: "nat \<Rightarrow> PendingConnection \<Rightarrow> SharedBacklogTable \<Rightarrow> bool \<times> SharedBacklogTable" where
  "blt_push idx pc t =
    (if idx < length t \<and> bl_in_use (t ! idx)
     then (True, t[idx := (t ! idx)\<lparr>bl_queue := bl_queue (t ! idx) @ [pc]\<rparr>]) else (False, t))"

definition blt_pop :: "nat \<Rightarrow> SharedBacklogTable \<Rightarrow> PendingConnection option \<times> SharedBacklogTable" where
  "blt_pop idx t =
    (if idx < length t \<and> bl_in_use (t ! idx) \<and> bl_queue (t ! idx) \<noteq> []
     then (Some (hd (bl_queue (t ! idx))), t[idx := (t ! idx)\<lparr>bl_queue := tl (bl_queue (t ! idx))\<rparr>])
     else (None, t))"

definition blt_len :: "SharedBacklogTable \<Rightarrow> nat \<Rightarrow> nat" where
  "blt_len t idx = (if idx < length t \<and> bl_in_use (t ! idx) then length (bl_queue (t ! idx)) else 0)"

section \<open>The contracts they meet\<close>

definition nh_owners :: "host_refs \<Rightarrow> i32 \<Rightarrow> nat" where
  "nh_owners refs h = refs_owners refs (sint h)"

lemma host_net_refs:
  "host_net_handle_fork_ref h = refs_inc (sint h)" "host_net_handle_close_ref h = refs_dec (sint h)"
  by (simp_all add: fun_eq_iff host_net_handle_fork_ref_def host_net_handle_close_ref_def
      refs_inc_def refs_dec_def)

interpretation nh: handle_refs hh_wf nh_owners host_net_handle_fork_ref host_net_handle_close_ref "2 ^ 32"
proof unfold_locales
  fix refs refs' :: host_refs and h :: i32 and b :: bool
  assume wf: "hh_wf refs"
  then show "0 < nh_owners refs h" by (simp add: nh_owners_def refs_owners_pos)
  show "hh_wf (host_net_handle_fork_ref h refs)"
    "nh_owners (host_net_handle_fork_ref h refs) = (nh_owners refs)(h := Suc (nh_owners refs h))"
    if "Suc (nh_owners refs h) < 2 ^ 32"
    using refs_inc_laws [OF wf, of "sint h"] that
    by (simp_all add: nh_owners_def [abs_def] host_net_refs fun_eq_iff)
  assume "host_net_handle_close_ref h refs = (b, refs')"
  then show "hh_wf refs'" "b \<longleftrightarrow> nh_owners refs h = 1"
    "nh_owners refs' = (nh_owners refs)(h := if b then 1 else nh_owners refs h - 1)"
    using refs_dec_laws [OF wf, of "sint h" b refs']
    by (simp_all add: nh_owners_def [abs_def] host_net_refs fun_eq_iff)
qed

interpretation skt: first_fit_table "\<lambda>_. True" skt_get skt_alloc "\<lambda>v i. v"
  by unfold_locales
    (auto simp: skt_alloc_def skt_get_def slot_insert_lookup dest: slot_insert_fresh slot_insert_lowest)

lemma skt_get_insert_at: "skt_get (skt_insert_at idx info t) = (skt_get t)(idx \<mapsto> info)"
  by (auto simp: fun_eq_iff skt_get_def skt_insert_at_def slot_get_append slot_get_beyond)

lemma skt_get_free: "skt_get (skt_free idx t) = (skt_get t)(idx := None)"
  by (auto simp: fun_eq_iff skt_get_def skt_free_def slot_get_beyond)

lemma get_set_option:
  "sk_get_option (sk_set_option l n v s) l' n' = (if l' = l \<and> n' = n then Some v else sk_get_option s l' n')"
proof -
  have "opts_get l' n' (opts_set l n v opts) = (if l' = l \<and> n' = n then Some v else opts_get l' n' opts)"
    for opts by (induction l n v opts rule: opts_set.induct) auto
  then show ?thesis by (simp add: sk_get_option_def sk_set_option_def)
qed

text \<open>The live queue behind an index.\<close>

definition bl_get :: "SharedBacklogTable \<Rightarrow> nat \<Rightarrow> (PendingConnection list \<times> u32) option" where
  "bl_get t i = (if i < length t \<and> bl_in_use (t ! i) then Some (bl_queue (t ! i), bl_ref_count (t ! i)) else None)"

interpretation blt: first_fit_table "\<lambda>_. True" bl_get "\<lambda>_ :: unit. blt_alloc" "\<lambda>_ _. ([], 1)"
  by unfold_locales
    (auto simp: blt_alloc_def bl_get_def position_Some_iff position_None_iff nth_append
      split: option.splits if_splits dest: nth_mem)

lemma bl_get_ops:
  "bl_get (blt_add_ref i t) j = (if i = j then map_option (map_prod id (\<lambda>c. saturating_add c 1)) (bl_get t i) else bl_get t j)"
  "bl_get (snd (blt_push i pc t)) j = (if i = j then map_option (map_prod (\<lambda>q. q @ [pc]) id) (bl_get t i) else bl_get t j)"
  "bl_get (snd (blt_pop i t)) j = (if i = j then map_option (map_prod tl id) (bl_get t i) else bl_get t j)"
  by (cases "i = j"; cases "i < length t"; cases "bl_in_use (t ! i)";
      simp add: bl_get_def blt_add_ref_def blt_push_def blt_pop_def)+

lemma bl_get_dec_ref:
  "bl_get (blt_dec_ref i t) j = (if i = j then (case bl_get t i of None \<Rightarrow> None
     | Some (q, c) \<Rightarrow> if saturating_sub c 1 = 0 then None else Some (q, saturating_sub c 1)) else bl_get t j)"
  by (cases "i = j"; cases "i < length t"; cases "bl_in_use (t ! i)") (simp_all add: bl_get_def blt_dec_ref_def Let_def)

end
