(* ===== verification/Process.thy ===== *)
theory Process
  imports FdTable OfdTable PipeBuf Lock Memory Signal Terminal Socket
begin

text \<open>
  The kernel's record of one process, from \<^verbatim>\<open>src/crates/kernel/src/process.rs\<close>: the tables it owns, its
  identity and limits, its threads, and the methods that work on them. The trait \<open>HostIO\<close> is the
  interface of the host and not modelled here.
\<close>

section \<open>Data\<close>

record DirStream =
  ds_host_handle :: i64
  ds_path :: bytes
  ds_position :: u64
  ds_synth_dot_state :: u8

datatype ProcessState = Running | Exited

record FbBinding =
  fb_addr :: usize
  fb_len :: usize
  fb_w :: u32
  fb_h :: u32
  fb_stride :: u32
  fb_fmt :: u32

record ThreadInfo =
  th_tid :: u32
  th_ctid_ptr :: usize
  th_stack_ptr :: usize
  th_tls_ptr :: usize
  th_tidptr :: usize
  th_signals :: PerThreadSignalState

definition thread_new :: "u32 \<Rightarrow> usize \<Rightarrow> usize \<Rightarrow> usize \<Rightarrow> ThreadInfo" where
  "thread_new tid ctid_ptr stack_ptr tls_ptr =
    \<lparr>th_tid = tid, th_ctid_ptr = ctid_ptr, th_stack_ptr = stack_ptr, th_tls_ptr = tls_ptr,
     th_tidptr = 0, th_signals = pts_new\<rparr>"

record EventFdState =
  ev_counter :: u64
  ev_semaphore :: bool

record EpollInterest =
  ep_fd :: i32
  ep_events :: u32
  ep_data :: u64

record TimerFdState =
  tf_clock_id :: u32
  tf_interval_sec :: i64
  tf_interval_nsec :: i64
  tf_value_sec :: i64
  tf_value_nsec :: i64
  tf_expirations :: u64

record PosixTimerState =
  pxt_clock_id :: u32
  pxt_sigev_signo :: u32
  pxt_sigev_value :: i32
  pxt_interval_sec :: i64
  pxt_interval_nsec :: i64
  pxt_value_sec :: i64
  pxt_value_nsec :: i64
  pxt_overrun :: i32

record SignalFdState =
  sf_mask :: u64

datatype FdAction =
    FaDup2 (fa_old_fd: i32) (fa_new_fd: i32)
  | FaClose (fa_fd: i32)
  | FaOpen i32 bytes i32 i32

record Process =
  p_pid :: u32
  p_ppid :: u32
  p_uid :: u32
  p_gid :: u32
  p_euid :: u32
  p_egid :: u32
  p_pgid :: u32
  p_sid :: u32
  p_is_session_leader :: bool
  p_state :: ProcessState
  p_exit_status :: i32
  p_fd_table :: FdTable
  p_ofd_table :: OfdTable
  p_lock_table :: LockTable
  p_pipes :: "PipeBuffer slots"
  p_sockets :: SocketTable
  p_cwd :: bytes
  p_dir_streams :: "DirStream slots"
  p_signals :: SignalState
  p_memory :: MemoryManager
  p_terminal :: TerminalState
  p_environ :: "bytes list"
  p_argv :: "bytes list"
  p_umask :: u32
  p_nice :: i32
  p_rlimits :: "(u64 \<times> u64) list"
  p_alarm_deadline_ns :: u64
  p_alarm_interval_ns :: u64
  p_thread_name :: bytes
  p_fork_child :: bool
  p_sigsuspend_saved_mask :: "u64 option"
  p_fork_exec_path :: "bytes option"
  p_fork_exec_argv :: "bytes list option"
  p_fork_fd_actions :: "FdAction list"
  p_next_ephemeral_port :: u16
  p_threads :: "ThreadInfo list"
  p_next_tid :: u32
  p_eventfds :: "EventFdState slots"
  p_epolls :: "EpollInterest list slots"
  p_timerfds :: "TimerFdState slots"
  p_signalfds :: "SignalFdState slots"
  p_posix_timers :: "PosixTimerState slots"
  p_alt_stack_sp :: usize
  p_alt_stack_flags :: u32
  p_alt_stack_size :: usize
  p_alt_stack_depth :: u32
  p_fork_pipe_replay :: "(i32 \<times> i32) list"
  p_memfds :: "bytes slots"
  p_procfs_bufs :: "bytes slots"
  p_has_exec :: bool
  p_fb_binding :: "FbBinding option"
  p_fork_count :: u64

text \<open>A byte string literal \<open>b"..."\<close>.\<close>

definition bstr :: "string \<Rightarrow> bytes" where
  "bstr s = map of_char s"

definition process_new :: "u32 \<Rightarrow> Process" where
  "process_new pid =
    (let t0 = ofdt_new;
         (_, t1) = ofdt_create CharDevice O_RDONLY 0 (bstr ''/dev/stdin'') t0;
         (_, t2) = ofdt_create CharDevice O_WRONLY 1 (bstr ''/dev/stdout'') t1;
         (_, t3) = ofdt_create CharDevice O_WRONLY 2 (bstr ''/dev/stderr'') t2
     in \<lparr>p_pid = pid, p_ppid = 0, p_uid = 0, p_gid = 0, p_euid = 0, p_egid = 0, p_pgid = pid, p_sid = 0,
         p_is_session_leader = False, p_state = Running, p_exit_status = 0,
         p_fd_table = fdt_preopen_stdio fdt_new, p_ofd_table = t3, p_lock_table = lt_new, p_pipes = [],
         p_sockets = skt_new, p_cwd = [47], p_dir_streams = [], p_signals = ss_new, p_memory = mm_new,
         p_terminal = term_new, p_environ = [], p_argv = [], p_umask = 18, p_nice = 0,
         p_rlimits = (replicate 16 (- 1, - 1))[7 := (1024, 4096), 3 := (8 * 1024 * 1024, - 1)],
         p_alarm_deadline_ns = 0, p_alarm_interval_ns = 0, p_thread_name = replicate 16 0,
         p_fork_child = False, p_sigsuspend_saved_mask = None, p_fork_exec_path = None,
         p_fork_exec_argv = None, p_fork_fd_actions = [], p_next_ephemeral_port = 49152,
         p_threads = [], p_next_tid = 0, p_eventfds = [], p_epolls = [], p_timerfds = [],
         p_signalfds = [], p_posix_timers = [], p_alt_stack_sp = 0, p_alt_stack_flags = 2,
         p_alt_stack_size = 0, p_alt_stack_depth = 0, p_fork_pipe_replay = [], p_memfds = [],
         p_procfs_bufs = [], p_has_exec = False, p_fb_binding = None, p_fork_count = 0\<rparr>)"

lemma process_new_fields:
  "p_signals (process_new pid) = ss_new" "p_memory (process_new pid) = mm_new" "p_terminal (process_new pid) = term_new"
  "p_environ (process_new pid) = []" "p_argv (process_new pid) = []" "p_cwd (process_new pid) = [47]"
  "p_sockets (process_new pid) = []" "length (p_rlimits (process_new pid)) = 16"
  "p_fork_exec_path (process_new pid) = None" "p_fork_exec_argv (process_new pid) = None"
  "p_fork_fd_actions (process_new pid) = []"
  "p_fd_table (process_new pid) = \<lparr>fdt_entries = map (\<lambda>i. Some \<lparr>ofd_ref = i, fd_flags = 0\<rparr>) [0, 1, 2], fdt_max_fds = 1024\<rparr>"
  "p_ofd_table (process_new pid) =
    [Some (ofd_fresh CharDevice O_RDONLY 0 (bstr ''/dev/stdin'')), Some (ofd_fresh CharDevice O_WRONLY 1 (bstr ''/dev/stdout'')),
     Some (ofd_fresh CharDevice O_WRONLY 2 (bstr ''/dev/stderr''))]"
  by (simp_all add: process_new_def Let_def case_prod_unfold skt_new_def fdt_preopen_stdio_def fdt_new_def fdt_with_max_def
    fdt_alloc_def fdt_alloc_at_min_def ofdt_create_def ofdt_new_def slot_insert_def)

section \<open>Local pipes\<close>

definition alloc_pipe :: "PipeBuffer \<Rightarrow> Process \<Rightarrow> nat \<times> Process" where
  "alloc_pipe pipe p = (let (i, ps) = slot_insert pipe (p_pipes p) in (i, p\<lparr>p_pipes := ps\<rparr>))"

definition alloc_pipe_pair :: "PipeBuffer \<Rightarrow> PipeBuffer \<Rightarrow> Process \<Rightarrow> (nat \<times> nat) \<times> Process" where
  "alloc_pipe_pair a b p =
    (let ps = p_pipes p in
     case position (\<lambda>i. Option.is_none (ps ! i) \<and> Option.is_none (ps ! Suc i)) [0..<length ps - 1] of
       Some i \<Rightarrow> ((i, Suc i), p\<lparr>p_pipes := ps[i := Some a, Suc i := Some b]\<rparr>)
     | None \<Rightarrow> ((length ps, Suc (length ps)), p\<lparr>p_pipes := ps @ [Some a, Some b]\<rparr>))"

definition increment_fork_count :: "Process \<Rightarrow> Process" where
  "increment_fork_count p = p\<lparr>p_fork_count := p_fork_count p + 1\<rparr>"

section \<open>Threads\<close>

definition alloc_tid :: "Process \<Rightarrow> u32 \<times> Process" where
  "alloc_tid p =
    (let tid = (if p_next_tid p = 0 then p_pid p + 1 else p_next_tid p)
     in (tid, p\<lparr>p_next_tid := tid + 1\<rparr>))"

definition add_thread :: "ThreadInfo \<Rightarrow> Process \<Rightarrow> Process" where
  "add_thread info p = p\<lparr>p_threads := p_threads p @ [info]\<rparr>"

text \<open>\<open>Vec::swap_remove\<close>: the last element takes the place of the removed one.\<close>

definition swap_remove :: "nat \<Rightarrow> 'a list \<Rightarrow> 'a list" where
  "swap_remove i xs = butlast (xs[i := last xs])"

definition remove_thread :: "u32 \<Rightarrow> Process \<Rightarrow> ThreadInfo option \<times> Process" where
  "remove_thread tid p = (case position (\<lambda>t. th_tid t = tid) (p_threads p) of
     Some i \<Rightarrow> (Some (p_threads p ! i), p\<lparr>p_threads := swap_remove i (p_threads p)\<rparr>)
   | None \<Rightarrow> (None, p))"

definition get_thread :: "Process \<Rightarrow> u32 \<Rightarrow> ThreadInfo option" where
  "get_thread p tid = find (\<lambda>t. th_tid t = tid) (p_threads p)"

text \<open>\<open>get_thread_mut\<close>: the update its caller applies to the thread's signal state.\<close>

definition modify_thread :: "u32 \<Rightarrow> (PerThreadSignalState \<Rightarrow> PerThreadSignalState) \<Rightarrow> Process \<Rightarrow> Process" where
  "modify_thread tid f p = (case position (\<lambda>t. th_tid t = tid) (p_threads p) of
     Some i \<Rightarrow> p\<lparr>p_threads := (p_threads p)[i := (p_threads p ! i)\<lparr>th_signals := f (th_signals (p_threads p ! i))\<rparr>]\<rparr>
   | None \<Rightarrow> p)"

definition is_main_thread :: "Process \<Rightarrow> u32 \<Rightarrow> bool" where
  "is_main_thread p tid \<longleftrightarrow> tid = 0 \<or> tid = p_pid p"

definition blocked_for :: "Process \<Rightarrow> u32 \<Rightarrow> u64" where
  "blocked_for p tid =
    (if is_main_thread p tid then ss_blocked (p_signals p)
     else (case get_thread p tid of Some t \<Rightarrow> pts_blocked (th_signals t) | None \<Rightarrow> ss_blocked (p_signals p)))"

definition set_process_blocked :: "u64 \<Rightarrow> Process \<Rightarrow> Process" where
  "set_process_blocked m p = p\<lparr>p_signals := (p_signals p)\<lparr>ss_blocked := m\<rparr>\<rparr>"

definition set_blocked_for :: "u32 \<Rightarrow> u64 \<Rightarrow> Process \<Rightarrow> u64 \<times> Process" where
  "set_blocked_for tid new_blocked p =
    (if is_main_thread p tid then (ss_blocked (p_signals p), set_process_blocked new_blocked p)
     else (case get_thread p tid of
       Some t \<Rightarrow> (pts_blocked (th_signals t), modify_thread tid (\<lambda>s. s\<lparr>pts_blocked := new_blocked\<rparr>) p)
     | None \<Rightarrow> (ss_blocked (p_signals p), set_process_blocked new_blocked p)))"

definition pending_for :: "Process \<Rightarrow> u32 \<Rightarrow> u64" where
  "pending_for p tid =
    (if is_main_thread p tid then ss_pending (p_signals p)
     else ss_pending (p_signals p) OR
       (case get_thread p tid of Some t \<Rightarrow> pts_pending (th_signals t) | None \<Rightarrow> 0))"

definition signal_pending_for :: "Process \<Rightarrow> u32 \<Rightarrow> u32 \<Rightarrow> bool" where
  "signal_pending_for p tid sig =
    (if sig = 0 \<or> sig \<ge> NSIG then False
     else
       (let b = sig_bit sig; shared = (ss_pending (p_signals p) AND b \<noteq> 0) in
        if is_main_thread p tid then shared
        else shared \<or> (case get_thread p tid of
          Some t \<Rightarrow> pts_pending (th_signals t) AND b \<noteq> 0 | None \<Rightarrow> False)))"

definition pick_thread_for_shared_signal :: "Process \<Rightarrow> u32 \<Rightarrow> u32 option" where
  "pick_thread_for_shared_signal p sig =
    (if sig = 0 \<or> sig \<ge> NSIG then None
     else
       (let b = sig_bit sig in
        if ss_blocked (p_signals p) AND b = 0 then Some (p_pid p)
        else map_option th_tid (find (\<lambda>t. pts_blocked (th_signals t) AND b = 0) (p_threads p))))"

definition deliverable_for :: "Process \<Rightarrow> u32 \<Rightarrow> u64" where
  "deliverable_for p tid = (let pending = pending_for p tid; blocked = blocked_for p tid in pending AND NOT blocked)"

definition sigsuspend_saved_mask_for :: "Process \<Rightarrow> u32 \<Rightarrow> u64 option" where
  "sigsuspend_saved_mask_for p tid =
    (if is_main_thread p tid then p_sigsuspend_saved_mask p
     else Option.bind (get_thread p tid) (\<lambda>t. pts_sigsuspend_saved_mask (th_signals t)))"

definition set_sigsuspend_saved_mask_for :: "u32 \<Rightarrow> u64 option \<Rightarrow> Process \<Rightarrow> Process" where
  "set_sigsuspend_saved_mask_for tid v p =
    (if is_main_thread p tid then p\<lparr>p_sigsuspend_saved_mask := v\<rparr>
     else modify_thread tid (\<lambda>s. s\<lparr>pts_sigsuspend_saved_mask := v\<rparr>) p)"

definition take_sigsuspend_saved_mask_for :: "u32 \<Rightarrow> Process \<Rightarrow> u64 option \<times> Process" where
  "take_sigsuspend_saved_mask_for tid p =
    (if is_main_thread p tid then (p_sigsuspend_saved_mask p, p\<lparr>p_sigsuspend_saved_mask := None\<rparr>)
     else (Option.bind (get_thread p tid) (\<lambda>t. pts_sigsuspend_saved_mask (th_signals t)),
           modify_thread tid (\<lambda>s. s\<lparr>pts_sigsuspend_saved_mask := None\<rparr>) p))"

definition tids_accepting :: "Process \<Rightarrow> u32 \<Rightarrow> u32 list" where
  "tids_accepting p sig =
    (if sig = 0 \<or> sig \<ge> NSIG then []
     else
       (let b = sig_bit sig
        in (if ss_blocked (p_signals p) AND b = 0 then [p_pid p] else []) @
           map th_tid (filter (\<lambda>t. pts_blocked (th_signals t) AND b = 0) (p_threads p))))"

end
