(* ===== verification/Codec.thy ===== *)
theory Codec
  imports Abi "HOL-Library.Monad_Syntax"
begin

text \<open>
  The byte writer and reader of \<^verbatim>\<open>src/crates/kernel/src/fork.rs\<close>. A serialiser is the list of the write
  calls it makes; \<open>w_seq\<close> performs them in order and stops at the first that does not fit. A
  deserialiser passes the reader along explicitly; every failure of a reader is \<open>EINVAL\<close>, so its
  result is an option and \<open>None\<close> stands for that error. The locale \<open>record_codec\<close> is the contract
  between the calls that write one record of a sequence and the loop body that reads it back.
\<close>

section \<open>Writer\<close>

record Writer =
  w_buf :: bytes
  w_pos :: nat

definition w_new :: "bytes \<Rightarrow> Writer" where
  "w_new buf = \<lparr>w_buf = buf, w_pos = 0\<rparr>"

definition w_remaining :: "Writer \<Rightarrow> nat" where
  "w_remaining w = length (w_buf w) - w_pos w"

text \<open>The calls \<open>write_u8\<close>, \<open>write_u16\<close>, \<open>write_u32\<close> and \<open>write_i32\<close>, \<open>write_u64\<close> and \<open>write_i64\<close>, \<open>write_bytes\<close>.\<close>

datatype wop = WU8 u8 | WU16 u16 | WU32 u32 | WU64 u64 | WBytes bytes

fun wop_bytes :: "wop \<Rightarrow> bytes" where
  "wop_bytes (WU8 v) = [v]"
| "wop_bytes (WU16 v) = to_le 2 v"
| "wop_bytes (WU32 v) = to_le 4 v"
| "wop_bytes (WU64 v) = to_le 8 v"
| "wop_bytes (WBytes bs) = bs"

definition w_op :: "wop \<Rightarrow> Writer \<Rightarrow> unit kresult \<times> Writer" where
  "w_op op w =
    (let data = wop_bytes op in
     if w_remaining w < length data then (Err ENOMEM, w)
     else (Ok (), w\<lparr>w_buf := copy_at (w_pos w) data (w_buf w), w_pos := w_pos w + length data\<rparr>))"

fun w_seq :: "wop list \<Rightarrow> Writer \<Rightarrow> unit kresult \<times> Writer" where
  "w_seq [] w = (Ok (), w)"
| "w_seq (op # ops) w = (case w_op op w of
     (Inl e, w') \<Rightarrow> (Err e, w')
   | (Inr _, w') \<Rightarrow> w_seq ops w')"

definition patch_u32 :: "nat \<Rightarrow> u32 \<Rightarrow> Writer \<Rightarrow> Writer" where
  "patch_u32 offset v w = w\<lparr>w_buf := copy_at offset (to_le 4 v) (w_buf w)\<rparr>"

section \<open>Reader\<close>

record Reader =
  r_buf :: bytes
  r_pos :: nat

definition r_new :: "bytes \<Rightarrow> Reader" where
  "r_new buf = \<lparr>r_buf = buf, r_pos = 0\<rparr>"

definition r_remaining :: "Reader \<Rightarrow> nat" where
  "r_remaining r = length (r_buf r) - r_pos r"

definition read_bytes :: "nat \<Rightarrow> Reader \<Rightarrow> (bytes \<times> Reader) option" where
  "read_bytes n r =
    (if r_remaining r < n then None
     else Some (slice (r_pos r) (r_pos r + n) (r_buf r), r\<lparr>r_pos := r_pos r + n\<rparr>))"

definition read_u8 :: "Reader \<Rightarrow> (u8 \<times> Reader) option" where
  "read_u8 r =
    (if r_remaining r < 1 then None else Some (r_buf r ! r_pos r, r\<lparr>r_pos := r_pos r + 1\<rparr>))"

definition read_u16 :: "Reader \<Rightarrow> (u16 \<times> Reader) option" where
  "read_u16 r =
    (if r_remaining r < 2 then None
     else Some (from_le (slice (r_pos r) (r_pos r + 2) (r_buf r)), r\<lparr>r_pos := r_pos r + 2\<rparr>))"

definition read_u32 :: "Reader \<Rightarrow> (u32 \<times> Reader) option" where
  "read_u32 r =
    (if r_remaining r < 4 then None
     else Some (from_le (slice (r_pos r) (r_pos r + 4) (r_buf r)), r\<lparr>r_pos := r_pos r + 4\<rparr>))"

definition read_i32 :: "Reader \<Rightarrow> (i32 \<times> Reader) option" where
  "read_i32 r =
    (if r_remaining r < 4 then None
     else Some (from_le (slice (r_pos r) (r_pos r + 4) (r_buf r)), r\<lparr>r_pos := r_pos r + 4\<rparr>))"

definition read_u64 :: "Reader \<Rightarrow> (u64 \<times> Reader) option" where
  "read_u64 r =
    (if r_remaining r < 8 then None
     else Some (from_le (slice (r_pos r) (r_pos r + 8) (r_buf r)), r\<lparr>r_pos := r_pos r + 8\<rparr>))"

definition read_i64 :: "Reader \<Rightarrow> (i64 \<times> Reader) option" where
  "read_i64 r =
    (if r_remaining r < 8 then None
     else Some (from_le (slice (r_pos r) (r_pos r + 8) (r_buf r)), r\<lparr>r_pos := r_pos r + 8\<rparr>))"

definition read_bounded_bytes :: "nat \<Rightarrow> nat \<Rightarrow> Reader \<Rightarrow> (bytes \<times> Reader) option" where
  "read_bounded_bytes n mx r = (if n > mx then None else read_bytes n r)"

text \<open>\<open>r.read_x().unwrap_or(d)\<close>: a failed read leaves the reader where it was.\<close>

definition read_or :: "(Reader \<Rightarrow> ('a \<times> Reader) option) \<Rightarrow> 'a \<Rightarrow> Reader \<Rightarrow> ('a \<times> Reader) option" where
  "read_or rd d r = (case rd r of None \<Rightarrow> Some (d, r) | Some x \<Rightarrow> Some x)"

text \<open>\<open>for _ in 0..n\<close> with a body that reads and updates the local variables.\<close>

fun rd_loop :: "nat \<Rightarrow> ('s \<Rightarrow> Reader \<Rightarrow> ('s \<times> Reader) option) \<Rightarrow> 's \<Rightarrow> Reader \<Rightarrow> ('s \<times> Reader) option" where
  "rd_loop 0 body s r = Some (s, r)"
| "rd_loop (Suc n) body s r = do { (s, r) \<leftarrow> body s r; rd_loop n body s r }"

section \<open>The image of a list of write calls\<close>

definition image_of :: "wop list \<Rightarrow> bytes" where
  "image_of ops = concat (map wop_bytes ops)"

lemma image_of_simps [simp]:
  "image_of [] = []" "image_of (op # ops) = wop_bytes op @ image_of ops"
  "image_of (ops @ ops') = image_of ops @ image_of ops'"
  by (simp_all add: image_of_def)

lemma w_seq_fits:
  "w_pos w + length (image_of ops) \<le> length (w_buf w) \<Longrightarrow>
    w_seq ops w = (Ok (), w\<lparr>w_buf := copy_at (w_pos w) (image_of ops) (w_buf w),
                           w_pos := w_pos w + length (image_of ops)\<rparr>)"
proof (induction ops arbitrary: w)
  case Nil
  then show ?case by (simp add: copy_at_def)
next
  case (Cons op ops)
  define w1 where "w1 = w\<lparr>w_buf := copy_at (w_pos w) (wop_bytes op) (w_buf w), w_pos := w_pos w + length (wop_bytes op)\<rparr>"
  have 1: "w_op op w = (Ok (), w1)"
    using Cons.prems by (simp add: w_op_def w1_def w_remaining_def Let_def)
  have 2: "copy_at (w_pos w1) (image_of ops) (w_buf w1) = copy_at (w_pos w) (image_of (op # ops)) (w_buf w)"
    using Cons.prems by (simp add: w1_def copy_at_def ac_simps)
  have "w_pos w1 + length (image_of ops) \<le> length (w_buf w1)"
    using Cons.prems by (simp add: w1_def length_copy_at)
  from Cons.IH [OF this] show ?case by (simp add: 1 2) (simp add: w1_def add.assoc)
qed

lemma w_seq_overflows:
  "w_pos w \<le> length (w_buf w) \<Longrightarrow> length (w_buf w) < w_pos w + length (image_of ops) \<Longrightarrow>
    \<exists>w'. w_seq ops w = (Err ENOMEM, w')"
proof (induction ops arbitrary: w)
  case (Cons op ops)
  show ?case
  proof (cases "w_remaining w < length (wop_bytes op)")
    case False
    define w1 where "w1 = w\<lparr>w_buf := copy_at (w_pos w) (wop_bytes op) (w_buf w), w_pos := w_pos w + length (wop_bytes op)\<rparr>"
    have "w_op op w = (Ok (), w1)" using False by (simp add: w_op_def w1_def Let_def)
    moreover have "w_pos w1 \<le> length (w_buf w1)" "length (w_buf w1) < w_pos w1 + length (image_of ops)"
      using Cons.prems False by (simp_all add: w1_def length_copy_at w_remaining_def)
    ultimately show ?thesis using Cons.IH [of w1] by simp
  qed (simp add: w_op_def Let_def)
qed simp

section \<open>Reading what was written\<close>

text \<open>The reader after \<open>pre\<close> with \<open>xs\<close> still to read.\<close>

definition rd_at :: "bytes \<Rightarrow> bytes \<Rightarrow> Reader" where
  "rd_at pre xs = \<lparr>r_buf = pre @ xs, r_pos = length pre\<rparr>"

lemma r_new_rd_at: "r_new buf = rd_at [] buf"
  by (simp add: r_new_def rd_at_def)

lemma r_remaining_rd_at [simp]: "r_remaining (rd_at pre xs) = length xs"
  by (simp add: r_remaining_def rd_at_def)

lemma rd_at_step:
  "length ys = n \<Longrightarrow> (rd_at pre (ys @ xs))\<lparr>r_pos := r_pos (rd_at pre (ys @ xs)) + n\<rparr> = rd_at (pre @ ys) xs"
  "length ys = n \<Longrightarrow> slice (r_pos (rd_at pre (ys @ xs))) (r_pos (rd_at pre (ys @ xs)) + n) (r_buf (rd_at pre (ys @ xs))) = ys"
  by (simp_all add: rd_at_def slice_def)

lemma read_simps [simp]:
  "read_u16 (rd_at pre (to_le 2 a @ xs)) = Some (a, rd_at (pre @ to_le 2 a) xs)"
  "read_u32 (rd_at pre (to_le 4 b @ xs)) = Some (b, rd_at (pre @ to_le 4 b) xs)"
  "read_i32 (rd_at pre (to_le 4 c @ xs)) = Some (c, rd_at (pre @ to_le 4 c) xs)"
  "read_u64 (rd_at pre (to_le 8 d @ xs)) = Some (d, rd_at (pre @ to_le 8 d) xs)"
  "read_i64 (rd_at pre (to_le 8 e @ xs)) = Some (e, rd_at (pre @ to_le 8 e) xs)"
  by (simp_all add: read_u16_def read_u32_def read_i32_def read_u64_def read_i64_def rd_at_step
      del: add_2_eq_Suc add_2_eq_Suc')

lemma read_u8_rd_at [simp]: "read_u8 (rd_at pre (v # xs)) = Some (v, rd_at (pre @ [v]) xs)"
  by (simp add: read_u8_def) (simp add: rd_at_def)

lemma read_bytes_rd_at [simp]:
  "length ys = n \<Longrightarrow> read_bytes n (rd_at pre (ys @ xs)) = Some (ys, rd_at (pre @ ys) xs)"
  by (simp add: read_bytes_def rd_at_step)

lemma read_or_Some [simp]: "rd r = Some x \<Longrightarrow> read_or rd d r = Some x"
  by (simp add: read_or_def)

section \<open>The contract of a record in a sequence\<close>

locale record_codec =
  fixes ops :: "'a \<Rightarrow> wop list"
    and body :: "'s \<Rightarrow> Reader \<Rightarrow> ('s \<times> Reader) option"
    and upd :: "'a \<Rightarrow> 's \<Rightarrow> 's"
    and ok :: "'a \<Rightarrow> bool"
  assumes body_ops: "ok v \<Longrightarrow> body s (rd_at pre (image_of (ops v) @ xs)) = Some (upd v s, rd_at (pre @ image_of (ops v)) xs)"
begin

lemma loop_ops:
  "\<forall>v\<in>set vs. ok v \<Longrightarrow> rd_loop (length vs) body s (rd_at pre (image_of (concat (map ops vs)) @ xs)) =
    Some (fold upd vs s, rd_at (pre @ image_of (concat (map ops vs))) xs)"
  by (induction vs arbitrary: s pre) (simp_all add: body_ops)

end

end
