(* ===== verification/Fork.thy ===== *)
theory Fork
  imports Process Codec
begin

text \<open>
  The images of a process that fork and exec pass to the new kernel instance, from
  \<^verbatim>\<open>src/crates/kernel/src/fork.rs\<close>: the two serialisers and the two deserialisers, section by section in
  the order of the code. The sections that both formats share are defined once.
\<close>

section \<open>Constants and small encodings\<close>

abbreviation (input) FORK_MAGIC :: u32 where "FORK_MAGIC \<equiv> 0x464F524B"
abbreviation (input) EXEC_MAGIC :: u32 where "EXEC_MAGIC \<equiv> 0x45584543"
abbreviation (input) FORK_VERSION :: u32 where "FORK_VERSION \<equiv> 7"
abbreviation (input) MAX_FDS :: u32 where "MAX_FDS \<equiv> 65536"
abbreviation (input) MAX_OFDS :: u32 where "MAX_OFDS \<equiv> 65536"
abbreviation (input) MAX_ENV_VARS :: u32 where "MAX_ENV_VARS \<equiv> 65536"
abbreviation (input) MAX_ARGV :: u32 where "MAX_ARGV \<equiv> 65536"
abbreviation (input) MAX_PATH_LEN :: nat where "MAX_PATH_LEN \<equiv> 1048576"
abbreviation (input) MAX_STRING_LEN :: nat where "MAX_STRING_LEN \<equiv> 1048576"
abbreviation (input) NO_IDX :: u32 where "NO_IDX \<equiv> 0xFFFFFFFF"

fun file_type_to_u32 :: "FileType \<Rightarrow> u32" where
  "file_type_to_u32 Regular = 0"
| "file_type_to_u32 Directory = 1"
| "file_type_to_u32 Pipe = 2"
| "file_type_to_u32 CharDevice = 3"
| "file_type_to_u32 FileType.Socket = 4"
| "file_type_to_u32 EventFd = 5"
| "file_type_to_u32 Epoll = 6"
| "file_type_to_u32 TimerFd = 7"
| "file_type_to_u32 SignalFd = 8"
| "file_type_to_u32 MemFd = 9"
| "file_type_to_u32 PtyMaster = 10"
| "file_type_to_u32 PtySlave = 11"

definition u32_to_file_type :: "u32 \<Rightarrow> FileType option" where
  "u32_to_file_type v =
    (if v = 0 then Some Regular else if v = 1 then Some Directory else if v = 2 then Some Pipe
     else if v = 3 then Some CharDevice else if v = 4 then Some FileType.Socket
     else if v = 5 then Some EventFd else if v = 6 then Some Epoll else if v = 7 then Some TimerFd
     else if v = 8 then Some SignalFd else if v = 9 then Some MemFd
     else if v = 10 then Some PtyMaster else if v = 11 then Some PtySlave else None)"

fun handler_to_u32 :: "SignalHandler \<Rightarrow> u32" where
  "handler_to_u32 HDefault = 0"
| "handler_to_u32 HIgnore = 1"
| "handler_to_u32 (Handler ptr) = 2 + ptr"

definition u32_to_handler :: "u32 \<Rightarrow> SignalHandler" where
  "u32_to_handler v = (if v = 0 then HDefault else if v = 1 then HIgnore else Handler (v - 2))"

text \<open>Grow a vector of optional entries up to an index and store an entry there.\<close>

definition slots_put :: "nat \<Rightarrow> 'a \<Rightarrow> 'a slots \<Rightarrow> 'a slots" where
  "slots_put idx v s = (s @ replicate (Suc idx - length s) None)[idx := Some v]"

abbreviation (input) len32 :: "'a list \<Rightarrow> u32" where
  "len32 xs \<equiv> word_of_nat (length xs)"

section \<open>Serialising for fork\<close>

definition fork_ops_scalars :: "Process \<Rightarrow> wop list" where
  "fork_ops_scalars p =
    [WU32 (p_pid p), WU32 (p_uid p), WU32 (p_gid p), WU32 (p_euid p), WU32 (p_egid p), WU32 (p_pgid p),
     WU32 (p_sid p), WU32 (p_umask p), WU32 (p_nice p), WU32 (of_bool (p_is_session_leader p))]"

definition action_ops :: "SignalState \<Rightarrow> u32 \<Rightarrow> wop list" where
  "action_ops s i =
    (let action = ss_get_action s i in
     if sa_handler action \<noteq> HDefault \<or> sa_flags action \<noteq> 0 \<or> sa_mask action \<noteq> 0
     then [WU32 i, WU32 (handler_to_u32 (sa_handler action)), WU32 (sa_flags action), WU64 (sa_mask action)]
     else [])"

definition fork_ops_signals :: "SignalState \<Rightarrow> wop list" where
  "fork_ops_signals s =
    (let non_default_count = length (filter (\<lambda>i. ss_get_handler s i \<noteq> HDefault \<or>
           sa_flags (ss_get_action s i) \<noteq> 0 \<or> sa_mask (ss_get_action s i) \<noteq> 0) (map word_of_nat [1..<65]))
     in [WU64 (ss_blocked s), WU32 (word_of_nat non_default_count)] @
        concat (map (action_ops s) (map word_of_nat [1..<65])))"

definition fd_ops :: "i32 \<times> FdEntry \<Rightarrow> wop list" where
  "fd_ops = (\<lambda>(fd_num, entry). [WU32 fd_num, WU32 (word_of_nat (ofd_ref entry)), WU32 (fd_flags entry)])"

definition fork_ops_fds :: "FdTable \<Rightarrow> wop list" where
  "fork_ops_fds t =
    (let fd_entries = fdt_iter t
     in [WU32 (word_of_nat (fdt_max_fds t)), WU32 (len32 fd_entries)] @ concat (map fd_ops fd_entries))"

definition ofd_ops :: "nat \<times> OpenFileDesc \<Rightarrow> wop list" where
  "ofd_ops = (\<lambda>(index, ofd).
    [WU32 (word_of_nat index), WU32 (file_type_to_u32 (ofd_file_type ofd)), WU32 (ofd_status_flags ofd),
     WU64 (ofd_host_handle ofd), WU64 (ofd_offset ofd), WU32 (ofd_ref_count ofd),
     WU32 (len32 (ofd_path ofd)), WBytes (ofd_path ofd)])"

definition fork_ops_ofds :: "OfdTable \<Rightarrow> wop list" where
  "fork_ops_ofds t =
    (let ofd_entries = ofdt_iter t in [WU32 (len32 ofd_entries)] @ concat (map ofd_ops ofd_entries))"

definition string_ops :: "bytes \<Rightarrow> wop list" where
  "string_ops s = [WU32 (len32 s), WBytes s]"

definition strings_ops :: "bytes list \<Rightarrow> wop list" where
  "strings_ops ss = [WU32 (len32 ss)] @ concat (map string_ops ss)"

definition rlimit_ops :: "u64 \<times> u64 \<Rightarrow> wop list" where
  "rlimit_ops = (\<lambda>(soft, hard). [WU64 soft, WU64 hard])"

definition fork_ops_terminal :: "TerminalState \<Rightarrow> wop list" where
  "fork_ops_terminal t =
    [WU32 (c_iflag t), WU32 (c_oflag t), WU32 (c_cflag t), WU32 (c_lflag t), WBytes (c_cc t),
     WU16 (ws_row (tt_winsize t)), WU16 (ws_col (tt_winsize t)), WU16 (ws_xpixel (tt_winsize t)),
     WU16 (ws_ypixel (tt_winsize t)), WU8 (c_line t), WU32 (c_ispeed t), WU32 (c_ospeed t),
     WU32 (session_id t)]"

definition mapping_ops :: "MappedRegion \<Rightarrow> wop list" where
  "mapping_ops m = [WU32 (ucast (mr_addr m)), WU32 (ucast (mr_len m)), WU32 (mr_prot m), WU32 (mr_flags m)]"

definition fork_ops_memory :: "MemoryManager \<Rightarrow> wop list" where
  "fork_ops_memory mm =
    [WU32 (ucast (mm_get_brk mm)), WU32 (len32 (mm_mappings mm))] @ concat (map mapping_ops (mm_mappings mm))"

fun fd_action_ops :: "FdAction \<Rightarrow> wop list" where
  "fd_action_ops (FaDup2 old_fd new_fd) = [WU32 0, WU32 old_fd, WU32 new_fd]"
| "fd_action_ops (FaClose fd) = [WU32 1, WU32 fd, WU32 0]"
| "fd_action_ops (FaOpen fd path flags mode) = [WU32 2, WU32 fd, WU32 0]"

definition fork_ops_exec :: "Process \<Rightarrow> wop list" where
  "fork_ops_exec p =
    (case p_fork_exec_path p of Some path \<Rightarrow> string_ops path | None \<Rightarrow> [WU32 0]) @
    (case p_fork_exec_argv p of Some argv \<Rightarrow> strings_ops argv | None \<Rightarrow> [WU32 0]) @
    [WU32 (len32 (p_fork_fd_actions p))] @ concat (map fd_action_ops (p_fork_fd_actions p))"

definition opt32 :: "nat option \<Rightarrow> u32" where
  "opt32 x = (case x of Some v \<Rightarrow> word_of_nat v | None \<Rightarrow> NO_IDX)"

definition socket_ops :: "nat \<times> SocketInfo \<Rightarrow> wop list" where
  "socket_ops = (\<lambda>(idx, sock).
    [WU32 (word_of_nat idx),
     WU32 (case sk_domain sock of DomUnix \<Rightarrow> 0 | DomInet \<Rightarrow> 1 | DomInet6 \<Rightarrow> 2),
     WU32 (case sk_sock_type sock of Stream \<Rightarrow> 0 | Dgram \<Rightarrow> 1),
     WU32 (sk_protocol sock),
     WU32 (case sk_state sock of Unbound \<Rightarrow> 0 | Bound \<Rightarrow> 1 | Listening \<Rightarrow> 2 | Connected \<Rightarrow> 3 | Closed \<Rightarrow> 4),
     WU32 (opt32 (sk_peer_idx sock)), WU32 (opt32 (sk_recv_buf_idx sock)), WU32 (opt32 (sk_send_buf_idx sock)),
     WU32 (of_bool (sk_shut_rd sock)), WU32 (of_bool (sk_shut_wr sock)),
     WU32 (case sk_host_net_handle sock of Some v \<Rightarrow> v | None \<Rightarrow> NO_IDX),
     WU32 (len32 (sk_options sock))] @
    concat (map (\<lambda>(level, optname, v). [WU32 level, WU32 optname, WU32 v]) (sk_options sock)) @
    [WBytes (sk_bind_addr sock), WU32 (ucast (sk_bind_port sock)), WBytes (sk_peer_addr sock),
     WU32 (ucast (sk_peer_port sock)), WU32 0, WU32 (of_bool (sk_global_pipes sock)),
     WU32 (opt32 (sk_shared_backlog_idx sock))] @
    (case sk_bind_path sock of Some p \<Rightarrow> string_ops p | None \<Rightarrow> [WU32 NO_IDX]))"

definition skt_iter :: "SocketTable \<Rightarrow> (nat \<times> SocketInfo) list" where
  "skt_iter t = List.map_filter (\<lambda>i. map_option (Pair i) (skt_get t i)) [0..<skt_len t]"

definition fork_ops_sockets :: "SocketTable \<Rightarrow> wop list" where
  "fork_ops_sockets t =
    [WU32 (word_of_nat (skt_len t)), WU32 (len32 (skt_iter t))] @ concat (map socket_ops (skt_iter t))"

definition fork_ops :: "Process \<Rightarrow> wop list" where
  "fork_ops p =
    [WU32 FORK_MAGIC, WU32 FORK_VERSION, WU32 0] @ fork_ops_scalars p @ fork_ops_signals (p_signals p) @
    fork_ops_fds (p_fd_table p) @ fork_ops_ofds (p_ofd_table p) @ strings_ops (p_environ p) @
    strings_ops (p_argv p) @ string_ops (p_cwd p) @ concat (map rlimit_ops (p_rlimits p)) @
    fork_ops_terminal (p_terminal p) @ fork_ops_memory (p_memory p) @ fork_ops_exec p @
    fork_ops_sockets (p_sockets p)"

text \<open>The tail of both serialisers: perform the writes, then patch the total size at offset 8.\<close>

definition serialize_with :: "wop list \<Rightarrow> bytes \<Rightarrow> nat kresult \<times> bytes" where
  "serialize_with ops buf = (case w_seq ops (w_new buf) of
     (Inl e, w) \<Rightarrow> (Err e, w_buf w)
   | (Inr _, w) \<Rightarrow>
       (let total = word_of_nat (w_pos w); w = patch_u32 8 total w in (Ok (w_pos w), w_buf w)))"

definition serialize_fork_state :: "Process \<Rightarrow> bytes \<Rightarrow> nat kresult \<times> bytes" where
  "serialize_fork_state p buf = serialize_with (fork_ops p) buf"

section \<open>Deserialising for fork\<close>

record ForkScalars =
  fs_ppid :: u32
  fs_uid :: u32
  fs_gid :: u32
  fs_euid :: u32
  fs_egid :: u32
  fs_pgid :: u32
  fs_sid :: u32
  fs_is_session_leader :: bool
  fs_umask :: u32
  fs_nice :: i32

definition rd_header :: "u32 \<Rightarrow> Reader \<Rightarrow> (unit \<times> Reader) option" where
  "rd_header expected r = do {
     (magic, r) \<leftarrow> read_u32 r;
     if magic \<noteq> expected then None else do {
       (version, r) \<leftarrow> read_u32 r;
       if version \<noteq> FORK_VERSION then None else do {
         (total_size, r) \<leftarrow> read_u32 r;
         Some ((), r) } } }"

definition rd_fork_scalars :: "Reader \<Rightarrow> (ForkScalars \<times> Reader) option" where
  "rd_fork_scalars r = do {
     (ppid, r) \<leftarrow> read_u32 r;
     (uid, r) \<leftarrow> read_u32 r;
     (gid, r) \<leftarrow> read_u32 r;
     (euid, r) \<leftarrow> read_u32 r;
     (egid, r) \<leftarrow> read_u32 r;
     (pgid, r) \<leftarrow> read_u32 r;
     (sid, r) \<leftarrow> read_u32 r;
     (umask, r) \<leftarrow> read_u32 r;
     (nice, r) \<leftarrow> read_u32 r;
     (leader, r) \<leftarrow> read_u32 r;
     Some (\<lparr>fs_ppid = ppid, fs_uid = uid, fs_gid = gid, fs_euid = euid, fs_egid = egid, fs_pgid = pgid,
            fs_sid = sid, fs_is_session_leader = leader \<noteq> 0, fs_umask = umask, fs_nice = nice\<rparr>, r) }"

definition rd_action :: "SignalAction list \<Rightarrow> Reader \<Rightarrow> (SignalAction list \<times> Reader) option" where
  "rd_action actions r = do {
     (signum, r) \<leftarrow> read_u32 r;
     (handler_val, r) \<leftarrow> read_u32 r;
     (flags, r) \<leftarrow> read_u32 r;
     (mask, r) \<leftarrow> read_u64 r;
     Some (if unat signum < 65
           then actions[unat signum := \<lparr>sa_handler = u32_to_handler handler_val, sa_flags = flags, sa_mask = mask\<rparr>]
           else actions, r) }"

definition rd_fork_signals :: "Reader \<Rightarrow> (SignalState \<times> Reader) option" where
  "rd_fork_signals r = do {
     (blocked, r) \<leftarrow> read_u64 r;
     (handler_count, r) \<leftarrow> read_u32 r;
     if handler_count > 64 then None else do {
       (actions, r) \<leftarrow> rd_loop (unat handler_count) rd_action (replicate 65 sa_default) r;
       Some (ss_from_actions actions blocked, r) } }"

text \<open>The loop body of the descriptor section; fork skips the descriptors marked close-on-fork.\<close>

definition rd_fd :: "bool \<Rightarrow> FdEntry slots \<Rightarrow> Reader \<Rightarrow> (FdEntry slots \<times> Reader) option" where
  "rd_fd skip_clofork fd_entries r = do {
     (fd_num, r) \<leftarrow> read_u32 r;
     (ofd_index, r) \<leftarrow> read_u32 r;
     (flags, r) \<leftarrow> read_u32 r;
     Some (if skip_clofork \<and> flags AND FD_CLOFORK \<noteq> 0 then fd_entries
           else slots_put (unat fd_num) \<lparr>ofd_ref = unat ofd_index, fd_flags = flags\<rparr> fd_entries, r) }"

definition rd_fds :: "bool \<Rightarrow> Reader \<Rightarrow> (FdTable \<times> Reader) option" where
  "rd_fds skip_clofork r = do {
     (max_fds, r) \<leftarrow> read_u32 r;
     (fd_count, r) \<leftarrow> read_u32 r;
     if fd_count > MAX_FDS then None else do {
       (fd_entries, r) \<leftarrow> rd_loop (unat fd_count) (rd_fd skip_clofork) [] r;
       Some (fdt_from_raw fd_entries (unat max_fds), r) } }"

definition rd_ofd :: "u32 \<Rightarrow> OpenFileDesc slots \<Rightarrow> Reader \<Rightarrow> (OpenFileDesc slots \<times> Reader) option" where
  "rd_ofd owner ofd_entries r = do {
     (index, r) \<leftarrow> read_u32 r;
     (ft, r) \<leftarrow> read_u32 r;
     file_type \<leftarrow> u32_to_file_type ft;
     (status_flags, r) \<leftarrow> read_u32 r;
     (host_handle, r) \<leftarrow> read_i64 r;
     (offset, r) \<leftarrow> read_i64 r;
     (ref_count, r) \<leftarrow> read_u32 r;
     (path_len, r) \<leftarrow> read_u32 r;
     (path, r) \<leftarrow> read_bounded_bytes (unat path_len) MAX_PATH_LEN r;
     Some (slots_put (unat index)
       \<lparr>ofd_file_type = file_type, ofd_status_flags = status_flags, ofd_host_handle = host_handle,
        ofd_offset = offset, ofd_ref_count = ref_count, ofd_owner_pid = owner, ofd_path = path,
        ofd_dir_host_handle = - 1, ofd_dir_synth_state = 0, ofd_dir_entry_offset = 0\<rparr> ofd_entries, r) }"

definition rd_ofds :: "u32 \<Rightarrow> Reader \<Rightarrow> (OfdTable \<times> Reader) option" where
  "rd_ofds owner r = do {
     (ofd_count, r) \<leftarrow> read_u32 r;
     if ofd_count > MAX_OFDS then None else do {
       (ofd_entries, r) \<leftarrow> rd_loop (unat ofd_count) (rd_ofd owner) [] r;
       Some (ofdt_from_raw ofd_entries, r) } }"

definition rd_string :: "bytes list \<Rightarrow> Reader \<Rightarrow> (bytes list \<times> Reader) option" where
  "rd_string ss r = do {
     (len, r) \<leftarrow> read_u32 r;
     (data, r) \<leftarrow> read_bounded_bytes (unat len) MAX_STRING_LEN r;
     Some (ss @ [data], r) }"

text \<open>The sections for the environment and for the arguments; their two limits are equal.\<close>

definition rd_strings :: "u32 \<Rightarrow> Reader \<Rightarrow> (bytes list \<times> Reader) option" where
  "rd_strings limit r = do {
     (count, r) \<leftarrow> read_u32 r;
     if count > limit then None else rd_loop (unat count) rd_string [] r }"

definition rd_cwd :: "Reader \<Rightarrow> (bytes \<times> Reader) option" where
  "rd_cwd r = do {
     (cwd_len, r) \<leftarrow> read_u32 r;
     read_bounded_bytes (unat cwd_len) MAX_PATH_LEN r }"

definition rd_rlimit :: "(u64 \<times> u64) list \<Rightarrow> Reader \<Rightarrow> ((u64 \<times> u64) list \<times> Reader) option" where
  "rd_rlimit ls r = do {
     (soft, r) \<leftarrow> read_u64 r;
     (hard, r) \<leftarrow> read_u64 r;
     Some (ls @ [(soft, hard)], r) }"

definition rd_terminal :: "Reader \<Rightarrow> (TerminalState \<times> Reader) option" where
  "rd_terminal r = do {
     (iflag, r) \<leftarrow> read_u32 r;
     (oflag, r) \<leftarrow> read_u32 r;
     (cflag, r) \<leftarrow> read_u32 r;
     (lflag, r) \<leftarrow> read_u32 r;
     (cc, r) \<leftarrow> read_bytes 32 r;
     (row, r) \<leftarrow> read_u16 r;
     (col, r) \<leftarrow> read_u16 r;
     (xpixel, r) \<leftarrow> read_u16 r;
     (ypixel, r) \<leftarrow> read_u16 r;
     (line, r) \<leftarrow> read_or read_u8 0 r;
     (ispeed, r) \<leftarrow> read_or read_u32 15 r;
     (ospeed, r) \<leftarrow> read_or read_u32 15 r;
     (sess, r) \<leftarrow> read_or read_i32 0 r;
     Some (\<lparr>c_iflag = iflag, c_oflag = oflag, c_cflag = cflag, c_lflag = lflag, c_line = line, c_cc = cc,
            c_ispeed = ispeed, c_ospeed = ospeed,
            tt_winsize = \<lparr>ws_row = row, ws_col = col, ws_xpixel = xpixel, ws_ypixel = ypixel\<rparr>,
            foreground_pgid = 1, session_id = sess, line_buffer = [], cooked_buffer = []\<rparr>, r) }"

definition rd_mapping :: "MappedRegion list \<Rightarrow> Reader \<Rightarrow> (MappedRegion list \<times> Reader) option" where
  "rd_mapping ms r = do {
     (addr, r) \<leftarrow> read_u32 r;
     (len, r) \<leftarrow> read_u32 r;
     (prot, r) \<leftarrow> read_u32 r;
     (flags, r) \<leftarrow> read_u32 r;
     Some (ms @ [\<lparr>mr_addr = ucast addr, mr_len = ucast len, mr_prot = prot, mr_flags = flags\<rparr>], r) }"

definition rd_memory :: "Reader \<Rightarrow> (MemoryManager \<times> Reader) option" where
  "rd_memory r = do {
     (program_break, r) \<leftarrow> read_u32 r;
     let memory = snd (mm_set_brk (ucast program_break) mm_new);
     if r_remaining r \<ge> 4 then do {
       (mapping_count, r) \<leftarrow> read_u32 r;
       if unat mapping_count > 4096 then None else do {
         (mappings, r) \<leftarrow> rd_loop (unat mapping_count) rd_mapping [] r;
         Some (mm_set_mappings mappings memory, r) } }
     else Some (memory, r) }"

definition rd_exec_path :: "Reader \<Rightarrow> (bytes option \<times> Reader) option" where
  "rd_exec_path r =
    (if r_remaining r \<ge> 4 then do {
       (path_len, r) \<leftarrow> read_u32 r;
       if unat path_len > 0 then do {
         (path, r) \<leftarrow> read_bounded_bytes (unat path_len) MAX_PATH_LEN r;
         Some (Some path, r) }
       else Some (None, r) }
     else Some (None, r))"

definition rd_exec_argv :: "Reader \<Rightarrow> (bytes list option \<times> Reader) option" where
  "rd_exec_argv r =
    (if r_remaining r \<ge> 4 then do {
       (argc, r) \<leftarrow> read_u32 r;
       if unat argc > 0 then
         (if unat argc > unat MAX_ARGV then None else do {
            (args, r) \<leftarrow> rd_loop (unat argc) rd_string [] r;
            Some (Some args, r) })
       else Some (None, r) }
     else Some (None, r))"

definition rd_fd_action :: "FdAction list \<Rightarrow> Reader \<Rightarrow> (FdAction list \<times> Reader) option" where
  "rd_fd_action acts r = do {
     (action_type, r) \<leftarrow> read_u32 r;
     (fd1, r) \<leftarrow> read_u32 r;
     (fd2, r) \<leftarrow> read_u32 r;
     Some (if action_type = 0 then acts @ [FaDup2 fd1 fd2]
           else if action_type = 1 then acts @ [FaClose fd1] else acts, r) }"

definition rd_fd_actions :: "Reader \<Rightarrow> (FdAction list \<times> Reader) option" where
  "rd_fd_actions r =
    (if r_remaining r \<ge> 4 then do {
       (action_count, r) \<leftarrow> read_u32 r;
       rd_loop (unat action_count) rd_fd_action [] r }
     else Some ([], r))"

definition opt_idx :: "u32 \<Rightarrow> nat option" where
  "opt_idx v = (if v = NO_IDX then None else Some (unat v))"

definition u32_to_domain :: "u32 \<Rightarrow> SocketDomain option" where
  "u32_to_domain v = (if v = 0 then Some DomUnix else if v = 1 then Some DomInet
     else if v = 2 then Some DomInet6 else None)"

definition u32_to_sock_type :: "u32 \<Rightarrow> SocketType option" where
  "u32_to_sock_type v = (if v = 0 then Some Stream else if v = 1 then Some Dgram else None)"

definition u32_to_sock_state :: "u32 \<Rightarrow> SocketState option" where
  "u32_to_sock_state v = (if v = 0 then Some Unbound else if v = 1 then Some Bound
     else if v = 2 then Some Listening else if v = 3 then Some Connected
     else if v = 4 then Some Closed else None)"

definition rd_option :: "(u32 \<times> u32 \<times> u32) list \<Rightarrow> Reader \<Rightarrow> ((u32 \<times> u32 \<times> u32) list \<times> Reader) option" where
  "rd_option opts r = do {
     (level, r) \<leftarrow> read_u32 r;
     (optname, r) \<leftarrow> read_u32 r;
     (v, r) \<leftarrow> read_u32 r;
     Some (opts @ [(level, optname, v)], r) }"

definition rd_skip_u32 :: "unit \<Rightarrow> Reader \<Rightarrow> (unit \<times> Reader) option" where
  "rd_skip_u32 u r = do { (v, r) \<leftarrow> read_u32 r; Some ((), r) }"

definition rd_bind_path :: "Reader \<Rightarrow> (bytes option \<times> Reader) option" where
  "rd_bind_path r =
    (if r_remaining r \<ge> 4 then do {
       (bp_len, r) \<leftarrow> read_u32 r;
       if bp_len \<noteq> NO_IDX then do {
         (bp, r) \<leftarrow> read_bytes (unat bp_len) r;
         Some (Some bp, r) }
       else Some (None, r) }
     else Some (None, r))"

definition rd_socket :: "SocketTable \<Rightarrow> Reader \<Rightarrow> (SocketTable \<times> Reader) option" where
  "rd_socket sockets r = do {
     (idx, r) \<leftarrow> read_u32 r;
     (d, r) \<leftarrow> read_u32 r;
     domain \<leftarrow> u32_to_domain d;
     (ty, r) \<leftarrow> read_u32 r;
     sock_type \<leftarrow> u32_to_sock_type ty;
     (protocol, r) \<leftarrow> read_u32 r;
     (st, r) \<leftarrow> read_u32 r;
     state \<leftarrow> u32_to_sock_state st;
     (peer_idx_raw, r) \<leftarrow> read_u32 r;
     (recv_raw, r) \<leftarrow> read_u32 r;
     (send_raw, r) \<leftarrow> read_u32 r;
     (shut_rd, r) \<leftarrow> read_u32 r;
     (shut_wr, r) \<leftarrow> read_u32 r;
     (hnh_raw, r) \<leftarrow> read_u32 r;
     (opt_count, r) \<leftarrow> read_u32 r;
     (options, r) \<leftarrow> rd_loop (unat opt_count) rd_option [] r;
     (bind_addr, r) \<leftarrow> read_bytes 4 r;
     (bind_port, r) \<leftarrow> read_u32 r;
     (peer_addr, r) \<leftarrow> read_bytes 4 r;
     (peer_port, r) \<leftarrow> read_u32 r;
     (bl_count, r) \<leftarrow> read_u32 r;
     (_, r) \<leftarrow> rd_loop (unat bl_count) rd_skip_u32 () r;
     (global_pipes, r) \<leftarrow> read_u32 r;
     (sb_raw, r) \<leftarrow> read_u32 r;
     (bind_path, r) \<leftarrow> rd_bind_path r;
     Some (skt_insert_at (unat idx) ((sk_new domain sock_type protocol)\<lparr>sk_state := state,
       sk_peer_idx := opt_idx peer_idx_raw, sk_recv_buf_idx := opt_idx recv_raw,
       sk_send_buf_idx := opt_idx send_raw, sk_shut_rd := shut_rd \<noteq> 0, sk_shut_wr := shut_wr \<noteq> 0,
       sk_host_net_handle := (if hnh_raw = NO_IDX then None else Some hnh_raw), sk_options := options,
       sk_bind_addr := bind_addr, sk_bind_port := ucast bind_port, sk_peer_addr := peer_addr,
       sk_peer_port := ucast peer_port, sk_global_pipes := global_pipes \<noteq> 0,
       sk_shared_backlog_idx := opt_idx sb_raw, sk_bind_path := bind_path\<rparr>) sockets, r) }"

definition rd_sockets :: "Reader \<Rightarrow> (SocketTable \<times> Reader) option" where
  "rd_sockets r =
    (if r_remaining r \<ge> 8 then do {
       (total_slots, r) \<leftarrow> read_u32 r;
       (sock_count, r) \<leftarrow> read_u32 r;
       rd_loop (unat sock_count) rd_socket skt_new r }
     else Some (skt_new, r))"

definition rd_fork_state :: "u32 \<Rightarrow> Reader \<Rightarrow> (Process \<times> Reader) option" where
  "rd_fork_state child_pid r = do {
     (_, r) \<leftarrow> rd_header FORK_MAGIC r;
     (sc, r) \<leftarrow> rd_fork_scalars r;
     (signals, r) \<leftarrow> rd_fork_signals r;
     (fd_table, r) \<leftarrow> rd_fds True r;
     (ofd_table, r) \<leftarrow> rd_ofds child_pid r;
     (environ, r) \<leftarrow> rd_strings MAX_ENV_VARS r;
     (argv, r) \<leftarrow> rd_strings MAX_ARGV r;
     (cwd, r) \<leftarrow> rd_cwd r;
     (rlimits, r) \<leftarrow> rd_loop 16 rd_rlimit [] r;
     (terminal, r) \<leftarrow> rd_terminal r;
     (memory, r) \<leftarrow> rd_memory r;
     (exec_path, r) \<leftarrow> rd_exec_path r;
     (exec_argv, r) \<leftarrow> rd_exec_argv r;
     (fd_actions, r) \<leftarrow> rd_fd_actions r;
     (sockets, r) \<leftarrow> rd_sockets r;
     Some (\<lparr>p_pid = child_pid, p_ppid = fs_ppid sc, p_uid = fs_uid sc, p_gid = fs_gid sc, p_euid = fs_euid sc,
       p_egid = fs_egid sc, p_pgid = fs_pgid sc, p_sid = fs_sid sc, p_is_session_leader = False,
       p_state = Running, p_exit_status = 0, p_fd_table = fd_table, p_ofd_table = ofd_table,
       p_lock_table = lt_new, p_pipes = [], p_sockets = sockets, p_cwd = cwd, p_dir_streams = [],
       p_signals = signals, p_memory = memory, p_terminal = terminal, p_environ = environ,
       p_argv = argv, p_umask = fs_umask sc, p_nice = fs_nice sc, p_rlimits = rlimits,
       p_alarm_deadline_ns = 0, p_alarm_interval_ns = 0, p_thread_name = replicate 16 0,
       p_fork_child = True, p_sigsuspend_saved_mask = None, p_fork_exec_path = exec_path,
       p_fork_exec_argv = exec_argv, p_fork_fd_actions = fd_actions, p_next_ephemeral_port = 49152,
       p_threads = [], p_next_tid = 0, p_eventfds = [], p_epolls = [], p_timerfds = [],
       p_signalfds = [], p_posix_timers = [], p_alt_stack_sp = 0, p_alt_stack_flags = 2,
       p_alt_stack_size = 0, p_alt_stack_depth = 0, p_fork_pipe_replay = [], p_memfds = [],
       p_procfs_bufs = [], p_has_exec = False, p_fb_binding = None, p_fork_count = 0\<rparr>, r) }"

definition deserialize_fork_state :: "bytes \<Rightarrow> u32 \<Rightarrow> Process kresult" where
  "deserialize_fork_state buf child_pid =
    ok_or (map_option fst (rd_fork_state child_pid (r_new buf))) EINVAL"

section \<open>Serialising and deserialising for exec\<close>

definition exec_ops_scalars :: "Process \<Rightarrow> wop list" where
  "exec_ops_scalars p =
    [WU32 (p_ppid p), WU32 (p_uid p), WU32 (p_gid p), WU32 (p_euid p), WU32 (p_egid p), WU32 (p_pgid p),
     WU32 (p_sid p), WU32 (of_bool (p_is_session_leader p)), WU32 (p_umask p), WU32 (p_nice p)]"

definition exec_ops_signals :: "SignalState \<Rightarrow> wop list" where
  "exec_ops_signals s =
    (let ignored = filter (\<lambda>(i, h). i > 0 \<and> h = HIgnore) (enumerate 0 (ss_handlers s))
     in [WU64 (ss_blocked s), WU32 (len32 ignored)] @
        concat (map (\<lambda>(i, h). [WU32 (word_of_nat i), WU32 (handler_to_u32 h)]) ignored) @
        [WU64 (ss_pending s)])"

definition exec_fd_entries :: "FdTable \<Rightarrow> (i32 \<times> FdEntry) list" where
  "exec_fd_entries t = filter (\<lambda>(fd, entry). fd_flags entry AND FD_CLOEXEC = 0) (fdt_iter t)"

definition exec_ops_fds :: "FdTable \<Rightarrow> OfdTable \<Rightarrow> wop list" where
  "exec_ops_fds t ofds =
    (let fd_entries = exec_fd_entries t;
         referenced_ofds = set (map (\<lambda>(fd, entry). ofd_ref entry) fd_entries);
         ofd_entries = filter (\<lambda>(index, ofd). index \<in> referenced_ofds) (ofdt_iter ofds)
     in [WU32 (word_of_nat (fdt_max_fds t)), WU32 (len32 fd_entries)] @ concat (map fd_ops fd_entries) @
        [WU32 (len32 ofd_entries)] @ concat (map ofd_ops ofd_entries))"

definition exec_ops :: "Process \<Rightarrow> wop list" where
  "exec_ops p =
    [WU32 EXEC_MAGIC, WU32 FORK_VERSION, WU32 0] @ exec_ops_scalars p @ exec_ops_signals (p_signals p) @
    exec_ops_fds (p_fd_table p) (p_ofd_table p) @ strings_ops (p_environ p) @ strings_ops (p_argv p) @
    string_ops (p_cwd p) @ concat (map rlimit_ops (p_rlimits p)) @ fork_ops_terminal (p_terminal p) @
    [WU32 (ucast (mm_get_brk (p_memory p)))]"

definition serialize_exec_state :: "Process \<Rightarrow> bytes \<Rightarrow> nat kresult \<times> bytes" where
  "serialize_exec_state p buf = serialize_with (exec_ops p) buf"

definition rd_exec_scalars :: "Reader \<Rightarrow> (ForkScalars \<times> Reader) option" where
  "rd_exec_scalars r = do {
     (ppid, r) \<leftarrow> read_u32 r;
     (uid, r) \<leftarrow> read_u32 r;
     (gid, r) \<leftarrow> read_u32 r;
     (euid, r) \<leftarrow> read_u32 r;
     (egid, r) \<leftarrow> read_u32 r;
     (pgid, r) \<leftarrow> read_u32 r;
     (sid, r) \<leftarrow> read_u32 r;
     (leader, r) \<leftarrow> read_u32 r;
     (umask, r) \<leftarrow> read_u32 r;
     (nice, r) \<leftarrow> read_u32 r;
     Some (\<lparr>fs_ppid = ppid, fs_uid = uid, fs_gid = gid, fs_euid = euid, fs_egid = egid, fs_pgid = pgid,
            fs_sid = sid, fs_is_session_leader = leader \<noteq> 0, fs_umask = umask, fs_nice = nice\<rparr>, r) }"

definition rd_handler :: "SignalHandler list \<Rightarrow> Reader \<Rightarrow> (SignalHandler list \<times> Reader) option" where
  "rd_handler handlers r = do {
     (signum, r) \<leftarrow> read_u32 r;
     (handler_val, r) \<leftarrow> read_u32 r;
     Some (if unat signum < 64 then handlers[unat signum := u32_to_handler handler_val] else handlers, r) }"

definition rd_exec_signals :: "Reader \<Rightarrow> (SignalState \<times> Reader) option" where
  "rd_exec_signals r = do {
     (blocked, r) \<leftarrow> read_u64 r;
     (handler_count, r) \<leftarrow> read_u32 r;
     if handler_count > 64 then None else do {
       (handlers, r) \<leftarrow> rd_loop (unat handler_count) rd_handler (replicate 65 HDefault) r;
       (pending, r) \<leftarrow> read_u64 r;
       Some (ss_from_parts_with_pending handlers blocked pending, r) } }"

definition rd_exec_state :: "u32 \<Rightarrow> Reader \<Rightarrow> (Process \<times> Reader) option" where
  "rd_exec_state pid r = do {
     (_, r) \<leftarrow> rd_header EXEC_MAGIC r;
     (sc, r) \<leftarrow> rd_exec_scalars r;
     (signals, r) \<leftarrow> rd_exec_signals r;
     (fd_table, r) \<leftarrow> rd_fds False r;
     (ofd_table, r) \<leftarrow> rd_ofds pid r;
     (environ, r) \<leftarrow> rd_strings MAX_ENV_VARS r;
     (argv, r) \<leftarrow> rd_strings MAX_ARGV r;
     (cwd, r) \<leftarrow> rd_cwd r;
     (rlimits, r) \<leftarrow> rd_loop 16 rd_rlimit [] r;
     (terminal, r) \<leftarrow> rd_terminal r;
     (program_break, r) \<leftarrow> read_u32 r;
     Some (\<lparr>p_pid = pid, p_ppid = fs_ppid sc, p_uid = fs_uid sc, p_gid = fs_gid sc, p_euid = fs_euid sc,
       p_egid = fs_egid sc, p_pgid = fs_pgid sc, p_sid = fs_sid sc,
       p_is_session_leader = fs_is_session_leader sc,
       p_state = Running, p_exit_status = 0, p_fd_table = fd_table, p_ofd_table = ofd_table,
       p_lock_table = lt_new, p_pipes = [], p_sockets = skt_new, p_cwd = cwd, p_dir_streams = [],
       p_signals = signals, p_memory = mm_new, p_terminal = terminal, p_environ = environ,
       p_argv = argv, p_umask = fs_umask sc, p_nice = fs_nice sc, p_rlimits = rlimits,
       p_alarm_deadline_ns = 0, p_alarm_interval_ns = 0, p_thread_name = replicate 16 0,
       p_fork_child = False, p_sigsuspend_saved_mask = None, p_fork_exec_path = None,
       p_fork_exec_argv = None, p_fork_fd_actions = [], p_next_ephemeral_port = 49152,
       p_threads = [], p_next_tid = 0, p_eventfds = [], p_epolls = [], p_timerfds = [],
       p_signalfds = [], p_posix_timers = [], p_alt_stack_sp = 0, p_alt_stack_flags = 2,
       p_alt_stack_size = 0, p_alt_stack_depth = 0, p_fork_pipe_replay = [], p_memfds = [],
       p_procfs_bufs = [], p_has_exec = False, p_fb_binding = None, p_fork_count = 0\<rparr>, r) }"

definition deserialize_exec_state :: "bytes \<Rightarrow> u32 \<Rightarrow> Process kresult" where
  "deserialize_exec_state buf pid = ok_or (map_option fst (rd_exec_state pid (r_new buf))) EINVAL"

end
