(* ===== verification/Fork_Correct.thy ===== *)
theory Fork_Correct
  imports Fork
begin

text \<open>
  The fork and exec images carry what they should: reading an image back gives the process that the
  child, or the new program, has to start from. Each section of the format has one lemma that its
  reader inverts its writer; the sequences rest on interpretations of \<open>record_codec\<close>.
\<close>

section \<open>Vectors rebuilt from their live entries\<close>

definition trim_none :: "'a slots \<Rightarrow> 'a slots" where
  "trim_none s = rev (dropWhile Option.is_none (rev s))"

lemma trim_none_snoc [simp]:
  "trim_none (s @ [x]) = (case x of None \<Rightarrow> trim_none s | Some v \<Rightarrow> s @ [x])"
  by (simp add: trim_none_def Option.is_none_def split: option.split)

lemma trim_none_Nil [simp]: "trim_none [] = []"
  by (simp add: trim_none_def)

lemma trim_none_pad: "\<exists>k. s = trim_none s @ replicate k None"
proof (induction s rule: rev_induct)
  case (snoc x s)
  then obtain k where k: "s = trim_none s @ replicate k None" by blast
  show ?case
  proof (cases x)
    case None
    from k have "s @ [x] = trim_none s @ replicate (Suc k) None"
      using None by (metis append.assoc replicate_append_same replicate_Suc)
    moreover have "trim_none (s @ [x]) = trim_none s" using None by simp
    ultimately show ?thesis by metis
  qed (auto intro: exI [of _ 0])
qed simp

lemma slot_get_trim_none [simp]: "slot_get (trim_none s) i = slot_get s i"
proof -
  obtain k where k: "s = trim_none s @ replicate k None" using trim_none_pad by blast
  show ?thesis by (subst (2) k) (simp add: slot_get_append slot_get_beyond)
qed

lemma slots_put_trim_none: "slots_put (length s) v (trim_none s) = s @ [Some v]"
proof -
  obtain k where k: "s = trim_none s @ replicate k None" using trim_none_pad by blast
  then have len: "length s = length (trim_none s) + k" by (metis length_append length_replicate)
  have "trim_none s @ replicate (Suc (length s) - length (trim_none s)) None = s @ [None]"
    using k len by (metis Suc_diff_le add_diff_cancel_left' append.assoc le_add1 replicate_Suc replicate_append_same)
  then show ?thesis by (simp add: slots_put_def)
qed

text \<open>
  Storing the live entries that \<open>f\<close> keeps, in order, rebuilds the vector up to its last live entry.
\<close>

definition slots_filter :: "(nat \<Rightarrow> 'a \<Rightarrow> 'b option) \<Rightarrow> 'a slots \<Rightarrow> 'b slots" where
  "slots_filter f s = map (\<lambda>(i, x). Option.bind x (f i)) (enumerate 0 s)"

lemma slots_filter_snoc [simp]:
  "slots_filter f (s @ [x]) = slots_filter f s @ [Option.bind x (f (length s))]"
  by (simp add: slots_filter_def enumerate_append_eq)

lemma length_slots_filter [simp]: "length (slots_filter f s) = length s"
  by (simp add: slots_filter_def)

lemma slot_get_slots_filter [simp]: "slot_get (slots_filter f s) i = Option.bind (slot_get s i) (f i)"
  by (auto simp: slots_filter_def slot_get_def nth_enumerate_eq)

lemma fold_slots_put:
  "fold (\<lambda>(i, v). case f i v of None \<Rightarrow> id | Some w \<Rightarrow> slots_put i w) (slot_iter s) [] =
    trim_none (slots_filter f s)"
proof (induction s rule: rev_induct)
  case (snoc x s)
  show ?case
  proof (cases "Option.bind x (f (length s))")
    case None
    with snoc show ?thesis by (cases x) auto
  next
    case (Some w)
    then obtain v where "x = Some v" "f (length s) v = Some w" by (cases x) auto
    then show ?thesis using snoc slots_put_trim_none [of "slots_filter f s" w] by simp
  qed
qed (simp add: slots_filter_def)

lemma map_filter_index:
  "List.map_filter (\<lambda>(i, e). map_option (Pair (g i)) e) xs =
    map (\<lambda>(i, e). (g i, e)) (List.map_filter (\<lambda>(i, e). map_option (Pair i) e) xs)"
  by (induction xs) (auto simp: map_filter_simps split: option.split)

lemma map_filter_eqI:
  "(\<And>x. x \<in> set xs \<Longrightarrow> f x = g (h x)) \<Longrightarrow> List.map_filter f xs = List.map_filter g (map h xs)"
  by (induction xs) (auto simp: map_filter_simps split: option.split)

lemma fdt_iter_slot_iter: "fdt_iter t = map (\<lambda>(i, e). (word_of_nat i, e)) (slot_iter (fdt_entries t))"
  unfolding fdt_iter_def slot_iter_def by (rule map_filter_index)

lemma ofdt_iter_slot_iter: "ofdt_iter t = slot_iter t"
  by (simp add: ofdt_iter_def slot_iter_def)

lemma skt_iter_slot_iter: "skt_iter t = slot_iter t"
proof -
  have "enumerate 0 t = map (\<lambda>i. (i, t ! i)) [0..<length t]"
    by (intro nth_equalityI) (simp_all add: nth_enumerate_eq)
  then show ?thesis
    unfolding skt_iter_def slot_iter_def
    by (simp add: skt_len_def) (rule map_filter_eqI, simp add: skt_get_def slot_get_def)
qed

section \<open>Small encodings\<close>

lemma unat_len32 [simp]: "length xs < 2 ^ 32 \<Longrightarrow> unat (word_of_nat (length xs) :: u32) = length xs"
  by (rule unat_word_of_nat) simp

lemma file_type_roundtrip [simp]: "u32_to_file_type (file_type_to_u32 ft) = Some ft"
  by (cases ft) (simp_all add: u32_to_file_type_def)

definition handler_ok :: "SignalHandler \<Rightarrow> bool" where
  "handler_ok h = (case h of Handler ptr \<Rightarrow> unat ptr + 2 < 2 ^ 32 | _ \<Rightarrow> True)"

lemma handler_roundtrip: "handler_ok h \<Longrightarrow> u32_to_handler (handler_to_u32 h) = h"
proof (cases h)
  case (Handler ptr)
  assume "handler_ok h"
  then have "unat (2 + ptr) = unat ptr + 2" using Handler by (simp add: handler_ok_def unat_word_ariths)
  then have "2 + ptr \<noteq> 0" "2 + ptr \<noteq> 1" by (auto simp: word_unat_eq_iff)
  with Handler show ?thesis by (simp add: u32_to_handler_def)
qed (simp_all add: u32_to_handler_def)

lemma fold_snoc: "fold (\<lambda>x acc. acc @ [x]) xs acc = acc @ xs"
  by (induction xs arbitrary: acc) simp_all

definition idx_ok :: "nat option \<Rightarrow> bool" where
  "idx_ok x = (case x of None \<Rightarrow> True | Some n \<Rightarrow> n < 2 ^ 32 - 1)"

lemma opt_idx_opt32: "idx_ok x \<Longrightarrow> opt_idx (opt32 x) = x"
proof (cases x)
  case (Some n)
  assume "idx_ok x"
  then have u: "unat (word_of_nat n :: u32) = n" using Some by (intro unat_word_of_nat) (simp add: idx_ok_def)
  moreover have "(word_of_nat n :: u32) \<noteq> NO_IDX"
    using \<open>idx_ok x\<close> Some u by (auto simp: word_unat_eq_iff idx_ok_def)
  ultimately show ?thesis using Some by (simp add: opt_idx_def opt32_def)
qed (simp add: opt_idx_def opt32_def)

lemma ucast_ucast_id16: "(ucast (ucast (w :: u16) :: u32) :: u16) = w"
  by (simp add: unsigned_ucast_eq take_bit_word_eq_self)

section \<open>The records of the sequences\<close>

definition fd_kept :: "bool \<Rightarrow> FdEntry \<Rightarrow> FdEntry option" where
  "fd_kept skip e = (if skip \<and> fd_flags e AND FD_CLOFORK \<noteq> 0 then None else Some e)"

definition ofd_inherit :: "u32 \<Rightarrow> OpenFileDesc \<Rightarrow> OpenFileDesc" where
  "ofd_inherit owner d = d\<lparr>ofd_owner_pid := owner, ofd_dir_host_handle := - 1, ofd_dir_synth_state := 0,
     ofd_dir_entry_offset := 0\<rparr>"

interpretation fd_codec: record_codec fd_ops "rd_fd skip"
    "\<lambda>(i, e). case fd_kept skip e of None \<Rightarrow> id | Some e' \<Rightarrow> slots_put (unat i) e'"
    "\<lambda>(i, e). ofd_ref e < 2 ^ 32" for skip
proof
  fix v :: "i32 \<times> FdEntry" and s pre xs
  obtain i e where v: "v = (i, e)" by (cases v)
  assume "case v of (i, e) \<Rightarrow> ofd_ref e < 2 ^ 32"
  then have "unat (word_of_nat (ofd_ref e) :: u32) = ofd_ref e" using v by (intro unat_word_of_nat) simp
  then show "rd_fd skip s (rd_at pre (image_of (fd_ops v) @ xs)) =
      Some ((case v of (i, e) \<Rightarrow> case fd_kept skip e of None \<Rightarrow> id | Some e' \<Rightarrow> slots_put (unat i) e') s,
        rd_at (pre @ image_of (fd_ops v)) xs)"
    using v by (cases e) (auto simp: rd_fd_def fd_ops_def fd_kept_def)
qed

interpretation ofd_codec: record_codec ofd_ops "rd_ofd owner"
    "\<lambda>(i, d). slots_put i (ofd_inherit owner d)" "\<lambda>(i, d). i < 2 ^ 32 \<and> length (ofd_path d) \<le> MAX_PATH_LEN"
    for owner
proof
  fix v :: "nat \<times> OpenFileDesc" and s pre xs
  obtain i d where v: "v = (i, d)" by (cases v)
  assume "case v of (i, d) \<Rightarrow> i < 2 ^ 32 \<and> length (ofd_path d) \<le> MAX_PATH_LEN"
  then have "unat (word_of_nat i :: u32) = i" "length (ofd_path d) \<le> MAX_PATH_LEN"
    using v by (auto intro: unat_word_of_nat)
  then show "rd_ofd owner s (rd_at pre (image_of (ofd_ops v) @ xs)) =
      Some ((case v of (i, d) \<Rightarrow> slots_put i (ofd_inherit owner d)) s, rd_at (pre @ image_of (ofd_ops v)) xs)"
    using v by (cases d) (simp add: rd_ofd_def ofd_ops_def ofd_inherit_def read_bounded_bytes_def)
qed

interpretation str_codec: record_codec string_ops rd_string "\<lambda>s ss. ss @ [s]" "\<lambda>s. length s \<le> MAX_STRING_LEN"
  by unfold_locales (simp add: rd_string_def string_ops_def read_bounded_bytes_def)

interpretation rlimit_codec: record_codec rlimit_ops rd_rlimit "\<lambda>l ls. ls @ [l]" "\<lambda>_. True"
  by unfold_locales (auto simp: rd_rlimit_def rlimit_ops_def)

interpretation mapping_codec: record_codec mapping_ops rd_mapping "\<lambda>m ms. ms @ [m]"
    "\<lambda>m. unat (mr_addr m) < 2 ^ 32 \<and> unat (mr_len m) < 2 ^ 32"
proof
  have c: "(ucast (ucast w :: u32) :: u64) = w" if "unat w < 2 ^ 32" for w :: u64
    using that unfolding word_unat_eq_iff by (simp add: unsigned_ucast_eq unsigned_take_bit_eq take_bit_nat_eq_self)
  fix m :: MappedRegion and s pre xs
  assume "unat (mr_addr m) < 2 ^ 32 \<and> unat (mr_len m) < 2 ^ 32"
  then show "rd_mapping s (rd_at pre (image_of (mapping_ops m) @ xs)) =
      Some (s @ [m], rd_at (pre @ image_of (mapping_ops m)) xs)"
    by (cases m) (simp add: rd_mapping_def mapping_ops_def c)
qed

interpretation fd_action_codec: record_codec fd_action_ops rd_fd_action
    "\<lambda>a acts. case a of FaOpen _ _ _ _ \<Rightarrow> acts | _ \<Rightarrow> acts @ [a]" "\<lambda>_. True"
proof
  fix a s pre xs
  show "rd_fd_action s (rd_at pre (image_of (fd_action_ops a) @ xs)) =
      Some (case a of FaOpen _ _ _ _ \<Rightarrow> s | _ \<Rightarrow> s @ [a], rd_at (pre @ image_of (fd_action_ops a)) xs)"
    by (cases a) (simp_all add: rd_fd_action_def)
qed

interpretation option_codec: record_codec "\<lambda>(level, optname, v). [WU32 level, WU32 optname, WU32 v]" rd_option
    "\<lambda>opt opts. opts @ [opt]" "\<lambda>_. True"
  by unfold_locales (auto simp: rd_option_def)

definition sk_inherit :: "SocketInfo \<Rightarrow> SocketInfo" where
  "sk_inherit s = (sk_clone s)\<lparr>sk_recv_timeout_us := 0, sk_send_timeout_us := 0\<rparr>"

definition sock_ok :: "SocketInfo \<Rightarrow> bool" where
  "sock_ok s \<longleftrightarrow> idx_ok (sk_peer_idx s) \<and> idx_ok (sk_recv_buf_idx s) \<and> idx_ok (sk_send_buf_idx s) \<and>
    idx_ok (sk_shared_backlog_idx s) \<and> sk_host_net_handle s \<noteq> Some (- 1) \<and> length (sk_options s) < 2 ^ 32 \<and>
    length (sk_bind_addr s) = 4 \<and> length (sk_peer_addr s) = 4 \<and>
    idx_ok (map_option length (sk_bind_path s))"

lemma socket_enum_roundtrip [simp]:
  "u32_to_domain (case d of DomUnix \<Rightarrow> 0 | DomInet \<Rightarrow> 1 | DomInet6 \<Rightarrow> 2) = Some d"
  "u32_to_sock_type (case ty of Stream \<Rightarrow> 0 | Dgram \<Rightarrow> 1) = Some ty"
  "u32_to_sock_state (case st of Unbound \<Rightarrow> 0 | Bound \<Rightarrow> 1 | Listening \<Rightarrow> 2 | Connected \<Rightarrow> 3 | Closed \<Rightarrow> 4) = Some st"
  by (auto simp: u32_to_domain_def u32_to_sock_type_def u32_to_sock_state_def
      split: SocketDomain.split SocketType.split SocketState.split)

lemma rd_bind_path_image:
  assumes "idx_ok (map_option length bp)"
  shows "rd_bind_path (rd_at pre (image_of (case bp of Some p \<Rightarrow> string_ops p | None \<Rightarrow> [WU32 NO_IDX]) @ xs)) =
    Some (bp, rd_at (pre @ image_of (case bp of Some p \<Rightarrow> string_ops p | None \<Rightarrow> [WU32 NO_IDX])) xs)"
proof (cases bp)
  case (Some p)
  then have len: "length p < 2 ^ 32 - 1" using assms by (simp add: idx_ok_def)
  then have u: "unat (word_of_nat (length p) :: u32) = length p" by (intro unat_word_of_nat) simp
  with len have "(word_of_nat (length p) :: u32) \<noteq> NO_IDX" by (auto simp: word_unat_eq_iff)
  with Some u show ?thesis by (simp add: rd_bind_path_def string_ops_def)
qed (simp add: rd_bind_path_def)

lemma net_handle_roundtrip:
  "h \<noteq> Some (- 1) \<Longrightarrow> (if (case h of Some v \<Rightarrow> v | None \<Rightarrow> NO_IDX) = NO_IDX then None
     else Some (case h of Some v \<Rightarrow> v | None \<Rightarrow> NO_IDX)) = (h :: i32 option)"
  by (cases h) auto

interpretation socket_codec: record_codec socket_ops rd_socket
    "\<lambda>(i, s). slots_put i (sk_inherit s)" "\<lambda>(i, s). i < 2 ^ 32 \<and> sock_ok s"
proof
  fix v :: "nat \<times> SocketInfo" and s pre xs
  obtain i k where v: "v = (i, k)" by (cases v)
  assume "case v of (i, s) \<Rightarrow> i < 2 ^ 32 \<and> sock_ok s"
  then have i: "unat (word_of_nat i :: u32) = i" and k: "sock_ok k"
    using v by (auto intro: unat_word_of_nat)
  note loop = option_codec.loop_ops [of "sk_options k" "[]", simplified, unfolded fold_snoc append_Nil]
  show "rd_socket s (rd_at pre (image_of (socket_ops v) @ xs)) =
      Some ((case v of (i, s) \<Rightarrow> slots_put i (sk_inherit s)) s, rd_at (pre @ image_of (socket_ops v)) xs)"
    using k unfolding sock_ok_def
    by (simp add: v rd_socket_def socket_ops_def i loop rd_bind_path_image opt_idx_opt32 net_handle_roundtrip
        ucast_ucast_id16 skt_insert_at_def slots_put_def [symmetric])
      (cases k, simp add: sk_inherit_def sk_clone_def sk_new_def)
qed

section \<open>The signal section\<close>

definition signals_ok :: "SignalState \<Rightarrow> bool" where
  "signals_ok s \<longleftrightarrow> length (ss_actions s) = 65 \<and> ss_actions s ! 0 = sa_default \<and>
    (\<forall>a\<in>set (ss_actions s). handler_ok (sa_handler a))"

definition non_default :: "SignalAction \<Rightarrow> bool" where
  "non_default a \<longleftrightarrow> sa_handler a \<noteq> HDefault \<or> sa_flags a \<noteq> 0 \<or> sa_mask a \<noteq> 0"

lemma not_non_default: "\<not> non_default a \<Longrightarrow> a = sa_default"
  by (cases a) (simp add: non_default_def sa_default_def)

interpretation action_codec: record_codec
    "\<lambda>(i, a). [WU32 i, WU32 (handler_to_u32 (sa_handler a)), WU32 (sa_flags a), WU64 (sa_mask a)]" rd_action
    "\<lambda>(i, a) acts. acts[unat i := a]" "\<lambda>(i, a). unat i < 65 \<and> handler_ok (sa_handler a)"
proof
  fix v :: "u32 \<times> SignalAction" and s pre xs
  obtain i a where v: "v = (i, a)" by (cases v)
  assume "case v of (i, a) \<Rightarrow> unat i < 65 \<and> handler_ok (sa_handler a)"
  then show "rd_action s (rd_at pre (image_of (case v of (i, a) \<Rightarrow> [WU32 i, WU32 (handler_to_u32 (sa_handler a)),
        WU32 (sa_flags a), WU64 (sa_mask a)]) @ xs)) = Some ((case v of (i, a) \<Rightarrow> \<lambda>acts. acts[unat i := a]) s,
      rd_at (pre @ image_of (case v of (i, a) \<Rightarrow> [WU32 i, WU32 (handler_to_u32 (sa_handler a)),
        WU32 (sa_flags a), WU64 (sa_mask a)])) xs)"
    using v by (cases a) (simp add: rd_action_def handler_roundtrip)
qed

lemma action_ops_concat:
  "concat (map (action_ops s) is) =
    concat (map (\<lambda>(i, a). [WU32 i, WU32 (handler_to_u32 (sa_handler a)), WU32 (sa_flags a), WU64 (sa_mask a)])
      (map (\<lambda>i. (i, ss_get_action s i)) (filter (\<lambda>i. non_default (ss_get_action s i)) is)))"
  by (induction "is") (simp_all add: action_ops_def non_default_def Let_def)

lemma fold_updates_nth:
  fixes "is" :: "u32 list"
  assumes "j < length base" and small: "unat (word_of_nat j :: u32) = j"
  shows "fold (\<lambda>(i, a) acts. acts[unat i := a]) (map (\<lambda>i. (i, g i)) is) base ! j =
    (if word_of_nat j \<in> set is then g (word_of_nat j) else base ! j)"
  using assms(1)
proof (induction "is" arbitrary: base)
  case (Cons i "is")
  have eq: "unat i = j \<longleftrightarrow> i = word_of_nat j" using small by auto
  show ?case
  proof (cases "i = word_of_nat j")
    case True
    with Cons eq show ?thesis by simp
  next
    case False
    then have "base[unat i := g i] ! j = base ! j" using eq by simp
    with Cons False show ?thesis by simp
  qed
qed simp

lemma length_fold_updates [simp]:
  "length (fold (\<lambda>(i, a) acts. acts[unat i := a]) xs base) = length base"
  by (induction xs arbitrary: base) auto

lemma rd_fork_signals_image:
  assumes ok: "signals_ok s"
  shows "rd_fork_signals (rd_at pre (image_of (fork_ops_signals s) @ xs)) =
    Some (ss_from_actions (ss_actions s) (ss_blocked s), rd_at (pre @ image_of (fork_ops_signals s)) xs)"
proof -
  define ns where "ns = [1..<65 :: nat]"
  have ns: "set ns = {1..<65}" "length ns = 64" by (simp_all add: ns_def del: upt_rec_numeral)
  let ?is = "map word_of_nat ns :: u32 list"
  define js where "js = filter (\<lambda>i. non_default (ss_get_action s i)) ?is"
  let ?acts = "map (\<lambda>i. (i, ss_get_action s i)) js"
  have small: "unat (word_of_nat j :: u32) = j" if "j < 65" for j using that by (intro unat_word_of_nat) simp
  have act: "ss_get_action s (word_of_nat j) = ss_actions s ! j" if "0 < j" "j < 65" for j
    using that small [of j] by (auto simp: ss_get_action_def word_le_nat_alt word_unat_eq_iff)
  have nd: "filter (\<lambda>i. ss_get_handler s i \<noteq> HDefault \<or> sa_flags (ss_get_action s i) \<noteq> 0 \<or>
      sa_mask (ss_get_action s i) \<noteq> 0) ?is = js"
    unfolding js_def by (intro filter_cong refl) (auto simp: non_default_def ss_get_handler_def ss_get_action_def sa_default_def)
  have len: "length js \<le> 64" using length_filter_le [of "\<lambda>i. non_default (ss_get_action s i)" ?is] by (simp add: js_def ns)
  have cnt: "unat (word_of_nat (length js) :: u32) = length js" using len by (intro unat_len32) simp
  have "fold (\<lambda>(i, a) acts. acts[unat i := a]) ?acts (replicate 65 sa_default) = ss_actions s"
  proof (rule nth_equalityI)
    fix j assume "j < length (fold (\<lambda>(i, a) acts. acts[unat i := a]) ?acts (replicate 65 sa_default))"
    then have j: "j < 65" by simp
    have mem: "word_of_nat j \<in> set js \<longleftrightarrow> 0 < j \<and> non_default (ss_actions s ! j)"
    proof
      assume "word_of_nat j \<in> set js"
      then obtain n where n: "n \<in> set ns" "(word_of_nat j :: u32) = word_of_nat n" "non_default (ss_get_action s (word_of_nat n))"
        by (auto simp: js_def)
      then have "n = j" using small [of n] small [OF j] ns by (metis atLeastLessThan_iff)
      with n act [of n] ns show "0 < j \<and> non_default (ss_actions s ! j)" by auto
    next
      assume "0 < j \<and> non_default (ss_actions s ! j)"
      with act [of j] j ns show "word_of_nat j \<in> set js" by (auto simp: js_def)
    qed
    show "fold (\<lambda>(i, a) acts. acts[unat i := a]) ?acts (replicate 65 sa_default) ! j = ss_actions s ! j"
      using j mem small [OF j] act [of j] ok not_non_default [of "ss_actions s ! j"]
      by (subst fold_updates_nth) (auto simp: signals_ok_def)
  qed (use ok in \<open>simp add: signals_ok_def\<close>)
  moreover have "\<forall>v\<in>set ?acts. case v of (i, a) \<Rightarrow> unat i < 65 \<and> handler_ok (sa_handler a)"
    using ok act small by (auto simp: js_def ns signals_ok_def)
  ultimately have "rd_loop (length js) rd_action (replicate 65 sa_default)
      (rd_at pre' (image_of (concat (map (action_ops s) ?is)) @ xs)) =
      Some (ss_actions s, rd_at (pre' @ image_of (concat (map (action_ops s) ?is))) xs)" for pre'
    using action_codec.loop_ops [of ?acts] unfolding action_ops_concat js_def [symmetric] by simp
  then show ?thesis
    using len cnt unfolding rd_fork_signals_def fork_ops_signals_def Let_def ns_def [symmetric] nd
    by (simp add: word_less_nat_alt)
qed

section \<open>The other sections\<close>

definition fds_ok :: "FdTable \<Rightarrow> bool" where
  "fds_ok t \<longleftrightarrow> length (fdt_entries t) \<le> 65536 \<and> fdt_max_fds t < 2 ^ 32 \<and>
    (\<forall>i e. slot_get (fdt_entries t) i = Some e \<longrightarrow> ofd_ref e < 2 ^ 32)"

text \<open>The descriptor section with any selection of the live entries.\<close>

lemma rd_fd_entries_image:
  assumes ok: "fds_ok t"
    and es: "es = filter (\<lambda>(fd, e). Q e) (fdt_iter t)"
  shows "rd_fds skip (rd_at pre (image_of ([WU32 (word_of_nat (fdt_max_fds t)), WU32 (len32 es)] @ concat (map fd_ops es)) @ xs)) =
    Some (t\<lparr>fdt_entries := trim_none (slots_filter (\<lambda>_ e. if Q e then fd_kept skip e else None) (fdt_entries t))\<rparr>,
      rd_at (pre @ image_of ([WU32 (word_of_nat (fdt_max_fds t)), WU32 (len32 es)] @ concat (map fd_ops es))) xs)"
proof -
  have small: "unat (word_of_nat i :: u32) = i" if "i < length (fdt_entries t)" for i
    using that ok by (intro unat_word_of_nat) (simp add: fds_ok_def)
  have mx: "unat (word_of_nat (fdt_max_fds t) :: u32) = fdt_max_fds t"
    using ok by (intro unat_word_of_nat) (simp add: fds_ok_def)
  have "length es \<le> length (fdt_entries t)"
    unfolding es fdt_iter_slot_iter
    by (rule order_trans [OF length_filter_le]) (simp add: length_slot_iter)
  then have len: "length es \<le> 65536" using ok by (simp add: fds_ok_def)
  have "\<forall>v\<in>set es. case v of (i, e) \<Rightarrow> ofd_ref e < 2 ^ 32"
    using ok by (auto simp: es fdt_iter_slot_iter slot_iter_set fds_ok_def)
  note loop = fd_codec.loop_ops [OF this, of skip "[]"]
  have "fold (\<lambda>(i, e). case fd_kept skip e of None \<Rightarrow> id | Some e' \<Rightarrow> slots_put (unat i) e') es [] =
      fold (\<lambda>(i, e). case if Q e then fd_kept skip e else None of None \<Rightarrow> id | Some e' \<Rightarrow> slots_put i e')
        (slot_iter (fdt_entries t)) []"
    unfolding es fold_filter fdt_iter_slot_iter fold_map
    by (intro fold_cong refl) (auto simp: small slot_iter_bound fun_eq_iff split: option.split)
  also have "\<dots> = trim_none (slots_filter (\<lambda>_ e. if Q e then fd_kept skip e else None) (fdt_entries t))"
    using fold_slots_put [of "\<lambda>_ e. if Q e then fd_kept skip e else None" "fdt_entries t"] by simp
  finally show ?thesis
    using loop len mx by (simp add: rd_fds_def word_less_nat_alt fdt_from_raw_def)
qed

definition ofds_ok :: "OfdTable \<Rightarrow> bool" where
  "ofds_ok t \<longleftrightarrow> length t \<le> 65536 \<and> (\<forall>i d. slot_get t i = Some d \<longrightarrow> length (ofd_path d) \<le> MAX_PATH_LEN)"

lemma rd_ofds_image:
  assumes ok: "ofds_ok t" and es: "es = filter (\<lambda>(i, d). Q i) (ofdt_iter t)"
  shows "rd_ofds owner (rd_at pre (image_of ([WU32 (len32 es)] @ concat (map ofd_ops es)) @ xs)) =
    Some (trim_none (slots_filter (\<lambda>i d. if Q i then Some (ofd_inherit owner d) else None) t),
      rd_at (pre @ image_of ([WU32 (len32 es)] @ concat (map ofd_ops es))) xs)"
proof -
  have "length es \<le> length t"
    unfolding es ofdt_iter_slot_iter by (rule order_trans [OF length_filter_le length_slot_iter])
  then have len: "length es \<le> 65536" using ok by (simp add: ofds_ok_def)
  have "\<forall>v\<in>set es. case v of (i, d) \<Rightarrow> i < 2 ^ 32 \<and> length (ofd_path d) \<le> MAX_PATH_LEN"
    using ok by (force simp: es ofdt_iter_slot_iter slot_iter_set ofds_ok_def dest: slot_get_SomeD)
  note loop = ofd_codec.loop_ops [OF this, of owner "[]"]
  have "fold (\<lambda>(i, d). slots_put i (ofd_inherit owner d)) es [] =
      fold (\<lambda>(i, d). case if Q i then Some (ofd_inherit owner d) else None of None \<Rightarrow> id | Some e \<Rightarrow> slots_put i e)
        (slot_iter t) []"
    unfolding es fold_filter ofdt_iter_slot_iter
    by (intro fold_cong refl) (auto simp: fun_eq_iff)
  also have "\<dots> = trim_none (slots_filter (\<lambda>i d. if Q i then Some (ofd_inherit owner d) else None) t)"
    using fold_slots_put [of "\<lambda>i d. if Q i then Some (ofd_inherit owner d) else None" t] by simp
  finally show ?thesis
    using loop len by (simp add: rd_ofds_def word_less_nat_alt ofdt_from_raw_def)
qed

definition strings_ok :: "bytes list \<Rightarrow> bool" where
  "strings_ok ss \<longleftrightarrow> length ss \<le> 65536 \<and> (\<forall>s\<in>set ss. length s \<le> MAX_STRING_LEN)"

lemma rd_strings_loop:
  "strings_ok ss \<Longrightarrow> rd_loop (length ss) rd_string [] (rd_at pre (image_of (concat (map string_ops ss)) @ xs)) =
    Some (ss, rd_at (pre @ image_of (concat (map string_ops ss))) xs)"
  using str_codec.loop_ops [of ss "[]"] by (simp add: strings_ok_def fold_snoc)

lemma rd_strings_image:
  "strings_ok ss \<Longrightarrow> rd_strings 65536 (rd_at pre (image_of (strings_ops ss) @ xs)) =
    Some (ss, rd_at (pre @ image_of (strings_ops ss)) xs)"
  using rd_strings_loop [of ss]
  by (simp add: rd_strings_def strings_ops_def word_less_nat_alt strings_ok_def)

lemma rd_cwd_image:
  "length s \<le> MAX_PATH_LEN \<Longrightarrow> rd_cwd (rd_at pre (image_of (string_ops s) @ xs)) =
    Some (s, rd_at (pre @ image_of (string_ops s)) xs)"
  by (simp add: rd_cwd_def string_ops_def read_bounded_bytes_def)

lemma rd_rlimits_image:
  "length ls = 16 \<Longrightarrow> rd_loop 16 rd_rlimit [] (rd_at pre (image_of (concat (map rlimit_ops ls)) @ xs)) =
    Some (ls, rd_at (pre @ image_of (concat (map rlimit_ops ls))) xs)"
  using rlimit_codec.loop_ops [of ls "[]"] by (simp add: fold_snoc)

lemma rd_terminal_image:
  "length (c_cc t) = 32 \<Longrightarrow> rd_terminal (rd_at pre (image_of (fork_ops_terminal t) @ xs)) =
    Some (t\<lparr>foreground_pgid := 1, line_buffer := [], cooked_buffer := []\<rparr>,
      rd_at (pre @ image_of (fork_ops_terminal t)) xs)"
  by (cases t; cases "tt_winsize t") (simp add: rd_terminal_def fork_ops_terminal_def)

definition memory_ok :: "MemoryManager \<Rightarrow> bool" where
  "memory_ok mm \<longleftrightarrow> 0 < mm_program_break mm \<and> mm_program_break mm \<le> MMAP_BASE \<and> length (mm_mappings mm) \<le> 4096 \<and>
    (\<forall>m\<in>set (mm_mappings mm). unat (mr_addr m) < 2 ^ 32 \<and> unat (mr_len m) < 2 ^ 32)"

definition memory_inherit :: "MemoryManager \<Rightarrow> MemoryManager" where
  "memory_inherit mm = mm_new\<lparr>mm_program_break := mm_program_break mm, mm_mappings := mm_mappings mm\<rparr>"

lemma rd_memory_image:
  assumes "memory_ok mm"
  shows "rd_memory (rd_at pre (image_of (fork_ops_memory mm) @ xs)) =
    Some (memory_inherit mm, rd_at (pre @ image_of (fork_ops_memory mm)) xs)"
proof -
  have "unat (mm_program_break mm) \<le> 0x04000000" using assms by (simp add: memory_ok_def word_le_nat_alt)
  then have "(ucast (ucast (mm_program_break mm) :: u32) :: u64) = mm_program_break mm"
    unfolding word_unat_eq_iff by (simp add: unsigned_ucast_eq unsigned_take_bit_eq take_bit_nat_eq_self)
  moreover have "snd (mm_set_brk (mm_program_break mm) mm_new) = mm_new\<lparr>mm_program_break := mm_program_break mm\<rparr>"
    using assms by (auto simp: mm_set_brk_def mm_new_def memory_ok_def)
  moreover have "\<forall>m\<in>set (mm_mappings mm). unat (mr_addr m) < 2 ^ 32 \<and> unat (mr_len m) < 2 ^ 32"
    using assms by (simp add: memory_ok_def)
  note loop = mapping_codec.loop_ops [OF this, of "[]", unfolded fold_snoc append_Nil]
  ultimately show ?thesis
    using assms loop
    by (simp add: rd_memory_def fork_ops_memory_def mm_get_brk_def memory_ok_def Let_def mm_set_mappings_def memory_inherit_def)
qed

lemma rd_exec_path_image:
  assumes "\<forall>p. x = Some p \<longrightarrow> length p \<le> MAX_PATH_LEN"
  shows "rd_exec_path (rd_at pre (image_of (case x of Some path \<Rightarrow> string_ops path | None \<Rightarrow> [WU32 0]) @ xs)) =
    Some (if x = Some [] then None else x,
      rd_at (pre @ image_of (case x of Some path \<Rightarrow> string_ops path | None \<Rightarrow> [WU32 0])) xs)"
  using assms by (cases x) (auto simp: rd_exec_path_def string_ops_def read_bounded_bytes_def)

lemma rd_exec_argv_image:
  assumes "\<forall>ss. x = Some ss \<longrightarrow> strings_ok ss"
  shows "rd_exec_argv (rd_at pre (image_of (case x of Some argv \<Rightarrow> strings_ops argv | None \<Rightarrow> [WU32 0]) @ xs)) =
    Some (if x = Some [] then None else x,
      rd_at (pre @ image_of (case x of Some argv \<Rightarrow> strings_ops argv | None \<Rightarrow> [WU32 0])) xs)"
proof (cases x)
  case (Some ss)
  then have ok: "strings_ok ss" using assms by simp
  then have "unat (word_of_nat (length ss) :: u32) = length ss" by (simp add: strings_ok_def)
  with Some ok rd_strings_loop [OF ok] show ?thesis
    by (simp add: rd_exec_argv_def strings_ops_def strings_ok_def)
qed (simp add: rd_exec_argv_def)

definition is_open :: "FdAction \<Rightarrow> bool" where
  "is_open a = (case a of FaOpen _ _ _ _ \<Rightarrow> True | _ \<Rightarrow> False)"

lemma fold_fd_actions:
  "fold (\<lambda>a acts. case a of FaOpen _ _ _ _ \<Rightarrow> acts | _ \<Rightarrow> acts @ [a]) as acc = acc @ filter (\<lambda>a. \<not> is_open a) as"
  by (induction as arbitrary: acc) (auto simp: is_open_def split: FdAction.split)

definition fd_actions_ops :: "FdAction list \<Rightarrow> wop list" where
  "fd_actions_ops as = [WU32 (len32 as)] @ concat (map fd_action_ops as)"

lemma rd_fd_actions_image:
  "length as < 2 ^ 32 \<Longrightarrow> rd_fd_actions (rd_at pre (image_of (fd_actions_ops as) @ xs)) =
    Some (filter (\<lambda>a. \<not> is_open a) as, rd_at (pre @ image_of (fd_actions_ops as)) xs)"
  using fd_action_codec.loop_ops [of as "[]"] by (simp add: rd_fd_actions_def fold_fd_actions fd_actions_ops_def)

definition sockets_ok :: "SocketTable \<Rightarrow> bool" where
  "sockets_ok t \<longleftrightarrow> length t < 2 ^ 32 \<and> (\<forall>i s. slot_get t i = Some s \<longrightarrow> sock_ok s)"

lemma rd_sockets_image:
  assumes "sockets_ok t"
  shows "rd_sockets (rd_at pre (image_of (fork_ops_sockets t) @ xs)) =
    Some (trim_none (slots_filter (\<lambda>_ s. Some (sk_inherit s)) t), rd_at (pre @ image_of (fork_ops_sockets t)) xs)"
proof -
  have "\<forall>v\<in>set (slot_iter t). case v of (i, s) \<Rightarrow> i < 2 ^ 32 \<and> sock_ok s"
    using assms by (force simp: slot_iter_set sockets_ok_def dest: slot_get_SomeD)
  note loop = socket_codec.loop_ops [OF this, of "[]"]
  have "length (slot_iter t) < 2 ^ 32" using length_slot_iter [of t] assms by (simp add: sockets_ok_def)
  then have "unat (word_of_nat (length (slot_iter t)) :: u32) = length (slot_iter t)" by simp
  then show ?thesis
    using loop fold_slots_put [of "\<lambda>_ s. Some (sk_inherit s)" t]
    by (simp add: rd_sockets_def fork_ops_sockets_def skt_iter_slot_iter skt_new_def)
qed

lemma rd_fork_scalars_image:
  "rd_fork_scalars (rd_at pre (image_of (fork_ops_scalars p) @ xs)) =
    Some (\<lparr>fs_ppid = p_pid p, fs_uid = p_uid p, fs_gid = p_gid p, fs_euid = p_euid p, fs_egid = p_egid p,
       fs_pgid = p_pgid p, fs_sid = p_sid p, fs_is_session_leader = p_is_session_leader p,
       fs_umask = p_umask p, fs_nice = p_nice p\<rparr>, rd_at (pre @ image_of (fork_ops_scalars p)) xs)"
  by (simp add: rd_fork_scalars_def fork_ops_scalars_def)

section \<open>The image with its header\<close>

lemma rd_header_image:
  "rd_header m (rd_at pre (image_of [WU32 m, WU32 FORK_VERSION, WU32 n] @ xs)) =
    Some ((), rd_at (pre @ image_of [WU32 m, WU32 FORK_VERSION, WU32 n]) xs)"
  by (simp add: rd_header_def)

lemma serialize_with_fits:
  assumes "n = length (image_of ([WU32 m, WU32 v, WU32 0] @ ops))" "n \<le> length buf"
  shows "\<exists>buf'. serialize_with ([WU32 m, WU32 v, WU32 0] @ ops) buf = (Ok n, buf') \<and>
    take n buf' = image_of ([WU32 m, WU32 v, WU32 (word_of_nat n)] @ ops) \<and> drop n buf' = drop n buf"
proof -
  let ?ops = "[WU32 m, WU32 v, WU32 0] @ ops"
  have seq: "w_seq ?ops (w_new buf) = (Ok (), \<lparr>w_buf = image_of ?ops @ drop n buf, w_pos = n\<rparr>)"
    using w_seq_fits [of "w_new buf" ?ops] assms by (simp add: w_new_def copy_at_def)
  have patch: "copy_at 8 (to_le 4 t) (image_of ?ops @ ys) = image_of ([WU32 m, WU32 v, WU32 t] @ ops) @ ys" for t ys
    by (simp add: copy_at_def)
  define img where "img = image_of ([WU32 m, WU32 v, WU32 (word_of_nat n)] @ ops)"
  have "length img = n" by (simp add: assms(1) img_def)
  moreover have "serialize_with ?ops buf = (Ok n, img @ drop n buf)"
    unfolding serialize_with_def seq prod.case sum.case Let_def patch_u32_def Writer.simps img_def patch ..
  ultimately show ?thesis unfolding img_def [symmetric] by simp
qed

lemma serialize_with_too_small:
  "length buf < length (image_of ops) \<Longrightarrow> fst (serialize_with ops buf) = Err ENOMEM"
  using w_seq_overflows [of "w_new buf" ops] by (auto simp: serialize_with_def w_new_def)

section \<open>Fork\<close>

text \<open>The bounds within which the image of a process is exact.\<close>

definition common_ok :: "Process \<Rightarrow> bool" where
  "common_ok p \<longleftrightarrow> signals_ok (p_signals p) \<and> fds_ok (p_fd_table p) \<and> ofds_ok (p_ofd_table p) \<and>
    strings_ok (p_environ p) \<and> strings_ok (p_argv p) \<and> length (p_cwd p) \<le> MAX_PATH_LEN \<and>
    length (p_rlimits p) = 16 \<and> length (c_cc (p_terminal p)) = 32"

definition fork_ok :: "Process \<Rightarrow> bool" where
  "fork_ok p \<longleftrightarrow> common_ok p \<and> memory_ok (p_memory p) \<and> sockets_ok (p_sockets p) \<and>
    (\<forall>path. p_fork_exec_path p = Some path \<longrightarrow> length path \<le> MAX_PATH_LEN) \<and>
    (\<forall>argv. p_fork_exec_argv p = Some argv \<longrightarrow> strings_ok argv) \<and> length (p_fork_fd_actions p) < 2 ^ 32"

text \<open>What the child starts from: the parent's record, with the fields that POSIX resets.\<close>

definition fork_child_of :: "Process \<Rightarrow> u32 \<Rightarrow> Process" where
  "fork_child_of p child = p\<lparr>p_pid := child, p_ppid := p_pid p, p_is_session_leader := False,
     p_state := Running, p_exit_status := 0,
     p_fd_table := (p_fd_table p)\<lparr>fdt_entries := trim_none (slots_filter (\<lambda>_. fd_kept True) (fdt_entries (p_fd_table p)))\<rparr>,
     p_ofd_table := trim_none (slots_filter (\<lambda>_ d. Some (ofd_inherit child d)) (p_ofd_table p)),
     p_lock_table := [], p_pipes := [],
     p_sockets := trim_none (slots_filter (\<lambda>_ s. Some (sk_inherit s)) (p_sockets p)),
     p_dir_streams := [], p_signals := (p_signals p)\<lparr>ss_pending := 0, ss_rt_queue := []\<rparr>,
     p_memory := memory_inherit (p_memory p),
     p_terminal := (p_terminal p)\<lparr>foreground_pgid := 1, line_buffer := [], cooked_buffer := []\<rparr>,
     p_alarm_deadline_ns := 0, p_alarm_interval_ns := 0, p_thread_name := replicate 16 0,
     p_fork_child := True, p_sigsuspend_saved_mask := None,
     p_fork_exec_path := (if p_fork_exec_path p = Some [] then None else p_fork_exec_path p),
     p_fork_exec_argv := (if p_fork_exec_argv p = Some [] then None else p_fork_exec_argv p),
     p_fork_fd_actions := filter (\<lambda>a. \<not> is_open a) (p_fork_fd_actions p),
     p_next_ephemeral_port := 49152, p_threads := [], p_next_tid := 0, p_eventfds := [], p_epolls := [],
     p_timerfds := [], p_signalfds := [], p_posix_timers := [], p_alt_stack_sp := 0,
     p_alt_stack_flags := 2, p_alt_stack_size := 0, p_alt_stack_depth := 0, p_fork_pipe_replay := [],
     p_memfds := [], p_procfs_bufs := [], p_has_exec := False, p_fb_binding := None, p_fork_count := 0\<rparr>"

lemma filter_True_prod: "filter (\<lambda>(a, b). True) xs = xs"
  by (simp add: case_prod_unfold)

lemma rd_fork_fds_image:
  "fds_ok t \<Longrightarrow> rd_fds True (rd_at pre (image_of (fork_ops_fds t) @ xs)) =
    Some (t\<lparr>fdt_entries := trim_none (slots_filter (\<lambda>_. fd_kept True) (fdt_entries t))\<rparr>,
      rd_at (pre @ image_of (fork_ops_fds t)) xs)"
  using rd_fd_entries_image [of t "fdt_iter t" "\<lambda>_. True" True pre xs]
  unfolding fork_ops_fds_def Let_def filter_True_prod by simp

lemma rd_fork_ofds_image:
  "ofds_ok t \<Longrightarrow> rd_ofds owner (rd_at pre (image_of (fork_ops_ofds t) @ xs)) =
    Some (trim_none (slots_filter (\<lambda>_ d. Some (ofd_inherit owner d)) t),
      rd_at (pre @ image_of (fork_ops_ofds t)) xs)"
  using rd_ofds_image [of t "ofdt_iter t" "\<lambda>_. True" owner pre xs]
  unfolding fork_ops_ofds_def Let_def filter_True_prod by simp

lemmas common_section_images = rd_header_image rd_strings_image rd_cwd_image rd_rlimits_image rd_terminal_image

lemmas fork_section_images = common_section_images rd_fork_scalars_image rd_fork_signals_image rd_fork_fds_image
  rd_fork_ofds_image rd_memory_image rd_exec_path_image rd_exec_argv_image rd_fd_actions_image rd_sockets_image

definition fork_body_ops :: "Process \<Rightarrow> wop list" where
  "fork_body_ops p = fork_ops_scalars p @ fork_ops_signals (p_signals p) @ fork_ops_fds (p_fd_table p) @
     fork_ops_ofds (p_ofd_table p) @ strings_ops (p_environ p) @ strings_ops (p_argv p) @
     string_ops (p_cwd p) @ concat (map rlimit_ops (p_rlimits p)) @ fork_ops_terminal (p_terminal p) @
     fork_ops_memory (p_memory p) @
     (case p_fork_exec_path p of Some path \<Rightarrow> string_ops path | None \<Rightarrow> [WU32 0]) @
     (case p_fork_exec_argv p of Some argv \<Rightarrow> strings_ops argv | None \<Rightarrow> [WU32 0]) @
     fd_actions_ops (p_fork_fd_actions p) @ fork_ops_sockets (p_sockets p)"

lemma fork_ops_split: "fork_ops p = [WU32 FORK_MAGIC, WU32 FORK_VERSION, WU32 0] @ fork_body_ops p"
  unfolding fork_ops_def fork_body_ops_def fork_ops_exec_def fd_actions_ops_def append_assoc ..

lemma rd_fork_state_image:
  assumes "fork_ok p"
  shows "map_option fst (rd_fork_state child (rd_at []
      (image_of ([WU32 FORK_MAGIC, WU32 FORK_VERSION, WU32 n] @ fork_body_ops p)))) = Some (fork_child_of p child)"
proof -
  have ok: "signals_ok (p_signals p)" "fds_ok (p_fd_table p)" "ofds_ok (p_ofd_table p)" "strings_ok (p_environ p)"
      "strings_ok (p_argv p)" "length (p_cwd p) \<le> MAX_PATH_LEN" "length (p_rlimits p) = 16"
      "length (c_cc (p_terminal p)) = 32" "memory_ok (p_memory p)" "sockets_ok (p_sockets p)"
      "\<forall>path. p_fork_exec_path p = Some path \<longrightarrow> length path \<le> MAX_PATH_LEN"
      "\<forall>argv. p_fork_exec_argv p = Some argv \<longrightarrow> strings_ok argv" "length (p_fork_fd_actions p) < 2 ^ 32"
    using assms by (simp_all add: fork_ok_def common_ok_def)
  have "rd_sockets (rd_at pre (image_of (fork_ops_sockets (p_sockets p)))) =
      Some (trim_none (slots_filter (\<lambda>_ s. Some (sk_inherit s)) (p_sockets p)),
        rd_at (pre @ image_of (fork_ops_sockets (p_sockets p))) [])" for pre
    using rd_sockets_image [OF ok(10), of pre "[]"] by simp
  then show ?thesis
    using ok unfolding rd_fork_state_def fork_body_ops_def image_of_simps(3) append_assoc
    by (simp only: fork_section_images Option.bind_lunit prod.case option.map fst_conv)
      (cases p, simp add: fork_child_of_def ss_from_actions_def lt_new_def)
qed

lemma fork_image_fits:
  assumes "fork_ok p" "length (image_of (fork_ops p)) \<le> length buf"
  shows "\<exists>buf'. serialize_fork_state p buf = (Ok (length (image_of (fork_ops p))), buf') \<and>
    deserialize_fork_state (take (length (image_of (fork_ops p))) buf') child = Ok (fork_child_of p child)"
proof -
  let ?n = "length (image_of (fork_ops p))"
  obtain buf' where "serialize_fork_state p buf = (Ok ?n, buf')"
      "take ?n buf' = image_of ([WU32 FORK_MAGIC, WU32 FORK_VERSION, WU32 (word_of_nat ?n)] @ fork_body_ops p)"
    using assms(2) serialize_with_fits [of ?n FORK_MAGIC FORK_VERSION "fork_body_ops p" buf]
    unfolding serialize_fork_state_def fork_ops_split by blast
  with rd_fork_state_image [OF assms(1), of child "word_of_nat ?n"] show ?thesis
    by (auto simp: deserialize_fork_state_def r_new_rd_at simp del: image_of_simps append_Cons)
qed


lemma slot_all_code: "(\<forall>i v. slot_get s i = Some v \<longrightarrow> P v) \<longleftrightarrow> list_all (\<lambda>x. case x of Some v \<Rightarrow> P v | None \<Rightarrow> True) s"
  by (auto simp: slot_get_def list_all_length split: option.splits if_splits)

definition shell :: Process where
  "shell = (process_new 7)\<lparr>p_argv := [bstr ''sh''], p_environ := [bstr ''HOME=/''],
     p_fd_table := snd (fdt_alloc (p_fd_table (process_new 7)) 1 FD_CLOFORK)\<rparr>"

lemma fork_ok_shell: "fork_ok shell"
  by (simp add: shell_def fork_ok_def common_ok_def signals_ok_def fds_ok_def ofds_ok_def sockets_ok_def slot_all_code
      process_new_fields memory_ok_def mm_new_def ss_new_def handler_ok_def sa_default_def strings_ok_def term_new_def
      Let_def fdt_alloc_def fdt_alloc_at_min_def bstr_def ofd_fresh_def)


end
