(* ===== verification/Exec_Correct.thy ===== *)
theory Exec_Correct
  imports Fork_Correct
begin

text \<open>
  The exec image (\<open>serialize_exec_state\<close>, \<open>deserialize_exec_state\<close> of \<open>fork.rs\<close>): what the process
  that runs the new program inherits from the process that called \<open>exec\<close>.
\<close>

section \<open>The signal section\<close>

interpretation handler_codec: record_codec "\<lambda>(i, h). [WU32 (word_of_nat i), WU32 (handler_to_u32 h)]" rd_handler
    "\<lambda>(i, h) hs. if i < 64 then hs[i := h] else hs" "\<lambda>(i, h). i < 65 \<and> handler_ok h"
proof
  fix v :: "nat \<times> SignalHandler" and s pre xs
  obtain i h where v: "v = (i, h)" by (cases v)
  assume ok: "case v of (i, h) \<Rightarrow> i < 65 \<and> handler_ok h"
  have "unat (word_of_nat i :: u32) = i" using ok v by (intro unat_word_of_nat) simp
  then show "rd_handler s (rd_at pre (image_of (case v of (i, h) \<Rightarrow> [WU32 (word_of_nat i), WU32 (handler_to_u32 h)]) @ xs)) =
      Some ((case v of (i, h) \<Rightarrow> \<lambda>hs. if i < 64 then hs[i := h] else hs) s,
        rd_at (pre @ image_of (case v of (i, h) \<Rightarrow> [WU32 (word_of_nat i), WU32 (handler_to_u32 h)])) xs)"
    using v ok by (simp add: rd_handler_def handler_roundtrip)
qed

text \<open>
  What exec keeps of the dispositions: an ignored signal stays ignored, every other one becomes the
  default. The reader drops the entry of signal 64.
\<close>

definition exec_handlers :: "SignalHandler list \<Rightarrow> SignalHandler list" where
  "exec_handlers hs = map (\<lambda>(i, h). if 0 < i \<and> i < 64 \<and> h = HIgnore then HIgnore else HDefault) (enumerate 0 hs)"

lemma fold_handlers_nth:
  assumes "j < length base"
  shows "fold (\<lambda>(i, h) hs. if Q i then hs[i := h] else hs) (filter (\<lambda>(i, h). P i h) (enumerate n hs)) base ! j =
    (if n \<le> j \<and> j < n + length hs \<and> Q j \<and> P j (hs ! (j - n)) then hs ! (j - n) else base ! j)"
  using assms
proof (induction hs arbitrary: n base)
  case (Cons h hs)
  show ?case
  proof (cases "j = n")
    case True
    with Cons show ?thesis by (simp add: Cons.IH)
  next
    case False
    then have "j - n = Suc (j - Suc n)" if "n \<le> j" using that by simp
    with Cons False show ?thesis by (auto simp: Cons.IH)
  qed
qed auto

lemma length_fold_handlers [simp]:
  "length (fold (\<lambda>(i, h) hs. if Q i then hs[i := h] else hs) xs base) = length base"
  by (induction xs arbitrary: base) (auto split: if_splits)

lemma rd_exec_signals_image:
  assumes ok: "signals_ok s"
  shows "rd_exec_signals (rd_at pre (image_of (exec_ops_signals s) @ xs)) =
    Some (ss_from_parts_with_pending (exec_handlers (ss_handlers s)) (ss_blocked s) (ss_pending s),
      rd_at (pre @ image_of (exec_ops_signals s)) xs)"
proof -
  let ?hs = "ss_handlers s"
  have hs: "length ?hs = 65" "\<forall>h\<in>set ?hs. handler_ok h" using ok by (auto simp: ss_handlers_def signals_ok_def)
  define es where "es = filter (\<lambda>(i, h). 0 < i \<and> h = HIgnore) (enumerate 0 ?hs)"
  obtain h hs' where cons: "?hs = h # hs'" "length hs' = 64" using hs(1) by (cases ?hs) auto
  have "es = filter (\<lambda>(i, h). 0 < i \<and> h = HIgnore) (enumerate (Suc 0) hs')" by (simp add: es_def cons)
  then have len: "length es \<le> 64"
    using length_filter_le [of "\<lambda>(i, h). 0 < i \<and> h = HIgnore" "enumerate (Suc 0) hs'"] cons(2) by simp
  then have cnt: "unat (word_of_nat (length es) :: u32) = length es" by (intro unat_len32) simp
  have "\<forall>v\<in>set es. case v of (i, h) \<Rightarrow> i < 65 \<and> handler_ok h"
    using hs by (auto simp: es_def in_set_enumerate_eq handler_ok_def)
  note loop = handler_codec.loop_ops [OF this, of "replicate 65 HDefault"]
  have "fold (\<lambda>(i, h) hs. if i < 64 then hs[i := h] else hs) es (replicate 65 HDefault) = exec_handlers ?hs"
    using hs(1) unfolding es_def
    by (intro nth_equalityI) (auto simp: fold_handlers_nth [where P = "\<lambda>i h. 0 < i \<and> h = HIgnore"] exec_handlers_def nth_enumerate_eq)
  with loop len cnt show ?thesis
    unfolding rd_exec_signals_def exec_ops_signals_def Let_def es_def [symmetric] by (simp add: word_less_nat_alt)
qed

section \<open>The descriptor sections\<close>

text \<open>A description survives when a descriptor without close-on-exec refers to it.\<close>

definition exec_keeps :: "FdTable \<Rightarrow> nat \<Rightarrow> bool" where
  "exec_keeps t i = list_ex (\<lambda>(fd, e). fd_flags e AND FD_CLOEXEC = 0 \<and> ofd_ref e = i) (fdt_iter t)"

definition exec_fds_ops :: "FdTable \<Rightarrow> wop list" where
  "exec_fds_ops t = [WU32 (word_of_nat (fdt_max_fds t)), WU32 (len32 (exec_fd_entries t))] @
     concat (map fd_ops (exec_fd_entries t))"

definition exec_ofds_ops :: "FdTable \<Rightarrow> OfdTable \<Rightarrow> wop list" where
  "exec_ofds_ops t ofds = (let es = filter (\<lambda>(i, d). exec_keeps t i) (ofdt_iter ofds)
     in [WU32 (len32 es)] @ concat (map ofd_ops es))"

lemma exec_ops_fds_split: "exec_ops_fds t ofds = exec_fds_ops t @ exec_ofds_ops t ofds"
proof -
  have "index \<in> set (map (\<lambda>(fd, entry). ofd_ref entry) (exec_fd_entries t)) \<longleftrightarrow> exec_keeps t index" for index
    by (force simp: exec_keeps_def exec_fd_entries_def list_ex_iff)
  then show ?thesis by (simp add: exec_ops_fds_def exec_fds_ops_def exec_ofds_ops_def Let_def)
qed

lemma rd_exec_fds_image:
  assumes "fds_ok t"
  shows "rd_fds False (rd_at pre (image_of (exec_fds_ops t) @ xs)) =
    Some (t\<lparr>fdt_entries := trim_none (slots_filter
        (\<lambda>_ e. if fd_flags e AND FD_CLOEXEC = 0 then Some e else None) (fdt_entries t))\<rparr>,
      rd_at (pre @ image_of (exec_fds_ops t)) xs)"
proof -
  have kept: "fd_kept False = Some" by (simp add: fun_eq_iff fd_kept_def)
  show ?thesis
    using rd_fd_entries_image [OF assms exec_fd_entries_def, of False pre xs] unfolding kept exec_fds_ops_def .
qed

lemma rd_exec_ofds_image:
  assumes "ofds_ok ofds"
  shows "rd_ofds owner (rd_at pre (image_of (exec_ofds_ops t ofds) @ xs)) =
    Some (trim_none (slots_filter (\<lambda>i d. if exec_keeps t i then Some (ofd_inherit owner d) else None) ofds),
      rd_at (pre @ image_of (exec_ofds_ops t ofds)) xs)"
  unfolding exec_ofds_ops_def Let_def by (rule rd_ofds_image [OF assms refl])

lemma rd_exec_scalars_image:
  "rd_exec_scalars (rd_at pre (image_of (exec_ops_scalars p) @ xs)) =
    Some (\<lparr>fs_ppid = p_ppid p, fs_uid = p_uid p, fs_gid = p_gid p, fs_euid = p_euid p, fs_egid = p_egid p,
       fs_pgid = p_pgid p, fs_sid = p_sid p, fs_is_session_leader = p_is_session_leader p,
       fs_umask = p_umask p, fs_nice = p_nice p\<rparr>, rd_at (pre @ image_of (exec_ops_scalars p)) xs)"
  by (simp add: rd_exec_scalars_def exec_ops_scalars_def)

section \<open>The whole image\<close>

text \<open>
  What the new program starts from: the identity and the environment of the caller, the descriptors
  without close-on-exec and the descriptions they refer to, the mask, the pending signals and the
  ignored dispositions, in an address space and with tables that are new.
\<close>

definition exec_image_of :: "Process \<Rightarrow> u32 \<Rightarrow> Process" where
  "exec_image_of p pid = (process_new pid)\<lparr>p_ppid := p_ppid p, p_uid := p_uid p, p_gid := p_gid p, p_euid := p_euid p,
     p_egid := p_egid p, p_pgid := p_pgid p, p_sid := p_sid p, p_is_session_leader := p_is_session_leader p,
     p_fd_table := (p_fd_table p)\<lparr>fdt_entries := trim_none (slots_filter
       (\<lambda>_ e. if fd_flags e AND FD_CLOEXEC = 0 then Some e else None) (fdt_entries (p_fd_table p)))\<rparr>,
     p_ofd_table := trim_none (slots_filter
       (\<lambda>i d. if exec_keeps (p_fd_table p) i then Some (ofd_inherit pid d) else None) (p_ofd_table p)),
     p_cwd := p_cwd p,
     p_signals := ss_from_parts_with_pending (exec_handlers (ss_handlers (p_signals p)))
       (ss_blocked (p_signals p)) (ss_pending (p_signals p)),
     p_terminal := (p_terminal p)\<lparr>foreground_pgid := 1, line_buffer := [], cooked_buffer := []\<rparr>,
     p_environ := p_environ p, p_argv := p_argv p, p_umask := p_umask p, p_nice := p_nice p,
     p_rlimits := p_rlimits p\<rparr>"

lemmas exec_section_images = common_section_images rd_exec_scalars_image rd_exec_signals_image rd_exec_fds_image
  rd_exec_ofds_image

definition exec_body_ops :: "Process \<Rightarrow> wop list" where
  "exec_body_ops p = exec_ops_scalars p @ exec_ops_signals (p_signals p) @ exec_fds_ops (p_fd_table p) @
     exec_ofds_ops (p_fd_table p) (p_ofd_table p) @ strings_ops (p_environ p) @ strings_ops (p_argv p) @
     string_ops (p_cwd p) @ concat (map rlimit_ops (p_rlimits p)) @ fork_ops_terminal (p_terminal p) @
     [WU32 (ucast (mm_get_brk (p_memory p)))]"

lemma exec_ops_split: "exec_ops p = [WU32 EXEC_MAGIC, WU32 FORK_VERSION, WU32 0] @ exec_body_ops p"
  unfolding exec_ops_def exec_body_ops_def exec_ops_fds_split append_assoc ..

lemma rd_exec_state_image:
  assumes "common_ok p"
  shows "map_option fst (rd_exec_state pid (rd_at []
      (image_of ([WU32 EXEC_MAGIC, WU32 FORK_VERSION, WU32 n] @ exec_body_ops p)))) = Some (exec_image_of p pid)"
proof -
  have ok: "signals_ok (p_signals p)" "fds_ok (p_fd_table p)" "ofds_ok (p_ofd_table p)" "strings_ok (p_environ p)"
      "strings_ok (p_argv p)" "length (p_cwd p) \<le> MAX_PATH_LEN" "length (p_rlimits p) = 16"
      "length (c_cc (p_terminal p)) = 32"
    using assms by (simp_all add: common_ok_def)
  have "read_u32 (rd_at pre (image_of [WU32 b])) = Some (b, rd_at (pre @ image_of [WU32 b]) [])" for pre b
    using read_simps(2) [of pre b "[]"] by simp
  then show ?thesis
    using ok unfolding rd_exec_state_def exec_body_ops_def image_of_simps(3) append_assoc
    by (simp only: exec_section_images Option.bind_lunit prod.case option.map fst_conv)
      (simp add: exec_image_of_def process_new_def Let_def case_prod_unfold)
qed

text \<open>
  C6: exec passes on what POSIX says. If the buffer is large enough, the image that the caller writes
  is read back as the process that runs the new program: the caller's identity, environment,
  arguments, directory, limits, terminal modes, mask and pending signals; exactly the descriptors
  without close-on-exec, at their numbers, and the descriptions these refer to; ignored signals (1
  to 63) still ignored and every other disposition the default. If the buffer is too small, the
  caller gets \<open>ENOMEM\<close>.
\<close>

theorem exec_roundtrip:
  assumes "common_ok p"
  defines "n \<equiv> length (image_of (exec_ops p))"
  shows "if n \<le> length buf
    then \<exists>buf'. serialize_exec_state p buf = (Ok n, buf') \<and>
      deserialize_exec_state (take n buf') pid = Ok (exec_image_of p pid)
    else fst (serialize_exec_state p buf) = Err ENOMEM"
proof (cases "n \<le> length buf")
  case True
  then obtain buf' where "serialize_exec_state p buf = (Ok n, buf')"
      "take n buf' = image_of ([WU32 EXEC_MAGIC, WU32 FORK_VERSION, WU32 (word_of_nat n)] @ exec_body_ops p)"
    using serialize_with_fits [of n EXEC_MAGIC FORK_VERSION "exec_body_ops p" buf]
    unfolding serialize_exec_state_def n_def exec_ops_split by blast
  with True rd_exec_state_image [OF assms(1), of pid "word_of_nat n"] show ?thesis
    by (auto simp: deserialize_exec_state_def r_new_rd_at simp del: image_of_simps append_Cons)
next
  case False
  then show ?thesis using serialize_with_too_small [of buf "exec_ops p"] by (simp add: n_def serialize_exec_state_def)
qed

theorem exec_roundtrip_witness:
  "let n = length (image_of (exec_ops shell)) in
    (\<exists>buf'. serialize_exec_state shell (replicate n 0) = (Ok n, buf') \<and>
      deserialize_exec_state (take n buf') 7 = Ok (exec_image_of shell 7)) \<and>
    fst (serialize_exec_state shell (replicate (n - 1) 0)) = Err ENOMEM"
proof -
  have "common_ok shell" using fork_ok_shell by (simp add: fork_ok_def)
  from exec_roundtrip [OF this, of "replicate (length (image_of (exec_ops shell))) 0" 7]
    exec_roundtrip [OF this, of "replicate (length (image_of (exec_ops shell)) - 1) 0" 7]
  show ?thesis by (simp add: Let_def exec_ops_split)
qed

end
