(* ===== verification/Devices.thy ===== *)
theory Devices
  imports Prelude
begin

text \<open>
  The two kernel-side byte queues between the host and a device node: \<^verbatim>\<open>audio.rs\<close> (\<^verbatim>\<open>/dev/dsp\<close>, filled by
  the program and drained by the host) and \<^verbatim>\<open>mouse.rs\<close> (\<^verbatim>\<open>/dev/input/mice\<close>, filled by the host and read
  by the program). Both drop their oldest whole units when they are full.
\<close>

section \<open>The sound device\<close>

record Dsp =
  dsp_sample_rate :: u32
  dsp_channels :: u32
  dsp_ring :: bytes

definition dsp_new :: Dsp where
  "dsp_new = \<lparr>dsp_sample_rate = 11025, dsp_channels = 2, dsp_ring = []\<rparr>"

abbreviation (input) DSP_MAX_QUEUED :: nat where "DSP_MAX_QUEUED \<equiv> 262144"
abbreviation (input) AFMT_S16_LE :: u32 where "AFMT_S16_LE \<equiv> 0x10"

definition frame_bytes :: "Dsp \<Rightarrow> nat" where
  "frame_bytes d = 2 * max (unat (dsp_channels d)) 1"

text \<open>The loop that makes room: one unit at a time from the front, until the new data fit or nothing is left.\<close>

function drop_units :: "nat \<Rightarrow> nat \<Rightarrow> nat \<Rightarrow> bytes \<Rightarrow> bytes" where
  "drop_units cap unit n r =
    (if length r + n > cap \<and> min unit (length r) \<noteq> 0 then drop_units cap unit n (drop (min unit (length r)) r) else r)"
  by pat_completeness auto

termination drop_units
  by (relation "measure (\<lambda>(cap, unit, n, r). length r)") auto

declare drop_units.simps [simp del]

definition write_pcm :: "bytes \<Rightarrow> Dsp \<Rightarrow> Dsp" where
  "write_pcm data d = d\<lparr>dsp_ring := drop_units DSP_MAX_QUEUED (frame_bytes d) (length data) (dsp_ring d) @ data\<rparr>"

definition drain_into :: "bytes \<Rightarrow> Dsp \<Rightarrow> nat \<times> bytes \<times> Dsp" where
  "drain_into out d =
    (let n = (min (length out) (length (dsp_ring d)) div frame_bytes d) * frame_bytes d
     in (n, copy_at 0 (take n (dsp_ring d)) out, d\<lparr>dsp_ring := drop n (dsp_ring d)\<rparr>))"

definition dsp_pending_bytes :: "Dsp \<Rightarrow> nat" where
  "dsp_pending_bytes d = length (dsp_ring d)"

definition dsp_reset :: "Dsp \<Rightarrow> Dsp" where
  "dsp_reset d = d\<lparr>dsp_ring := []\<rparr>"

definition set_sample_rate :: "u32 \<Rightarrow> Dsp \<Rightarrow> u32 \<times> Dsp" where
  "set_sample_rate hz d = (let clamped = min (max hz 4000) 192000 in (clamped, d\<lparr>dsp_sample_rate := clamped\<rparr>))"

definition set_channels :: "u32 \<Rightarrow> Dsp \<Rightarrow> u32 \<times> Dsp" where
  "set_channels n d = (let n = (if n = 1 then 1 else 2) in (n, d\<lparr>dsp_channels := n\<rparr>))"

definition set_format :: "u32 \<Rightarrow> bool" where
  "set_format fmt \<longleftrightarrow> fmt = AFMT_S16_LE"

definition current_config :: "Dsp \<Rightarrow> u32 \<times> u32" where
  "current_config d = (dsp_sample_rate d, dsp_channels d)"

section \<open>The mouse device\<close>

abbreviation (input) PACKET_LEN :: nat where "PACKET_LEN \<equiv> 3"
abbreviation (input) MICE_MAX_QUEUED :: nat where "MICE_MAX_QUEUED \<equiv> 12288"

definition clamp_i8 :: "i32 \<Rightarrow> 8 word" where
  "clamp_i8 d = word_of_int (max (- 128) (min 127 (sint d)))"

definition mouse_packet :: "i32 \<Rightarrow> i32 \<Rightarrow> u32 \<Rightarrow> bytes" where
  "mouse_packet dx dy buttons =
    (let dx_i8 = clamp_i8 dx; dy_i8 = clamp_i8 dy;
         b0 = 0x08 OR ucast (buttons AND 7);
         b0 = (if sint dx_i8 < 0 then b0 OR 0x10 else b0);
         b0 = (if sint dy_i8 < 0 then b0 OR 0x20 else b0)
     in [b0, dx_i8, dy_i8])"

definition inject_event :: "i32 \<Rightarrow> i32 \<Rightarrow> u32 \<Rightarrow> bytes \<Rightarrow> bytes" where
  "inject_event dx dy buttons q = drop_units MICE_MAX_QUEUED PACKET_LEN PACKET_LEN q @ mouse_packet dx dy buttons"

definition mice_read_into :: "bytes \<Rightarrow> bytes \<Rightarrow> nat \<times> bytes \<times> bytes" where
  "mice_read_into buf q = (let n = min (length buf) (length q) in (n, copy_at 0 (take n q) buf, drop n q))"

definition mice_has_data :: "bytes \<Rightarrow> bool" where
  "mice_has_data q \<longleftrightarrow> q \<noteq> []"

section \<open>What is kept when a queue overflows\<close>

text \<open>The loop drops a whole number of units, the least that makes room.\<close>

lemma drop_units_eq:
  assumes "0 < unit" "unit dvd length r"
  shows "\<exists>k. drop_units cap unit n r = drop (k * unit) r \<and> k * unit \<le> length r \<and>
    (length r - k * unit + n \<le> cap \<or> k * unit = length r) \<and>
    (\<forall>j<k. length r - j * unit + n > cap)"
  using assms
proof (induction cap unit n r rule: drop_units.induct)
  case (1 cap unit n r)
  show ?case
  proof (cases "length r + n > cap \<and> r \<noteq> []")
    case False
    then show ?thesis using 1 by (intro exI [of _ 0]) (auto simp: drop_units.simps)
  next
    case True
    then have u: "min unit (length r) = unit" using 1(3) by (simp add: dvd_imp_le min_def)
    have "unit dvd length (drop unit r)" using 1(3) by (simp add: dvd_diff_nat)
    with 1(1,2) True u obtain k where k: "drop_units cap unit n (drop unit r) = drop (k * unit) (drop unit r)"
      "k * unit \<le> length (drop unit r)"
      "length (drop unit r) - k * unit + n \<le> cap \<or> k * unit = length (drop unit r)"
      "\<forall>j<k. length (drop unit r) - j * unit + n > cap"
      by auto
    have le: "unit \<le> length r" using u by linarith
    have "drop_units cap unit n r = drop (Suc k * unit) r"
      using True u k(1) 1(2) by (subst drop_units.simps) (simp add: add.commute)
    moreover have "length r - j * unit + n > cap" if "j < Suc k" for j
      using that k(4) True by (cases j) (auto simp: diff_diff_eq)
    moreover have "Suc k * unit \<le> length r" "length r - Suc k * unit + n \<le> cap \<or> Suc k * unit = length r"
      using k(2,3) le by (auto simp: diff_diff_eq)
    ultimately show ?thesis by blast
  qed
qed

end
