(* ===== verification/Unix_Registry.thy ===== *)
theory Unix_Registry
  imports Btree_Map "HOL-Library.List_Lexorder"
begin

text \<open>The registry of bound AF_UNIX paths, from \<^verbatim>\<open>src/crates/kernel/src/unix_socket.rs\<close>.\<close>

record UnixSocketEntry =
  us_pid :: u32
  us_sock_idx :: nat

type_synonym UnixSocketRegistry = "(bytes, UnixSocketEntry) btree"

definition unix_new :: UnixSocketRegistry where
  "unix_new = []"

definition unix_register :: "bytes \<Rightarrow> u32 \<Rightarrow> nat \<Rightarrow> UnixSocketRegistry \<Rightarrow> bool \<times> UnixSocketRegistry" where
  "unix_register path pid sock_idx r =
    (if bt_contains r path then (False, r)
     else (True, bt_insert path \<lparr>us_pid = pid, us_sock_idx = sock_idx\<rparr> r))"

definition unix_lookup :: "UnixSocketRegistry \<Rightarrow> bytes \<Rightarrow> UnixSocketEntry option" where
  "unix_lookup r path = bt_get r path"

definition unix_unregister :: "bytes \<Rightarrow> UnixSocketRegistry \<Rightarrow> bool \<times> UnixSocketRegistry" where
  "unix_unregister path r = (bt_contains r path, bt_remove path r)"

definition unix_cleanup_process :: "u32 \<Rightarrow> UnixSocketRegistry \<Rightarrow> UnixSocketRegistry" where
  "unix_cleanup_process pid r = bt_retain (\<lambda>_ entry. us_pid entry \<noteq> pid) r"

definition unix_contains :: "UnixSocketRegistry \<Rightarrow> bytes \<Rightarrow> bool" where
  "unix_contains r path = bt_contains r path"

lemma unix_register_lookup:
  "unix_register path pid i r = (ok, r') \<Longrightarrow> ok \<longleftrightarrow> unix_lookup r path = None"
  "unix_register path pid i r = (ok, r') \<Longrightarrow>
    unix_lookup r' = (if ok then (unix_lookup r)(path \<mapsto> \<lparr>us_pid = pid, us_sock_idx = i\<rparr>) else unix_lookup r)"
  by (auto simp: unix_register_def unix_lookup_def bt_contains_def fun_eq_iff split: if_splits)

lemma unix_cleanup_lookup:
  "bt_wf r \<Longrightarrow> unix_lookup (unix_cleanup_process pid r) path =
    (case unix_lookup r path of Some e \<Rightarrow> if us_pid e \<noteq> pid then Some e else None | None \<Rightarrow> None)"
  by (auto simp: unix_lookup_def unix_cleanup_process_def bt_get_retain split: option.splits)

end
