(* ===== verification/Kernel.thy ===== *)
theory Kernel
  imports Process Devices Unix_Registry Pty Mqueue Pshared
begin

text \<open>
  The global state of the kernel, which the source keeps in static tables, and the interface to the
  host. The state of a system call is the calling \<^verbatim>\<open>Process\<close> together with this record.

  The imported host functions are not part of the repository: they are a parameter. It answers each
  call, and may answer according to everything it was asked before; the kernel record keeps the calls
  made, in order. The methods of \<open>WasmHostIO\<close> in \<^verbatim>\<open>src/crates/kernel/src/wasm_api.rs\<close>, which turn the
  raw answers into results, are the functions \<open>host_unit\<close> to \<open>host_readdir\<close> below.
\<close>

section \<open>The host\<close>

datatype HostCall =
    HostOpen bytes u32 u32
  | HostClose i64
  | HostRead i64 u32
  | HostWrite i64 bytes
  | HostSeek i64 i64 u32
  | HostFstat i64
  | HostStat bytes
  | HostLstat bytes
  | HostMkdir bytes u32
  | HostRmdir bytes
  | HostUnlink bytes
  | HostRename bytes bytes
  | HostLink bytes bytes
  | HostSymlink bytes bytes
  | HostReadlink bytes u32
  | HostChmod bytes u32
  | HostChown bytes u32 u32
  | HostAccess bytes u32
  | HostOpendir bytes
  | HostReaddir i64 u32
  | HostClosedir i64
  | HostClockGettime u32
  | HostNanosleep i64 i64
  | HostFtruncate i64 i64
  | HostFsync i64
  | HostFchmod i64 u32
  | HostFchown i64 u32 u32
  | HostKill i32 u32
  | HostExec bytes
  | HostSetAlarm u32
  | HostSigsuspendWait
  | HostGetrandom u32
  | HostWaitpid i32 u32
  | HostNetConnect i32 bytes u16
  | HostNetSend i32 bytes u32
  | HostNetRecv i32 u32 u32
  | HostNetClose i32
  | HostNetListen i32 u16 bytes
  | HostFcntlLock bytes u32 u32 u32 i64 i64
  | HostBindFramebuffer i32 usize usize u32 u32 u32 u32
  | HostUnbindFramebuffer i32
  | HostFbWrite i32 usize bytes
  | HostCallSignalHandler u32 u32 u32
  | HostSetPosixTimer i32 i32 i64 i64
  | HostUtimensat bytes i64 i64 i64 i64
  | HostGetaddrinfo bytes u32
  | HostFork
  | HostFutexWait usize u32 i64
  | HostFutexWake usize u32
  | HostClone usize usize usize usize usize

record WasmStat =
  st_dev :: u64
  st_ino :: u64
  st_mode :: u32
  st_nlink :: u32
  st_uid :: u32
  st_gid :: u32
  st_size :: u64
  st_atime_sec :: u64
  st_atime_nsec :: u32
  st_mtime_sec :: u64
  st_mtime_nsec :: u32
  st_ctime_sec :: u64
  st_ctime_nsec :: u32

record WasmDirent =
  d_ino :: u64
  d_type :: u32
  d_namlen :: u32

text \<open>
  A raw answer: the returned number, of which an \<open>i32\<close> import yields the low half, and what the
  host wrote through the pointers it was given.
\<close>

record HostReply =
  hr_code :: i64
  hr_data :: bytes
  hr_num1 :: i64
  hr_num2 :: i64
  hr_stat :: WasmStat
  hr_dirent :: WasmDirent

section \<open>The state\<close>

record Kernel =
  k_wakeup :: WakeupBuffer
  k_pipes :: PipeTable
  k_backlogs :: SharedBacklogTable
  k_host_refs :: host_refs
  k_net_refs :: host_refs
  k_ptys :: pty_table
  k_fb0_owner :: i32
  k_mice_owner :: i32
  k_dsp_owner :: i32
  k_mice :: bytes
  k_dsp :: Dsp
  k_unix :: UnixSocketRegistry
  k_mqueues :: MqueueTable
  k_pshared :: PSharedTable
  k_calls :: "HostCall list"

definition is_centralized_mode :: "Kernel \<Rightarrow> bool" where
  "is_centralized_mode k = wk_centralized (k_wakeup k)"

text \<open>
  The second field is what other threads of the process do while a sleeping call has given up the
  kernel lock, which happens in the traditional mode only.
\<close>

record host =
  h_reply :: "HostCall list \<Rightarrow> HostCall \<Rightarrow> HostReply"
  h_others :: "HostCall list \<Rightarrow> Process \<times> Kernel \<Rightarrow> Process \<times> Kernel"

definition host_call :: "host \<Rightarrow> HostCall \<Rightarrow> Kernel \<Rightarrow> HostReply \<times> Kernel" where
  "host_call host c k = (h_reply host (k_calls k) c, k\<lparr>k_calls := k_calls k @ [c]\<rparr>)"

section \<open>The bridge to the host\<close>

definition host_errno :: "u32 \<Rightarrow> Errno" where
  "host_errno v = (case errno_from_u32 v of Some e \<Rightarrow> e | None \<Rightarrow> EIO)"

definition i32_to_result :: "i32 \<Rightarrow> unit kresult" where
  "i32_to_result v = (if sint v < 0 then Err (host_errno (- v)) else Ok ())"

definition host_unit :: "host \<Rightarrow> HostCall \<Rightarrow> Kernel \<Rightarrow> unit kresult \<times> Kernel" where
  "host_unit host c k = (let (r, k) = host_call host c k in (i32_to_result (ucast (hr_code r)), k))"

definition i32_to_size :: "i32 \<Rightarrow> nat kresult" where
  "i32_to_size v = (if sint v < 0 then Err (host_errno (- v)) else Ok (nat (sint v)))"

definition host_size :: "host \<Rightarrow> HostCall \<Rightarrow> Kernel \<Rightarrow> nat kresult \<times> Kernel" where
  "host_size host c k = (let (r, k) = host_call host c k in (i32_to_size (ucast (hr_code r)), k))"

text \<open>The calls that fill a buffer: the host overwrites the buffer from its start.\<close>

definition host_fill :: "host \<Rightarrow> HostCall \<Rightarrow> bytes \<Rightarrow> Kernel \<Rightarrow> nat kresult \<times> bytes \<times> Kernel" where
  "host_fill host c buf k =
    (let (r, k) = host_call host c k
     in (i32_to_size (ucast (hr_code r)), take (length buf) (hr_data r) @ drop (length (hr_data r)) buf, k))"

definition host_i64 :: "host \<Rightarrow> HostCall \<Rightarrow> Kernel \<Rightarrow> i64 kresult \<times> Kernel" where
  "host_i64 host c k =
    (let (r, k) = host_call host c k
     in (if sint (hr_code r) < 0 then Err (host_errno (ucast (- hr_code r))) else Ok (hr_code r), k))"

definition host_clock_gettime :: "host \<Rightarrow> u32 \<Rightarrow> Kernel \<Rightarrow> (i64 \<times> i64) kresult \<times> Kernel" where
  "host_clock_gettime host clock_id k =
    (let (r, k) = host_call host (HostClockGettime clock_id) k
     in (case i32_to_result (ucast (hr_code r)) of Inl e \<Rightarrow> Err e | Inr _ \<Rightarrow> Ok (hr_num1 r, hr_num2 r), k))"

definition host_stat :: "host \<Rightarrow> HostCall \<Rightarrow> Kernel \<Rightarrow> WasmStat kresult \<times> Kernel" where
  "host_stat host c k =
    (let (r, k) = host_call host c k
     in (case i32_to_result (ucast (hr_code r)) of Inl e \<Rightarrow> Err e | Inr _ \<Rightarrow> Ok (hr_stat r), k))"

definition host_readdir :: "host \<Rightarrow> i64 \<Rightarrow> bytes \<Rightarrow> Kernel \<Rightarrow> (u64 \<times> u32 \<times> nat) option kresult \<times> bytes \<times> Kernel" where
  "host_readdir host handle name_buf k =
    (let (r, k) = host_call host (HostReaddir handle (word_of_nat (length name_buf))) k;
         result = (ucast (hr_code r) :: i32); d = hr_dirent r
     in (if sint result < 0 then Err (host_errno (- result)) else if result = 0 then Ok None
         else Ok (Some (d_ino d, d_type d, unat (d_namlen d))),
         take (length name_buf) (hr_data r) @ drop (length (hr_data r)) name_buf, k))"

text \<open>Sleeping gives up the lock.\<close>

definition host_sleep :: "host \<Rightarrow> Process \<Rightarrow> Kernel \<Rightarrow> Process \<times> Kernel" where
  "host_sleep host p k = (let (_, k) = host_unit host (HostNanosleep 0 1000000) k in h_others host (k_calls k) (p, k))"

text \<open>A call of the host changes nothing but the record of calls.\<close>

lemma snd_host_unit [simp]: "snd (host_unit host c k) = k\<lparr>k_calls := k_calls k @ [c]\<rparr>"
  by (simp add: host_unit_def host_call_def)

lemma snd_host_size [simp]: "snd (host_size host c k) = k\<lparr>k_calls := k_calls k @ [c]\<rparr>"
  by (simp add: host_size_def host_call_def)

lemma snd_host_fill [simp]:
  "snd (snd (host_fill host c buf k)) = k\<lparr>k_calls := k_calls k @ [c]\<rparr>"
  "length (fst (snd (host_fill host c buf k))) = length buf"
  by (simp_all add: host_fill_def host_call_def min_def)

lemma snd_host_i64 [simp]: "snd (host_i64 host c k) = k\<lparr>k_calls := k_calls k @ [c]\<rparr>"
  by (simp add: host_i64_def host_call_def)

lemma snd_host_clock_gettime [simp]: "snd (host_clock_gettime host c k) = k\<lparr>k_calls := k_calls k @ [HostClockGettime c]\<rparr>"
  by (simp add: host_clock_gettime_def host_call_def)

definition reply_zero :: HostReply where
  "reply_zero = \<lparr>hr_code = 0, hr_data = [], hr_num1 = 0, hr_num2 = 0,
     hr_stat = \<lparr>st_dev = 0, st_ino = 0, st_mode = 0, st_nlink = 0, st_uid = 0, st_gid = 0, st_size = 0, st_atime_sec = 0,
       st_atime_nsec = 0, st_mtime_sec = 0, st_mtime_nsec = 0, st_ctime_sec = 0, st_ctime_nsec = 0\<rparr>,
     hr_dirent = \<lparr>d_ino = 0, d_type = 0, d_namlen = 0\<rparr>\<rparr>"

text \<open>A host that answers every call with success and nothing to say.\<close>

definition quiet_host :: host where
  "quiet_host = \<lparr>h_reply = \<lambda>_ _. reply_zero, h_others = \<lambda>_ s. s\<rparr>"

section \<open>Device nodes\<close>

datatype VirtualDevice = DevNull | DevZero | DevUrandom | DevFull | DevFb0 | DevMice | DevDsp

fun vd_host_handle :: "VirtualDevice \<Rightarrow> i64" where
  "vd_host_handle DevNull = - 1"
| "vd_host_handle DevZero = - 2"
| "vd_host_handle DevUrandom = - 3"
| "vd_host_handle DevFull = - 4"
| "vd_host_handle DevFb0 = - 5"
| "vd_host_handle DevMice = - 6"
| "vd_host_handle DevDsp = - 7"

definition vd_from_host_handle :: "i64 \<Rightarrow> VirtualDevice option" where
  "vd_from_host_handle h =
    (if h = - 1 then Some DevNull else if h = - 2 then Some DevZero else if h = - 3 then Some DevUrandom
     else if h = - 4 then Some DevFull else if h = - 5 then Some DevFb0 else if h = - 6 then Some DevMice
     else if h = - 7 then Some DevDsp else None)"

lemma vd_roundtrip [simp]: "vd_from_host_handle (vd_host_handle d) = Some d"
  by (cases d) (simp_all add: vd_from_host_handle_def)

text \<open>The three devices with a single owner: claim and release by compare-and-exchange.\<close>

definition acquire_or_busy :: "u32 \<Rightarrow> i32 \<Rightarrow> unit kresult \<times> i32" where
  "acquire_or_busy pid owner =
    (if owner \<noteq> - 1 \<and> owner \<noteq> pid then (Err EBUSY, owner)
     else (Ok (), if owner = - 1 then pid else owner))"

definition maybe_release_fb0 :: "u32 \<Rightarrow> Kernel \<Rightarrow> Kernel" where
  "maybe_release_fb0 pid k = (if k_fb0_owner k = pid then k\<lparr>k_fb0_owner := - 1\<rparr> else k)"

definition maybe_release_mice :: "u32 \<Rightarrow> Kernel \<Rightarrow> Kernel" where
  "maybe_release_mice pid k = (if k_mice_owner k = pid then k\<lparr>k_mice_owner := - 1, k_mice := []\<rparr> else k)"

definition maybe_release_dsp :: "u32 \<Rightarrow> Kernel \<Rightarrow> Kernel" where
  "maybe_release_dsp pid k =
    (if k_dsp_owner k = pid then k\<lparr>k_dsp_owner := - 1, k_dsp := dsp_reset (k_dsp k)\<rparr> else k)"

definition proc_has_device_fd :: "VirtualDevice \<Rightarrow> Process \<Rightarrow> bool" where
  "proc_has_device_fd dev p = list_ex (\<lambda>i. case fdt_get (p_fd_table p) (word_of_nat i) of
      Inl _ \<Rightarrow> False
    | Inr e \<Rightarrow> (case ofdt_get (p_ofd_table p) (ofd_ref e) of
        None \<Rightarrow> False
      | Some d \<Rightarrow> ofd_file_type d = CharDevice \<and> vd_from_host_handle (ofd_host_handle d) = Some dev)) [0..<1024]"

end
