(* ===== verification/Files.thy ===== *)
theory Files
  imports Kernel
begin

text \<open>
  The system calls on descriptors, from \<^verbatim>\<open>src/crates/kernel/src/syscalls.rs\<close>: \<open>close\<close>, the \<open>dup\<close> family,
  \<open>pipe\<close>, \<open>pipe2\<close> and \<open>fcntl\<close>. They compose the descriptor table, the description table, the pipe,
  socket and terminal tables and the host handles.
\<close>

section \<open>Releasing a description\<close>

definition kernel_idx :: "i64 \<Rightarrow> nat" where
  "kernel_idx host_handle = unat (- (host_handle + 1))"

definition slot_clear :: "nat \<Rightarrow> 'a slots \<Rightarrow> 'a slots" where
  "slot_clear i s = s[i := None]"

text \<open>A change of a pipe in the global table or in that of the process, if the pipe is there.\<close>

definition pipe_update ::
    "bool \<Rightarrow> nat \<Rightarrow> (PipeBuffer \<Rightarrow> WakeupBuffer \<Rightarrow> PipeBuffer \<times> WakeupBuffer) \<Rightarrow> Process \<Rightarrow> Kernel \<Rightarrow>
     PipeBuffer option \<times> Process \<times> Kernel" where
  "pipe_update global idx f p k =
    (case (if global then pt_get (k_pipes k) idx else slot_get (p_pipes p) idx) of
       None \<Rightarrow> (None, p, k)
     | Some b \<Rightarrow>
         (let (b', wk) = f b (k_wakeup k); k = k\<lparr>k_wakeup := wk\<rparr>
          in if global then (Some b', p, k\<lparr>k_pipes := pt_get_mut idx (\<lambda>_. b') (k_pipes k)\<rparr>)
             else (Some b', p\<lparr>p_pipes := (p_pipes p)[idx := Some b']\<rparr>, k)))"

definition free_global_if_closed :: "nat \<Rightarrow> Kernel \<Rightarrow> Kernel" where
  "free_global_if_closed idx k = k\<lparr>k_pipes := pt_free_if_closed idx (k_pipes k)\<rparr>"

definition close_pipe :: "host \<Rightarrow> i64 \<Rightarrow> u32 \<Rightarrow> Process \<Rightarrow> Kernel \<Rightarrow> Process \<times> Kernel" where
  "close_pipe host host_handle status_flags p k =
    (if 0 \<le> sint host_handle then
       (let (last, refs) = host_handle_close_ref host_handle (k_host_refs k); k = k\<lparr>k_host_refs := refs\<rparr>
        in (p, if last then snd (host_unit host (HostClose host_handle) k) else k))
     else
       (let pipe_idx = kernel_idx host_handle; central = is_centralized_mode k;
            f = (if status_flags AND O_ACCMODE = O_RDONLY then pb_close_read_end else pb_close_write_end)
        in case pipe_update central pipe_idx f p k of
             (None, p, k) \<Rightarrow> (p, k)
           | (Some _, p, k) \<Rightarrow> (p, if central then free_global_if_closed pipe_idx k else k)))"

text \<open>One end of a socket's pipes. The index is returned if the process-local pipe is now fully closed.\<close>

definition close_socket_end ::
    "bool \<Rightarrow> nat option \<Rightarrow> (PipeBuffer \<Rightarrow> WakeupBuffer \<Rightarrow> PipeBuffer \<times> WakeupBuffer) \<Rightarrow> Process \<Rightarrow> Kernel \<Rightarrow>
     nat option \<times> Process \<times> Kernel" where
  "close_socket_end use_global buf_idx f p k = (case buf_idx of
     None \<Rightarrow> (None, p, k)
   | Some idx \<Rightarrow> (case pipe_update use_global idx f p k of
       (None, p, k) \<Rightarrow> (None, p, k)
     | (Some b, p, k) \<Rightarrow>
         if use_global then (None, p, free_global_if_closed idx k)
         else ((if pb_is_fully_closed b then Some idx else None), p, k)))"

definition free_local_pipe :: "nat option \<Rightarrow> Process \<Rightarrow> Process" where
  "free_local_pipe to_free p = (case to_free of
     None \<Rightarrow> p | Some idx \<Rightarrow> p\<lparr>p_pipes := slot_clear idx (p_pipes p)\<rparr>)"

definition close_socket :: "host \<Rightarrow> i64 \<Rightarrow> Process \<Rightarrow> Kernel \<Rightarrow> Process \<times> Kernel" where
  "close_socket host host_handle p k =
    (let sock_idx = kernel_idx host_handle;
         (p, k) = (case skt_get (p_sockets p) sock_idx of
            None \<Rightarrow> (p, k)
          | Some sock \<Rightarrow>
              (let k = (case sk_host_net_handle sock of
                      None \<Rightarrow> k
                    | Some net_handle \<Rightarrow>
                        (let (last, refs) = host_net_handle_close_ref net_handle (k_net_refs k);
                             k = k\<lparr>k_net_refs := refs\<rparr>
                         in if last then snd (host_unit host (HostNetClose net_handle) k) else k));
                   k = (case sk_shared_backlog_idx sock of
                      None \<Rightarrow> k | Some i \<Rightarrow> k\<lparr>k_backlogs := blt_dec_ref i (k_backlogs k)\<rparr>);
                   (send_free, p, k) =
                     close_socket_end (sk_global_pipes sock) (sk_send_buf_idx sock) pb_close_write_end p k;
                   (recv_free, p, k) =
                     close_socket_end (sk_global_pipes sock) (sk_recv_buf_idx sock) pb_close_read_end p k
               in (free_local_pipe recv_free (free_local_pipe send_free p), k)))
     in (p\<lparr>p_sockets := skt_free sock_idx (p_sockets p)\<rparr>, k))"

definition close_pty :: "bool \<Rightarrow> i64 \<Rightarrow> Kernel \<Rightarrow> Kernel" where
  "close_pty master host_handle k =
    (let pty_idx = unat host_handle in
     case get_pty (k_ptys k) pty_idx of
       None \<Rightarrow> k
     | Some pty \<Rightarrow>
         (let pty = (if master
                then (if pty_master_refs pty > 0 then pty\<lparr>pty_master_refs := pty_master_refs pty - 1\<rparr> else pty)
                else (if pty_slave_refs pty > 0 then pty\<lparr>pty_slave_refs := pty_slave_refs pty - 1\<rparr> else pty));
              ptys = (k_ptys k)[pty_idx := Some pty]
          in k\<lparr>k_ptys := (if \<not> pty_is_alive pty then free_pty pty_idx ptys else ptys)\<rparr>))"

definition is_procfs_buf_handle :: "i64 \<Rightarrow> bool" where
  "is_procfs_buf_handle h \<longleftrightarrow> sint h \<le> - 200"

definition procfs_buf_idx :: "i64 \<Rightarrow> nat" where
  "procfs_buf_idx h = unat (- (h + 200))"

abbreviation (input) PROCFS_DIR_HANDLE :: i64 where "PROCFS_DIR_HANDLE \<equiv> - 150"
abbreviation (input) DEVFS_DIR_HANDLE :: i64 where "DEVFS_DIR_HANDLE \<equiv> - 160"

text \<open>The last arm: files, directories and devices, which the host may have to close.\<close>

definition close_host_file ::
    "host \<Rightarrow> OpenFileDesc \<Rightarrow> Process \<Rightarrow> Kernel \<Rightarrow> unit kresult \<times> Process \<times> Kernel" where
  "close_host_file host ofd p k =
    (let host_handle = ofd_host_handle ofd;
         k = (if 0 \<le> sint (ofd_dir_host_handle ofd)
              then snd (host_unit host (HostClosedir (ofd_dir_host_handle ofd)) k) else k)
     in if is_procfs_buf_handle host_handle then
          (Ok (), p\<lparr>p_procfs_bufs := slot_clear (procfs_buf_idx host_handle) (p_procfs_bufs p)\<rparr>, k)
        else if host_handle = PROCFS_DIR_HANDLE \<or> host_handle = DEVFS_DIR_HANDLE then (Ok (), p, k)
        else if ofd_file_type ofd = CharDevice \<and> sint host_handle < 0 then (Ok (), p, k)
        else
          (let (last, refs) = host_handle_close_ref host_handle (k_host_refs k); k = k\<lparr>k_host_refs := refs\<rparr>
           in if last then (let (r, k) = host_unit host (HostClose host_handle) k in (r, p, k)) else (Ok (), p, k)))"

definition release_ofd :: "host \<Rightarrow> OpenFileDesc \<Rightarrow> Process \<Rightarrow> Kernel \<Rightarrow> unit kresult \<times> Process \<times> Kernel" where
  "release_ofd host ofd p k =
    (let host_handle = ofd_host_handle ofd; idx = kernel_idx host_handle in
     case ofd_file_type ofd of
       Pipe \<Rightarrow> (Ok (), close_pipe host host_handle (ofd_status_flags ofd) p k)
     | Socket \<Rightarrow> (Ok (), close_socket host host_handle p k)
     | EventFd \<Rightarrow> (Ok (), p\<lparr>p_eventfds := slot_clear idx (p_eventfds p)\<rparr>, k)
     | Epoll \<Rightarrow> (Ok (), p\<lparr>p_epolls := slot_clear idx (p_epolls p)\<rparr>, k)
     | TimerFd \<Rightarrow> (Ok (), p\<lparr>p_timerfds := slot_clear idx (p_timerfds p)\<rparr>, k)
     | SignalFd \<Rightarrow> (Ok (), p\<lparr>p_signalfds := slot_clear idx (p_signalfds p)\<rparr>, k)
     | MemFd \<Rightarrow> (Ok (), p\<lparr>p_memfds := slot_clear idx (p_memfds p)\<rparr>, k)
     | PtyMaster \<Rightarrow> (Ok (), p, close_pty True host_handle k)
     | PtySlave \<Rightarrow> (Ok (), p, close_pty False host_handle k)
     | _ \<Rightarrow> close_host_file host ofd p k)"

section \<open>The system calls\<close>

text \<open>Closing any descriptor of a file releases the process's advisory locks on that file.\<close>

definition drop_posix_locks :: "host \<Rightarrow> OpenFileDesc \<Rightarrow> Process \<Rightarrow> Kernel \<Rightarrow> Process \<times> Kernel" where
  "drop_posix_locks host ofd p k =
    (if 0 \<le> sint (ofd_host_handle ofd) \<and> ofd_file_type ofd \<notin> {Pipe, Socket, PtyMaster, PtySlave} then
       (p\<lparr>p_lock_table := lt_remove_for_handle (ofd_host_handle ofd) (p_pid p) (p_lock_table p)\<rparr>,
        if ofd_path ofd \<noteq> []
        then snd (host_unit host (HostFcntlLock (ofd_path ofd) (p_pid p) F_SETLK F_UNLCK 0 0) k) else k)
     else (p, k))"

definition release_devices :: "OpenFileDesc \<Rightarrow> Process \<Rightarrow> Kernel \<Rightarrow> Kernel" where
  "release_devices ofd p k =
    (let dev = (if ofd_file_type ofd = CharDevice then vd_from_host_handle (ofd_host_handle ofd) else None);
         k = (if dev = Some DevFb0 \<and> p_fb_binding p = None \<and> \<not> proc_has_device_fd DevFb0 p
              then maybe_release_fb0 (p_pid p) k else k);
         k = (if dev = Some DevMice \<and> \<not> proc_has_device_fd DevMice p then maybe_release_mice (p_pid p) k else k)
     in if dev = Some DevDsp \<and> \<not> proc_has_device_fd DevDsp p then maybe_release_dsp (p_pid p) k else k)"

definition sys_close :: "host \<Rightarrow> i32 \<Rightarrow> Process \<Rightarrow> Kernel \<Rightarrow> unit kresult \<times> Process \<times> Kernel" where
  "sys_close host fd p k = (case fdt_free (p_fd_table p) fd of
     (Inl e, _) \<Rightarrow> (Err e, p, k)
   | (Inr idx, fds) \<Rightarrow>
       (let p = p\<lparr>p_fd_table := fds\<rparr> in
        case ofdt_get (p_ofd_table p) idx of
          None \<Rightarrow> (Err EBADF, p, k)
        | Some ofd \<Rightarrow>
            (let (p, k) = drop_posix_locks host ofd p k;
                 (freed, ofds) = ofdt_dec_ref idx (p_ofd_table p);
                 p = p\<lparr>p_ofd_table := ofds\<rparr>;
                 (r, p, k) = (if freed then release_ofd host ofd p k else (Ok (), p, k))
             in case r of Inl e \<Rightarrow> (Err e, p, k) | Inr _ \<Rightarrow> (Ok (), p, release_devices ofd p k))))"

text \<open>The common part of \<open>dup\<close>, \<open>F_DUPFD\<close> and the second half of \<open>dup2\<close>: one more reference, undone on failure.\<close>

definition with_new_ref :: "nat \<Rightarrow> (FdTable \<Rightarrow> 'a kresult \<times> FdTable) \<Rightarrow> Process \<Rightarrow> 'a kresult \<times> Process" where
  "with_new_ref idx place p =
    (let p = p\<lparr>p_ofd_table := ofdt_inc_ref idx (p_ofd_table p)\<rparr>;
         (r, fds) = place (p_fd_table p); p = p\<lparr>p_fd_table := fds\<rparr>
     in case r of
          Inr v \<Rightarrow> (Ok v, p)
        | Inl e \<Rightarrow> (Err e, p\<lparr>p_ofd_table := snd (ofdt_dec_ref idx (p_ofd_table p))\<rparr>))"

definition sys_dup :: "i32 \<Rightarrow> Process \<Rightarrow> i32 kresult \<times> Process" where
  "sys_dup fd p = (case fdt_get (p_fd_table p) fd of
     Inl e \<Rightarrow> (Err e, p)
   | Inr entry \<Rightarrow> with_new_ref (ofd_ref entry) (\<lambda>fds. fdt_alloc fds (ofd_ref entry) 0) p)"

definition sys_dup2 :: "host \<Rightarrow> i32 \<Rightarrow> i32 \<Rightarrow> Process \<Rightarrow> Kernel \<Rightarrow> i32 kresult \<times> Process \<times> Kernel" where
  "sys_dup2 host oldfd newfd p k = (case fdt_get (p_fd_table p) oldfd of
     Inl e \<Rightarrow> (Err e, p, k)
   | Inr _ \<Rightarrow>
       if oldfd = newfd then (Ok newfd, p, k)
       else
         (let (_, p, k) = sys_close host newfd p k in
          case fdt_get (p_fd_table p) oldfd of
            Inl e \<Rightarrow> (Err e, p, k)
          | Inr entry \<Rightarrow>
              (case with_new_ref (ofd_ref entry) (\<lambda>fds. fdt_set_at fds newfd (ofd_ref entry) 0) p of
                 (Inr _, p) \<Rightarrow> (Ok newfd, p, k)
               | (Inl e, p) \<Rightarrow> (Err e, p, k))))"

definition oflags_to_fd_flags :: "u32 \<Rightarrow> u32" where
  "oflags_to_fd_flags oflags =
    (if oflags AND O_CLOEXEC \<noteq> 0 then FD_CLOEXEC else 0) OR (if oflags AND O_CLOFORK \<noteq> 0 then FD_CLOFORK else 0)"

definition set_fd_flags :: "i32 \<Rightarrow> u32 \<Rightarrow> Process \<Rightarrow> Process" where
  "set_fd_flags fd flags p = p\<lparr>p_fd_table := snd (fdt_get_mut (p_fd_table p) fd (\<lambda>e. e\<lparr>fd_flags := flags\<rparr>))\<rparr>"

definition sys_dup3 :: "host \<Rightarrow> i32 \<Rightarrow> i32 \<Rightarrow> u32 \<Rightarrow> Process \<Rightarrow> Kernel \<Rightarrow> i32 kresult \<times> Process \<times> Kernel" where
  "sys_dup3 host oldfd newfd flags p k =
    (if oldfd = newfd then (Err EINVAL, p, k)
     else (case sys_dup2 host oldfd newfd p k of
       (Inl e, p, k) \<Rightarrow> (Err e, p, k)
     | (Inr result, p, k) \<Rightarrow>
         (Ok result,
          if oflags_to_fd_flags flags \<noteq> 0 then set_fd_flags newfd (oflags_to_fd_flags flags) p else p, k)))"

definition pipe_create :: "Process \<Rightarrow> Kernel \<Rightarrow> nat \<times> Process \<times> Kernel" where
  "pipe_create p k =
    (let pipe = pb_new DEFAULT_PIPE_CAPACITY in
     if is_centralized_mode k
     then (let (i, t) = pt_alloc pipe (k_pipes k) in (i, p, k\<lparr>k_pipes := t\<rparr>))
     else (let (i, p) = alloc_pipe pipe p in (i, p, k)))"

definition sys_pipe :: "Process \<Rightarrow> Kernel \<Rightarrow> (i32 \<times> i32) kresult \<times> Process \<times> Kernel" where
  "sys_pipe p k =
    (if p_fork_child p \<and> p_fork_pipe_replay p \<noteq> []
     then (Ok (hd (p_fork_pipe_replay p)), p\<lparr>p_fork_pipe_replay := tl (p_fork_pipe_replay p)\<rparr>, k)
     else
       (let (pipe_idx, p, k) = pipe_create p k;
            pipe_handle = - (word_of_nat pipe_idx + 1);
            path = bstr ''/dev/pipe'';
            (read_ofd, ofds) = ofdt_create Pipe O_RDONLY pipe_handle path (p_ofd_table p);
            (write_ofd, ofds) = ofdt_create Pipe O_WRONLY pipe_handle path ofds;
            p = p\<lparr>p_ofd_table := ofds\<rparr>;
            undo = (\<lambda>p. p\<lparr>p_ofd_table := snd (ofdt_dec_ref write_ofd (snd (ofdt_dec_ref read_ofd (p_ofd_table p))))\<rparr>)
        in case fdt_alloc (p_fd_table p) read_ofd 0 of
             (Inl e, _) \<Rightarrow> (Err e, undo p, k)
           | (Inr read_fd, fds) \<Rightarrow>
               (case fdt_alloc fds write_ofd 0 of
                  (Inl e, fds) \<Rightarrow> (Err e, undo (p\<lparr>p_fd_table := snd (fdt_free fds read_fd)\<rparr>), k)
                | (Inr write_fd, fds) \<Rightarrow> (Ok (read_fd, write_fd), p\<lparr>p_fd_table := fds\<rparr>, k))))"

definition set_nonblock :: "nat \<Rightarrow> Process \<Rightarrow> Process" where
  "set_nonblock idx p = p\<lparr>p_ofd_table := slot_modify idx
     (\<lambda>d. d\<lparr>ofd_status_flags := ofd_status_flags d OR O_NONBLOCK\<rparr>) (p_ofd_table p)\<rparr>"

definition sys_pipe2 :: "u32 \<Rightarrow> Process \<Rightarrow> Kernel \<Rightarrow> (i32 \<times> i32) kresult \<times> Process \<times> Kernel" where
  "sys_pipe2 flags p k = (case sys_pipe p k of
     (Inl e, p, k) \<Rightarrow> (Err e, p, k)
   | (Inr (read_fd, write_fd), p, k) \<Rightarrow>
       (let fl = oflags_to_fd_flags flags;
            p = (if fl \<noteq> 0 then set_fd_flags write_fd fl (set_fd_flags read_fd fl p) else p)
        in if flags AND O_NONBLOCK \<noteq> 0 then
             (case (fdt_get (p_fd_table p) read_fd, fdt_get (p_fd_table p) write_fd) of
                (Inl e, _) \<Rightarrow> (Err e, p, k)
              | (_, Inl e) \<Rightarrow> (Err e, p, k)
              | (Inr r, Inr w) \<Rightarrow> (Ok (read_fd, write_fd), set_nonblock (ofd_ref w) (set_nonblock (ofd_ref r) p), k))
           else (Ok (read_fd, write_fd), p, k)))"

abbreviation (input) F_DUPFD :: u32 where "F_DUPFD \<equiv> 0"
abbreviation (input) F_GETFD :: u32 where "F_GETFD \<equiv> 1"
abbreviation (input) F_SETFD :: u32 where "F_SETFD \<equiv> 2"
abbreviation (input) F_GETFL :: u32 where "F_GETFL \<equiv> 3"
abbreviation (input) F_SETFL :: u32 where "F_SETFL \<equiv> 4"
abbreviation (input) F_SETOWN :: u32 where "F_SETOWN \<equiv> 8"
abbreviation (input) F_GETOWN :: u32 where "F_GETOWN \<equiv> 9"
abbreviation (input) F_DUPFD_CLOEXEC :: u32 where "F_DUPFD_CLOEXEC \<equiv> 1030"
abbreviation (input) F_DUPFD_CLOFORK :: u32 where "F_DUPFD_CLOFORK \<equiv> 1028"

definition sys_fcntl :: "i32 \<Rightarrow> u32 \<Rightarrow> u32 \<Rightarrow> Process \<Rightarrow> i32 kresult \<times> Process" where
  "sys_fcntl fd cmd arg p =
    (if cmd \<in> {F_DUPFD, F_DUPFD_CLOEXEC, F_DUPFD_CLOFORK} then
       (case fdt_get (p_fd_table p) fd of
          Inl e \<Rightarrow> (Err e, p)
        | Inr entry \<Rightarrow>
            (let flags = (if cmd = F_DUPFD_CLOEXEC then FD_CLOEXEC else if cmd = F_DUPFD_CLOFORK then FD_CLOFORK else 0)
             in with_new_ref (ofd_ref entry) (\<lambda>fds. fdt_alloc_at_min fds (ofd_ref entry) flags arg) p))
     else if cmd = F_GETFD then
       (case fdt_get (p_fd_table p) fd of Inl e \<Rightarrow> (Err e, p) | Inr entry \<Rightarrow> (Ok (fd_flags entry), p))
     else if cmd = F_SETFD then
       (case fdt_get_mut (p_fd_table p) fd (\<lambda>e. e\<lparr>fd_flags := arg\<rparr>) of
          (Inl e, _) \<Rightarrow> (Err e, p) | (Inr _, fds) \<Rightarrow> (Ok 0, p\<lparr>p_fd_table := fds\<rparr>))
     else if cmd \<in> {F_GETFL, F_SETFL, F_SETOWN, F_GETOWN} then
       (case fdt_get (p_fd_table p) fd of
          Inl e \<Rightarrow> (Err e, p)
        | Inr entry \<Rightarrow>
            (let idx = ofd_ref entry; ofds = p_ofd_table p in
             if cmd = F_SETFL then (Ok 0, p\<lparr>p_ofd_table := ofdt_set_status_flags idx arg ofds\<rparr>)
             else (case ofdt_get ofds idx of
                 None \<Rightarrow> (Err EBADF, p)
               | Some ofd \<Rightarrow>
                   if cmd = F_GETFL then (Ok (ofd_status_flags ofd), p)
                   else if cmd = F_GETOWN then (Ok (ofd_owner_pid ofd), p)
                   else (Ok 0, p\<lparr>p_ofd_table := slot_modify idx (\<lambda>d. d\<lparr>ofd_owner_pid := arg\<rparr>) ofds\<rparr>))))
     else (Err EINVAL, p))"

end
