(* ===== verification/Files_Correct.thy ===== *)
theory Files_Correct
  imports Files
begin

text \<open>
  The system calls of \<^verbatim>\<open>Files\<close> keep descriptors and descriptions in step: the reference count of a
  description is the number of descriptors that refer to it, and a description exists exactly as long
  as some descriptor refers to it.
\<close>

section \<open>Counting the references to a description\<close>

definition fd_refs :: "(nat \<Rightarrow> FdEntry option) \<Rightarrow> nat \<Rightarrow> nat" where
  "fd_refs m i = count_where (\<lambda>e. ofd_ref e = i) m"

definition ofd_count :: "OfdTable \<Rightarrow> nat \<Rightarrow> nat" where
  "ofd_count t i = (case ofdt_get t i of None \<Rightarrow> 0 | Some d \<Rightarrow> unat (ofd_ref_count d))"

definition ofds_live :: "OfdTable \<Rightarrow> bool" where
  "ofds_live t \<longleftrightarrow> (\<forall>i d. ofdt_get t i = Some d \<longrightarrow> ofd_ref_count d \<noteq> 0)"

definition tables_counted :: "FdTable \<Rightarrow> OfdTable \<Rightarrow> bool" where
  "tables_counted fds ofds \<longleftrightarrow> fdt_wf fds \<and> ofds_live ofds \<and> ofd_count ofds = fd_refs (fdt_map fds)"

definition counted :: "Process \<Rightarrow> bool" where
  "counted p = tables_counted (p_fd_table p) (p_ofd_table p)"

lemma fd_refs_bind:
  assumes "finite (dom m)" "m n = None"
  shows "fd_refs (m(n \<mapsto> e)) = (fd_refs m)(ofd_ref e := Suc (fd_refs m (ofd_ref e)))"
  using assms by (auto simp: fun_eq_iff fd_refs_def count_where_bind)

lemma fd_refs_removed:
  assumes "finite (dom m)" "m n = Some e"
  shows "0 < fd_refs m (ofd_ref e)" and "fd_refs (m(n := None)) = (fd_refs m)(ofd_ref e := fd_refs m (ofd_ref e) - 1)"
  using count_where_remove [OF assms] by (auto simp: fun_eq_iff fd_refs_def)

lemma fd_refs_cong:
  assumes "\<And>n. map_option ofd_ref (m n) = map_option ofd_ref (m' n)"
  shows "fd_refs m = fd_refs m'"
  unfolding fd_refs_def fun_eq_iff by (intro allI count_where_cong) (metis assms map_option_eq_Some)+

lemma fd_refs_bound:
  assumes "fdt_wf t"
  shows "fd_refs (fdt_map t) i \<le> 2 ^ 31"
proof -
  have "{n. \<exists>e. fdt_map t n = Some e \<and> ofd_ref e = i} \<subseteq> {..<length (fdt_entries t)}"
    by (auto simp: fdt_map_def dest: slot_get_SomeD)
  from card_mono [OF _ this] assms show ?thesis by (simp add: fd_refs_def count_where_def fdt_wf_def)
qed

section \<open>Counting and the table operations\<close>

lemma unat_dec: "(w :: 'a::len word) \<noteq> 0 \<Longrightarrow> unat (w - 1) = unat w - 1"
  by (simp add: unat_minus_one)

lemma ofd_count_dec:
  assumes "ofds_live t" "0 < ofd_count t i" "ofdt_dec_ref i t = (b, t')"
  shows "ofds_live t'" and "ofd_count t' = (ofd_count t)(i := ofd_count t i - 1)"
    and "b \<longleftrightarrow> ofd_count t i = 1"
proof -
  obtain d where d: "ofdt_get t i = Some d" using assms(2) by (auto simp: ofd_count_def split: option.splits)
  then have nz: "ofd_ref_count d \<noteq> 0" using assms(1) by (simp add: ofds_live_def)
  note get = ofdt_dec_ref_get [OF d assms(3)]
  have get': "ofdt_get t' j = (if j = i then if ofd_ref_count d = 1 then None
      else Some (d\<lparr>ofd_ref_count := ofd_ref_count d - 1\<rparr>) else ofdt_get t j)" for j
    by (simp add: get(2))
  have one: "ofd_ref_count d = 1 \<longleftrightarrow> unat (ofd_ref_count d) = 1" by (metis unat_1 word_unat_eq_iff)
  have "ofd_ref_count d - 1 \<noteq> 0" if "ofd_ref_count d \<noteq> 1" using that by (metis right_minus_eq)
  with assms(1) show "ofds_live t'" by (auto simp: ofds_live_def get' split: if_splits)
  show "b \<longleftrightarrow> ofd_count t i = 1" unfolding ofd_count_def d option.case get(1) by (rule one)
  show "ofd_count t' = (ofd_count t)(i := ofd_count t i - 1)"
    using d one unat_dec [OF nz] by (intro ext) (simp add: ofd_count_def get')
qed

lemma ofd_count_inc:
  assumes "ofds_live t" "0 < ofd_count t i" "Suc (ofd_count t i) < 2 ^ 32"
  shows "ofds_live (ofdt_inc_ref i t)" and "ofd_count (ofdt_inc_ref i t) = (ofd_count t)(i := Suc (ofd_count t i))"
proof -
  obtain d where d: "ofdt_get t i = Some d" using assms(2) by (auto simp: ofd_count_def split: option.splits)
  then have u: "unat (ofd_ref_count d + 1) = Suc (unat (ofd_ref_count d))"
    using assms(3) by (simp add: ofd_count_def unat_word_ariths)
  then have "ofd_ref_count d + 1 \<noteq> 0" by (metis nat.distinct(1) unat_0)
  then show "ofds_live (ofdt_inc_ref i t)" using assms(1) d by (auto simp: ofds_live_def ofdt_get_inc_ref split: if_splits)
  show "ofd_count (ofdt_inc_ref i t) = (ofd_count t)(i := Suc (ofd_count t i))"
    using d u by (auto simp: fun_eq_iff ofd_count_def ofdt_get_inc_ref)
qed

lemma ofd_count_create:
  assumes "ofds_live t" "ofdt_create ft flags h path t = (i, t')"
  shows "ofds_live t'" and "ofd_count t' = (ofd_count t)(i := 1)" and "ofd_count t i = 0"
  using ofdt_create_get [OF assms(2)] assms(1) by (auto simp: ofds_live_def ofd_count_def ofd_fresh_def fun_eq_iff)

lemma ofd_count_modify:
  assumes "\<And>d. ofd_ref_count (f d) = ofd_ref_count d"
  shows "ofd_count (slot_modify i f t) = ofd_count t" and "ofds_live (slot_modify i f t) = ofds_live t"
  using assms by (auto simp: fun_eq_iff ofd_count_def ofds_live_def ofdt_get_def slot_get_modify split: option.splits)

lemma fdt_alloc_cases:
  assumes "fdt_wf t" "fdt_alloc_at_min t r flags mn = (res, t')"
  shows "(case res of
      Inl e \<Rightarrow> e = EMFILE \<and> t' = t
    | Inr fd \<Rightarrow> \<exists>n<2 ^ 31. fd = word_of_nat n \<and> fdt_map t n = None \<and> fdt_wf t' \<and>
        fdt_map t' = (fdt_map t)(n \<mapsto> \<lparr>ofd_ref = r, fd_flags = flags\<rparr>))"
proof -
  define n where "n = lowest_free (fdt_map t) (fd_min mn)"
  have free: "fdt_map t n = None" unfolding n_def by (intro lowest_free_props) simp
  show ?thesis
  proof (cases "n < fdt_max_fds t")
    case True
    from fdt_alloc_at_min_free [OF n_def True, of r flags] obtain es where
      "fdt_alloc_at_min t r flags mn = (Ok (word_of_nat n), t\<lparr>fdt_entries := es\<rparr>)"
      "slot_get es = (fdt_map t)(n \<mapsto> \<lparr>ofd_ref = r, fd_flags = flags\<rparr>)"
      "length es \<le> max (length (fdt_entries t)) (Suc n)" .
    with assms free True show ?thesis by (auto simp: fdt_wf_def fdt_map_def intro!: exI [of _ n])
  next
    case False
    with assms(2) fdt_alloc_at_min_full [OF n_def] show ?thesis by auto
  qed
qed

lemma tables_counted_bind:
  assumes "tables_counted fds ofds" "0 < fd_refs (fdt_map fds) i" "fdt_map fds n = None"
    and "fdt_map fds' = (fdt_map fds)(n \<mapsto> e)" "ofd_ref e = i" "fdt_wf fds'"
  shows "tables_counted fds' (ofdt_inc_ref i ofds)"
proof -
  have live: "ofds_live ofds" "ofd_count ofds = fd_refs (fdt_map fds)" "fdt_wf fds"
    using assms(1) by (simp_all add: tables_counted_def)
  then have "Suc (ofd_count ofds i) < 2 ^ 32" using fd_refs_bound [of fds i] by simp
  with live assms ofd_count_inc [of ofds i] show ?thesis
    by (simp add: tables_counted_def fd_refs_bind)
qed

lemma tables_counted_undo:
  assumes "tables_counted fds ofds" "0 < fd_refs (fdt_map fds) i"
  shows "tables_counted fds (snd (ofdt_dec_ref i (ofdt_inc_ref i ofds)))"
proof -
  have live: "ofds_live ofds" "ofd_count ofds = fd_refs (fdt_map fds)" "fdt_wf fds"
    using assms(1) by (simp_all add: tables_counted_def)
  then have "Suc (ofd_count ofds i) < 2 ^ 32" using fd_refs_bound [of fds i] by simp
  note inc = ofd_count_inc [OF live(1) _ this]
  obtain b t' where dec: "ofdt_dec_ref i (ofdt_inc_ref i ofds) = (b, t')" by fastforce
  with ofd_count_dec [of "ofdt_inc_ref i ofds" i b t'] inc assms(2) live show ?thesis
    by (simp add: tables_counted_def)
qed

section \<open>Descriptors are only rebound by the calls themselves\<close>

definition same_tables :: "Process \<Rightarrow> Process \<Rightarrow> bool" where
  "same_tables p p' \<longleftrightarrow> p_fd_table p' = p_fd_table p \<and> p_ofd_table p' = p_ofd_table p"

lemma pipe_update_tables: "pipe_update g i f p k = (b, p', k') \<Longrightarrow> same_tables p p'"
  by (auto simp: pipe_update_def same_tables_def Let_def split: option.splits prod.splits if_splits)

lemma close_pipe_tables: "close_pipe host h flags p k = (p', k') \<Longrightarrow> same_tables p p'"
  by (auto simp: close_pipe_def Let_def split: option.splits prod.splits if_splits dest: pipe_update_tables)
    (simp_all add: same_tables_def)

lemma close_socket_end_tables: "close_socket_end g b f p k = (r, p', k') \<Longrightarrow> same_tables p p'"
  by (auto simp: close_socket_end_def split: option.splits prod.splits if_splits dest: pipe_update_tables)
    (simp_all add: same_tables_def)

lemma close_socket_tables: "close_socket host h p k = (p', k') \<Longrightarrow> same_tables p p'"
  unfolding close_socket_def free_local_pipe_def
  by (auto simp: Let_def same_tables_def split: option.splits prod.splits if_splits
    dest!: close_socket_end_tables)

lemma release_ofd_tables: "release_ofd host d p k = (r, p', k') \<Longrightarrow> same_tables p p'"
  by (auto simp: release_ofd_def close_host_file_def Let_def split: FileType.splits prod.splits if_splits
      dest: close_pipe_tables close_socket_tables)
    (simp_all add: same_tables_def)

lemma drop_posix_locks_tables: "drop_posix_locks host d p k = (p', k') \<Longrightarrow> same_tables p p'"
  by (auto simp: drop_posix_locks_def same_tables_def split: if_splits)

section \<open>The system calls on the descriptor map\<close>

definition fd_map :: "Process \<Rightarrow> nat \<Rightarrow> FdEntry option" where
  "fd_map p = fdt_map (p_fd_table p)"

lemma sys_close_not_open:
  "fdt_get (p_fd_table p) fd = Err e \<Longrightarrow> sys_close host fd p k = (Err EBADF, p, k)"
  by (simp add: sys_close_def fdt_free_Err)

lemma sys_close_open:
  assumes "counted p" "fdt_get (p_fd_table p) fd = Ok e" "sys_close host fd p k = (r, p', k')"
  shows "counted p'" and "fd_map p' = (fd_map p)(nat (sint fd) := None)"
    and "fdt_max_fds (p_fd_table p') = fdt_max_fds (p_fd_table p)"
    and "length (fdt_entries (p_fd_table p')) = length (fdt_entries (p_fd_table p))"
proof -
  from fdt_free_Ok [OF assms(2)] obtain fds where fds: "fdt_free (p_fd_table p) fd = (Ok (ofd_ref e), fds)"
    "fdt_map fds = (fdt_map (p_fd_table p))(nat (sint fd) := None)" "fdt_max_fds fds = fdt_max_fds (p_fd_table p)"
    "length (fdt_entries fds) = length (fdt_entries (p_fd_table p))" .
  have bound: "fdt_map (p_fd_table p) (nat (sint fd)) = Some e" using fdt_get_OkD [OF assms(2)] by simp
  note unbind = fd_refs_removed [OF finite_dom_fdt_map this]
  have tc: "fdt_wf (p_fd_table p)" "ofds_live (p_ofd_table p)" "ofd_count (p_ofd_table p) = fd_refs (fdt_map (p_fd_table p))"
    using assms(1) by (simp_all add: counted_def tables_counted_def)
  then have pos: "0 < ofd_count (p_ofd_table p) (ofd_ref e)" using unbind(1) by simp
  then obtain d where d: "ofdt_get (p_ofd_table p) (ofd_ref e) = Some d" by (auto simp: ofd_count_def split: option.splits)
  obtain freed ofds where dec: "ofdt_dec_ref (ofd_ref e) (p_ofd_table p) = (freed, ofds)" by fastforce
  obtain p1 k1 where p1: "drop_posix_locks host d (p\<lparr>p_fd_table := fds\<rparr>) k = (p1, k1)" by fastforce
  then have t1: "p_fd_table p1 = fds" "p_ofd_table p1 = p_ofd_table p"
    using drop_posix_locks_tables by (fastforce simp: same_tables_def)+
  obtain r2 p2 k2 where p2: "(if freed then release_ofd host d (p1\<lparr>p_ofd_table := ofds\<rparr>) k1
      else (Ok (), p1\<lparr>p_ofd_table := ofds\<rparr>, k1)) = (r2, p2, k2)" by (metis prod_cases3)
  then have t2: "p_fd_table p2 = fds" "p_ofd_table p2 = ofds"
    using t1 by (auto split: if_splits simp: same_tables_def dest!: release_ofd_tables)
  have "sys_close host fd p k = (case r2 of Inl e \<Rightarrow> (Err e, p2, k2) | Inr _ \<Rightarrow> (Ok (), p2, release_devices d p2 k2))"
    by (simp add: sys_close_def Let_def fds(1) d p1 dec p2 t1)
  then have "p' = p2" using assms(3) by (cases r2) simp_all
  with t2 have t': "p_fd_table p' = fds" "p_ofd_table p' = ofds" by simp_all
  show "fd_map p' = (fd_map p)(nat (sint fd) := None)" by (simp add: fd_map_def t' fds(2))
  show "fdt_max_fds (p_fd_table p') = fdt_max_fds (p_fd_table p)"
    "length (fdt_entries (p_fd_table p')) = length (fdt_entries (p_fd_table p))" by (simp_all add: t' fds)
  have "ofd_count ofds = fd_refs (fdt_map fds)"
    unfolding fds(2) unbind(2) ofd_count_dec(2) [OF tc(2) pos dec] tc(3) ..
  then show "counted p'"
    using ofd_count_dec(1) [OF tc(2) pos dec] tc(1) fds(3,4) t' by (simp add: counted_def tables_counted_def fdt_wf_def)
qed

lemma sys_close_effect:
  assumes "counted p" "sys_close host fd p k = (r, p', k')"
  shows "counted p'" and "fd_map p' = (if 0 \<le> sint fd then (fd_map p)(nat (sint fd) := None) else fd_map p)"
    and "fdt_max_fds (p_fd_table p') = fdt_max_fds (p_fd_table p)"
proof -
  have "counted p' \<and> fd_map p' = (if 0 \<le> sint fd then (fd_map p)(nat (sint fd) := None) else fd_map p) \<and>
      fdt_max_fds (p_fd_table p') = fdt_max_fds (p_fd_table p)"
  proof (cases "fdt_get (p_fd_table p) fd")
    case (Inl e)
    then have "p' = p" using assms(2) sys_close_not_open by simp
    moreover have "fd_map p (nat (sint fd)) = None" if "0 \<le> sint fd"
      using that Inl by (auto simp: fdt_get_eq fd_map_def ok_or_def split: option.splits)
    ultimately show ?thesis using assms(1) by (auto simp: fun_eq_iff)
  next
    case (Inr e)
    with sys_close_open [OF assms(1) Inr assms(2)] fdt_get_OkD [OF Inr] show ?thesis by simp
  qed
  then show "counted p'" "fd_map p' = (if 0 \<le> sint fd then (fd_map p)(nat (sint fd) := None) else fd_map p)"
    "fdt_max_fds (p_fd_table p') = fdt_max_fds (p_fd_table p)" by simp_all
qed

lemma with_new_ref_alloc:
  assumes "counted p" "fd_map p m = Some e" "ofd_ref e = i"
    and "with_new_ref i (\<lambda>fds. fdt_alloc_at_min fds i flags mn) p = (r, p')"
  shows "counted p' \<and> (case r of
      Inl err \<Rightarrow> err = EMFILE \<and> fd_map p' = fd_map p
    | Inr fd \<Rightarrow> \<exists>n<2 ^ 31. fd = word_of_nat n \<and> fd_map p n = None \<and>
        fd_map p' = (fd_map p)(n \<mapsto> \<lparr>ofd_ref = i, fd_flags = flags\<rparr>))"
proof -
  obtain res fds where al: "fdt_alloc_at_min (p_fd_table p) i flags mn = (res, fds)" by fastforce
  have tc: "tables_counted (p_fd_table p) (p_ofd_table p)" "fdt_wf (p_fd_table p)"
    using assms(1) by (simp_all add: counted_def tables_counted_def)
  have pos: "0 < fd_refs (fdt_map (p_fd_table p)) i"
    using fd_refs_removed(1) [OF finite_dom_fdt_map assms(2) [unfolded fd_map_def]] assms(3) by simp
  note cases = fdt_alloc_cases [OF tc(2) al]
  show ?thesis
  proof (cases res)
    case (Inl err)
    with cases al assms(4) tables_counted_undo [OF tc(1) pos] show ?thesis
      by (auto simp: with_new_ref_def Let_def counted_def fd_map_def)
  next
    case (Inr fd)
    with cases obtain n where n: "n < 2 ^ 31" "fd = word_of_nat n" "fdt_map (p_fd_table p) n = None" "fdt_wf fds"
      "fdt_map fds = (fdt_map (p_fd_table p))(n \<mapsto> \<lparr>ofd_ref = i, fd_flags = flags\<rparr>)" by auto
    with tables_counted_bind [OF tc(1) pos n(3,5) _ n(4)] Inr al assms(4) show ?thesis
      by (auto simp: with_new_ref_def Let_def counted_def fd_map_def intro!: exI [of _ n])
  qed
qed

lemma sys_dup_effect:
  assumes "counted p" "sys_dup fd p = (r, p')"
  shows "counted p' \<and> (case fdt_get (p_fd_table p) fd of
      Inl e \<Rightarrow> r = Err EBADF \<and> p' = p
    | Inr e \<Rightarrow> (case r of
        Inl err \<Rightarrow> err = EMFILE \<and> fd_map p' = fd_map p
      | Inr new \<Rightarrow> \<exists>n<2 ^ 31. new = word_of_nat n \<and> fd_map p n = None \<and>
          fd_map p' = (fd_map p)(n \<mapsto> \<lparr>ofd_ref = ofd_ref e, fd_flags = 0\<rparr>)))"
proof (cases "fdt_get (p_fd_table p) fd")
  case (Inl e)
  with assms show ?thesis by (auto simp: sys_dup_def fdt_get_eq ok_or_def split: if_splits option.splits)
next
  case (Inr e)
  then have "fd_map p (nat (sint fd)) = Some e" using fdt_get_OkD by (simp add: fd_map_def)
  with with_new_ref_alloc [OF assms(1) this refl, of 0 0 r p'] Inr assms(2) show ?thesis
    by (simp add: sys_dup_def fdt_alloc_def)
qed

lemma with_new_ref_set_at:
  assumes "counted p" "fd_map p m = Some e" "ofd_ref e = i" "0 \<le> sint fd \<longrightarrow> fd_map p (nat (sint fd)) = None"
    and "with_new_ref i (\<lambda>fds. fdt_set_at fds fd i 0) p = (r, p')"
  shows "counted p' \<and> (if 0 \<le> sint fd \<and> nat (sint fd) < fdt_max_fds (p_fd_table p)
      then r = Ok None \<and> fd_map p' = (fd_map p)(nat (sint fd) \<mapsto> \<lparr>ofd_ref = i, fd_flags = 0\<rparr>)
      else r = Err EBADF \<and> fd_map p' = fd_map p)"
proof -
  have tc: "tables_counted (p_fd_table p) (p_ofd_table p)" "fdt_wf (p_fd_table p)"
    using assms(1) by (simp_all add: counted_def tables_counted_def)
  have pos: "0 < fd_refs (fdt_map (p_fd_table p)) i"
    using fd_refs_removed(1) [OF finite_dom_fdt_map assms(2) [unfolded fd_map_def]] assms(3) by simp
  show ?thesis
  proof (cases "0 \<le> sint fd \<and> nat (sint fd) < fdt_max_fds (p_fd_table p)")
    case True
    then obtain fds where fds: "fdt_set_at (p_fd_table p) fd i 0 = (Ok (map_option ofd_ref (fdt_map (p_fd_table p) (nat (sint fd)))), fds)"
      "fdt_map fds = (fdt_map (p_fd_table p))(nat (sint fd) \<mapsto> \<lparr>ofd_ref = i, fd_flags = 0\<rparr>)"
      "fdt_max_fds fds = fdt_max_fds (p_fd_table p)"
      "length (fdt_entries fds) = max (length (fdt_entries (p_fd_table p))) (Suc (nat (sint fd)))"
      using fdt_set_at_Ok by metis
    have free: "fdt_map (p_fd_table p) (nat (sint fd)) = None" using True assms(4) by (simp add: fd_map_def)
    have "fdt_wf fds" using tc(2) True fds(3,4) by (simp add: fdt_wf_def)
    from tables_counted_bind [OF tc(1) pos free fds(2) _ this] True assms(5) fds(1,2) free show ?thesis
      by (auto simp: with_new_ref_def Let_def counted_def fd_map_def)
  next
    case False
    then have "fdt_set_at (p_fd_table p) fd i 0 = (Err EBADF, p_fd_table p)" by (intro fdt_set_at_Err) auto
    with False assms(5) tables_counted_undo [OF tc(1) pos] show ?thesis
      by (auto simp: with_new_ref_def Let_def counted_def fd_map_def)
  qed
qed

lemma sys_dup2_effect:
  assumes "counted p" "sys_dup2 host old new p k = (r, p', k')"
  shows "counted p' \<and> (case fdt_get (p_fd_table p) old of
      Inl e \<Rightarrow> r = Err EBADF \<and> p' = p
    | Inr e \<Rightarrow>
        if old = new then r = Ok new \<and> p' = p
        else if 0 \<le> sint new \<and> nat (sint new) < fdt_max_fds (p_fd_table p)
        then r = Ok new \<and> fd_map p' = (fd_map p)(nat (sint new) \<mapsto> \<lparr>ofd_ref = ofd_ref e, fd_flags = 0\<rparr>)
        else r = Err EBADF)"
proof (cases "fdt_get (p_fd_table p) old")
  case (Inl e)
  with assms show ?thesis by (auto simp: sys_dup2_def fdt_get_eq ok_or_def split: if_splits option.splits)
next
  case (Inr e)
  note old = fdt_get_OkD [OF Inr]
  show ?thesis
  proof (cases "old = new")
    case True
    with Inr assms show ?thesis by (simp add: sys_dup2_def)
  next
    case False
    obtain r1 p1 k1 where c: "sys_close host new p k = (r1, p1, k1)" by (metis prod_cases3)
    note close = sys_close_effect [OF assms(1) c]
    have ne: "nat (sint old) \<noteq> nat (sint new)" if "0 \<le> sint new"
      using that False old by (metis nat_eq_iff2 signed_word_eqI)
    then have m: "fd_map p1 (nat (sint old)) = Some e" using close(2) old by (auto simp: fd_map_def)
    then have get: "fdt_get (p_fd_table p1) old = Ok e" using old by (simp add: fdt_get_eq fd_map_def ok_or_def)
    obtain r2 p2 where w: "with_new_ref (ofd_ref e) (\<lambda>fds. fdt_set_at fds new (ofd_ref e) 0) p1 = (r2, p2)" by fastforce
    have "0 \<le> sint new \<longrightarrow> fd_map p1 (nat (sint new)) = None" using close(2) by simp
    from with_new_ref_set_at [OF close(1) m refl this w] close(2,3) Inr False assms(2) c get w show ?thesis
      by (auto simp: sys_dup2_def split: if_splits)
  qed
qed

lemma set_fd_flags_counted: "counted p \<Longrightarrow> counted (set_fd_flags fd flags p)"
proof -
  let ?t = "p_fd_table p" and ?t' = "snd (fdt_get_mut (p_fd_table p) fd (\<lambda>e. e\<lparr>fd_flags := flags\<rparr>))"
  have "map_option ofd_ref (fdt_map ?t' n) = map_option ofd_ref (fdt_map ?t n)" for n
    by (auto simp: fdt_get_mut_def fdt_map_def Let_def slot_get_def nth_list_update split: option.split)
  then have "fd_refs (fdt_map ?t') = fd_refs (fdt_map ?t)" by (rule fd_refs_cong)
  moreover have "fdt_wf ?t' = fdt_wf ?t" by (auto simp: fdt_get_mut_def fdt_wf_def Let_def split: option.split)
  moreover assume "counted p"
  ultimately show ?thesis by (simp add: counted_def tables_counted_def set_fd_flags_def)
qed

lemma sys_dup3_counted:
  assumes "counted p" "sys_dup3 host old new flags p k = (r, p', k')"
  shows "counted p'"
proof (cases "old = new")
  case True
  with assms show ?thesis by (simp add: sys_dup3_def)
next
  case False
  obtain r1 p1 k1 where d: "sys_dup2 host old new p k = (r1, p1, k1)" by (metis prod_cases3)
  with sys_dup2_effect [OF assms(1) d] assms(2) False show ?thesis
    by (auto simp: sys_dup3_def set_fd_flags_counted split: sum.splits)
qed

text \<open>Two new descriptions, and taking them back.\<close>

lemma two_created:
  assumes "tables_counted fds ofds" "ofdt_create ft f1 h1 path1 ofds = (i, ofds1)" "ofdt_create ft f2 h2 path2 ofds1 = (j, ofds2)"
  shows "i \<noteq> j" and "ofds_live ofds2" and "ofd_count ofds2 = (fd_refs (fdt_map fds))(i := 1, j := 1)"
    and "fd_refs (fdt_map fds) i = 0" and "fd_refs (fdt_map fds) j = 0"
    and "tables_counted fds (snd (ofdt_dec_ref j (snd (ofdt_dec_ref i ofds2))))"
proof -
  have tc: "fdt_wf fds" "ofds_live ofds" "ofd_count ofds = fd_refs (fdt_map fds)" using assms(1) by (simp_all add: tables_counted_def)
  note c1 = ofd_count_create [OF tc(2) assms(2)]
  note c2 = ofd_count_create [OF c1(1) assms(3)]
  show ne: "i \<noteq> j" using c1(2) c2(3) by auto
  show "ofds_live ofds2" by (rule c2(1))
  show cnt: "ofd_count ofds2 = (fd_refs (fdt_map fds))(i := 1, j := 1)" using c1(2) c2(2) tc(3) by simp
  show zi: "fd_refs (fdt_map fds) i = 0" using c1(3) tc(3) by simp
  show zj: "fd_refs (fdt_map fds) j = 0" using c1(2) c2(3) tc(3) ne by simp
  obtain b1 t1 where d1: "ofdt_dec_ref i ofds2 = (b1, t1)" by fastforce
  obtain b2 t2 where d2: "ofdt_dec_ref j t1 = (b2, t2)" by fastforce
  have e1: "ofds_live t1" "ofd_count t1 = (fd_refs (fdt_map fds))(i := 0, j := 1)"
    using ofd_count_dec [OF c2(1) _ d1] cnt ne by (simp_all add: fun_upd_twist)
  have e2: "ofds_live t2" "ofd_count t2 = (fd_refs (fdt_map fds))(i := 0, j := 0)"
    using ofd_count_dec [OF e1(1) _ d2] e1(2) ne by simp_all
  then show "tables_counted fds (snd (ofdt_dec_ref j (snd (ofdt_dec_ref i ofds2))))"
    using d1 d2 tc(1) zi zj by (simp add: tables_counted_def fun_upd_idem)
qed

lemma free_allocated:
  assumes "fdt_map t' = (fdt_map t)(n \<mapsto> e)" "fdt_map t n = None" "n < 2 ^ 31" "fdt_wf t'"
  shows "fdt_map (snd (fdt_free t' (word_of_nat n))) = fdt_map t" and "fdt_wf (snd (fdt_free t' (word_of_nat n)))"
proof -
  have s: "sint (word_of_nat n :: i32) = int n" using assms(3) by (simp add: sint_word_of_nat32)
  have "fdt_get t' (word_of_nat n) = Ok e" by (simp add: fdt_get_eq s assms(1) ok_or_def)
  from fdt_free_Ok [OF this] obtain t'' where t'': "fdt_free t' (word_of_nat n) = (Ok (ofd_ref e), t'')"
    "fdt_map t'' = (fdt_map t')(nat (sint (word_of_nat n :: i32)) := None)" "fdt_max_fds t'' = fdt_max_fds t'"
    "length (fdt_entries t'') = length (fdt_entries t')" .
  then show "fdt_map (snd (fdt_free t' (word_of_nat n))) = fdt_map t" "fdt_wf (snd (fdt_free t' (word_of_nat n)))"
    using assms s by (simp_all add: fun_upd_idem fdt_wf_def)
qed

lemma pipe_create_tables: "pipe_create p k = (i, p', k') \<Longrightarrow> same_tables p p'"
  by (auto simp: pipe_create_def alloc_pipe_def same_tables_def Let_def split: prod.splits if_splits)

lemma sys_pipe_counted:
  assumes "counted p" "sys_pipe p k = (r, p', k')"
  shows "counted p'"
proof (cases "p_fork_child p \<and> p_fork_pipe_replay p \<noteq> []")
  case True
  with assms show ?thesis by (auto simp: sys_pipe_def counted_def)
next
  case False
  obtain i p1 k1 where pc: "pipe_create p k = (i, p1, k1)" by (metis prod_cases3)
  let ?h = "- (word_of_nat i + 1) :: i64" and ?path = "bstr ''/dev/pipe''" and ?fds = "p_fd_table p"
  obtain ri o1 where c1: "ofdt_create Pipe O_RDONLY ?h ?path (p_ofd_table p) = (ri, o1)" by fastforce
  obtain wi o2 where c2: "ofdt_create Pipe O_WRONLY ?h ?path o1 = (wi, o2)" by fastforce
  have p1: "p_fd_table p1 = ?fds" "p_ofd_table p1 = p_ofd_table p"
    using pipe_create_tables [OF pc] by (simp_all add: same_tables_def)
  have tc: "tables_counted ?fds (p_ofd_table p)" using assms(1) by (simp add: counted_def)
  then have wf: "fdt_wf ?fds" by (simp add: tables_counted_def)
  note two = two_created [OF tc c1 c2]
  obtain a1 f1 where a1: "fdt_alloc ?fds ri 0 = (a1, f1)" by fastforce
  note k1 = fdt_alloc_cases [OF wf a1 [unfolded fdt_alloc_def]]
  obtain a2 f2 where a2: "fdt_alloc f1 wi 0 = (a2, f2)" by fastforce
  show ?thesis
  proof (cases a1)
    case (Inl e)
    then have "p_fd_table p' = ?fds \<and> p_ofd_table p' = snd (ofdt_dec_ref wi (snd (ofdt_dec_ref ri o2)))"
      using assms(2) False pc p1 c1 c2 a1 by (auto simp: sys_pipe_def Let_def)
    with two(6) show ?thesis by (simp add: counted_def)
  next
    case (Inr rfd)
    with k1 obtain n where n: "n < 2 ^ 31" "rfd = word_of_nat n" "fdt_map ?fds n = None" "fdt_wf f1"
      "fdt_map f1 = (fdt_map ?fds)(n \<mapsto> \<lparr>ofd_ref = ri, fd_flags = 0\<rparr>)" by auto
    note k2 = fdt_alloc_cases [OF n(4) a2 [unfolded fdt_alloc_def]]
    have r1: "fd_refs (fdt_map f1) = (fd_refs (fdt_map ?fds))(ri := 1)" by (simp add: n fd_refs_bind two)
    show ?thesis
    proof (cases a2)
      case (Inl e)
      with k2 have "f2 = f1" by simp
      then have "p_fd_table p' = snd (fdt_free f1 rfd) \<and> p_ofd_table p' = snd (ofdt_dec_ref wi (snd (ofdt_dec_ref ri o2)))"
        using assms(2) False pc p1 c1 c2 a1 a2 Inl Inr by (auto simp: sys_pipe_def Let_def)
      with two(6) free_allocated [OF n(5,3,1,4)] n(2) show ?thesis by (simp add: counted_def tables_counted_def)
    next
      case (Inr wfd)
      with k2 obtain m where m: "fdt_map f1 m = None" "fdt_wf f2"
        "fdt_map f2 = (fdt_map f1)(m \<mapsto> \<lparr>ofd_ref = wi, fd_flags = 0\<rparr>)" by auto
      then have "fd_refs (fdt_map f2) = (fd_refs (fdt_map f1))(wi := Suc (fd_refs (fdt_map f1) wi))"
        unfolding m(3) using fd_refs_bind [OF finite_dom_fdt_map m(1), of "\<lparr>ofd_ref = wi, fd_flags = 0\<rparr>"] by simp
      then have "fd_refs (fdt_map f2) = (fd_refs (fdt_map ?fds))(ri := 1, wi := 1)" using two(1,5) by (simp add: r1)
      moreover have "p_fd_table p' = f2 \<and> p_ofd_table p' = o2"
        using assms(2) False pc p1 c1 c2 a1 a2 \<open>a1 = Inr rfd\<close> Inr by (auto simp: sys_pipe_def Let_def)
      ultimately show ?thesis using two(2,3) m(2) by (simp add: counted_def tables_counted_def)
    qed
  qed
qed

lemma set_nonblock_counted: "counted p \<Longrightarrow> counted (set_nonblock i p)"
  by (simp add: counted_def tables_counted_def set_nonblock_def ofd_count_modify)

lemma sys_pipe2_counted:
  assumes "counted p" "sys_pipe2 flags p k = (r, p', k')"
  shows "counted p'"
proof -
  obtain r1 p1 k1 where s: "sys_pipe p k = (r1, p1, k1)" by (metis prod_cases3)
  from sys_pipe_counted [OF assms(1) s] assms(2) s show ?thesis
    by (auto simp: sys_pipe2_def Let_def set_fd_flags_counted set_nonblock_counted split: sum.splits if_splits)
qed

lemma sys_fcntl_counted:
  assumes "counted p" "sys_fcntl fd cmd arg p = (r, p')"
  shows "counted p'"
proof (cases "fdt_get (p_fd_table p) fd")
  case (Inl e)
  then have "fdt_get_mut (p_fd_table p) fd f = (Err EBADF, p_fd_table p)" for f
    by (auto simp: fdt_get_def fdt_get_mut_def Let_def ok_or_def split: if_splits option.splits)
  with Inl assms show ?thesis by (auto simp: sys_fcntl_def split: if_splits prod.splits)
next
  case (Inr e)
  have m: "fd_map p (nat (sint fd)) = Some e" using fdt_get_OkD [OF Inr] by (simp add: fd_map_def)
  have "counted p'" if "with_new_ref (ofd_ref e) (\<lambda>fds. fdt_alloc_at_min fds (ofd_ref e) fl arg) p = (r, p')" for fl
    using with_new_ref_alloc [OF assms(1) m refl that] by simp
  moreover have "counted (p\<lparr>p_fd_table := fds\<rparr>)" if "fdt_get_mut (p_fd_table p) fd (\<lambda>e. e\<lparr>fd_flags := arg\<rparr>) = (r1, fds)" for r1 fds
    using set_fd_flags_counted [OF assms(1), of fd arg] that by (simp add: set_fd_flags_def)
  moreover have "counted (p\<lparr>p_ofd_table := slot_modify i f (p_ofd_table p)\<rparr>)"
    if "\<And>d. ofd_ref_count (f d) = ofd_ref_count d" for i f
    using assms(1) ofd_count_modify [of f i "p_ofd_table p"] that by (simp add: counted_def tables_counted_def)
  ultimately show ?thesis
    using assms Inr unfolding sys_fcntl_def ofdt_set_status_flags_def Let_def
    by (auto split: if_splits prod.splits sum.splits option.splits)
qed

section \<open>Sequences of calls\<close>

datatype fd_call = CClose i32 | CDup i32 | CDup2 i32 i32 | CDup3 i32 i32 u32 | CPipe | CPipe2 u32 | CFcntl i32 u32 u32

fun fd_exec :: "host \<Rightarrow> fd_call \<Rightarrow> Process \<times> Kernel \<Rightarrow> Process \<times> Kernel" where
  "fd_exec host (CClose fd) (p, k) = snd (sys_close host fd p k)"
| "fd_exec host (CDup fd) (p, k) = (snd (sys_dup fd p), k)"
| "fd_exec host (CDup2 old new) (p, k) = snd (sys_dup2 host old new p k)"
| "fd_exec host (CDup3 old new flags) (p, k) = snd (sys_dup3 host old new flags p k)"
| "fd_exec host CPipe (p, k) = snd (sys_pipe p k)"
| "fd_exec host (CPipe2 flags) (p, k) = snd (sys_pipe2 flags p k)"
| "fd_exec host (CFcntl fd cmd arg) (p, k) = (snd (sys_fcntl fd cmd arg p), k)"

lemma fd_exec_counted: "counted p \<Longrightarrow> counted (fst (fd_exec host c (p, k)))"
proof (cases c)
  case (CClose fd)
  assume "counted p"
  with CClose sys_close_effect(1) [of p host fd k] show ?thesis by (cases "sys_close host fd p k") auto
next
  case (CDup fd)
  assume "counted p"
  with CDup sys_dup_effect [of p fd] show ?thesis by (cases "sys_dup fd p") auto
next
  case (CDup2 old new)
  assume "counted p"
  with CDup2 sys_dup2_effect [of p host old new k] show ?thesis by (cases "sys_dup2 host old new p k") auto
next
  case (CDup3 old new flags)
  assume "counted p"
  with CDup3 sys_dup3_counted [of p host old new flags k] show ?thesis by (cases "sys_dup3 host old new flags p k") auto
next
  case CPipe
  assume "counted p"
  with CPipe sys_pipe_counted [of p k] show ?thesis by (cases "sys_pipe p k") auto
next
  case (CPipe2 flags)
  assume "counted p"
  with CPipe2 sys_pipe2_counted [of p flags k] show ?thesis by (cases "sys_pipe2 flags p k") auto
next
  case (CFcntl fd cmd arg)
  assume "counted p"
  with CFcntl sys_fcntl_counted [of p fd cmd arg] show ?thesis by (cases "sys_fcntl fd cmd arg p") auto
qed

lemma fd_trace_counted: "counted p \<Longrightarrow> counted (fst (fold (fd_exec host) cs (p, k)))"
proof (induction cs arbitrary: p k)
  case (Cons c cs)
  obtain p1 k1 where e: "fd_exec host c (p, k) = (p1, k1)" by fastforce
  with fd_exec_counted [OF Cons.prems, of host c k] Cons.IH [of p1 k1] show ?case by simp
qed simp

text \<open>
  C2: descriptors and descriptions stay in step. Whatever sequence of \<open>close\<close>, \<open>dup\<close>, \<open>dup2\<close>, \<open>dup3\<close>,
  \<open>pipe\<close>, \<open>pipe2\<close> and \<open>fcntl\<close> calls a process makes, successful or not, and whatever the host answers,
  the reference count of each description is the number of descriptors that refer to it, every
  descriptor refers to a description that exists, and a description that no descriptor refers to
  has been released.
\<close>

theorem descriptions_counted:
  assumes "counted p" "fold (fd_exec host) cs (p, k) = (p', k')"
  shows "(case ofdt_get (p_ofd_table p') i of
      None \<Rightarrow> fd_refs (fd_map p') i = 0
    | Some d \<Rightarrow> 0 < fd_refs (fd_map p') i \<and> unat (ofd_ref_count d) = fd_refs (fd_map p') i)"
proof -
  have "counted p'" using fd_trace_counted [OF assms(1), of host cs k] assms(2) by simp
  then have "ofds_live (p_ofd_table p')" "ofd_count (p_ofd_table p') i = fd_refs (fd_map p') i"
    by (simp_all add: counted_def tables_counted_def fd_map_def)
  moreover have "0 < unat (ofd_ref_count d)" if "ofdt_get (p_ofd_table p') i = Some d" for d
    using calculation(1) that unat_eq_zero [of "ofd_ref_count d"] by (auto simp: ofds_live_def)
  ultimately show ?thesis by (auto simp: ofd_count_def split: option.splits)
qed

lemma counted_process_new: "counted (process_new pid)"
proof -
  have m: "fdt_map (p_fd_table (process_new pid)) = Map.empty(0 \<mapsto> \<lparr>ofd_ref = 0, fd_flags = 0\<rparr>,
      1 \<mapsto> \<lparr>ofd_ref = 1, fd_flags = 0\<rparr>, 2 \<mapsto> \<lparr>ofd_ref = 2, fd_flags = 0\<rparr>)"
    by (auto simp: fun_eq_iff process_new_fields fdt_map_def slot_get_def nth_Cons')
  have "fd_refs Map.empty = (\<lambda>_. 0)" by (simp add: fd_refs_def fun_eq_iff)
  then have "fd_refs (fdt_map (p_fd_table (process_new pid))) = (\<lambda>_. 0)(0 := 1, 1 := 1, 2 := 1)"
    unfolding m by (simp add: fd_refs_bind)
  moreover have "ofd_count (p_ofd_table (process_new pid)) = (\<lambda>_. 0)(0 := 1, 1 := 1, 2 := 1)"
    by (auto simp: fun_eq_iff process_new_fields ofd_count_def ofdt_get_def slot_get_def nth_Cons' ofd_fresh_def)
  moreover have "ofds_live (p_ofd_table (process_new pid))"
    by (auto simp: process_new_fields ofds_live_def ofdt_get_def slot_get_def nth_Cons' ofd_fresh_def split: if_splits)
  ultimately show ?thesis by (simp add: counted_def tables_counted_def process_new_fields fdt_wf_def)
qed

definition kernel_new :: Kernel where
  "kernel_new = \<lparr>k_wakeup = \<lparr>wk_centralized = True, wk_events = []\<rparr>, k_pipes = pt_new, k_backlogs = blt_new,
     k_host_refs = [], k_net_refs = [], k_ptys = replicate MAX_PTYS None, k_fb0_owner = - 1, k_mice_owner = - 1,
     k_dsp_owner = - 1, k_mice = [], k_dsp = dsp_new, k_unix = unix_new, k_mqueues = mq_table_new,
     k_pshared = ps_new, k_calls = []\<rparr>"

theorem descriptions_counted_witness:
  "\<exists>p' k'. fold (fd_exec quiet_host) [CPipe, CDup2 4 1, CClose 4] (process_new 3, kernel_new) = (p', k') \<and>
    (case ofdt_get (p_ofd_table p') 4 of
       None \<Rightarrow> fd_refs (fd_map p') 4 = 0
     | Some d \<Rightarrow> 0 < fd_refs (fd_map p') 4 \<and> unat (ofd_ref_count d) = fd_refs (fd_map p') 4)"
proof -
  obtain p' k' where r: "fold (fd_exec quiet_host) [CPipe, CDup2 4 1, CClose 4] (process_new 3, kernel_new) = (p', k')"
    by fastforce
  from descriptions_counted [OF counted_process_new r, of 4] r show ?thesis by blast
qed

end
