(* ===== verification/ProcTable.thy ===== *)
theory ProcTable
  imports Files Fork
begin

text \<open>
  The table of processes, from \<^verbatim>\<open>src/crates/kernel/src/process_table.rs\<close>: creation, fork and removal,
  with the reference counts of everything processes share (pipes, host handles, pseudo-terminals,
  listener backlogs).
\<close>

record ProcessTable =
  pr_processes :: "(u32, Process) btree"
  pr_current_pid :: u32
  pr_current_tid :: u32

definition pr_new :: ProcessTable where
  "pr_new = \<lparr>pr_processes = [], pr_current_pid = 0, pr_current_tid = 0\<rparr>"

definition pr_get :: "ProcessTable \<Rightarrow> u32 \<Rightarrow> Process option" where
  "pr_get t pid = bt_get (pr_processes t) pid"

definition pr_insert :: "u32 \<Rightarrow> Process \<Rightarrow> ProcessTable \<Rightarrow> ProcessTable" where
  "pr_insert pid p t = t\<lparr>pr_processes := bt_insert pid p (pr_processes t)\<rparr>"

definition ensure_init :: "ProcessTable \<Rightarrow> ProcessTable" where
  "ensure_init t =
    (if \<not> bt_contains (pr_processes t) 1
     then (let init = process_new 1; init = init\<lparr>p_ppid := 0, p_argv := p_argv init @ [bstr ''init'']\<rparr>
           in pr_insert 1 init t)
     else t)"

definition create_process :: "u32 \<Rightarrow> ProcessTable \<Rightarrow> bool \<times> ProcessTable" where
  "create_process pid t =
    (let t = ensure_init t in
     if bt_contains (pr_processes t) pid then (False, t) else (True, pr_insert pid (process_new pid) t))"

section \<open>Sharing with a child\<close>

definition is_kernel_pipe :: "OpenFileDesc \<Rightarrow> bool" where
  "is_kernel_pipe ofd \<longleftrightarrow> ofd_file_type ofd = Pipe \<and> sint (ofd_host_handle ofd) < 0"

definition is_read_end :: "OpenFileDesc \<Rightarrow> bool" where
  "is_read_end ofd \<longleftrightarrow> ofd_status_flags ofd AND O_ACCMODE = O_RDONLY"

definition pipe_modify :: "nat \<Rightarrow> (PipeBuffer \<Rightarrow> PipeBuffer) \<Rightarrow> Kernel \<Rightarrow> Kernel" where
  "pipe_modify idx f k = k\<lparr>k_pipes := pt_get_mut idx f (k_pipes k)\<rparr>"

definition bump_pipe_ofd :: "nat \<times> OpenFileDesc \<Rightarrow> Kernel \<Rightarrow> Kernel" where
  "bump_pipe_ofd = (\<lambda>(_, ofd) k.
     if is_kernel_pipe ofd
     then pipe_modify (kernel_idx (ofd_host_handle ofd)) (if is_read_end ofd then pb_add_reader else pb_add_writer) k
     else k)"

definition bump_host_ofd :: "nat \<times> OpenFileDesc \<Rightarrow> Kernel \<Rightarrow> Kernel" where
  "bump_host_ofd = (\<lambda>(_, ofd) k.
     if 0 \<le> sint (ofd_host_handle ofd) \<and> ofd_file_type ofd \<in> {Regular, Directory, CharDevice, Pipe}
     then k\<lparr>k_host_refs := host_handle_fork_ref (ofd_host_handle ofd) (k_host_refs k)\<rparr> else k)"

definition pty_modify :: "nat \<Rightarrow> (PtyPair \<Rightarrow> PtyPair) \<Rightarrow> Kernel \<Rightarrow> Kernel" where
  "pty_modify idx f k = (case get_pty (k_ptys k) idx of
     None \<Rightarrow> k | Some pty \<Rightarrow> k\<lparr>k_ptys := (k_ptys k)[idx := Some (f pty)]\<rparr>)"

definition bump_pty_ofd :: "nat \<times> OpenFileDesc \<Rightarrow> Kernel \<Rightarrow> Kernel" where
  "bump_pty_ofd = (\<lambda>(_, ofd) k.
     if ofd_file_type ofd = PtyMaster
     then pty_modify (unat (ofd_host_handle ofd)) (\<lambda>pty. pty\<lparr>pty_master_refs := pty_master_refs pty + 1\<rparr>) k
     else if ofd_file_type ofd = PtySlave
     then pty_modify (unat (ofd_host_handle ofd)) (\<lambda>pty. pty\<lparr>pty_slave_refs := pty_slave_refs pty + 1\<rparr>) k
     else k)"

definition opt_pipe_modify :: "nat option \<Rightarrow> (PipeBuffer \<Rightarrow> PipeBuffer) \<Rightarrow> Kernel \<Rightarrow> Kernel" where
  "opt_pipe_modify i f k = (case i of None \<Rightarrow> k | Some idx \<Rightarrow> pipe_modify idx f k)"

definition bump_socket_ofd :: "SocketTable \<Rightarrow> nat \<times> OpenFileDesc \<Rightarrow> Kernel \<Rightarrow> Kernel" where
  "bump_socket_ofd sockets = (\<lambda>(_, ofd) k.
     if ofd_file_type ofd = Socket \<and> sint (ofd_host_handle ofd) < 0
     then (case skt_get sockets (kernel_idx (ofd_host_handle ofd)) of
         None \<Rightarrow> k
       | Some sock \<Rightarrow>
           if sk_global_pipes sock
           then opt_pipe_modify (sk_recv_buf_idx sock) pb_add_reader
                  (opt_pipe_modify (sk_send_buf_idx sock) pb_add_writer k)
           else k)
     else k)"

definition bump_socket :: "nat \<times> SocketInfo \<Rightarrow> Kernel \<Rightarrow> Kernel" where
  "bump_socket = (\<lambda>(_, sock) k.
     (let k = (case sk_shared_backlog_idx sock of
            None \<Rightarrow> k | Some i \<Rightarrow> k\<lparr>k_backlogs := blt_add_ref i (k_backlogs k)\<rparr>)
      in case sk_host_net_handle sock of
           None \<Rightarrow> k | Some h \<Rightarrow> k\<lparr>k_net_refs := host_net_handle_fork_ref h (k_net_refs k)\<rparr>))"

definition bump_inherited_resource_refcounts :: "Process \<Rightarrow> Kernel \<Rightarrow> Kernel" where
  "bump_inherited_resource_refcounts child k =
    (let ofds = ofdt_iter (p_ofd_table child);
         k = fold bump_pipe_ofd ofds k;
         k = fold bump_host_ofd ofds k;
         k = fold bump_pty_ofd ofds k;
         k = fold (bump_socket_ofd (p_sockets child)) ofds k
     in fold bump_socket (skt_iter (p_sockets child)) k)"

text \<open>The pairs of descriptors that a forked child's repeated \<open>pipe\<close> calls return.\<close>

definition replay_fd :: "Process \<Rightarrow> nat \<Rightarrow> (nat, i32 \<times> i32) btree \<Rightarrow> (nat, i32 \<times> i32) btree" where
  "replay_fd child fd pairs = (case fdt_get (p_fd_table child) (word_of_nat fd) of
     Inl _ \<Rightarrow> pairs
   | Inr entry \<Rightarrow> (case ofdt_get (p_ofd_table child) (ofd_ref entry) of
       None \<Rightarrow> pairs
     | Some ofd \<Rightarrow>
         if is_kernel_pipe ofd
         then (let pipe_idx = kernel_idx (ofd_host_handle ofd);
                   (r, w) = (case bt_get pairs pipe_idx of None \<Rightarrow> (- 1, - 1) | Some pair \<Rightarrow> pair)
               in bt_insert pipe_idx (if is_read_end ofd then (word_of_nat fd, w) else (r, word_of_nat fd)) pairs)
         else pairs))"

definition build_fork_pipe_replay :: "Process \<Rightarrow> (i32 \<times> i32) list" where
  "build_fork_pipe_replay child = map snd (fold (replay_fd child) [0..<1024] [])"

definition fork_process :: "u32 \<Rightarrow> u32 \<Rightarrow> ProcessTable \<Rightarrow> Kernel \<Rightarrow> unit kresult \<times> ProcessTable \<times> Kernel" where
  "fork_process parent_pid child_pid t k =
    (if bt_contains (pr_processes t) child_pid then (Err EEXIST, t, k)
     else (case pr_get t parent_pid of
       None \<Rightarrow> (Err ESRCH, t, k)
     | Some parent \<Rightarrow> (case serialize_fork_state parent (replicate (64 * 1024) 0) of
         (Inl e, _) \<Rightarrow> (Err e, t, k)
       | (Inr written, buf) \<Rightarrow> (case deserialize_fork_state (take written buf) child_pid of
           Inl e \<Rightarrow> (Err e, t, k)
         | Inr child \<Rightarrow>
             (let k = bump_inherited_resource_refcounts child k;
                  child = child\<lparr>p_fork_pipe_replay := build_fork_pipe_replay child\<rparr>;
                  t = pr_insert child_pid child t;
                  t = (case pr_get t parent_pid of
                         None \<Rightarrow> t | Some parent \<Rightarrow> pr_insert parent_pid (increment_fork_count parent) t)
              in (Ok (), t, k))))))"

section \<open>Removal\<close>

definition close_global_end ::
    "(PipeBuffer \<Rightarrow> WakeupBuffer \<Rightarrow> PipeBuffer \<times> WakeupBuffer) \<Rightarrow> nat \<Rightarrow> Kernel \<Rightarrow> Kernel" where
  "close_global_end f idx k =
    (let k = (case pt_get (k_pipes k) idx of
           None \<Rightarrow> k
         | Some b \<Rightarrow> (let (b', wk) = f b (k_wakeup k)
                      in k\<lparr>k_wakeup := wk, k_pipes := pt_get_mut idx (\<lambda>_. b') (k_pipes k)\<rparr>))
     in free_global_if_closed idx k)"

definition drop_pipe_ofd :: "nat \<times> OpenFileDesc \<Rightarrow> Kernel \<Rightarrow> Kernel" where
  "drop_pipe_ofd = (\<lambda>(_, ofd) k.
     if is_kernel_pipe ofd
     then close_global_end (if is_read_end ofd then pb_close_read_end else pb_close_write_end)
            (kernel_idx (ofd_host_handle ofd)) k
     else k)"

definition drop_pty_ofd :: "nat \<times> OpenFileDesc \<Rightarrow> Kernel \<Rightarrow> Kernel" where
  "drop_pty_ofd = (\<lambda>(_, ofd) k.
     if ofd_file_type ofd = PtyMaster then close_pty True (ofd_host_handle ofd) k
     else if ofd_file_type ofd = PtySlave then close_pty False (ofd_host_handle ofd) k
     else k)"

definition opt_close_global :: "nat option \<Rightarrow> (PipeBuffer \<Rightarrow> WakeupBuffer \<Rightarrow> PipeBuffer \<times> WakeupBuffer) \<Rightarrow> Kernel \<Rightarrow> Kernel" where
  "opt_close_global i f k = (case i of None \<Rightarrow> k | Some idx \<Rightarrow> close_global_end f idx k)"

definition drop_socket_pipes :: "SocketInfo \<Rightarrow> Kernel \<Rightarrow> Kernel" where
  "drop_socket_pipes sock k =
    (if sk_global_pipes sock
     then opt_close_global (sk_recv_buf_idx sock) pb_close_read_end
            (opt_close_global (sk_send_buf_idx sock) pb_close_write_end k)
     else k)"

definition drop_backlog_socket :: "SocketTable \<Rightarrow> nat \<Rightarrow> Kernel \<Rightarrow> Kernel" where
  "drop_backlog_socket sockets i k = (case skt_get sockets i of None \<Rightarrow> k | Some s \<Rightarrow> drop_socket_pipes s k)"

definition drop_socket_ofd :: "SocketTable \<Rightarrow> nat \<times> OpenFileDesc \<Rightarrow> Kernel \<Rightarrow> Kernel" where
  "drop_socket_ofd sockets = (\<lambda>(_, ofd) k.
     if ofd_file_type ofd = Socket \<and> sint (ofd_host_handle ofd) < 0
     then (case skt_get sockets (kernel_idx (ofd_host_handle ofd)) of
         None \<Rightarrow> k
       | Some sock \<Rightarrow> fold (drop_backlog_socket sockets) (sk_listen_backlog sock) (drop_socket_pipes sock k))
     else k)"

definition drop_socket :: "nat \<times> SocketInfo \<Rightarrow> i32 list \<times> Kernel \<Rightarrow> i32 list \<times> Kernel" where
  "drop_socket = (\<lambda>(_, sock) (closes, k).
     (let k = (case sk_shared_backlog_idx sock of
            None \<Rightarrow> k | Some i \<Rightarrow> k\<lparr>k_backlogs := blt_dec_ref i (k_backlogs k)\<rparr>)
      in case sk_host_net_handle sock of
           None \<Rightarrow> (closes, k)
         | Some h \<Rightarrow> (let (last, refs) = host_net_handle_close_ref h (k_net_refs k)
                     in (if last then closes @ [h] else closes, k\<lparr>k_net_refs := refs\<rparr>))))"

definition remove_process ::
    "u32 \<Rightarrow> ProcessTable \<Rightarrow> Kernel \<Rightarrow> (Process \<times> i32 list) option \<times> ProcessTable \<times> Kernel" where
  "remove_process pid t k = (case pr_get t pid of
     None \<Rightarrow> (None, t, k)
   | Some p \<Rightarrow>
       (let t = t\<lparr>pr_processes := bt_remove pid (pr_processes t)\<rparr>;
            ofds = ofdt_iter (p_ofd_table p);
            k = fold drop_pipe_ofd ofds k;
            k = fold drop_pty_ofd ofds k;
            k = fold (drop_socket_ofd (p_sockets p)) ofds k;
            (closes, k) = fold drop_socket (skt_iter (p_sockets p)) ([], k);
            k = k\<lparr>k_mqueues := mq_cleanup_process pid (k_mqueues k),
                  k_unix := unix_cleanup_process pid (k_unix k),
                  k_pshared := ps_cleanup_process pid (k_pshared k)\<rparr>
        in (Some (p, closes), t, k)))"

section \<open>Queries\<close>

definition all_pids :: "ProcessTable \<Rightarrow> u32 list" where
  "all_pids t = map fst (pr_processes t)"

definition pids_in_group :: "ProcessTable \<Rightarrow> u32 \<Rightarrow> u32 list" where
  "pids_in_group t pgid = map fst (filter (\<lambda>(_, p). p_pgid p = pgid) (pr_processes t))"

definition set_current_pid :: "u32 \<Rightarrow> ProcessTable \<Rightarrow> ProcessTable" where
  "set_current_pid pid t = t\<lparr>pr_current_pid := pid\<rparr>"

definition set_current_tid :: "u32 \<Rightarrow> ProcessTable \<Rightarrow> ProcessTable" where
  "set_current_tid tid t = t\<lparr>pr_current_tid := tid\<rparr>"

definition current_process :: "ProcessTable \<Rightarrow> Process option" where
  "current_process t = bt_get (pr_processes t) (pr_current_pid t)"

end
