(* ===== verification/Pipe_Ends.thy ===== *)
theory Pipe_Ends
  imports ProcTable Files_Correct Fork_Correct
begin

text \<open>
  Pipes across processes: the reader and writer counts of a kernel pipe are the numbers of read and
  write ends that the processes hold, through \<open>pipe\<close>, \<open>dup\<close>, \<open>close\<close>, \<open>fork\<close> and the removal of a
  process. This is what end-of-file and \<open>EPIPE\<close> rest on.
\<close>

section \<open>The ends a process holds and the counts of a pipe\<close>

definition end_at :: "bool \<Rightarrow> nat \<Rightarrow> OpenFileDesc \<Rightarrow> bool" where
  "end_at rd i d \<longleftrightarrow> is_kernel_pipe d \<and> kernel_idx (ofd_host_handle d) = i \<and> is_read_end d = rd"

definition pends :: "bool \<Rightarrow> Process \<Rightarrow> nat \<Rightarrow> nat" where
  "pends rd p i = count_where (end_at rd i) (ofdt_get (p_ofd_table p))"

definition pb_count :: "bool \<Rightarrow> PipeBuffer \<Rightarrow> nat" where
  "pb_count rd b = unat (if rd then pb_read_count b else pb_write_count b)"

definition pcount :: "bool \<Rightarrow> Kernel \<Rightarrow> nat \<Rightarrow> nat" where
  "pcount rd k i = (case pt_get (k_pipes k) i of None \<Rightarrow> 0 | Some b \<Rightarrow> pb_count rd b)"

definition pipes_ok :: "Kernel \<Rightarrow> bool" where
  "pipes_ok k \<longleftrightarrow> is_centralized_mode k \<and> pt_wf (k_pipes k) \<and>
    (\<forall>i b. pt_get (k_pipes k) i = Some b \<longrightarrow> \<not> pb_is_fully_closed b)"

definition close_end :: "bool \<Rightarrow> PipeBuffer \<Rightarrow> WakeupBuffer \<Rightarrow> PipeBuffer \<times> WakeupBuffer" where
  "close_end rd = (if rd then pb_close_read_end else pb_close_write_end)"

definition add_end :: "bool \<Rightarrow> PipeBuffer \<Rightarrow> PipeBuffer" where
  "add_end rd = (if rd then pb_add_reader else pb_add_writer)"

lemma pb_fully_closed_count: "pb_is_fully_closed b \<longleftrightarrow> (\<forall>rd. pb_count rd b = 0)"
  by (auto simp: pb_is_fully_closed_def pb_count_def all_bool_eq unat_eq_zero)

lemma close_end_count: "pb_count rd (fst (close_end s b wk)) = pb_count rd b - of_bool (rd = s)"
  by (auto simp: pb_count_def close_end_def pb_close_read_end_def pb_close_write_end_def unat_saturating_sub)

lemma close_end_wakeup: "wk_centralized (snd (close_end s b wk)) = wk_centralized wk"
  by (auto simp: close_end_def pb_close_read_end_def pb_close_write_end_def wakeup_push_def)

lemma add_end_count: "Suc (pb_count s b) < 2 ^ 32 \<Longrightarrow> pb_count rd (add_end s b) = pb_count rd b + of_bool (rd = s)"
  by (auto simp: pb_count_def add_end_def pb_add_reader_def pb_add_writer_def unat_word_ariths)

section \<open>The operations on a pipe\<close>

lemma pt_wf_modify: "pt_wf (pt_get_mut i f t) = pt_wf t"
  by (auto simp: pt_wf_def pt_get_mut_def slot_get_modify)

lemma pt_get_modify: "pt_get (pt_get_mut i f t) j = (if i = j then map_option f (pt_get t j) else pt_get t j)"
  by (simp add: pt_get_def pt_get_mut_def slot_get_modify)

lemma pt_free_if_closed_laws:
  assumes "pt_wf t"
  shows "pt_wf (pt_free_if_closed i t)"
    and "pt_get (pt_free_if_closed i t) j = (case pt_get t j of
        Some b \<Rightarrow> if i = j \<and> pb_is_fully_closed b then None else Some b | None \<Rightarrow> None)"
proof -
  show "pt_get (pt_free_if_closed i t) j = (case pt_get t j of
      Some b \<Rightarrow> if i = j \<and> pb_is_fully_closed b then None else Some b | None \<Rightarrow> None)"
    by (auto simp: pt_free_if_closed_def pt_get_def split: option.split dest: slot_get_SomeD)
  show "pt_wf (pt_free_if_closed i t)"
  proof (cases "\<exists>b. slot_get (pt_pipes t) i = Some b \<and> pb_is_fully_closed b")
    case True
    then obtain b where b: "slot_get (pt_pipes t) i = Some b" "pb_is_fully_closed b" by blast
    then have "i \<notin> set (pt_free_list t)" "i < length (pt_pipes t)"
      using pt_wfD(2) [OF assms, of i] by (auto dest: slot_get_SomeD)
    then show ?thesis using assms b by (auto simp: pt_free_if_closed_def pt_wf_def)
  next
    case False
    then have "pt_free_if_closed i t = t" by (auto simp: pt_free_if_closed_def split: option.split)
    with assms show ?thesis by simp
  qed
qed

lemma close_global_end_laws:
  assumes "pipes_ok k"
  shows "pipes_ok (close_global_end (close_end s) i k)"
    and "pcount rd (close_global_end (close_end s) i k) j = pcount rd k j - of_bool (rd = s \<and> i = j)"
proof -
  let ?k' = "close_global_end (close_end s) i k"
  have wf: "pt_wf (k_pipes k)" using assms by (simp add: pipes_ok_def)
  have get: "pt_get (k_pipes ?k') j = (case pt_get (k_pipes k) j of
      None \<Rightarrow> None
    | Some b \<Rightarrow> (let b' = (if i = j then fst (close_end s b (k_wakeup k)) else b) in
         if i = j \<and> pb_is_fully_closed b' then None else Some b'))" for j
    by (auto simp: close_global_end_def free_global_if_closed_def pt_free_if_closed_laws pt_wf_modify wf pt_get_modify
      split: option.split prod.split)
  show "pcount rd ?k' j = pcount rd k j - of_bool (rd = s \<and> i = j)"
    by (auto simp: pcount_def get Let_def close_end_count pb_fully_closed_count split: option.split)
  have "is_centralized_mode ?k'"
    using assms close_end_wakeup [of s _ "k_wakeup k"]
    by (auto simp: pipes_ok_def is_centralized_mode_def close_global_end_def free_global_if_closed_def split: option.split prod.split)
      (metis snd_conv)
  moreover have "pt_wf (k_pipes ?k')"
    by (auto simp: close_global_end_def free_global_if_closed_def pt_free_if_closed_laws pt_wf_modify wf split: option.split prod.split)
  ultimately show "pipes_ok ?k'"
    using assms by (auto simp: pipes_ok_def get Let_def split: option.splits if_splits)
qed

lemma pipe_modify_laws:
  assumes "pipes_ok k" "Suc (pcount s k i) < 2 ^ 32"
  shows "pipes_ok (pipe_modify i (add_end s) k)"
    and "0 < pcount r k i \<Longrightarrow> pcount rd (pipe_modify i (add_end s) k) j = pcount rd k j + of_bool (rd = s \<and> i = j)"
proof -
  let ?k' = "pipe_modify i (add_end s) k"
  have get: "pt_get (k_pipes ?k') j = (if i = j then map_option (add_end s) (pt_get (k_pipes k) j) else pt_get (k_pipes k) j)" for j
    by (simp add: pipe_modify_def pt_get_modify)
  have cnt: "pb_count rd (add_end s b) = pb_count rd b + of_bool (rd = s)" if "pt_get (k_pipes k) i = Some b" for rd b
    using that assms(2) by (intro add_end_count) (simp add: pcount_def)
  show "pcount rd ?k' j = pcount rd k j + of_bool (rd = s \<and> i = j)" if "0 < pcount r k i"
    using that cnt by (auto simp: pcount_def get split: option.splits)
  show "pipes_ok ?k'"
    using assms(1) cnt unfolding pipes_ok_def get
    by (auto simp: pb_fully_closed_count pipe_modify_def pt_wf_modify is_centralized_mode_def split: if_splits)
qed

section \<open>Releasing a description\<close>

definition plain :: "Process \<Rightarrow> bool" where
  "plain p \<longleftrightarrow> (\<forall>i s. skt_get (p_sockets p) i = Some s \<longrightarrow> \<not> sk_global_pipes s)"

definition same_pipes :: "Kernel \<Rightarrow> Kernel \<Rightarrow> bool" where
  "same_pipes k k' \<longleftrightarrow> k_pipes k' = k_pipes k \<and> is_centralized_mode k' = is_centralized_mode k"

lemma same_pipesD: "same_pipes k k' \<Longrightarrow> pipes_ok k' = pipes_ok k" "same_pipes k k' \<Longrightarrow> pcount rd k' = pcount rd k"
  by (simp_all add: same_pipes_def pipes_ok_def pcount_def fun_eq_iff)

lemma same_pipes_trans: "same_pipes k k1 \<Longrightarrow> same_pipes k1 k2 \<Longrightarrow> same_pipes k k2"
  by (simp add: same_pipes_def)

lemma same_pipes_host_unit: "same_pipes k (snd (host_unit host c k))"
  by (simp add: same_pipes_def is_centralized_mode_def)

lemma close_pipe_global:
  assumes "is_centralized_mode k" "sint h < 0"
  shows "close_pipe host h flags p k = (p, close_global_end (close_end (flags AND O_ACCMODE = O_RDONLY)) (kernel_idx h) k)"
proof (cases "pt_get (k_pipes k) (kernel_idx h)")
  case None
  then have "free_global_if_closed (kernel_idx h) k = k"
    by (simp add: free_global_if_closed_def pt_free_if_closed_def pt_get_def)
  with None assms show ?thesis by (simp add: close_pipe_def Let_def pipe_update_def close_global_end_def)
next
  case (Some b)
  with assms show ?thesis
    by (simp add: close_pipe_def Let_def pipe_update_def close_global_end_def close_end_def split: prod.split)
qed

lemma pipe_update_local: "pipe_update False i (close_end s) p k = (b, p', k') \<Longrightarrow> same_pipes k k' \<and> p_sockets p' = p_sockets p"
  using close_end_wakeup [of s _ "k_wakeup k"]
  by (auto simp: pipe_update_def same_pipes_def is_centralized_mode_def split: option.splits prod.splits) (metis snd_conv)+

lemma close_socket_end_local:
  "close_socket_end False x (close_end s) p k = (b, p', k') \<Longrightarrow> same_pipes k k' \<and> p_sockets p' = p_sockets p"
  by (auto simp: close_socket_end_def split: option.splits prod.splits dest!: pipe_update_local)
    (simp_all add: same_pipes_def)

lemma close_socket_plain:
  assumes "plain p" "close_socket host h p k = (p', k')"
  shows "same_pipes k k' \<and> plain p'"
proof -
  have free: "plain (q\<lparr>p_sockets := skt_free i (p_sockets q)\<rparr>)" if "plain q" for q i
    using that by (auto simp: plain_def skt_get_free split: if_splits)
  show ?thesis
  proof (cases "skt_get (p_sockets p) (kernel_idx h)")
    case None
    with assms free [OF assms(1)] show ?thesis by (auto simp: close_socket_def same_pipes_def)
  next
    case (Some sock)
    then have g: "\<not> sk_global_pipes sock" using assms(1) by (auto simp: plain_def)
    define k1 where "k1 = (case sk_host_net_handle sock of None \<Rightarrow> k | Some nh \<Rightarrow>
        (let (last, refs) = host_net_handle_close_ref nh (k_net_refs k); k = k\<lparr>k_net_refs := refs\<rparr>
         in if last then snd (host_unit host (HostNetClose nh) k) else k))"
    define k2 where "k2 = (case sk_shared_backlog_idx sock of None \<Rightarrow> k1 | Some i \<Rightarrow> k1\<lparr>k_backlogs := blt_dec_ref i (k_backlogs k1)\<rparr>)"
    have k1: "same_pipes k k1"
      by (auto simp: k1_def same_pipes_def host_unit_def host_call_def is_centralized_mode_def Let_def split: option.split prod.split)
    have k2: "same_pipes k k2" using k1 by (auto simp: k2_def same_pipes_def is_centralized_mode_def split: option.split)
    obtain b3 p3 k3 where s3: "close_socket_end False (sk_send_buf_idx sock) (close_end False) p k2 = (b3, p3, k3)" by (metis prod_cases3)
    obtain b4 p4 k4 where s4: "close_socket_end False (sk_recv_buf_idx sock) (close_end True) p3 k3 = (b4, p4, k4)" by (metis prod_cases3)
    have "same_pipes k k4" "p_sockets p4 = p_sockets p"
      using close_socket_end_local [OF s3] close_socket_end_local [OF s4] k2 same_pipes_trans by metis+
    moreover have "close_socket host h p k =
        (let p5 = free_local_pipe b4 (free_local_pipe b3 p4) in (p5\<lparr>p_sockets := skt_free (kernel_idx h) (p_sockets p5)\<rparr>, k4))"
      using g s3 s4 unfolding close_socket_def Let_def [of "kernel_idx h"] Some option.case k1_def [symmetric]
        Let_def [of k1] k2_def [symmetric]
      by (simp add: Let_def close_end_def)
    moreover have "p_sockets (free_local_pipe b4 (free_local_pipe b3 p4)) = p_sockets p4"
      by (simp add: free_local_pipe_def split: option.split)
    ultimately show ?thesis using assms free [of "free_local_pipe b4 (free_local_pipe b3 p4)"]
      by (simp add: plain_def Let_def)
  qed
qed

lemma close_pty_pipes: "same_pipes k (close_pty m h k)"
  by (simp add: close_pty_def same_pipes_def is_centralized_mode_def Let_def split: option.split)

lemma release_ofd_laws:
  assumes "pipes_ok k" "plain p" "release_ofd host d p k = (r, p', k')"
  shows "pipes_ok k' \<and> plain p' \<and> (\<forall>rd i. pcount rd k' i = pcount rd k i - of_bool (end_at rd i d))"
proof (cases "is_kernel_pipe d")
  case True
  then have "close_pipe host (ofd_host_handle d) (ofd_status_flags d) p k =
      (p, close_global_end (close_end (is_read_end d)) (kernel_idx (ofd_host_handle d)) k)"
    using close_pipe_global assms(1) by (simp add: is_kernel_pipe_def is_read_end_def pipes_ok_def)
  with True assms close_global_end_laws [OF assms(1)] show ?thesis
    by (auto simp: release_ofd_def is_kernel_pipe_def end_at_def)
next
  case False
  have "same_pipes k k' \<and> plain p'"
  proof (cases "ofd_file_type d = Socket")
    case True
    with assms close_socket_plain [OF assms(2)] show ?thesis by (auto simp: release_ofd_def)
  next
    case False
    with \<open>\<not> is_kernel_pipe d\<close> assms(2,3) close_pty_pipes show ?thesis
      by (auto simp: release_ofd_def is_kernel_pipe_def close_pipe_def close_host_file_def host_unit_def host_call_def same_pipes_def
          is_centralized_mode_def plain_def Let_def split: FileType.splits prod.splits if_splits)
  qed
  with False assms(1) same_pipesD [of k k'] show ?thesis by (auto simp: end_at_def)
qed

section \<open>The system calls of one process\<close>

text \<open>
  \<open>owns p k\<close>: the process is well-formed and each end it holds is counted. \<open>moves p k p' k'\<close>: the counts
  of the pipes have changed exactly by the change in the ends the process holds.
\<close>

definition owns :: "Process \<Rightarrow> Kernel \<Rightarrow> bool" where
  "owns p k \<longleftrightarrow> pipes_ok k \<and> plain p \<and> counted p \<and> (\<forall>rd i. pends rd p i \<le> pcount rd k i)"

definition moves :: "Process \<Rightarrow> Kernel \<Rightarrow> Process \<Rightarrow> Kernel \<Rightarrow> bool" where
  "moves p k p' k' \<longleftrightarrow> pipes_ok k' \<and> plain p' \<and> counted p' \<and>
    (\<forall>rd i. pcount rd k' i + pends rd p i = pcount rd k i + pends rd p' i)"

lemma moves_owns:
  assumes "owns p k" "moves p k p' k'"
  shows "owns p' k'"
proof -
  have "pends rd p' i \<le> pcount rd k' i" for rd i
  proof -
    have "pends rd p i \<le> pcount rd k i" using assms(1) by (simp add: owns_def)
    moreover have "pcount rd k' i + pends rd p i = pcount rd k i + pends rd p' i" using assms(2) by (simp add: moves_def)
    ultimately show ?thesis by linarith
  qed
  with assms show ?thesis by (simp add: owns_def moves_def)
qed

lemma moves_trans:
  assumes "moves p k p1 k1" "moves p1 k1 p2 k2"
  shows "moves p k p2 k2"
proof -
  have "pcount rd k2 i + pends rd p i = pcount rd k i + pends rd p2 i" for rd i
  proof -
    have "pcount rd k1 i + pends rd p i = pcount rd k i + pends rd p1 i"
      "pcount rd k2 i + pends rd p1 i = pcount rd k1 i + pends rd p2 i" using assms by (simp_all add: moves_def)
    then show ?thesis by linarith
  qed
  with assms show ?thesis by (simp add: moves_def)
qed

lemma moves_refl: "owns p k \<Longrightarrow> moves p k p k"
  by (simp add: moves_def owns_def)

lemma finite_dom_ofdt_get [simp]: "finite (dom (ofdt_get t))"
  using finite_dom_slot_get [of t] by (simp add: ofdt_get_def [abs_def])

text \<open>The number of ends depends on type, handle and access mode of the descriptions only.\<close>

definition same_end :: "OpenFileDesc \<Rightarrow> OpenFileDesc \<Rightarrow> bool" where
  "same_end d d' \<longleftrightarrow> ofd_file_type d' = ofd_file_type d \<and> ofd_host_handle d' = ofd_host_handle d \<and>
    is_read_end d' = is_read_end d"

lemma pends_cong:
  assumes "\<And>i. rel_option same_end (ofdt_get (p_ofd_table p) i) (ofdt_get (p_ofd_table p') i)"
  shows "pends rd p = pends rd p'"
proof
  fix i
  have "end_at rd i d = end_at rd i d'" if "same_end d d'" for d d'
    using that by (simp add: end_at_def is_kernel_pipe_def same_end_def)
  with assms show "pends rd p i = pends rd p' i"
    unfolding pends_def by (intro count_where_cong) (metis option_rel_Some1 option_rel_Some2)+
qed

lemma same_end_refl [simp]: "same_end d d" "rel_option same_end x x"
  by (auto simp: same_end_def option.rel_refl)

lemma sys_close_moves:
  assumes "owns p k" "sys_close host fd p k = (r, p', k')"
  shows "moves p k p' k'"
proof (cases "fdt_get (p_fd_table p) fd")
  case (Inl e)
  with assms moves_refl sys_close_not_open show ?thesis by auto
next
  case (Inr e)
  have own: "pipes_ok k" "plain p" "counted p" "\<And>rd i. pends rd p i \<le> pcount rd k i" using assms(1) by (simp_all add: owns_def)
  from fdt_free_Ok [OF Inr] obtain fds where fds: "fdt_free (p_fd_table p) fd = (Ok (ofd_ref e), fds)" .
  have "0 < ofd_count (p_ofd_table p) (ofd_ref e)"
    using fd_refs_removed(1) [OF finite_dom_fdt_map conjunct2 [OF fdt_get_OkD [OF Inr]]] own(3)
    by (simp add: counted_def tables_counted_def)
  then obtain d where d: "ofdt_get (p_ofd_table p) (ofd_ref e) = Some d" by (auto simp: ofd_count_def split: option.splits)
  obtain freed ofds where dec: "ofdt_dec_ref (ofd_ref e) (p_ofd_table p) = (freed, ofds)" by fastforce
  note get = ofdt_dec_ref_get [OF d dec]
  obtain p1 k1 where l: "drop_posix_locks host d (p\<lparr>p_fd_table := fds\<rparr>) k = (p1, k1)" by fastforce
  then have k1: "same_pipes k k1" "p_ofd_table p1 = p_ofd_table p" "p_sockets p1 = p_sockets p"
    by (auto simp: drop_posix_locks_def same_pipes_host_unit split: if_splits) (simp_all add: same_pipes_def is_centralized_mode_def)
  let ?p2 = "p1\<lparr>p_ofd_table := ofds\<rparr>"
  obtain r3 p3 k3 where rel: "(if freed then release_ofd host d ?p2 k1 else (Ok (), ?p2, k1)) = (r3, p3, k3)" by (metis prod_cases3)
  have eq: "p' = p3" "k' = (case r3 of Inl _ \<Rightarrow> k3 | Inr _ \<Rightarrow> release_devices d p3 k3)"
    using assms(2) fds d l dec rel k1(2) by (auto simp: sys_close_def Let_def split: sum.splits)
  have "same_pipes k3 k'"
    by (auto simp: eq release_devices_def maybe_release_fb0_def maybe_release_mice_def maybe_release_dsp_def
      same_pipes_def is_centralized_mode_def Let_def split: sum.split)
  then have k3: "pipes_ok k' = pipes_ok k3" "pcount rd k' = pcount rd k3" for rd by (rule same_pipesD)+
  have ok1: "pipes_ok k1" "plain ?p2" using own k1 same_pipesD by (simp_all add: plain_def)
  have rel3: "pipes_ok k3" "plain p3" "pcount rd k3 i = pcount rd k i - of_bool (freed \<and> end_at rd i d)" for rd i
    using rel release_ofd_laws [OF ok1] ok1 same_pipesD(2) [OF k1(1)] by (auto split: if_splits)
  have "p_ofd_table p3 = ofds" using rel release_ofd_tables by (fastforce simp: same_tables_def split: if_splits)
  then have ends: "pends rd p' i + of_bool (freed \<and> end_at rd i d) = pends rd p i" for rd i
    using count_where_remove [OF finite_dom_ofdt_get d, of "end_at rd i"]
      count_where_replace [OF finite_dom_ofdt_get d, of "end_at rd i" "d\<lparr>ofd_ref_count := ofd_ref_count d - 1\<rparr>"]
    by (auto simp: pends_def get eq end_at_def is_kernel_pipe_def is_read_end_def)
  have "pcount rd k' i + pends rd p i = pcount rd k i + pends rd p' i" for rd i
    unfolding k3(2) rel3(3) using own(4) [of rd i] ends [of rd i] by linarith
  with sys_close_effect(1) [OF own(3) assms(2)] rel3(1,2) k3(1) eq(1) show ?thesis by (simp add: moves_def)
qed

lemma undo_ref:
  assumes "ofds_live t"
  shows "ofdt_get (snd (ofdt_dec_ref i (ofdt_inc_ref i t))) j = ofdt_get t j"
proof (cases "ofdt_get t i")
  case None
  then show ?thesis by (auto simp: ofdt_dec_ref_eq ofdt_get_inc_ref)
next
  case (Some d)
  let ?d = "d\<lparr>ofd_ref_count := ofd_ref_count d + 1\<rparr>"
  have inc: "ofdt_get (ofdt_inc_ref i t) i = Some ?d" using Some by (simp add: ofdt_get_inc_ref)
  obtain b t' where dec: "ofdt_dec_ref i (ofdt_inc_ref i t) = (b, t')" by fastforce
  have "ofd_ref_count d \<noteq> 0" using assms Some by (simp add: ofds_live_def)
  with ofdt_dec_ref_get(2) [OF inc dec] Some dec show ?thesis by (cases d) (auto simp: ofdt_get_inc_ref)
qed

lemma with_new_ref_moves:
  assumes "owns p k" "with_new_ref i place p = (r, p')" "counted p'"
  shows "moves p k p' k"
proof -
  have live: "ofds_live (p_ofd_table p)" using assms(1) by (simp add: owns_def counted_def tables_counted_def)
  have "p_ofd_table p' = ofdt_inc_ref i (p_ofd_table p) \<or>
      p_ofd_table p' = snd (ofdt_dec_ref i (ofdt_inc_ref i (p_ofd_table p)))" "p_sockets p' = p_sockets p"
    using assms(2) by (auto simp: with_new_ref_def Let_def split: prod.splits sum.splits)
  moreover have "same_end d (d\<lparr>ofd_ref_count := n\<rparr>)" for d n by (simp add: same_end_def is_read_end_def)
  ultimately have "rel_option same_end (ofdt_get (p_ofd_table p) j) (ofdt_get (p_ofd_table p') j)" for j
    using undo_ref [OF live, of i j] by (auto simp: ofdt_get_inc_ref option.rel_map option.rel_refl)
  then have "pends rd p = pends rd p'" for rd by (rule pends_cong)
  with assms(1,3) \<open>p_sockets p' = p_sockets p\<close> show ?thesis by (simp add: moves_def owns_def plain_def)
qed

lemma sys_dup_moves:
  assumes "owns p k" "sys_dup fd p = (r, p')"
  shows "moves p k p' k"
proof -
  have "counted p'" using assms sys_dup_effect by (auto simp: owns_def)
  with assms moves_refl with_new_ref_moves show ?thesis
    by (auto simp: sys_dup_def split: sum.splits)
qed

lemma sys_dup2_moves:
  assumes "owns p k" "sys_dup2 host old new p k = (r, p', k')"
  shows "moves p k p' k'"
proof (cases "isl (fdt_get (p_fd_table p) old) \<or> old = new")
  case True
  with assms moves_refl show ?thesis by (auto simp: sys_dup2_def isl_def split: sum.splits)
next
  case False
  then obtain e where e: "fdt_get (p_fd_table p) old = Ok e" "old \<noteq> new" by (cases "fdt_get (p_fd_table p) old") auto
  obtain r1 p1 k1 where c: "sys_close host new p k = (r1, p1, k1)" by (metis prod_cases3)
  note m1 = sys_close_moves [OF assms(1) c]
  note o1 = moves_owns [OF assms(1) m1]
  have "counted p'" using sys_dup2_effect [OF _ assms(2)] assms(1) by (simp add: owns_def)
  then have "moves p1 k1 p' k'"
    using assms(2) e c moves_refl [OF o1] with_new_ref_moves [OF o1]
    by (auto simp: sys_dup2_def split: sum.splits prod.splits)
  with m1 show ?thesis by (rule moves_trans)
qed

lemma set_fd_flags_moves: "owns p k \<Longrightarrow> moves p k (set_fd_flags fd flags p) k"
  using set_fd_flags_counted [of p fd flags] by (simp add: moves_def owns_def set_fd_flags_def pends_def plain_def)

lemma sys_dup3_moves:
  assumes "owns p k" "sys_dup3 host old new flags p k = (r, p', k')"
  shows "moves p k p' k'"
proof (cases "old = new")
  case True
  with assms moves_refl show ?thesis by (simp add: sys_dup3_def)
next
  case False
  obtain r1 p1 k1 where d: "sys_dup2 host old new p k = (r1, p1, k1)" by (metis prod_cases3)
  note m1 = sys_dup2_moves [OF assms(1) d]
  with set_fd_flags_moves [OF moves_owns [OF assms(1) m1]] moves_trans assms(2) d False show ?thesis
    by (auto simp: sys_dup3_def split: sum.splits if_splits)
qed

lemma modify_moves:
  assumes "owns p k" "\<And>d. same_end d (f d)" "\<And>d. ofd_ref_count (f d) = ofd_ref_count d"
  shows "moves p k (p\<lparr>p_ofd_table := slot_modify i f (p_ofd_table p)\<rparr>) k"
proof -
  let ?p' = "p\<lparr>p_ofd_table := slot_modify i f (p_ofd_table p)\<rparr>"
  have "rel_option same_end (ofdt_get (p_ofd_table p) j) (ofdt_get (p_ofd_table ?p') j)" for j
    using assms(2) by (auto simp: ofdt_get_def slot_get_modify option.rel_map option.rel_refl)
  then have "pends rd p = pends rd ?p'" for rd by (rule pends_cong)
  moreover have "counted ?p'" using assms(1) ofd_count_modify [of f i "p_ofd_table p"] assms(3)
    by (simp add: counted_def tables_counted_def owns_def)
  ultimately show ?thesis using assms(1) by (simp add: moves_def owns_def plain_def)
qed

lemma setfl_same_end: "same_end d (d\<lparr>ofd_status_flags := (ofd_status_flags d AND NOT SETFL_MODIFIABLE) OR (fl AND SETFL_MODIFIABLE)\<rparr>)"
  by (simp add: same_end_def is_read_end_def bit.conj_disj_distrib2 and.assoc)

lemma sys_fcntl_moves:
  assumes "owns p k" "sys_fcntl fd cmd arg p = (r, p')"
  shows "moves p k p' k"
proof (cases "fdt_get (p_fd_table p) fd")
  case (Inl e)
  then have "fdt_get_mut (p_fd_table p) fd f = (Err EBADF, p_fd_table p)" for f
    by (auto simp: fdt_get_def fdt_get_mut_def Let_def ok_or_def split: if_splits option.splits)
  with Inl assms moves_refl show ?thesis by (auto simp: sys_fcntl_def split: if_splits)
next
  case (Inr e)
  have "counted p'" using assms sys_fcntl_counted by (auto simp: owns_def)
  then have "moves p k p' k" if "with_new_ref i place p = (r, p')" for i place
    using with_new_ref_moves [OF assms(1) that] by simp
  moreover have "moves p k (p\<lparr>p_fd_table := fds\<rparr>) k" if "fdt_get_mut (p_fd_table p) fd (\<lambda>e. e\<lparr>fd_flags := arg\<rparr>) = (r1, fds)" for r1 fds
    using set_fd_flags_moves [OF assms(1), of fd arg] that by (simp add: set_fd_flags_def)
  moreover have "moves p k (p\<lparr>p_ofd_table := slot_modify i
      (\<lambda>d. d\<lparr>ofd_status_flags := (ofd_status_flags d AND NOT SETFL_MODIFIABLE) OR (arg AND SETFL_MODIFIABLE)\<rparr>) (p_ofd_table p)\<rparr>) k" for i
    by (rule modify_moves [OF assms(1)]) (rule setfl_same_end, simp)
  moreover have "moves p k (p\<lparr>p_ofd_table := slot_modify i (\<lambda>d. d\<lparr>ofd_owner_pid := arg\<rparr>) (p_ofd_table p)\<rparr>) k" for i
    by (rule modify_moves [OF assms(1)]) (simp_all add: same_end_def is_read_end_def)
  ultimately show ?thesis
    using assms Inr moves_refl [OF assms(1)] unfolding sys_fcntl_def ofdt_set_status_flags_def Let_def
    by (auto split: if_splits prod.splits sum.splits option.splits)
qed

lemma kernel_idx_pipe:
  assumes "i < 2 ^ 63"
  shows "kernel_idx (- (word_of_nat i + 1)) = i" and "sint (- (word_of_nat i + 1) :: i64) < 0"
proof -
  have u: "unat (word_of_nat i :: i64) = i" using assms by (intro unat_word_of_nat) simp
  then show "kernel_idx (- (word_of_nat i + 1)) = i" by (simp add: kernel_idx_def)
  have "- (word_of_nat i + 1) = (word_of_int (- int i - 1) :: i64)" by simp
  moreover have "sint (word_of_int (- int i - 1) :: i64) = - int i - 1"
    using assms by (simp add: signed_of_int signed_take_bit_int_eq_self del: of_int_diff of_int_minus)
  ultimately show "sint (- (word_of_nat i + 1) :: i64) < 0" by simp
qed

lemma pt_alloc_counts:
  assumes "pipes_ok k" "pt_alloc (pb_new n) (k_pipes k) = (i, t)"
  shows "pipes_ok (k\<lparr>k_pipes := t\<rparr>)" and "pcount rd (k\<lparr>k_pipes := t\<rparr>) j = pcount rd k j + of_bool (i = j)"
    and "i \<le> length (pt_pipes (k_pipes k))"
proof -
  have wf: "pt_wf (k_pipes k)" using assms(1) by (simp add: pipes_ok_def)
  have get: "pt_get (k_pipes k) i = None" "pt_get t = (pt_get (k_pipes k))(i \<mapsto> pb_at (pb_new n) i)"
    using pt_alloc_get [OF wf assms(2)] by simp_all
  have cnt: "pb_count rd (pb_at (pb_new n) i) = 1" for rd by (simp add: pb_count_def pb_at_def pb_new_def)
  show "pcount rd (k\<lparr>k_pipes := t\<rparr>) j = pcount rd k j + of_bool (i = j)"
    by (auto simp: pcount_def get cnt)
  show "pipes_ok (k\<lparr>k_pipes := t\<rparr>)"
    using assms(1) pt_alloc_wf [OF wf assms(2)] cnt
    by (auto simp: pipes_ok_def get is_centralized_mode_def pb_fully_closed_count split: if_splits)
  show "i \<le> length (pt_pipes (k_pipes k))" using wf assms(2) by (cases rule: pt_alloc_cases) auto
qed

lemma sys_pipe_moves:
  assumes "owns p k" "sys_pipe p k = (Inr x, p', k')" "length (pt_pipes (k_pipes k)) < 2 ^ 63"
  shows "moves p k p' k'"
proof (cases "p_fork_child p \<and> p_fork_pipe_replay p \<noteq> []")
  case True
  with assms(1,2) show ?thesis
    by (auto simp: sys_pipe_def moves_def owns_def pends_def plain_def counted_def)
next
  case False
  have ok: "pipes_ok k" "counted p" "plain p" using assms(1) by (simp_all add: owns_def)
  obtain i t where al: "pt_alloc (pb_new DEFAULT_PIPE_CAPACITY) (k_pipes k) = (i, t)" by fastforce
  note cnt = pt_alloc_counts [OF ok(1) al]
  let ?k' = "k\<lparr>k_pipes := t\<rparr>" and ?h = "- (word_of_nat i + 1) :: i64" and ?path = "bstr ''/dev/pipe''"
  have pc: "pipe_create p k = (i, p, ?k')" using ok(1) al by (simp add: pipe_create_def pipes_ok_def Let_def)
  obtain ri o1 where c1: "ofdt_create Pipe O_RDONLY ?h ?path (p_ofd_table p) = (ri, o1)" by fastforce
  obtain wi o2 where c2: "ofdt_create Pipe O_WRONLY ?h ?path o1 = (wi, o2)" by fastforce
  have p': "p_ofd_table p' = o2" "k' = ?k'" "p_sockets p' = p_sockets p"
    using assms(2) False pc c1 c2 by (auto simp: sys_pipe_def Let_def split: prod.splits sum.splits)
  note h = kernel_idx_pipe [of i]
  have e: "end_at rd j (ofd_fresh Pipe O_RDONLY ?h ?path) = (rd \<and> j = i)"
    "end_at rd j (ofd_fresh Pipe O_WRONLY ?h ?path) = (\<not> rd \<and> j = i)" for rd j
    using h cnt(3) assms(3) by (auto simp: end_at_def is_kernel_pipe_def is_read_end_def ofd_fresh_def)
  have g1: "ofdt_get (p_ofd_table p) ri = None" "ofdt_get o1 = (ofdt_get (p_ofd_table p))(ri \<mapsto> ofd_fresh Pipe O_RDONLY ?h ?path)"
    using ofdt_create_get [OF c1] by simp_all
  have g2: "ofdt_get o1 wi = None" "ofdt_get o2 = (ofdt_get o1)(wi \<mapsto> ofd_fresh Pipe O_WRONLY ?h ?path)"
    using ofdt_create_get [OF c2] by simp_all
  have n1: "count_where P (ofdt_get o1) = count_where P (ofdt_get (p_ofd_table p)) + of_bool (P (ofd_fresh Pipe O_RDONLY ?h ?path))" for P
    unfolding g1(2) by (rule count_where_bind) (simp_all add: g1(1))
  have n2: "count_where P (ofdt_get o2) = count_where P (ofdt_get o1) + of_bool (P (ofd_fresh Pipe O_WRONLY ?h ?path))" for P
    unfolding g2(2) by (rule count_where_bind) (simp_all add: g2(1))
  have "pends rd p' j = pends rd p j + of_bool (j = i)" for rd j
    unfolding pends_def p'(1) n2 n1 e by (cases rd) simp_all
  with cnt(1,2) p'(2,3) ok(3) sys_pipe_counted [OF ok(2) assms(2)] show ?thesis
    by (auto simp: moves_def plain_def)
qed

lemma sys_pipe2_moves:
  assumes "owns p k" "sys_pipe2 flags p k = (r, p', k')" "\<not> isl (fst (sys_pipe p k))" "length (pt_pipes (k_pipes k)) < 2 ^ 63"
  shows "moves p k p' k'"
proof -
  obtain x p1 k1 where s: "sys_pipe p k = (Inr x, p1, k1)" using assms(3) by (metis prod_cases3 fst_conv sum.collapse(2))
  obtain rf wf where x: "x = (rf, wf)" by fastforce
  note m1 = sys_pipe_moves [OF assms(1) s assms(4)]
  note o1 = moves_owns [OF assms(1) m1]
  let ?fl = "oflags_to_fd_flags flags"
  define p2 where "p2 = (if ?fl \<noteq> 0 then set_fd_flags wf ?fl (set_fd_flags rf ?fl p1) else p1)"
  have m2: "moves p1 k1 p2 k1"
    using o1 set_fd_flags_moves moves_owns moves_trans moves_refl by (simp add: p2_def) blast
  note o2 = moves_owns [OF o1 m2]
  have nb: "moves q k1 (set_nonblock j q) k1" if "owns q k1" for q j
    unfolding set_nonblock_def
    by (rule modify_moves [OF that]) (simp_all add: same_end_def is_read_end_def bit.conj_disj_distrib2)
  have "sys_pipe2 flags p k = (if flags AND O_NONBLOCK \<noteq> 0 then
      (case (fdt_get (p_fd_table p2) rf, fdt_get (p_fd_table p2) wf) of
         (Inl e, _) \<Rightarrow> (Err e, p2, k1)
       | (_, Inl e) \<Rightarrow> (Err e, p2, k1)
       | (Inr r, Inr w) \<Rightarrow> (Ok (rf, wf), set_nonblock (ofd_ref w) (set_nonblock (ofd_ref r) p2), k1))
      else (Ok (rf, wf), p2, k1))"
    by (simp only: sys_pipe2_def s x prod.case sum.case Let_def p2_def)
  then have m3: "moves p2 k1 p' k1 \<and> k' = k1"
    using assms(2) moves_refl [OF o2] moves_trans [OF nb [OF o2] nb [OF moves_owns [OF o2 nb [OF o2]]]]
    by (auto split: if_splits sum.splits)
  with m1 m2 moves_trans show ?thesis by blast
qed

end
