(* ===== verification/Proc_Pipes.thy ===== *)
theory Proc_Pipes
  imports Pipe_Ends
begin

text \<open>
  Pipe ends over the whole process table: the invariant that ties the counts of every kernel pipe to
  the descriptors of all processes, kept by creation, by the system calls, by fork and by removal.
\<close>

section \<open>Sums over the table\<close>

definition total_ends :: "bool \<Rightarrow> (u32, Process) btree \<Rightarrow> nat \<Rightarrow> nat" where
  "total_ends rd procs i = (\<Sum>(_, p)\<leftarrow>procs. pends rd p i)"

lemma bt_get_mem: "bt_get m k = Some v \<Longrightarrow> (k, v) \<in> set m"
  by (induction m) (auto split: if_splits)

lemma total_replace:
  "bt_get m pid = Some p \<Longrightarrow> bt_wf m \<Longrightarrow> total_ends rd (bt_insert pid q m) i + pends rd p i = total_ends rd m i + pends rd q i"
proof (induction m)
  case (Cons a m)
  obtain k v where a: "a = (k, v)" by fastforce
  have "\<not> pid < k" using Cons.prems bt_get_mem [of m pid p] a by (fastforce split: if_splits)
  with Cons a show ?case by (auto simp: total_ends_def split: if_splits)
qed simp

lemma total_insert:
  "bt_get m pid = None \<Longrightarrow> total_ends rd (bt_insert pid q m) i = total_ends rd m i + pends rd q i"
  by (induction pid q m rule: bt_insert.induct) (auto simp: total_ends_def split: if_splits)

lemma total_remove:
  "bt_wf m \<Longrightarrow> bt_get m pid = Some p \<Longrightarrow> total_ends rd (bt_remove pid m) i + pends rd p i = total_ends rd m i"
proof (induction m)
  case (Cons a m)
  obtain k v where a: "a = (k, v)" by fastforce
  show ?case
  proof (cases "k = pid")
    case True
    then have "bt_remove pid m = m" using Cons.prems(1) a by (auto simp: bt_remove_def filter_id_conv)
    with True Cons.prems(2) a show ?thesis by (simp add: total_ends_def bt_remove_def)
  next
    case False
    with Cons a show ?thesis by (simp add: total_ends_def bt_remove_def)
  qed
qed simp

lemma total_member: "bt_get m pid = Some p \<Longrightarrow> pends rd p i \<le> total_ends rd m i"
  using member_le_sum_list [of "pends rd p i" "map (\<lambda>(_, p). pends rd p i) m"] bt_get_mem [of m pid p]
  by (force simp: total_ends_def)

lemma total_zero: "bt_wf m \<Longrightarrow> total_ends rd m i = 0 \<longleftrightarrow> (\<forall>pid p. bt_get m pid = Some p \<longrightarrow> pends rd p i = 0)"
proof (induction m)
  case (Cons a m)
  obtain k v where a: "a = (k, v)" by fastforce
  have "bt_get m k = None" using Cons.prems a by (cases "bt_get m k") (auto dest!: bt_get_mem)
  then have "(\<forall>pid p. bt_get (a # m) pid = Some p \<longrightarrow> pends rd p i = 0) \<longleftrightarrow>
      pends rd v i = 0 \<and> (\<forall>pid p. bt_get m pid = Some p \<longrightarrow> pends rd p i = 0)"
    using a by auto
  with Cons a show ?case by (simp add: total_ends_def)
qed (simp add: total_ends_def)

section \<open>Folds over the descriptions of a process\<close>

definition list_ends :: "bool \<Rightarrow> nat \<Rightarrow> (nat \<times> OpenFileDesc) list \<Rightarrow> nat" where
  "list_ends rd i ds = length (filter (\<lambda>(_, d). end_at rd i d) ds)"

lemma pends_iter: "pends rd p i = list_ends rd i (ofdt_iter (p_ofd_table p))"
  by (simp add: pends_def list_ends_def ofdt_get_def [abs_def] count_where_iter ofdt_iter_slot_iter)

lemma list_ends_Cons: "list_ends rd i ((j, d) # ds) = of_bool (end_at rd i d) + list_ends rd i ds"
  by (simp add: list_ends_def)

lemma end_at_pipe: "is_kernel_pipe d \<Longrightarrow> end_at rd i d \<longleftrightarrow> rd = is_read_end d \<and> kernel_idx (ofd_host_handle d) = i"
  unfolding end_at_def by blast

lemma drop_pipes_laws:
  "pipes_ok k \<Longrightarrow> pipes_ok (fold drop_pipe_ofd ds k) \<and>
    (\<forall>rd i. pcount rd (fold drop_pipe_ofd ds k) i = pcount rd k i - list_ends rd i ds)"
proof (induction ds arbitrary: k)
  case (Cons a ds)
  obtain j d where a: "a = (j, d)" by fastforce
  define k1 where "k1 = drop_pipe_ofd (j, d) k"
  have step: "pipes_ok k1 \<and> pcount rd k1 i = pcount rd k i - of_bool (end_at rd i d)" for rd i
  proof (cases "is_kernel_pipe d")
    case True
    then have "k1 = close_global_end (close_end (is_read_end d)) (kernel_idx (ofd_host_handle d)) k"
      by (simp add: k1_def drop_pipe_ofd_def close_end_def)
    then have "pipes_ok k1" "pcount rd k1 i = pcount rd k i - of_bool (rd = is_read_end d \<and> kernel_idx (ofd_host_handle d) = i)"
      using close_global_end_laws [OF Cons.prems] by simp_all
    then show ?thesis unfolding end_at_pipe [OF True] by simp
  next
    case False
    with Cons.prems show ?thesis by (simp add: k1_def a drop_pipe_ofd_def end_at_def)
  qed
  then have "pipes_ok (fold drop_pipe_ofd ds k1) \<and>
      (\<forall>rd i. pcount rd (fold drop_pipe_ofd ds k1) i = pcount rd k1 i - list_ends rd i ds)"
    by (intro Cons.IH) blast
  with step show ?case unfolding fold_Cons o_apply k1_def [symmetric] a list_ends_Cons by simp
qed (simp add: list_ends_def)

lemma bump_pipes_laws:
  "pipes_ok k \<Longrightarrow> (\<forall>rd i. 0 < list_ends rd i ds \<longrightarrow> 0 < pcount rd k i) \<Longrightarrow>
    (\<forall>rd i. pcount rd k i + list_ends rd i ds < 2 ^ 32) \<Longrightarrow>
    pipes_ok (fold bump_pipe_ofd ds k) \<and>
    (\<forall>rd i. pcount rd (fold bump_pipe_ofd ds k) i = pcount rd k i + list_ends rd i ds)"
proof (induction ds arbitrary: k)
  case (Cons a ds)
  obtain j d where a: "a = (j, d)" by fastforce
  define k1 where "k1 = bump_pipe_ofd (j, d) k"
  have step: "pipes_ok k1" "pcount rd k1 i = pcount rd k i + of_bool (end_at rd i d)" for rd i
  proof -
    let ?s = "is_read_end d" and ?i = "kernel_idx (ofd_host_handle d)"
    have "pipes_ok k1 \<and> pcount rd k1 i = pcount rd k i + of_bool (end_at rd i d)"
    proof (cases "is_kernel_pipe d")
      case True
      then have e: "end_at ?s ?i d" by (simp add: end_at_def)
      have room: "Suc (pcount ?s k ?i) < 2 ^ 32" "0 < pcount ?s k ?i"
        using Cons.prems(2,3) [rule_format, where rd = ?s and i = ?i] e by (simp_all add: a list_ends_Cons)
      have "k1 = pipe_modify ?i (add_end ?s) k" using True by (simp add: k1_def a bump_pipe_ofd_def add_end_def)
      with True pipe_modify_laws(1) [OF Cons.prems(1) room(1)]
        pipe_modify_laws(2) [OF Cons.prems(1) room(1) room(2), of rd i]
      show ?thesis unfolding end_at_pipe [OF True] by simp
    next
      case False
      with Cons.prems(1) show ?thesis by (simp add: k1_def a bump_pipe_ofd_def end_at_def)
    qed
    then show "pipes_ok k1" "pcount rd k1 i = pcount rd k i + of_bool (end_at rd i d)" by simp_all
  qed
  have "pipes_ok (fold bump_pipe_ofd ds k1) \<and>
    (\<forall>rd i. pcount rd (fold bump_pipe_ofd ds k1) i = pcount rd k1 i + list_ends rd i ds)"
  proof (intro Cons.IH allI impI)
    fix rd i
    show "pcount rd k1 i + list_ends rd i ds < 2 ^ 32"
      using Cons.prems(3) [rule_format, of rd i] by (simp add: step a list_ends_Cons)
    show "0 < pcount rd k1 i" if "0 < list_ends rd i ds"
      using Cons.prems(2) [rule_format, of rd i] that by (simp add: step a list_ends_Cons)
  qed (rule step)
  then show ?case by (simp add: k1_def [symmetric] step(2) a list_ends_Cons)
qed (simp add: list_ends_def)

lemma fold_same_pipes: "(\<And>x k. x \<in> set xs \<Longrightarrow> same_pipes k (f x k)) \<Longrightarrow> same_pipes k (fold f xs k)"
  by (induction xs arbitrary: k) (auto simp: same_pipes_def)


section \<open>The invariant\<close>

definition ends_counted :: "ProcessTable \<Rightarrow> Kernel \<Rightarrow> bool" where
  "ends_counted t k \<longleftrightarrow> bt_wf (pr_processes t) \<and> pipes_ok k \<and>
    (\<forall>pid p. pr_get t pid = Some p \<longrightarrow> plain p \<and> counted p) \<and>
    (\<forall>rd i. pcount rd k i = total_ends rd (pr_processes t) i)"

lemma ends_countedD:
  assumes "ends_counted t k"
  shows "bt_wf (pr_processes t)" "pipes_ok k" "pr_get t pid = Some p \<Longrightarrow> plain p" "pr_get t pid = Some p \<Longrightarrow> counted p"
    "pcount rd k i = total_ends rd (pr_processes t) i"
  using assms by (simp_all add: ends_counted_def)

lemma ends_counted_owns:
  assumes "ends_counted t k" "pr_get t pid = Some p"
  shows "owns p k"
  using ends_countedD [OF assms(1)] assms(2) total_member [of "pr_processes t" pid p]
  by (simp add: owns_def pr_get_def)

lemma ends_counted_call:
  assumes "ends_counted t k" "pr_get t pid = Some p" "moves p k p' k'"
  shows "ends_counted (pr_insert pid p' t) k'"
proof -
  have "pcount rd k' i = total_ends rd (bt_insert pid p' (pr_processes t)) i" for rd i
  proof -
    have "pcount rd k' i + pends rd p i = total_ends rd (pr_processes t) i + pends rd p' i"
      using assms(3) ends_countedD(5) [OF assms(1)] by (simp add: moves_def)
    also have "\<dots> = total_ends rd (bt_insert pid p' (pr_processes t)) i + pends rd p i"
      using total_replace [of "pr_processes t" pid p rd p' i] assms(2) ends_countedD(1) [OF assms(1)] by (simp add: pr_get_def)
    finally show ?thesis by simp
  qed
  then show ?thesis
    using assms by (auto simp: ends_counted_def moves_def pr_insert_def pr_get_def)
qed

lemma ends_counted_silent:
  assumes "ends_counted t k" "pr_get t pid = Some p" "p_ofd_table p' = p_ofd_table p" "p_fd_table p' = p_fd_table p"
    "p_sockets p' = p_sockets p"
  shows "ends_counted (pr_insert pid p' t) k"
  using ends_counted_call [OF assms(1,2), of p' k] assms(3-5) ends_countedD [OF assms(1)] assms(2)
  by (simp add: moves_def pends_def plain_def counted_def)

section \<open>Creation\<close>

lemma pends_process_new: "pends rd (process_new pid) i = 0"
proof -
  have "\<not> end_at rd i d" if "ofdt_get (p_ofd_table (process_new pid)) j = Some d" for j d
    using that by (auto simp: process_new_fields ofdt_get_def slot_get_def nth_Cons' end_at_def is_kernel_pipe_def
        ofd_fresh_def split: if_splits)
  then have "{n. \<exists>d. ofdt_get (p_ofd_table (process_new pid)) n = Some d \<and> end_at rd i d} = {}" by blast
  then show ?thesis unfolding pends_def count_where_def by (simp only: card.empty)
qed

lemma plain_process_new: "plain (process_new pid)"
  by (simp add: plain_def process_new_fields skt_get_def slot_get_def)

lemma ends_counted_new:
  assumes "ends_counted t k" "pr_get t pid = None" "p_ofd_table p = p_ofd_table (process_new n)"
    "p_fd_table p = p_fd_table (process_new n)" "p_sockets p = p_sockets (process_new n)"
  shows "ends_counted (pr_insert pid p t) k"
proof -
  have "plain p" "counted p" "pends rd p i = 0" for rd i
    using assms(3-5) plain_process_new [of n] counted_process_new [of n] pends_process_new [of rd n i]
    by (simp_all add: plain_def counted_def pends_def)
  with assms(1,2) total_insert [of "pr_processes t" pid] show ?thesis
    by (auto simp: ends_counted_def pr_insert_def pr_get_def)
qed

lemma create_process_ends:
  assumes "ends_counted t k"
  shows "ends_counted (snd (create_process pid t)) k"
proof -
  have "ends_counted (ensure_init t) k"
    using assms by (auto simp: ensure_init_def Let_def bt_contains_def pr_get_def intro!: ends_counted_new [where n = 1])
  then show ?thesis
    by (auto simp: create_process_def Let_def bt_contains_def pr_get_def intro!: ends_counted_new [where n = pid])
qed


section \<open>Removal\<close>

lemma drop_pty_ofd_pipes: "same_pipes k (drop_pty_ofd x k)"
  using close_pty_pipes by (cases x) (auto simp: drop_pty_ofd_def same_pipes_def)

lemma drop_socket_ofd_plain: "(\<And>i s. skt_get sks i = Some s \<Longrightarrow> \<not> sk_global_pipes s) \<Longrightarrow> drop_socket_ofd sks x k = k"
proof -
  assume p: "\<And>i s. skt_get sks i = Some s \<Longrightarrow> \<not> sk_global_pipes s"
  then have "drop_backlog_socket sks i k = k" for i k
    by (auto simp: drop_backlog_socket_def drop_socket_pipes_def split: option.split)
  then have "fold (drop_backlog_socket sks) is k = k" for "is" by (induction "is") simp_all
  with p show ?thesis by (cases x) (auto simp: drop_socket_ofd_def drop_socket_pipes_def split: option.split)
qed

lemma drop_socket_pipes_same: "same_pipes k (snd (drop_socket x (closes, k)))"
  by (cases x) (auto simp: drop_socket_def Let_def same_pipes_def is_centralized_mode_def split: option.split prod.split)

lemma drop_sockets_pipes: "same_pipes k (snd (fold drop_socket xs (closes, k)))"
proof (induction xs arbitrary: closes k)
  case (Cons x xs)
  obtain c1 k1 where "drop_socket x (closes, k) = (c1, k1)" by fastforce
  with drop_socket_pipes_same [of k x closes] Cons.IH [of k1 c1] same_pipes_trans show ?case by simp
qed (simp add: same_pipes_def)

lemma remove_process_ends:
  assumes "ends_counted t k" "remove_process pid t k = (r, t', k')"
  shows "ends_counted t' k'"
proof (cases "pr_get t pid")
  case None
  with assms show ?thesis by (simp add: remove_process_def)
next
  case (Some p)
  let ?ofds = "ofdt_iter (p_ofd_table p)"
  define k1 where "k1 = fold drop_pipe_ofd ?ofds k"
  define k2 where "k2 = fold drop_pty_ofd ?ofds k1"
  define k3 where "k3 = fold (drop_socket_ofd (p_sockets p)) ?ofds k2"
  have k3: "k3 = k2"
  proof -
    have "fold (drop_socket_ofd (p_sockets p)) ds k2 = k2" for ds
      using drop_socket_ofd_plain [of "p_sockets p"] ends_countedD(3) [OF assms(1) Some]
      by (induction ds) (simp_all add: plain_def)
    then show ?thesis by (simp add: k3_def)
  qed
  have "same_pipes k1 k2" unfolding k2_def by (rule fold_same_pipes) (rule drop_pty_ofd_pipes)
  then have "same_pipes k1 (snd (fold drop_socket (skt_iter (p_sockets p)) ([], k2)))"
    by (rule same_pipes_trans) (rule drop_sockets_pipes)
  then have same: "same_pipes k1 k'" and t': "t' = t\<lparr>pr_processes := bt_remove pid (pr_processes t)\<rparr>"
    using assms(2) Some k3
    by (auto simp: remove_process_def Let_def k1_def [symmetric] k2_def [symmetric] k3_def [symmetric]
        same_pipes_def is_centralized_mode_def split: prod.splits)
  have k1: "pipes_ok k1" "pcount rd k1 i = pcount rd k i - pends rd p i" for rd i
    using drop_pipes_laws [OF ends_countedD(2) [OF assms(1)], of ?ofds] by (simp_all add: k1_def pends_iter)
  have "pcount rd k' i = total_ends rd (bt_remove pid (pr_processes t)) i" for rd i
    using total_remove [of "pr_processes t" pid p rd i] ends_countedD [OF assms(1)] Some k1(2) same_pipesD(2) [OF same]
    by (simp add: pr_get_def)
  then show ?thesis
    using assms(1) same_pipesD(1) [OF same] k1(1) by (auto simp: t' ends_counted_def pr_get_def split: if_splits)
qed

section \<open>Fork\<close>

lemma length_trim_none: "length (trim_none s) \<le> length s"
  using length_dropWhile_le [of Option.is_none "rev s"] by (simp add: trim_none_def)

lemma fork_child_tables:
  shows "ofdt_get (p_ofd_table (fork_child_of p c)) i = map_option (ofd_inherit c) (ofdt_get (p_ofd_table p) i)"
    and "fdt_map (p_fd_table (fork_child_of p c)) n = Option.bind (fdt_map (p_fd_table p) n) (fd_kept True)"
    and "skt_get (p_sockets (fork_child_of p c)) i = map_option sk_inherit (skt_get (p_sockets p) i)"
  by (simp_all add: fork_child_of_def ofdt_get_def fdt_map_def skt_get_def map_option_case bind_eq_Some_conv
      split: option.split)

lemma fork_child_pends: "pends rd (fork_child_of p c) = pends rd p"
  by (rule pends_cong [symmetric])
    (auto simp: fork_child_tables(1) option.rel_map ofd_inherit_def same_end_def is_read_end_def option.rel_refl)

lemma fork_child_plain: "plain p \<Longrightarrow> plain (fork_child_of p c)"
  by (auto simp: plain_def fork_child_tables(3) sk_inherit_def sk_clone_def)

definition no_clofork :: "Process \<Rightarrow> bool" where
  "no_clofork p \<longleftrightarrow> (\<forall>n e. fdt_map (p_fd_table p) n = Some e \<longrightarrow> fd_flags e AND FD_CLOFORK = 0)"

lemma fork_child_counted:
  assumes "counted p" "no_clofork p"
  shows "counted (fork_child_of p c)"
proof -
  let ?c = "fork_child_of p c"
  have m: "fdt_map (p_fd_table ?c) = fdt_map (p_fd_table p)"
  proof
    show "fdt_map (p_fd_table ?c) n = fdt_map (p_fd_table p) n" for n
      using assms(2) by (cases "fdt_map (p_fd_table p) n") (auto simp: fork_child_tables(2) no_clofork_def fd_kept_def)
  qed
  have "ofd_count (p_ofd_table ?c) = ofd_count (p_ofd_table p)" "ofds_live (p_ofd_table ?c) = ofds_live (p_ofd_table p)"
    by (fastforce simp: fun_eq_iff ofd_count_def ofds_live_def fork_child_tables(1) ofd_inherit_def split: option.split)+
  moreover have "fdt_wf (p_fd_table ?c)"
    using assms(1) length_trim_none [of "slots_filter (\<lambda>_. fd_kept True) (fdt_entries (p_fd_table p))"]
    by (simp add: counted_def tables_counted_def fdt_wf_def fork_child_of_def)
  ultimately show ?thesis using assms(1) by (simp add: counted_def tables_counted_def m)
qed


lemma bump_others_pipes:
  "same_pipes k (bump_host_ofd x k)" "same_pipes k (bump_pty_ofd x k)" "same_pipes k (bump_socket y k)"
  by (cases x; cases y; auto simp: bump_host_ofd_def bump_pty_ofd_def pty_modify_def bump_socket_def Let_def same_pipes_def
      is_centralized_mode_def split: option.split)+

lemma bump_socket_ofd_plain:
  "(\<And>i s. skt_get sks i = Some s \<Longrightarrow> \<not> sk_global_pipes s) \<Longrightarrow> bump_socket_ofd sks x k = k"
  by (cases x) (auto simp: bump_socket_ofd_def split: option.split)

lemma bump_inherited_laws:
  assumes "pipes_ok k" "plain c" "\<And>rd i. 0 < pends rd c i \<Longrightarrow> 0 < pcount rd k i" "\<And>rd i. pcount rd k i + pends rd c i < 2 ^ 32"
  shows "pipes_ok (bump_inherited_resource_refcounts c k)"
    and "pcount rd (bump_inherited_resource_refcounts c k) i = pcount rd k i + pends rd c i"
proof -
  let ?ofds = "ofdt_iter (p_ofd_table c)" and ?k' = "bump_inherited_resource_refcounts c k"
  define k1 where "k1 = fold bump_pipe_ofd ?ofds k"
  have k1: "pipes_ok k1" "pcount rd k1 i = pcount rd k i + pends rd c i" for rd i
    using bump_pipes_laws [OF assms(1), of ?ofds] assms(3,4) by (simp_all add: k1_def pends_iter)
  have id: "fold (bump_socket_ofd (p_sockets c)) ds k = k" for ds k
    using bump_socket_ofd_plain [of "p_sockets c"] assms(2) by (induction ds) (simp_all add: plain_def)
  have "same_pipes k1 ?k'"
    unfolding bump_inherited_resource_refcounts_def Let_def id k1_def [symmetric]
    by (rule same_pipes_trans, rule same_pipes_trans) (rule fold_same_pipes, rule bump_others_pipes)+
  with k1 show "pipes_ok ?k'" "pcount rd ?k' i = pcount rd k i + pends rd c i" by (simp_all add: same_pipesD)
qed

definition fork_ready :: "Process \<Rightarrow> Kernel \<Rightarrow> bool" where
  "fork_ready p k \<longleftrightarrow> fork_ok p \<and> no_clofork p \<and> (\<forall>rd i. pcount rd k i + pends rd p i < 2 ^ 32)"

lemma fork_process_result:
  assumes "pr_get t parent = Some p" "fork_ok p" "fork_process parent child t k = (r, t', k')"
  shows "t' = t \<and> k' = k \<or>
    (let c = fork_child_of p child; t1 = pr_insert child (c\<lparr>p_fork_pipe_replay := build_fork_pipe_replay c\<rparr>) t
     in pr_get t child = None \<and> t' = pr_insert parent (increment_fork_count p) t1 \<and> k' = bump_inherited_resource_refcounts c k)"
proof (cases "bt_contains (pr_processes t) child \<or> length (replicate (64 * 1024) (0 :: u8)) < length (image_of (fork_ops p))")
  case True
  then show ?thesis
    using assms serialize_with_too_small [of "replicate (64 * 1024) 0" "fork_ops p"]
    by (auto simp: fork_process_def serialize_fork_state_def split: prod.splits if_splits)
next
  case False
  then obtain buf where b: "serialize_fork_state p (replicate (64 * 1024) 0) = (Ok (length (image_of (fork_ops p))), buf)"
      "deserialize_fork_state (take (length (image_of (fork_ops p))) buf) child = Ok (fork_child_of p child)"
    using fork_image_fits [OF assms(2), of "replicate (64 * 1024) 0" child] by (auto simp: not_less)
  have none: "pr_get t child = None" "child \<noteq> parent"
    using False assms(1) by (auto simp: bt_contains_def pr_get_def)
  then show ?thesis
    using assms(1,3) b False by (auto simp: fork_process_def Let_def pr_get_def pr_insert_def bt_contains_def)
qed

lemma fork_process_ends:
  assumes inv: "ends_counted t k" and p: "pr_get t parent = Some p" and ready: "fork_ready p k"
    and f: "fork_process parent child t k = (r, t', k')"
  shows "ends_counted t' k'"
proof -
  let ?c = "fork_child_of p child"
  let ?c' = "?c\<lparr>p_fork_pipe_replay := build_fork_pipe_replay ?c\<rparr>"
  define kc where "kc = bump_inherited_resource_refcounts ?c k"
  have own: "owns p k" by (rule ends_counted_owns [OF inv p])
  then have "0 < pcount rd k i" if "0 < pends rd ?c i" for rd i
    using that by (metis fork_child_pends owns_def less_le_trans)
  then have kc: "pipes_ok kc" "pcount rd kc i = pcount rd k i + pends rd p i" for rd i
    using bump_inherited_laws [of k ?c] ready own fork_child_plain [of p child]
    by (simp_all add: kc_def fork_child_pends fork_ready_def owns_def)
  have c': "plain ?c'" "counted ?c'" "pends rd ?c' = pends rd p" for rd
    using fork_child_plain [of p child] fork_child_counted [of p child] fork_child_pends [of rd p child] own ready
    by (simp_all add: plain_def counted_def pends_def fun_eq_iff owns_def fork_ready_def)
  have "ends_counted (pr_insert child ?c' t) kc" if "pr_get t child = None"
    using inv that kc c' total_insert [of "pr_processes t" child] by (auto simp: ends_counted_def pr_insert_def pr_get_def)
  moreover have "pr_get (pr_insert child ?c' t) parent = Some p" if "pr_get t child = None"
    using that p by (auto simp: pr_insert_def pr_get_def)
  ultimately have "ends_counted (pr_insert parent (increment_fork_count p) (pr_insert child ?c' t)) kc" if "pr_get t child = None"
    using that by - (rule ends_counted_silent [where p = p], auto simp: increment_fork_count_def)
  with fork_process_result [OF p _ f] ready inv show ?thesis by (auto simp: Let_def kc_def fork_ready_def)
qed


section \<open>Runs of the system\<close>

text \<open>
  A run interleaves the calls of all processes in any order. A \<open>pipe\<close> call that fails for lack of
  descriptors leaves its pipe behind, and a descriptor with \<open>FD_CLOFORK\<close> leaves its description
  behind in the child, so both are excluded here.
\<close>

definition call_ok :: "fd_call \<Rightarrow> Process \<Rightarrow> Kernel \<Rightarrow> bool" where
  "call_ok c p k \<longleftrightarrow> (case c of
     CPipe \<Rightarrow> \<not> isl (fst (sys_pipe p k)) \<and> length (pt_pipes (k_pipes k)) < 2 ^ 63
   | CPipe2 _ \<Rightarrow> \<not> isl (fst (sys_pipe p k)) \<and> length (pt_pipes (k_pipes k)) < 2 ^ 63
   | _ \<Rightarrow> True)"

inductive kstep :: "host \<Rightarrow> ProcessTable \<times> Kernel \<Rightarrow> ProcessTable \<times> Kernel \<Rightarrow> bool" for host where
  create: "kstep host (t, k) (snd (create_process pid t), k)"
| call: "pr_get t pid = Some p \<Longrightarrow> call_ok c p k \<Longrightarrow> fd_exec host c (p, k) = (p', k') \<Longrightarrow>
    kstep host (t, k) (pr_insert pid p' t, k')"
| fork: "pr_get t parent = Some p \<Longrightarrow> fork_ready p k \<Longrightarrow> fork_process parent child t k = (r, t', k') \<Longrightarrow>
    kstep host (t, k) (t', k')"
| exit: "remove_process pid t k = (r, t', k') \<Longrightarrow> kstep host (t, k) (t', k')"

lemma fd_exec_moves:
  assumes "owns p k" "call_ok c p k" "fd_exec host c (p, k) = (p', k')"
  shows "moves p k p' k'"
proof (cases c)
  case (CClose fd)
  with assms show ?thesis using sys_close_moves [OF assms(1)] by (cases "sys_close host fd p k") auto
next
  case (CDup fd)
  with assms show ?thesis using sys_dup_moves [OF assms(1)] by (cases "sys_dup fd p") auto
next
  case (CDup2 old new)
  with assms show ?thesis using sys_dup2_moves [OF assms(1)] by (cases "sys_dup2 host old new p k") auto
next
  case (CDup3 old new flags)
  with assms show ?thesis using sys_dup3_moves [OF assms(1)] by (cases "sys_dup3 host old new flags p k") auto
next
  case CPipe
  then obtain x where "sys_pipe p k = (Inr x, p', k')"
    using assms(2,3) by (cases "sys_pipe p k"; cases "fst (sys_pipe p k)") (auto simp: call_ok_def)
  with CPipe assms(2) show ?thesis using sys_pipe_moves [OF assms(1)] by (simp add: call_ok_def)
next
  case (CPipe2 flags)
  with assms(2,3) show ?thesis
    using sys_pipe2_moves [OF assms(1)] by (cases "sys_pipe2 flags p k") (auto simp: call_ok_def)
next
  case (CFcntl fd cmd arg)
  with assms show ?thesis using sys_fcntl_moves [OF assms(1)] by (cases "sys_fcntl fd cmd arg p") auto
qed

lemma kstep_ends: "kstep host s s' \<Longrightarrow> ends_counted (fst s) (snd s) \<Longrightarrow> ends_counted (fst s') (snd s')"
proof (induction rule: kstep.induct)
  case (call t pid p c k p' k')
  then have "owns p k" by (auto intro: ends_counted_owns)
  with call show ?case using fd_exec_moves ends_counted_call by simp
qed (auto intro: create_process_ends fork_process_ends remove_process_ends)

lemma run_ends: "(kstep host)\<^sup>*\<^sup>* s s' \<Longrightarrow> ends_counted (fst s) (snd s) \<Longrightarrow> ends_counted (fst s') (snd s')"
  by (induction rule: rtranclp_induct) (auto intro: kstep_ends)

lemma ends_counted_init:
  assumes "pipes_ok k" "k_pipes k = pt_new"
  shows "ends_counted pr_new k"
  using assms by (simp add: ends_counted_def pr_new_def pr_get_def total_ends_def pcount_def pt_get_def pt_new_def slot_get_def)


definition held :: "bool \<Rightarrow> ProcessTable \<Rightarrow> nat \<Rightarrow> bool" where
  "held rd t i \<longleftrightarrow> (\<exists>pid p fd e d. pr_get t pid = Some p \<and> fdt_map (p_fd_table p) fd = Some e \<and>
     ofdt_get (p_ofd_table p) (ofd_ref e) = Some d \<and> end_at rd i d)"

lemma pends_held:
  assumes "counted p"
  shows "0 < pends rd p i \<longleftrightarrow>
    (\<exists>fd e d. fdt_map (p_fd_table p) fd = Some e \<and> ofdt_get (p_ofd_table p) (ofd_ref e) = Some d \<and> end_at rd i d)"
    (is "?l \<longleftrightarrow> ?r")
proof
  assume ?l
  then obtain j d where d: "ofdt_get (p_ofd_table p) j = Some d" "end_at rd i d"
    unfolding pends_def count_where_def card_gt_0_iff by blast
  then have "0 < fd_refs (fdt_map (p_fd_table p)) j"
    using assms fun_cong [of "ofd_count (p_ofd_table p)" "fd_refs (fdt_map (p_fd_table p))" j]
    unfolding counted_def tables_counted_def ofds_live_def ofd_count_def [of _ j] by (metis option.case(2) unat_gt_0)
  then obtain fd e where "fdt_map (p_fd_table p) fd = Some e" "ofd_ref e = j"
    unfolding fd_refs_def count_where_def card_gt_0_iff by blast
  with d show ?r by blast
next
  assume ?r
  then obtain e :: FdEntry and d where "ofdt_get (p_ofd_table p) (ofd_ref e) = Some d" "end_at rd i d" by blast
  moreover have "finite {n. \<exists>v. ofdt_get (p_ofd_table p) n = Some v \<and> end_at rd i v}"
    by (rule finite_subset [OF _ finite_dom_ofdt_get [of "p_ofd_table p"]]) auto
  ultimately show ?l unfolding pends_def count_where_def card_gt_0_iff by blast
qed

lemma held_count:
  assumes "ends_counted t k"
  shows "held rd t i \<longleftrightarrow> 0 < pcount rd k i"
proof -
  have "0 < pcount rd k i \<longleftrightarrow> (\<exists>pid p. pr_get t pid = Some p \<and> 0 < pends rd p i)"
    using total_zero [of "pr_processes t" rd i] ends_countedD(1,5) [OF assms] by (auto simp: pr_get_def)
  also have "\<dots> \<longleftrightarrow> held rd t i"
    unfolding held_def using pends_held ends_countedD(4) [OF assms] by metis
  finally show ?thesis by simp
qed

text \<open>
  C1: pipes close exactly when they should, across processes. In every state that the processes can
  reach from an empty table by creating and removing processes, forking processes that have no close-on-fork
  descriptors, and by \<open>close\<close>, \<open>dup\<close>, \<open>dup2\<close>, \<open>dup3\<close>, \<open>fcntl\<close> and successful \<open>pipe\<close> and \<open>pipe2\<close> calls, in any interleaving and with any answers of
  the host, the read end of a kernel pipe is open if and only if some descriptor of some process is a
  read end of that pipe, the same holds for its write end, and the table holds a pipe if and only
  if a descriptor for one of its ends exists: end of file and \<open>EPIPE\<close> are neither early nor late, no
  open pipe loses its buffer, and no closed pipe keeps one.
\<close>

theorem pipe_ends_follow_descriptors:
  assumes "(kstep host)\<^sup>*\<^sup>* (pr_new, k0) (t, k)" "pipes_ok k0" "k_pipes k0 = pt_new"
  shows "case pt_get (k_pipes k) i of
      None \<Rightarrow> \<not> held True t i \<and> \<not> held False t i
    | Some b \<Rightarrow> (pb_is_read_end_open b \<longleftrightarrow> held True t i) \<and> (pb_is_write_end_open b \<longleftrightarrow> held False t i) \<and>
        (held True t i \<or> held False t i)"
proof -
  have inv: "ends_counted t k" using run_ends [OF assms(1)] ends_counted_init [OF assms(2,3)] by simp
  have "pb_is_fully_closed b \<Longrightarrow> pt_get (k_pipes k) i \<noteq> Some b" for b
    using ends_countedD(2) [OF inv] by (auto simp: pipes_ok_def)
  then show ?thesis
    unfolding held_count [OF inv]
    by (auto simp: pcount_def pb_count_def pb_is_read_end_open_def pb_is_write_end_open_def pb_is_fully_closed_def
        word_gt_0 unat_gt_0 split: option.split)
qed


theorem pipe_ends_follow_descriptors_witness:
  "\<exists>t k b. (kstep quiet_host)\<^sup>*\<^sup>* (pr_new, kernel_new) (t, k) \<and> pt_get (k_pipes k) 0 = Some b \<and>
    (pb_is_read_end_open b \<longleftrightarrow> held True t 0) \<and> (pb_is_write_end_open b \<longleftrightarrow> held False t 0) \<and>
    (held True t 0 \<or> held False t 0)"
proof -
  let ?host = quiet_host and ?t = "snd (create_process 5 pr_new)" and ?p = "process_new 5"
  obtain r p' k' where s: "sys_pipe ?p kernel_new = (r, p', k')" by (metis prod_cases3)
  have new: "\<not> p_fork_child ?p"
    "pipe_create ?p kernel_new = (0, ?p, kernel_new\<lparr>k_pipes := snd (pt_alloc (pb_new DEFAULT_PIPE_CAPACITY) pt_new)\<rparr>)"
    "pt_get (snd (pt_alloc (pb_new DEFAULT_PIPE_CAPACITY) pt_new)) 0 \<noteq> None"
    by (simp_all add: process_new_def Let_def case_prod_unfold pipe_create_def kernel_new_def is_centralized_mode_def
        pt_alloc_def pt_new_def pt_get_def slot_get_def)
  then have pipe: "\<not> isl r" "pt_get (k_pipes k') 0 \<noteq> None"
    using s by (auto simp: sys_pipe_def process_new_fields fdt_alloc_def fdt_alloc_at_min_def slot_get_def
        Let_def split: prod.splits sum.splits)
  have ok: "pipes_ok kernel_new" "k_pipes kernel_new = pt_new"
    by (simp_all add: pipes_ok_def kernel_new_def pt_wf_def pt_new_def pt_get_def slot_get_def is_centralized_mode_def)
  have "pr_get ?t 5 = Some ?p"
    by (simp add: create_process_def ensure_init_def pr_new_def pr_insert_def pr_get_def bt_contains_def Let_def)
  then have "kstep ?host (?t, kernel_new) (pr_insert 5 p' ?t, k')"
    by (rule kstep.call [where c = CPipe]) (simp_all add: call_ok_def s pipe(1) ok(2) pt_new_def)
  then have run: "(kstep ?host)\<^sup>*\<^sup>* (pr_new, kernel_new) (pr_insert 5 p' ?t, k')"
    by (meson kstep.create converse_rtranclp_into_rtranclp r_into_rtranclp)
  obtain b where "pt_get (k_pipes k') 0 = Some b" using pipe(2) by blast
  with pipe_ends_follow_descriptors [OF run ok, of 0] run show ?thesis
    by (intro exI [of _ "pr_insert 5 p' ?t"] exI [of _ k'] exI [of _ b]) simp
qed

end
