(* ===== verification/Io.thy ===== *)
theory Io
  imports Files "HOL-Library.Signed_Division"
begin

text \<open>
  Reading, writing and seeking, from \<^verbatim>\<open>src/crates/kernel/src/syscalls.rs\<close>: \<open>sys_read\<close>, \<open>sys_write\<close>,
  \<open>sys_lseek\<close>, \<open>sys_pread\<close> and \<open>sys_pwrite\<close> on every type of description.

  In the traditional mode a read or write may wait in a loop for other threads. A call that never
  returns is the value \<open>None\<close>; in the centralised mode no call waits.
\<close>

section \<open>Waiting\<close>

text \<open>\<open>status_flags & O_NONBLOCK != 0 || is_centralized_mode()\<close>\<close>

definition no_wait :: "u32 \<Rightarrow> Kernel \<Rightarrow> bool" where
  "no_wait status_flags k \<longleftrightarrow> status_flags AND O_NONBLOCK \<noteq> 0 \<or> is_centralized_mode k"

text \<open>
  The waiting loop: give up for a signal that does not restart the call, sleep, try again. An attempt
  gives the result of the call, or \<open>None\<close> for another round.
\<close>

type_synonym 'r attempt = "Process \<Rightarrow> Kernel \<Rightarrow> 'r option \<times> Process \<times> Kernel"

partial_function (option) wait_loop ::
    "host \<Rightarrow> 'r attempt \<Rightarrow> 'r \<Rightarrow> Process \<Rightarrow> Kernel \<Rightarrow> ('r \<times> Process \<times> Kernel) option" where
  "wait_loop host attempt intr p k =
    (if ss_deliverable (p_signals p) \<noteq> 0 \<and> \<not> ss_should_restart (p_signals p) then Some (intr, p, k)
     else (case host_sleep host p k of (p, k) \<Rightarrow>
       (case attempt p k of
          (Some r, p, k) \<Rightarrow> Some (r, p, k)
        | (None, p, k) \<Rightarrow> wait_loop host attempt intr p k)))"

text \<open>One attempt, then \<open>EAGAIN\<close> or the loop.\<close>

definition try_or_wait ::
    "host \<Rightarrow> u32 \<Rightarrow> 'r attempt \<Rightarrow> (Errno \<Rightarrow> 'r) \<Rightarrow> Process \<Rightarrow> Kernel \<Rightarrow> ('r \<times> Process \<times> Kernel) option" where
  "try_or_wait host status_flags attempt err p k = (case attempt p k of
     (Some r, p, k) \<Rightarrow> Some (r, p, k)
   | (None, p, k) \<Rightarrow>
       if no_wait status_flags k then Some (err EAGAIN, p, k) else wait_loop host attempt (err EINTR) p k)"

text \<open>The loops of the sockets test for a call that must not wait in every round.\<close>

definition or_again :: "u32 \<Rightarrow> 'r \<Rightarrow> 'r attempt \<Rightarrow> 'r attempt" where
  "or_again status_flags again attempt = (\<lambda>p k. case attempt p k of
     (Some r, p, k) \<Rightarrow> (Some r, p, k)
   | (None, p, k) \<Rightarrow> (if no_wait status_flags k then Some again else None, p, k))"

section \<open>Attempts on the objects behind a description\<close>

definition pipe_lookup :: "bool \<Rightarrow> nat \<Rightarrow> Process \<Rightarrow> Kernel \<Rightarrow> PipeBuffer option" where
  "pipe_lookup global idx p k = (if global then pt_get (k_pipes k) idx else slot_get (p_pipes p) idx)"

definition pipe_store :: "bool \<Rightarrow> nat \<Rightarrow> PipeBuffer \<Rightarrow> Process \<Rightarrow> Kernel \<Rightarrow> Process \<times> Kernel" where
  "pipe_store global idx b p k =
    (if global then (p, k\<lparr>k_pipes := pt_get_mut idx (\<lambda>_. b) (k_pipes k)\<rparr>)
     else (p\<lparr>p_pipes := (p_pipes p)[idx := Some b]\<rparr>, k))"

definition pipe_try_read :: "bool \<Rightarrow> nat \<Rightarrow> bytes \<Rightarrow> (nat kresult \<times> bytes) attempt" where
  "pipe_try_read global idx buf = (\<lambda>p k. case pipe_lookup global idx p k of
     None \<Rightarrow> (Some (Err EBADF, buf), p, k)
   | Some b \<Rightarrow>
       (let (n, buf', b', wk) = pb_read buf b (k_wakeup k);
            (p, k) = pipe_store global idx b' p (k\<lparr>k_wakeup := wk\<rparr>)
        in if n > 0 then (Some (Ok n, buf'), p, k)
           else if \<not> pb_is_write_end_open b' then (Some (Ok 0, buf'), p, k)
           else (None, p, k)))"

definition raise_signal :: "u32 \<Rightarrow> Process \<Rightarrow> Process" where
  "raise_signal sig p = p\<lparr>p_signals := snd (ss_raise sig (p_signals p))\<rparr>"

text \<open>\<open>atomic\<close>: a write of at most this many bytes is not split.\<close>

definition pipe_try_write :: "bool \<Rightarrow> nat \<Rightarrow> nat \<Rightarrow> bytes \<Rightarrow> nat kresult attempt" where
  "pipe_try_write global idx atomic data = (\<lambda>p k. case pipe_lookup global idx p k of
     None \<Rightarrow> (Some (Err EBADF), p, k)
   | Some b \<Rightarrow>
       if \<not> pb_is_read_end_open b then (Some (Err EPIPE), raise_signal SIGPIPE p, k)
       else if length data \<le> atomic \<and> pb_free_space b < length data then (None, p, k)
       else
         (let (n, b', wk) = pb_write data b (k_wakeup k);
              (p, k) = pipe_store global idx b' p (k\<lparr>k_wakeup := wk\<rparr>)
          in if n > 0 then (Some (Ok n), p, k) else (None, p, k)))"

definition eventfd_try_read :: "nat \<Rightarrow> bytes \<Rightarrow> (nat kresult \<times> bytes) attempt" where
  "eventfd_try_read idx buf = (\<lambda>p k. case slot_get (p_eventfds p) idx of
     None \<Rightarrow> (Some (Err EBADF, buf), p, k)
   | Some efd \<Rightarrow>
       if ev_counter efd = 0 then (None, p, k)
       else
         (let (value, efd) =
            (if ev_semaphore efd then (1, efd\<lparr>ev_counter := ev_counter efd - 1\<rparr>)
             else (ev_counter efd, efd\<lparr>ev_counter := 0\<rparr>))
          in (Some (Ok 8, copy_at 0 (to_le 8 value) buf), p\<lparr>p_eventfds := (p_eventfds p)[idx := Some efd]\<rparr>, k)))"

definition eventfd_try_write :: "nat \<Rightarrow> u64 \<Rightarrow> nat kresult attempt" where
  "eventfd_try_write idx value = (\<lambda>p k. case slot_get (p_eventfds p) idx of
     None \<Rightarrow> (Some (Err EBADF), p, k)
   | Some efd \<Rightarrow>
       (let max_val = - 1 - 1 in
        if ev_counter efd > max_val - value then (None, p, k)
        else (Some (Ok 8),
              p\<lparr>p_eventfds := (p_eventfds p)[idx := Some (efd\<lparr>ev_counter := ev_counter efd + value\<rparr>)]\<rparr>, k)))"

text \<open>Division of signed integers truncates.\<close>

definition i64_div :: "i64 \<Rightarrow> i64 \<Rightarrow> i64" where
  "i64_div a b = word_of_int (sint a sdiv sint b)"

definition i64_rem :: "i64 \<Rightarrow> i64 \<Rightarrow> i64" where
  "i64_rem a b = word_of_int (sint a smod sint b)"

definition timerfd_compute_expirations :: "i64 \<Rightarrow> i64 \<Rightarrow> TimerFdState \<Rightarrow> TimerFdState" where
  "timerfd_compute_expirations now_sec now_nsec tfd =
    (if tf_value_sec tfd = 0 \<and> tf_value_nsec tfd = 0 then tfd
     else if sint (tf_value_sec tfd) < sint now_sec \<or>
       (now_sec = tf_value_sec tfd \<and> sint (tf_value_nsec tfd) \<le> sint now_nsec) then
       (if tf_interval_sec tfd = 0 \<and> tf_interval_nsec tfd = 0
        then tfd\<lparr>tf_expirations := 1, tf_value_sec := 0, tf_value_nsec := 0\<rparr>
        else
          (let elapsed_sec = now_sec - tf_value_sec tfd;
               elapsed_nsec = now_nsec - tf_value_nsec tfd;
               elapsed_total_ns = elapsed_sec * 1000000000 + elapsed_nsec;
               interval_ns = tf_interval_sec tfd * 1000000000 + tf_interval_nsec tfd
           in if 0 < sint interval_ns then
                (let count = i64_div elapsed_total_ns interval_ns + 1;
                     advance_ns = count * interval_ns;
                     new_ns = (tf_value_sec tfd * 1000000000 + tf_value_nsec tfd) + advance_ns
                 in tfd\<lparr>tf_expirations := tf_expirations tfd + count, tf_value_sec := i64_div new_ns 1000000000,
                        tf_value_nsec := i64_rem new_ns 1000000000\<rparr>)
              else tfd\<lparr>tf_expirations := 1\<rparr>))
     else tfd)"

definition timerfd_try_read :: "host \<Rightarrow> nat \<Rightarrow> bytes \<Rightarrow> (nat kresult \<times> bytes) attempt" where
  "timerfd_try_read host idx buf = (\<lambda>p k. case host_clock_gettime host 0 k of
     (Inl e, k) \<Rightarrow> (Some (Err e, buf), p, k)
   | (Inr (now_sec, now_nsec), k) \<Rightarrow> (case slot_get (p_timerfds p) idx of
       None \<Rightarrow> (Some (Err EBADF, buf), p, k)
     | Some tfd \<Rightarrow>
         (let tfd = timerfd_compute_expirations now_sec now_nsec tfd;
              p = p\<lparr>p_timerfds := (p_timerfds p)[idx := Some tfd]\<rparr>
          in if tf_expirations tfd = 0 then (None, p, k)
             else (Some (Ok 8, copy_at 0 (to_le 8 (tf_expirations tfd)) buf),
                   p\<lparr>p_timerfds := (p_timerfds p)[idx := Some (tfd\<lparr>tf_expirations := 0\<rparr>)]\<rparr>, k))))"

definition signalfd_try_read :: "nat \<Rightarrow> bytes \<Rightarrow> (nat kresult \<times> bytes) attempt" where
  "signalfd_try_read idx buf = (\<lambda>p k. case slot_get (p_signalfds p) idx of
     None \<Rightarrow> (Some (Err EBADF, buf), p, k)
   | Some sfd \<Rightarrow>
       (let matching = ss_pending (p_signals p) AND sf_mask sfd in
        if matching = 0 then (None, p, k)
        else
          (let signo = word_of_nat (trailing_zeros matching) + 1 :: u32
           in (Some (Ok 128, copy_at 0 (to_le 4 signo) (copy_at 0 (replicate 128 0) buf)),
               p\<lparr>p_signals := ss_clear_pending signo (p_signals p)\<rparr>, k))))"


section \<open>Reading\<close>

abbreviation (input) FB_WIDTH :: u32 where "FB_WIDTH \<equiv> 640"
abbreviation (input) FB_HEIGHT :: u32 where "FB_HEIGHT \<equiv> 400"
abbreviation (input) FB_LINE_LENGTH :: u32 where "FB_LINE_LENGTH \<equiv> 2560"
abbreviation (input) FB_SMEM_LEN :: nat where "FB_SMEM_LEN \<equiv> 1024000"

definition set_offset :: "nat \<Rightarrow> (i64 \<Rightarrow> i64) \<Rightarrow> Process \<Rightarrow> Process" where
  "set_offset ofd_idx f p = p\<lparr>p_ofd_table := slot_modify ofd_idx (\<lambda>d. d\<lparr>ofd_offset := f (ofd_offset d)\<rparr>) (p_ofd_table p)\<rparr>"

type_synonym read_result = "(nat kresult \<times> bytes) \<times> Process \<times> Kernel"

definition read_socket :: "host \<Rightarrow> nat \<Rightarrow> u32 \<Rightarrow> bytes \<Rightarrow> Process \<Rightarrow> Kernel \<Rightarrow> read_result option" where
  "read_socket host sock_idx status_flags buf p k = (case skt_get (p_sockets p) sock_idx of
     None \<Rightarrow> Some ((Err EBADF, buf), p, k)
   | Some sock \<Rightarrow>
       if sk_shut_rd sock then Some ((Ok 0, buf), p, k)
       else (case sk_recv_buf_idx sock of
         Some recv_buf_idx \<Rightarrow>
           try_or_wait host status_flags
             (or_again status_flags (Err EAGAIN, buf) (pipe_try_read (sk_global_pipes sock) recv_buf_idx buf))
             (\<lambda>e. (Err e, buf)) p k
       | None \<Rightarrow>
           if sk_domain sock = DomUnix then Some ((Err ENOTCONN, buf), p, k)
           else (case sk_host_net_handle sock of
             None \<Rightarrow> Some ((Err ENOTCONN, buf), p, k)
           | Some net_handle \<Rightarrow>
               (let (n, buf, k) = host_fill host (HostNetRecv net_handle (word_of_nat (length buf)) 0) buf k
                in Some ((n, buf), p, k)))))"

text \<open>Input of the controlling terminal, with the line discipline applied in canonical mode.\<close>

definition tty_input :: "host \<Rightarrow> u8 \<Rightarrow> Process \<times> Kernel \<Rightarrow> Process \<times> Kernel" where
  "tty_input host byte = (\<lambda>(p, k).
     let ((echo, _), t) = process_input_byte (p_terminal p) byte; p = p\<lparr>p_terminal := t\<rparr>
     in (p, if echo \<noteq> [] then snd (host_size host (HostWrite 1 echo) k) else k))"

definition read_tty :: "host \<Rightarrow> u32 \<Rightarrow> bytes \<Rightarrow> Process \<Rightarrow> Kernel \<Rightarrow> read_result" where
  "read_tty host status_flags buf p k =
    (if is_canonical (p_terminal p) then
       (if has_cooked_data (p_terminal p) then
          (let (n, buf, t) = read_cooked buf (p_terminal p) in ((Ok n, buf), p\<lparr>p_terminal := t\<rparr>, k))
        else (case host_fill host (HostRead 0 256) (replicate 256 0) k of
            (Inl e, _, k) \<Rightarrow> ((Err e, buf), p, k)
          | (Inr raw_n, raw, k) \<Rightarrow>
              if raw_n = 0 then ((Ok 0, buf), p, k)
              else
                (let (p, k) = fold (tty_input host) (take raw_n raw) (p, k);
                     (n, buf, t) = read_cooked buf (p_terminal p); p = p\<lparr>p_terminal := t\<rparr>
                 in if n > 0 then ((Ok n, buf), p, k)
                    else if no_wait status_flags k then ((Err EAGAIN, buf), p, k)
                    else ((Ok 0, buf), p, k))))
     else (let (n, buf, k) = host_fill host (HostRead 0 (word_of_nat (length buf))) buf k in ((n, buf), p, k)))"

definition read_device :: "host \<Rightarrow> VirtualDevice \<Rightarrow> bytes \<Rightarrow> Process \<Rightarrow> Kernel \<Rightarrow> read_result" where
  "read_device host dev buf p k = (case dev of
     DevNull \<Rightarrow> ((Ok 0, buf), p, k)
   | DevFb0 \<Rightarrow> ((Ok 0, buf), p, k)
   | DevDsp \<Rightarrow> ((Ok 0, buf), p, k)
   | DevZero \<Rightarrow> ((Ok (length buf), replicate (length buf) 0), p, k)
   | DevFull \<Rightarrow> ((Ok (length buf), replicate (length buf) 0), p, k)
   | DevUrandom \<Rightarrow> (let (n, buf, k) = host_fill host (HostGetrandom (word_of_nat (length buf))) buf k in ((n, buf), p, k))
   | DevMice \<Rightarrow> (let (n, buf, q) = mice_read_into buf (k_mice k)
                in if n = 0 then ((Err EAGAIN, buf), p, k) else ((Ok n, buf), p, k\<lparr>k_mice := q\<rparr>)))"

text \<open>The contents of a memory file or a snapshot from the description's offset.\<close>

definition read_snapshot :: "nat \<Rightarrow> i64 \<Rightarrow> bytes option \<Rightarrow> bytes \<Rightarrow> Process \<Rightarrow> Kernel \<Rightarrow> read_result" where
  "read_snapshot ofd_idx offset content buf p k = (case content of
     None \<Rightarrow> ((Err EBADF, buf), p, k)
   | Some data \<Rightarrow>
       (let offset = unat offset in
        if offset \<ge> length data then ((Ok 0, buf), p, k)
        else
          (let remaining = drop offset data; n = min (length buf) (length remaining)
           in ((Ok n, copy_at 0 (take n remaining) buf), set_offset ofd_idx (\<lambda>off. off + word_of_nat n) p, k))))"

definition read_file :: "host \<Rightarrow> nat \<Rightarrow> OpenFileDesc \<Rightarrow> bytes \<Rightarrow> Process \<Rightarrow> Kernel \<Rightarrow> read_result" where
  "read_file host ofd_idx ofd buf p k =
    (let host_handle = ofd_host_handle ofd;
         dev = (if ofd_file_type ofd = CharDevice then vd_from_host_handle host_handle else None)
     in case dev of
          Some dev \<Rightarrow> read_device host dev buf p k
        | None \<Rightarrow>
            if ofd_file_type ofd = CharDevice \<and> host_handle = 0 then read_tty host (ofd_status_flags ofd) buf p k
            else if is_procfs_buf_handle host_handle then
              read_snapshot ofd_idx (ofd_offset ofd) (slot_get (p_procfs_bufs p) (procfs_buf_idx host_handle)) buf p k
            else if ofd_file_type ofd = MemFd then
              read_snapshot ofd_idx (ofd_offset ofd) (slot_get (p_memfds p) (kernel_idx host_handle)) buf p k
            else (case host_fill host (HostRead host_handle (word_of_nat (length buf))) buf k of
                (Inl e, buf, k) \<Rightarrow> ((Err e, buf), p, k)
              | (Inr n, buf, k) \<Rightarrow> ((Ok n, buf), set_offset ofd_idx (\<lambda>off. off + word_of_nat n) p, k)))"

definition read_pty :: "bool \<Rightarrow> i64 \<Rightarrow> u32 \<Rightarrow> bytes \<Rightarrow> Process \<Rightarrow> Kernel \<Rightarrow> read_result" where
  "read_pty master host_handle status_flags buf p k =
    (let pty_idx = unat host_handle in
     case get_pty (k_ptys k) pty_idx of
       None \<Rightarrow> ((Err EIO, buf), p, k)
     | Some pty \<Rightarrow>
         if (if master then pty_slave_refs pty else pty_master_refs pty) = 0 then ((Ok 0, buf), p, k)
         else
           (let (n, buf, pty) = (if master then master_read buf pty else slave_read buf pty);
                k = k\<lparr>k_ptys := (k_ptys k)[pty_idx := Some pty]\<rparr>
            in if n > 0 then ((Ok n, buf), p, k)
               else if no_wait status_flags k then ((Err EAGAIN, buf), p, k)
               else ((Ok 0, buf), p, k)))"

definition sys_read :: "host \<Rightarrow> i32 \<Rightarrow> bytes \<Rightarrow> Process \<Rightarrow> Kernel \<Rightarrow> read_result option" where
  "sys_read host fd buf p k = (case fdt_get (p_fd_table p) fd of
     Inl e \<Rightarrow> Some ((Err e, buf), p, k)
   | Inr entry \<Rightarrow> (case ofdt_get (p_ofd_table p) (ofd_ref entry) of
       None \<Rightarrow> Some ((Err EBADF, buf), p, k)
     | Some ofd \<Rightarrow>
         if ofd_status_flags ofd AND O_ACCMODE = O_WRONLY then Some ((Err EBADF, buf), p, k)
         else
           (let host_handle = ofd_host_handle ofd; flags = ofd_status_flags ofd; idx = kernel_idx host_handle;
                wait = (\<lambda>attempt. try_or_wait host flags attempt (\<lambda>e. (Err e, buf)) p k)
            in case ofd_file_type ofd of
                 Pipe \<Rightarrow>
                   if 0 \<le> sint host_handle
                   then (let (n, buf, k) = host_fill host (HostRead host_handle (word_of_nat (length buf))) buf k
                         in Some ((n, buf), p, k))
                   else wait (pipe_try_read (is_centralized_mode k) idx buf)
               | Socket \<Rightarrow> read_socket host idx flags buf p k
               | TimerFd \<Rightarrow>
                   if length buf < 8 then Some ((Err EINVAL, buf), p, k) else wait (timerfd_try_read host idx buf)
               | SignalFd \<Rightarrow>
                   if length buf < 128 then Some ((Err EINVAL, buf), p, k) else wait (signalfd_try_read idx buf)
               | EventFd \<Rightarrow>
                   if length buf < 8 then Some ((Err EINVAL, buf), p, k) else wait (eventfd_try_read idx buf)
               | PtyMaster \<Rightarrow> Some (read_pty True host_handle flags buf p k)
               | PtySlave \<Rightarrow> Some (read_pty False host_handle flags buf p k)
               | _ \<Rightarrow> Some (read_file host (ofd_ref entry) ofd buf p k))))"


section \<open>Writing\<close>

abbreviation (input) PIPE_BUF :: nat where "PIPE_BUF \<equiv> 4096"

type_synonym write_result = "nat kresult \<times> Process \<times> Kernel"

definition write_socket :: "host \<Rightarrow> nat \<Rightarrow> u32 \<Rightarrow> bytes \<Rightarrow> Process \<Rightarrow> Kernel \<Rightarrow> write_result option" where
  "write_socket host sock_idx status_flags data p k = (case skt_get (p_sockets p) sock_idx of
     None \<Rightarrow> Some (Err EBADF, p, k)
   | Some sock \<Rightarrow>
       if sk_shut_wr sock then Some (Err EPIPE, raise_signal SIGPIPE p, k)
       else (case sk_send_buf_idx sock of
         Some send_buf_idx \<Rightarrow>
           try_or_wait host status_flags
             (or_again status_flags (Err EAGAIN) (pipe_try_write (sk_global_pipes sock) send_buf_idx 0 data)) Err p k
       | None \<Rightarrow>
           if sk_domain sock = DomUnix
           then Some (if sk_sock_type sock = Dgram then Ok (length data) else Err ENOTCONN, p, k)
           else (case sk_host_net_handle sock of
             None \<Rightarrow> Some (Err ENOTCONN, p, k)
           | Some net_handle \<Rightarrow>
               (let (n, k) = host_size host (HostNetSend net_handle data 0) k in Some (n, p, k)))))"

definition write_memfd :: "nat \<Rightarrow> OpenFileDesc \<Rightarrow> bytes \<Rightarrow> Process \<Rightarrow> Kernel \<Rightarrow> write_result" where
  "write_memfd ofd_idx ofd data p k =
    (let memfd_idx = kernel_idx (ofd_host_handle ofd) in
     case slot_get (p_memfds p) memfd_idx of
       None \<Rightarrow> (Err EBADF, p, k)
     | Some content \<Rightarrow>
         (let offset = unat (ofd_offset ofd); end = offset + length data;
              content = (if end > length content then content @ replicate (end - length content) 0 else content);
              p = p\<lparr>p_memfds := (p_memfds p)[memfd_idx := Some (copy_at offset data content)]\<rparr>
          in (Ok (length data), set_offset ofd_idx (\<lambda>off. off + word_of_nat (length data)) p, k)))"

definition write_fb0 :: "host \<Rightarrow> nat \<Rightarrow> OpenFileDesc \<Rightarrow> bytes \<Rightarrow> Process \<Rightarrow> Kernel \<Rightarrow> write_result" where
  "write_fb0 host ofd_idx ofd data p k =
    (let (p, k) =
       (if p_fb_binding p = None
        then (p\<lparr>p_fb_binding := Some \<lparr>fb_addr = 0, fb_len = 0, fb_w = FB_WIDTH, fb_h = FB_HEIGHT, fb_stride = FB_LINE_LENGTH, fb_fmt = 0\<rparr>\<rparr>,
              snd (host_call host (HostBindFramebuffer (p_pid p) 0 0 FB_WIDTH FB_HEIGHT FB_LINE_LENGTH 0) k))
        else (p, k));
         offset = nat (sint (ofd_offset ofd)); n = min (length data) (FB_SMEM_LEN - offset)
     in if n > 0
        then (Ok (length data), set_offset ofd_idx (\<lambda>off. off + word_of_nat n) p,
              snd (host_call host (HostFbWrite (p_pid p) (word_of_nat offset) (take n data)) k))
        else (Ok (length data), p, k))"

definition write_device :: "host \<Rightarrow> VirtualDevice \<Rightarrow> nat \<Rightarrow> OpenFileDesc \<Rightarrow> bytes \<Rightarrow> Process \<Rightarrow> Kernel \<Rightarrow> write_result" where
  "write_device host dev ofd_idx ofd data p k = (case dev of
     DevFull \<Rightarrow> (Err ENOSPC, p, k)
   | DevFb0 \<Rightarrow> write_fb0 host ofd_idx ofd data p k
   | DevDsp \<Rightarrow> (Ok (length data), p, k\<lparr>k_dsp := write_pcm data (k_dsp k)\<rparr>)
   | _ \<Rightarrow> (Ok (length data), p, k))"

text \<open>A host file: append, the file size limit, then the write.\<close>

definition write_host_file :: "host \<Rightarrow> nat \<Rightarrow> OpenFileDesc \<Rightarrow> bytes \<Rightarrow> Process \<Rightarrow> Kernel \<Rightarrow> write_result" where
  "write_host_file host ofd_idx ofd data p k =
    (let host_handle = ofd_host_handle ofd;
         (r, p, k) =
           (if ofd_status_flags ofd AND O_APPEND \<noteq> 0
            then (case host_i64 host (HostSeek host_handle 0 SEEK_END) k of
                (Inl e, k) \<Rightarrow> (Err e, p, k)
              | (Inr end, k) \<Rightarrow> (Ok (), set_offset ofd_idx (\<lambda>_. end) p, k))
            else (Ok (), p, k))
     in case r of
          Inl e \<Rightarrow> (Err e, p, k)
        | Inr _ \<Rightarrow>
            (let fsize_limit = fst (p_rlimits p ! 1);
                 current_offset = (case ofdt_get (p_ofd_table p) ofd_idx of None \<Rightarrow> 0 | Some o' \<Rightarrow> ofd_offset o')
             in if fsize_limit \<noteq> - 1 \<and> current_offset + word_of_nat (length data) > fsize_limit
                then (Err EFBIG, raise_signal SIGXFSZ p, k)
                else (case host_size host (HostWrite host_handle data) k of
                    (Inl e, k) \<Rightarrow> (Err e, p, k)
                  | (Inr n, k) \<Rightarrow> (Ok n, set_offset ofd_idx (\<lambda>off. off + word_of_nat n) p, k))))"

definition write_pty :: "bool \<Rightarrow> i64 \<Rightarrow> bytes \<Rightarrow> Process \<Rightarrow> Kernel \<Rightarrow> write_result" where
  "write_pty master host_handle data p k =
    (let pty_idx = unat host_handle in
     case get_pty (k_ptys k) pty_idx of
       None \<Rightarrow> (Err EIO, p, k)
     | Some pty \<Rightarrow>
         if (if master then pty_slave_refs pty else pty_master_refs pty) = 0
         then (Err EIO, raise_signal SIGPIPE p, k)
         else
           (let (n, pty) =
              (if master then (length data, fold (\<lambda>byte pty. snd (process_master_input pty byte)) data pty)
               else slave_write data pty)
            in (Ok n, p, k\<lparr>k_ptys := (k_ptys k)[pty_idx := Some pty]\<rparr>)))"

definition sys_write :: "host \<Rightarrow> i32 \<Rightarrow> bytes \<Rightarrow> Process \<Rightarrow> Kernel \<Rightarrow> write_result option" where
  "sys_write host fd data p k = (case fdt_get (p_fd_table p) fd of
     Inl e \<Rightarrow> Some (Err e, p, k)
   | Inr entry \<Rightarrow> (case ofdt_get (p_ofd_table p) (ofd_ref entry) of
       None \<Rightarrow> Some (Err EBADF, p, k)
     | Some ofd \<Rightarrow>
         if ofd_status_flags ofd AND O_ACCMODE = O_RDONLY then Some (Err EBADF, p, k)
         else if data = [] then Some (Ok 0, p, k)
         else
           (let host_handle = ofd_host_handle ofd; flags = ofd_status_flags ofd; idx = kernel_idx host_handle
            in case ofd_file_type ofd of
                 Pipe \<Rightarrow>
                   if 0 \<le> sint host_handle
                   then (let (n, k) = host_size host (HostWrite host_handle data) k in Some (n, p, k))
                   else try_or_wait host flags (pipe_try_write (is_centralized_mode k) idx PIPE_BUF data) Err p k
               | Socket \<Rightarrow> write_socket host idx flags data p k
               | EventFd \<Rightarrow>
                   if length data < 8 then Some (Err EINVAL, p, k)
                   else
                     (let value = from_le (take 8 data) in
                      if value = - 1 then Some (Err EINVAL, p, k)
                      else try_or_wait host flags (eventfd_try_write idx value) Err p k)
               | PtyMaster \<Rightarrow> Some (write_pty True host_handle data p k)
               | PtySlave \<Rightarrow> Some (write_pty False host_handle data p k)
               | MemFd \<Rightarrow> Some (write_memfd (ofd_ref entry) ofd data p k)
               | _ \<Rightarrow> Some (case (if ofd_file_type ofd = CharDevice then vd_from_host_handle host_handle else None) of
                     Some dev \<Rightarrow> write_device host dev (ofd_ref entry) ofd data p k
                   | None \<Rightarrow> write_host_file host (ofd_ref entry) ofd data p k))))"

section \<open>Seeking\<close>

text \<open>The loop that skips directory entries: the host's own dot entries are not counted.\<close>

partial_function (option) skip_entries ::
    "host \<Rightarrow> i64 \<Rightarrow> int \<Rightarrow> int \<Rightarrow> bytes \<Rightarrow> Kernel \<Rightarrow> (unit kresult \<times> Kernel) option" where
  "skip_entries host h target skipped name_buf k =
    (if skipped < target
     then (case host_readdir host h name_buf k of
         (Inl e, _, k) \<Rightarrow> Some (Err e, k)
       | (Inr None, _, k) \<Rightarrow> Some (Ok (), k)
       | (Inr (Some (_, _, name_len)), name_buf, k) \<Rightarrow>
           if (name_len = 1 \<and> name_buf ! 0 = 46) \<or> (name_len = 2 \<and> name_buf ! 0 = 46 \<and> name_buf ! 1 = 46)
           then skip_entries host h target skipped name_buf k
           else skip_entries host h target (skipped + 1) name_buf k)
     else Some (Ok (), k))"

definition unseekable :: "FileType \<Rightarrow> bool" where
  "unseekable ft \<longleftrightarrow> ft \<in> {Pipe, Socket, EventFd, Epoll, TimerFd, SignalFd, PtyMaster, PtySlave}"

type_synonym seek_result = "i64 kresult \<times> Process \<times> Kernel"

definition modify_ofd :: "nat \<Rightarrow> (OpenFileDesc \<Rightarrow> OpenFileDesc) \<Rightarrow> Process \<Rightarrow> Process" where
  "modify_ofd ofd_idx f p = p\<lparr>p_ofd_table := slot_modify ofd_idx f (p_ofd_table p)\<rparr>"

definition lseek_dir :: "host \<Rightarrow> nat \<Rightarrow> OpenFileDesc \<Rightarrow> i64 \<Rightarrow> u32 \<Rightarrow> Process \<Rightarrow> Kernel \<Rightarrow> seek_result option" where
  "lseek_dir host ofd_idx ofd offset whence p k =
    (if whence = SEEK_SET then
       (let k = (if 0 \<le> sint (ofd_dir_host_handle ofd)
                 then snd (host_unit host (HostClosedir (ofd_dir_host_handle ofd)) k) else k);
            p = modify_ofd ofd_idx (\<lambda>d. d\<lparr>ofd_offset := offset, ofd_dir_host_handle := - 1, ofd_dir_synth_state := 0,
                  ofd_dir_entry_offset := 0\<rparr>) p
        in if 0 < sint offset then
             (case host_i64 host (HostOpendir (ofd_path ofd)) k of
                (Inl e, k) \<Rightarrow> Some (Err e, p, k)
              | (Inr h, k) \<Rightarrow>
                  (let p = modify_ofd ofd_idx (\<lambda>d. d\<lparr>ofd_dir_host_handle := h, ofd_dir_synth_state := 2\<rparr>) p in
                   case skip_entries host h (max (sint (offset - 2)) 0) 0 (replicate 256 0) k of
                     None \<Rightarrow> None
                   | Some (Inl e, k) \<Rightarrow> Some (Err e, p, k)
                   | Some (Inr _, k) \<Rightarrow> Some (Ok offset, modify_ofd ofd_idx (\<lambda>d. d\<lparr>ofd_dir_entry_offset := offset\<rparr>) p, k)))
           else Some (Ok offset, p, k))
     else Some (Ok (ofd_offset ofd), p, k))"

text \<open>A position in contents of a known size.\<close>

definition lseek_sized :: "nat \<Rightarrow> OpenFileDesc \<Rightarrow> i64 \<Rightarrow> i64 \<Rightarrow> u32 \<Rightarrow> Process \<Rightarrow> i64 kresult \<times> Process" where
  "lseek_sized ofd_idx ofd sz offset whence p =
    (if whence \<notin> {SEEK_SET, SEEK_CUR, SEEK_END} then (Err EINVAL, p)
     else
       (let new_pos = (if whence = SEEK_SET then offset else if whence = SEEK_CUR then ofd_offset ofd + offset
                       else sz + offset)
        in if sint new_pos < 0 then (Err EINVAL, p) else (Ok new_pos, set_offset ofd_idx (\<lambda>_. new_pos) p)))"

definition lseek_host :: "host \<Rightarrow> nat \<Rightarrow> OpenFileDesc \<Rightarrow> i64 \<Rightarrow> u32 \<Rightarrow> Process \<Rightarrow> Kernel \<Rightarrow> seek_result" where
  "lseek_host host ofd_idx ofd offset whence p k =
    (if whence \<notin> {SEEK_SET, SEEK_CUR, SEEK_END} then (Err EINVAL, p, k)
     else
       (let pos = (if whence = SEEK_CUR then ofd_offset ofd + offset else offset);
            (r, k) = host_i64 host (HostSeek (ofd_host_handle ofd) pos (if whence = SEEK_END then SEEK_END else SEEK_SET)) k
        in case r of
             Inl e \<Rightarrow> (Err e, p, k)
           | Inr at \<Rightarrow>
               (let new_offset = (if whence = SEEK_END then at else pos)
                in if sint new_offset < 0 then (Err EINVAL, p, k)
                   else (Ok new_offset, set_offset ofd_idx (\<lambda>_. new_offset) p, k))))"

definition sys_lseek :: "host \<Rightarrow> i32 \<Rightarrow> i64 \<Rightarrow> u32 \<Rightarrow> Process \<Rightarrow> Kernel \<Rightarrow> seek_result option" where
  "sys_lseek host fd offset whence p k = (case fdt_get (p_fd_table p) fd of
     Inl e \<Rightarrow> Some (Err e, p, k)
   | Inr entry \<Rightarrow> (case ofdt_get (p_ofd_table p) (ofd_ref entry) of
       None \<Rightarrow> Some (Err EBADF, p, k)
     | Some ofd \<Rightarrow>
         (let i = ofd_ref entry; host_handle = ofd_host_handle ofd;
              dev = (if ofd_file_type ofd = CharDevice then vd_from_host_handle host_handle else None);
              len = (\<lambda>content. word_of_nat (case content of None \<Rightarrow> 0 | Some data \<Rightarrow> length data));
              sized = (\<lambda>sz. let (r, p) = lseek_sized i ofd sz offset whence p in Some (r, p, k))
          in if unseekable (ofd_file_type ofd) then Some (Err ESPIPE, p, k)
             else if ofd_file_type ofd = Directory then lseek_dir host i ofd offset whence p k
             else if dev = Some DevFb0 then sized (word_of_nat FB_SMEM_LEN)
             else if dev \<noteq> None then Some (Ok 0, p, k)
             else if host_handle = PROCFS_DIR_HANDLE \<or> host_handle = DEVFS_DIR_HANDLE then
               (if whence = SEEK_SET
                then Some (Ok offset,
                  modify_ofd i (\<lambda>d. d\<lparr>ofd_offset := offset, ofd_dir_synth_state := 0, ofd_dir_entry_offset := 0\<rparr>) p, k)
                else Some (Ok (ofd_offset ofd), p, k))
             else if is_procfs_buf_handle host_handle then sized (len (slot_get (p_procfs_bufs p) (procfs_buf_idx host_handle)))
             else if ofd_file_type ofd = MemFd then sized (len (slot_get (p_memfds p) (kernel_idx host_handle)))
             else Some (lseek_host host i ofd offset whence p k))))"

section \<open>Positioned reading and writing\<close>

definition sys_pread :: "host \<Rightarrow> i32 \<Rightarrow> bytes \<Rightarrow> i64 \<Rightarrow> Process \<Rightarrow> Kernel \<Rightarrow> (nat kresult \<times> bytes) \<times> Kernel" where
  "sys_pread host fd buf offset p k =
    (if sint offset < 0 then ((Err EINVAL, buf), k)
     else (case fdt_get (p_fd_table p) fd of
       Inl e \<Rightarrow> ((Err e, buf), k)
     | Inr entry \<Rightarrow> (case ofdt_get (p_ofd_table p) (ofd_ref entry) of
         None \<Rightarrow> ((Err EBADF, buf), k)
       | Some ofd \<Rightarrow>
           if ofd_status_flags ofd AND O_ACCMODE = O_WRONLY then ((Err EBADF, buf), k)
           else if unseekable (ofd_file_type ofd) then ((Err ESPIPE, buf), k)
           else (case host_i64 host (HostSeek (ofd_host_handle ofd) offset SEEK_SET) k of
               (Inl e, k) \<Rightarrow> ((Err e, buf), k)
             | (Inr _, k) \<Rightarrow> (case host_fill host (HostRead (ofd_host_handle ofd) (word_of_nat (length buf))) buf k of
                 (Inl e, buf, k) \<Rightarrow> ((Err e, buf), k)
               | (Inr n, buf, k) \<Rightarrow> (case host_i64 host (HostSeek (ofd_host_handle ofd) (ofd_offset ofd) SEEK_SET) k of
                   (Inl e, k) \<Rightarrow> ((Err e, buf), k)
                 | (Inr _, k) \<Rightarrow> ((Ok n, buf), k)))))))"

definition sys_pwrite :: "host \<Rightarrow> i32 \<Rightarrow> bytes \<Rightarrow> i64 \<Rightarrow> Process \<Rightarrow> Kernel \<Rightarrow> nat kresult \<times> Kernel" where
  "sys_pwrite host fd data offset p k =
    (if sint offset < 0 then (Err EINVAL, k)
     else (case fdt_get (p_fd_table p) fd of
       Inl e \<Rightarrow> (Err e, k)
     | Inr entry \<Rightarrow> (case ofdt_get (p_ofd_table p) (ofd_ref entry) of
         None \<Rightarrow> (Err EBADF, k)
       | Some ofd \<Rightarrow>
           if ofd_status_flags ofd AND O_ACCMODE = O_RDONLY then (Err EBADF, k)
           else if unseekable (ofd_file_type ofd) then (Err ESPIPE, k)
           else (case host_i64 host (HostSeek (ofd_host_handle ofd) offset SEEK_SET) k of
               (Inl e, k) \<Rightarrow> (Err e, k)
             | (Inr _, k) \<Rightarrow> (case host_size host (HostWrite (ofd_host_handle ofd) data) k of
                 (Inl e, k) \<Rightarrow> (Err e, k)
               | (Inr n, k) \<Rightarrow> (case host_i64 host (HostSeek (ofd_host_handle ofd) (ofd_offset ofd) SEEK_SET) k of
                   (Inl e, k) \<Rightarrow> (Err e, k)
                 | (Inr _, k) \<Rightarrow> (Ok n, k)))))))"

end
