(* ===== verification/Io_Correct.thy ===== *)
theory Io_Correct
  imports Io ProcTable Files_Correct
begin

text \<open>
  Reading and writing are correct: in the centralised mode the calls always return, a pipe is a byte
  stream between processes, an event counter counts, a memory file is a file, and a timer reports every
  expiration.
\<close>

section \<open>No waiting in the centralised mode\<close>

definition keeps_mode :: "'r attempt \<Rightarrow> bool" where
  "keeps_mode attempt \<longleftrightarrow> (\<forall>p k. is_centralized_mode (snd (snd (attempt p k))) = is_centralized_mode k)"

lemma try_or_wait_returns:
  assumes "keeps_mode attempt" "no_wait flags k"
  shows "try_or_wait host flags attempt err p k =
    Some (case attempt p k of (r, p, k) \<Rightarrow> (case r of None \<Rightarrow> err EAGAIN | Some r \<Rightarrow> r, p, k))"
proof -
  obtain r p' k' where a: "attempt p k = (r, p', k')" by (metis prod_cases3)
  then have "is_centralized_mode k' = is_centralized_mode k" using assms(1) by (metis keeps_mode_def snd_conv)
  with assms(2) show ?thesis by (simp add: try_or_wait_def a no_wait_def split: option.split)
qed

lemma pb_read_mode: "pb_read buf b wk = (n, buf', b', wk') \<Longrightarrow> wk_centralized wk' = wk_centralized wk"
  by (auto simp: pb_read_def Let_def wakeup_push_def split: if_splits)

lemma pb_write_mode: "pb_write data b wk = (n, b', wk') \<Longrightarrow> wk_centralized wk' = wk_centralized wk"
  by (auto simp: pb_write_def Let_def wakeup_push_def split: if_splits)

lemma pipe_store_mode: "is_centralized_mode (snd (pipe_store global idx b p k)) = is_centralized_mode k"
  by (simp add: pipe_store_def is_centralized_mode_def)

lemma keeps_mode_attempts:
  "keeps_mode (pipe_try_read global idx buf)"
  "keeps_mode (pipe_try_write global idx atomic data)"
  "keeps_mode (eventfd_try_read idx buf)"
  "keeps_mode (eventfd_try_write idx value)"
  "keeps_mode (timerfd_try_read host idx buf)"
  "keeps_mode (signalfd_try_read idx buf)"
proof -
  show "keeps_mode (pipe_try_read global idx buf)"
    unfolding keeps_mode_def
    by (auto simp: pipe_try_read_def pipe_store_def Let_def is_centralized_mode_def split: option.splits prod.splits
        dest: pb_read_mode)
  show "keeps_mode (pipe_try_write global idx atomic data)"
    unfolding keeps_mode_def
    by (auto simp: pipe_try_write_def pipe_store_def Let_def is_centralized_mode_def split: option.splits prod.splits
        dest: pb_write_mode)
  show "keeps_mode (eventfd_try_read idx buf)" "keeps_mode (eventfd_try_write idx value)"
    "keeps_mode (signalfd_try_read idx buf)"
    by (auto simp: keeps_mode_def eventfd_try_read_def eventfd_try_write_def signalfd_try_read_def Let_def split: option.splits)
  show "keeps_mode (timerfd_try_read host idx buf)"
    unfolding keeps_mode_def
    by (auto simp: timerfd_try_read_def Let_def host_clock_gettime_def host_call_def is_centralized_mode_def
        split: option.splits sum.splits prod.splits)
qed

lemma keeps_mode_or_again: "keeps_mode a \<Longrightarrow> keeps_mode (or_again flags again a)"
  unfolding keeps_mode_def or_again_def by (auto split: prod.splits option.splits) (metis snd_conv)+


definition fd_flags_of :: "Process \<Rightarrow> i32 \<Rightarrow> u32" where
  "fd_flags_of p fd = (case fdt_get (p_fd_table p) fd of
     Inl _ \<Rightarrow> 0
   | Inr e \<Rightarrow> (case ofdt_get (p_ofd_table p) (ofd_ref e) of None \<Rightarrow> 0 | Some d \<Rightarrow> ofd_status_flags d))"

lemma try_or_wait_not_None: "keeps_mode attempt \<Longrightarrow> no_wait flags k \<Longrightarrow> try_or_wait host flags attempt err p k \<noteq> None"
  by (simp add: try_or_wait_returns)

lemma socket_io_returns:
  assumes "no_wait flags k"
  shows "read_socket host idx flags buf p k \<noteq> None" "write_socket host idx flags data p k \<noteq> None"
  unfolding read_socket_def write_socket_def
  by (simp_all add: try_or_wait_not_None [OF keeps_mode_or_again assms] keeps_mode_attempts del: not_None_eq
      split: option.split prod.split)

text \<open>
  C9: a read or write never waits inside the kernel unless it may. In the centralised mode, and in the
  traditional mode for a descriptor with \<open>O_NONBLOCK\<close>, \<open>read\<close> and \<open>write\<close> return for every type of file,
  whatever the state and whatever the host answers: the waiting loops are not entered.
\<close>

theorem io_returns:
  assumes "is_centralized_mode k \<or> fd_flags_of p fd AND O_NONBLOCK \<noteq> 0"
  shows "(\<exists>n buf' p' k'. sys_read host fd buf p k = Some ((n, buf'), p', k')) \<and>
    (\<exists>n p' k'. sys_write host fd data p k = Some (n, p', k'))"
proof -
  have "sys_read host fd buf p k \<noteq> None \<and> sys_write host fd data p k \<noteq> None"
  proof (cases "fdt_get (p_fd_table p) fd")
    case (Inl e)
    then show ?thesis by (simp add: sys_read_def sys_write_def)
  next
    case (Inr e)
    show ?thesis
    proof (cases "ofdt_get (p_ofd_table p) (ofd_ref e)")
      case None
      with Inr show ?thesis by (simp add: sys_read_def sys_write_def)
    next
      case (Some d)
      have nw: "no_wait (ofd_status_flags d) k" using assms Inr Some by (auto simp: no_wait_def fd_flags_of_def)
      note returns = socket_io_returns [OF nw] try_or_wait_not_None [OF _ nw]
      show ?thesis
        using Inr Some
        by (cases "ofd_file_type d")
          (simp_all add: sys_read_def sys_write_def Let_def returns keeps_mode_attempts del: not_None_eq split: prod.split)
    qed
  qed
  then show ?thesis by (metis option.exhaust prod_cases3 prod.collapse)
qed

theorem io_returns_witness:
  "(\<exists>n buf' p' k'. sys_read quiet_host 0 [0, 0] (process_new 3) kernel_new = Some ((n, buf'), p', k')) \<and>
    (\<exists>n p' k'. sys_write quiet_host 1 [72, 105] (process_new 3) kernel_new = Some (n, p', k'))"
proof -
  have "is_centralized_mode kernel_new" by (simp add: is_centralized_mode_def kernel_new_def)
  then show ?thesis
    using io_returns [of kernel_new "process_new 3" 0 quiet_host "[0, 0]" "[]"]
      io_returns [of kernel_new "process_new 3" 1 quiet_host "[]" "[72, 105]"] by blast
qed

section \<open>Pipes as streams between processes\<close>

definition pipe_fd :: "bool \<Rightarrow> nat \<Rightarrow> Process \<Rightarrow> i32 \<Rightarrow> bool" where
  "pipe_fd rd i p fd \<longleftrightarrow> (\<exists>e d. fdt_get (p_fd_table p) fd = Ok e \<and> ofdt_get (p_ofd_table p) (ofd_ref e) = Some d \<and>
     is_kernel_pipe d \<and> kernel_idx (ofd_host_handle d) = i \<and>
     ofd_status_flags d AND O_ACCMODE = (if rd then O_RDONLY else O_WRONLY))"

lemma pipe_write_call:
  assumes mode: "is_centralized_mode k" and fd: "pipe_fd False i p fd"
    and b: "pt_get (k_pipes k) i = Some b" "pb_wf b" and data: "data \<noteq> []"
  obtains r p' k' b' where "sys_write host fd data p k = Some (r, p', k')" "is_centralized_mode k'"
    "pt_get (k_pipes k') i = Some b'" "pb_wf b'" "p_fd_table p' = p_fd_table p" "p_ofd_table p' = p_ofd_table p"
    "if \<not> pb_is_read_end_open b then r = Err EPIPE \<and> p' = raise_signal SIGPIPE p \<and> pb_contents b' = pb_contents b
     else if pb_free_space b < (if length data \<le> PIPE_BUF then length data else 1)
     then r = Err EAGAIN \<and> p' = p \<and> pb_contents b' = pb_contents b
     else \<exists>n. r = Ok n \<and> n = min (length data) (pb_free_space b) \<and> p' = p \<and> pb_contents b' = pb_contents b @ take n data"
proof -
  obtain e d where e: "fdt_get (p_fd_table p) fd = Ok e" "ofdt_get (p_ofd_table p) (ofd_ref e) = Some d"
    "is_kernel_pipe d" "kernel_idx (ofd_host_handle d) = i" "ofd_status_flags d AND O_ACCMODE = O_WRONLY"
    using fd by (auto simp: pipe_fd_def)
  have nw: "no_wait (ofd_status_flags d) k" using mode by (simp add: no_wait_def)
  let ?att = "pipe_try_write True i PIPE_BUF data p k"
  have run: "sys_write host fd data p k =
      Some (case ?att of (r, p, k) \<Rightarrow> (case r of None \<Rightarrow> Err EAGAIN | Some r \<Rightarrow> r, p, k))"
    using e data mode
    by (simp add: sys_write_def Let_def is_kernel_pipe_def try_or_wait_returns [OF keeps_mode_attempts(2) nw])
  obtain n b' wk where w: "pb_write data b (k_wakeup k) = (n, b', wk)" by (metis prod_cases3)
  note q = pb_write_fifo [OF b(2) w]
  let ?k' = "k\<lparr>k_wakeup := wk, k_pipes := pt_get_mut i (\<lambda>_. b') (k_pipes k)\<rparr>"
  have k': "is_centralized_mode ?k'" "pt_get (k_pipes ?k') i = Some b'"
    using mode pb_write_mode [OF w] b(1) by (simp_all add: is_centralized_mode_def pt_get_get_mut)
  consider (closed) "\<not> pb_is_read_end_open b"
    | (full) "pb_is_read_end_open b" "length data \<le> PIPE_BUF" "pb_free_space b < length data"
    | (go) "pb_is_read_end_open b" "\<not> (length data \<le> PIPE_BUF \<and> pb_free_space b < length data)" by blast
  then show thesis
  proof cases
    case closed
    then have "sys_write host fd data p k = Some (Err EPIPE, raise_signal SIGPIPE p, k)"
      by (simp add: run pipe_try_write_def pipe_lookup_def b(1))
    then show thesis by (rule that [OF _ mode b]) (use closed in \<open>simp_all add: raise_signal_def\<close>)
  next
    case full
    then have "sys_write host fd data p k = Some (Err EAGAIN, p, k)"
      by (simp add: run pipe_try_write_def pipe_lookup_def b(1))
    then show thesis by (rule that [OF _ mode b]) (use full in simp_all)
  next
    case go
    then have "sys_write host fd data p k = Some (if n > 0 then Ok n else Err EAGAIN, p, ?k')"
      by (auto simp: run pipe_try_write_def pipe_lookup_def b(1) w pipe_store_def)
    then show thesis by (rule that [OF _ k' q(2)]) (use go q data in \<open>auto simp: min_def split: if_splits\<close>)
  qed
qed

lemma pipe_read_call:
  assumes mode: "is_centralized_mode k" and fd: "pipe_fd True i p fd"
    and b: "pt_get (k_pipes k) i = Some b" "pb_wf b"
  obtains r buf' k' b' where "sys_read host fd buf p k = Some ((r, buf'), p, k')" "is_centralized_mode k'"
    "pt_get (k_pipes k') i = Some b'" "pb_wf b'"
    "if pb_contents b \<noteq> [] \<and> buf \<noteq> []
     then \<exists>n. r = Ok n \<and> n = min (length buf) (length (pb_contents b)) \<and> buf' = take n (pb_contents b) @ drop n buf \<and>
       pb_contents b' = drop n (pb_contents b)
     else r = (if pb_is_write_end_open b then Err EAGAIN else Ok 0) \<and> buf' = buf \<and> pb_contents b' = pb_contents b"
proof -
  obtain e d where e: "fdt_get (p_fd_table p) fd = Ok e" "ofdt_get (p_ofd_table p) (ofd_ref e) = Some d"
    "is_kernel_pipe d" "kernel_idx (ofd_host_handle d) = i" "ofd_status_flags d AND O_ACCMODE = O_RDONLY"
    using fd by (auto simp: pipe_fd_def)
  have nw: "no_wait (ofd_status_flags d) k" using mode by (simp add: no_wait_def)
  let ?att = "pipe_try_read True i buf p k"
  have run: "sys_read host fd buf p k =
      Some (case ?att of (r, p, k) \<Rightarrow> (case r of None \<Rightarrow> (Err EAGAIN, buf) | Some r \<Rightarrow> r, p, k))"
    using e mode
    by (simp add: sys_read_def Let_def is_kernel_pipe_def try_or_wait_returns [OF keeps_mode_attempts(1) nw])
  obtain n buf' b' wk where w: "pb_read buf b (k_wakeup k) = (n, buf', b', wk)" by (metis prod_cases4)
  note q = pb_read_fifo [OF b(2) w]
  have ends: "pb_is_write_end_open b' = pb_is_write_end_open b"
    using w by (auto simp: pb_read_def Let_def pb_is_write_end_open_def split: if_splits)
  let ?k' = "k\<lparr>k_wakeup := wk, k_pipes := pt_get_mut i (\<lambda>_. b') (k_pipes k)\<rparr>"
  have k': "is_centralized_mode ?k'" "pt_get (k_pipes ?k') i = Some b'"
    using mode pb_read_mode [OF w] b(1) by (simp_all add: is_centralized_mode_def pt_get_get_mut)
  have "sys_read host fd buf p k = Some ((if n > 0 then Ok n else if pb_is_write_end_open b then Err EAGAIN else Ok 0,
      if n > 0 then buf' else buf), p, ?k')"
    using q(3) by (simp add: run pipe_try_read_def pipe_lookup_def b(1) w pipe_store_def ends)
  then show thesis
    by (rule that [OF _ k' q(2)]) (use q in \<open>auto simp: min_def length_pb_contents [symmetric] simp del: length_pb_contents split: if_splits\<close>)
qed


text \<open>A run of reads and writes by any processes; the bytes the writes accepted, and those the reads delivered.\<close>

datatype stream_call = SRead u32 i32 bytes | SWrite u32 i32 bytes

fun stream_run :: "host \<Rightarrow> stream_call list \<Rightarrow> ProcessTable \<Rightarrow> Kernel \<Rightarrow> (bytes \<times> bytes \<times> ProcessTable \<times> Kernel) option" where
  "stream_run host [] t k = Some ([], [], t, k)"
| "stream_run host (SRead pid fd buf # cs) t k = (case pr_get t pid of
     None \<Rightarrow> stream_run host cs t k
   | Some p \<Rightarrow> Option.bind (sys_read host fd buf p k) (\<lambda>((r, buf'), p', k').
       map_option (\<lambda>(sent, got, s). (sent, (case r of Inl _ \<Rightarrow> [] | Inr n \<Rightarrow> take n buf') @ got, s))
         (stream_run host cs (pr_insert pid p' t) k')))"
| "stream_run host (SWrite pid fd data # cs) t k = (case pr_get t pid of
     None \<Rightarrow> stream_run host cs t k
   | Some p \<Rightarrow> Option.bind (sys_write host fd data p k) (\<lambda>(r, p', k').
       map_option (\<lambda>(sent, got, s). ((case r of Inl _ \<Rightarrow> [] | Inr n \<Rightarrow> take n data) @ sent, got, s))
         (stream_run host cs (pr_insert pid p' t) k')))"

fun on_pipe :: "nat \<Rightarrow> ProcessTable \<Rightarrow> stream_call \<Rightarrow> bool" where
  "on_pipe i t (SRead pid fd buf) = (\<forall>p. pr_get t pid = Some p \<longrightarrow> pipe_fd True i p fd)"
| "on_pipe i t (SWrite pid fd data) = (\<forall>p. pr_get t pid = Some p \<longrightarrow> pipe_fd False i p fd)"

lemma on_pipe_insert:
  assumes "on_pipe i t c" "pr_get t pid = Some p" "p_fd_table p' = p_fd_table p" "p_ofd_table p' = p_ofd_table p"
  shows "on_pipe i (pr_insert pid p' t) c"
proof -
  have "pipe_fd rd i p' fd = pipe_fd rd i p fd" for rd fd using assms(3,4) by (simp add: pipe_fd_def)
  with assms(1,2) show ?thesis by (cases c) (auto simp: pr_get_def pr_insert_def split: if_splits)
qed

lemma pipe_write_stream:
  assumes "is_centralized_mode k" "pipe_fd False i p fd" "pt_get (k_pipes k) i = Some b" "pb_wf b"
  obtains r p' k' b' where "sys_write host fd data p k = Some (r, p', k')" "is_centralized_mode k'"
    "pt_get (k_pipes k') i = Some b'" "pb_wf b'" "p_fd_table p' = p_fd_table p" "p_ofd_table p' = p_ofd_table p"
    "pb_contents b' = pb_contents b @ (case r of Inl _ \<Rightarrow> [] | Inr n \<Rightarrow> take n data)"
proof (cases "data = []")
  case True
  obtain e d where "fdt_get (p_fd_table p) fd = Ok e" "ofdt_get (p_ofd_table p) (ofd_ref e) = Some d"
    "ofd_status_flags d AND O_ACCMODE = O_WRONLY"
    using assms(2) by (auto simp: pipe_fd_def)
  with True have "sys_write host fd data p k = Some (Ok 0, p, k)" by (simp add: sys_write_def)
  then show thesis by (rule that [OF _ assms(1,3,4)]) simp_all
next
  case False
  show thesis
    by (rule pipe_write_call [OF assms False, of host], rule that, assumption+) (auto split: if_splits)
qed

lemma pipe_read_stream:
  assumes "is_centralized_mode k" "pipe_fd True i p fd" "pt_get (k_pipes k) i = Some b" "pb_wf b"
  obtains r buf' k' b' where "sys_read host fd buf p k = Some ((r, buf'), p, k')" "is_centralized_mode k'"
    "pt_get (k_pipes k') i = Some b'" "pb_wf b'"
    "pb_contents b = (case r of Inl _ \<Rightarrow> [] | Inr n \<Rightarrow> take n buf') @ pb_contents b'"
  by (rule pipe_read_call [OF assms, of host buf], rule that, assumption+) (auto split: if_splits)

lemma stream_run_fifo:
  "is_centralized_mode k \<Longrightarrow> pt_get (k_pipes k) i = Some b \<Longrightarrow> pb_wf b \<Longrightarrow> \<forall>c\<in>set cs. on_pipe i t c \<Longrightarrow>
    \<exists>sent got t' k' b'. stream_run host cs t k = Some (sent, got, t', k') \<and> pt_get (k_pipes k') i = Some b' \<and>
      pb_wf b' \<and> pb_contents b @ sent = got @ pb_contents b'"
proof (induction host cs t k arbitrary: b rule: stream_run.induct)
  case (2 host pid fd buf cs t k)
  show ?case
  proof (cases "pr_get t pid")
    case None
    with 2 show ?thesis by auto
  next
    case (Some p)
    have fd: "pipe_fd True i p fd" using "2.prems"(4) Some by simp
    obtain r buf' k' b' where s: "sys_read host fd buf p k = Some ((r, buf'), p, k')" "is_centralized_mode k'"
        "pt_get (k_pipes k') i = Some b'" "pb_wf b'"
        "pb_contents b = (case r of Inl _ \<Rightarrow> [] | Inr n \<Rightarrow> take n buf') @ pb_contents b'"
      by (rule pipe_read_stream [OF "2.prems"(1) fd "2.prems"(2,3)])
    have on: "\<forall>c\<in>set cs. on_pipe i (pr_insert pid p t) c" using "2.prems"(4) Some on_pipe_insert by auto
    from "2.IH"(2) [OF Some s(1) refl refl s(2-4) on] show ?thesis by (fastforce simp: Some s(1,5))
  qed
next
  case (3 host pid fd data cs t k)
  show ?case
  proof (cases "pr_get t pid")
    case None
    with 3 show ?thesis by auto
  next
    case (Some p)
    have fd: "pipe_fd False i p fd" using "3.prems"(4) Some by simp
    obtain r p' k' b' where s: "sys_write host fd data p k = Some (r, p', k')" "is_centralized_mode k'"
        "pt_get (k_pipes k') i = Some b'" "pb_wf b'" "p_fd_table p' = p_fd_table p" "p_ofd_table p' = p_ofd_table p"
        "pb_contents b' = pb_contents b @ (case r of Inl _ \<Rightarrow> [] | Inr n \<Rightarrow> take n data)"
      by (rule pipe_write_stream [OF "3.prems"(1) fd "3.prems"(2,3)])
    have on: "\<forall>c\<in>set cs. on_pipe i (pr_insert pid p' t) c" using "3.prems"(4) Some s(5,6) on_pipe_insert by auto
    from "3.IH"(2) [OF Some s(1) refl refl s(2-4) on] show ?thesis by (fastforce simp: Some s(1,7))
  qed
qed auto


text \<open>
  C3: a pipe is a byte stream between processes. Take any processes with descriptors for the two ends
  of a kernel pipe, and any sequence of reads and writes they make through these descriptors, in the
  centralised mode. The calls all return, and the bytes that were in the pipe followed by those the
  writes reported as written are the bytes the reads delivered followed by those still in the pipe:
  nothing is lost, duplicated, reordered or invented.
\<close>

theorem pipe_is_stream:
  assumes "is_centralized_mode k" "pt_get (k_pipes k) i = Some b" "pb_wf b" "\<forall>c\<in>set cs. on_pipe i t c"
  shows "\<exists>sent got t' k' b'. stream_run host cs t k = Some (sent, got, t', k') \<and> pt_get (k_pipes k') i = Some b' \<and>
    pb_contents b @ sent = got @ pb_contents b'"
  using stream_run_fifo [OF assms] by blast

text \<open>
  C21: what a write to a pipe does, completely. In the centralised mode a write of some bytes to a pipe
  whose read end is closed fails with \<open>EPIPE\<close> and raises \<open>SIGPIPE\<close>; a write of at most \<open>PIPE_BUF\<close> bytes is
  done whole or, when there is no room for all of it, not at all with \<open>EAGAIN\<close>; a longer write puts in
  as much as fits, and fails with \<open>EAGAIN\<close> only if the pipe is full.
\<close>

theorem pipe_write_atomic:
  assumes "is_centralized_mode k" "pipe_fd False i p fd" "pt_get (k_pipes k) i = Some b" "pb_wf b" "data \<noteq> []"
  shows "\<exists>r p' k' b'. sys_write host fd data p k = Some (r, p', k') \<and> pt_get (k_pipes k') i = Some b' \<and>
    (if \<not> pb_is_read_end_open b then r = Err EPIPE \<and> p' = raise_signal SIGPIPE p \<and> pb_contents b' = pb_contents b
     else if pb_free_space b < (if length data \<le> PIPE_BUF then length data else 1)
     then r = Err EAGAIN \<and> p' = p \<and> pb_contents b' = pb_contents b
     else \<exists>n. r = Ok n \<and> n = min (length data) (pb_free_space b) \<and> p' = p \<and> pb_contents b' = pb_contents b @ take n data)"
  by (rule pipe_write_call [OF assms, of host]) metis

text \<open>A process with the two ends of a pipe, for the examples.\<close>

definition piped :: Process where
  "piped = (process_new 5)\<lparr>p_ofd_table := [Some (ofd_fresh Pipe O_RDONLY (- 1) []), Some (ofd_fresh Pipe O_WRONLY (- 1) [])],
     p_fd_table := (p_fd_table (process_new 5))\<lparr>fdt_entries := [Some \<lparr>ofd_ref = 0, fd_flags = 0\<rparr>, Some \<lparr>ofd_ref = 1, fd_flags = 0\<rparr>]\<rparr>\<rparr>"

definition pipe_kernel :: Kernel where
  "pipe_kernel = kernel_new\<lparr>k_pipes := \<lparr>pt_pipes = [Some (pb_new 4)], pt_free_list = []\<rparr>\<rparr>"

lemma pipe_kernel_facts:
  "is_centralized_mode pipe_kernel" "pt_get (k_pipes pipe_kernel) 0 = Some (pb_new 4)"
  "pipe_fd True 0 piped 0" "pipe_fd False 0 piped 1"
  by (simp_all add: pipe_kernel_def kernel_new_def is_centralized_mode_def pt_get_def slot_get_def pipe_fd_def piped_def
      fdt_get_def Let_def ofdt_get_def is_kernel_pipe_def kernel_idx_def ofd_fresh_def)

theorem pipe_is_stream_witness:
  "\<exists>sent got t' k' b'.
    stream_run quiet_host [SWrite 5 1 [1, 2, 3], SRead 5 0 [0, 0], SWrite 5 1 [4, 5]]
      (pr_insert 5 piped pr_new) pipe_kernel = Some (sent, got, t', k') \<and>
    pt_get (k_pipes k') 0 = Some b' \<and> sent = got @ pb_contents b'"
  using pipe_is_stream [of pipe_kernel 0 "pb_new 4" "[SWrite 5 1 [1, 2, 3], SRead 5 0 [0, 0], SWrite 5 1 [4, 5]]"
      "pr_insert 5 piped pr_new" quiet_host] pipe_kernel_facts
  by (simp add: pr_get_def pr_insert_def pr_new_def)

theorem pipe_write_atomic_witness:
  "\<exists>r p' k' b'. sys_write quiet_host 1 [1, 2, 3, 4, 5] piped pipe_kernel = Some (r, p', k') \<and>
    pt_get (k_pipes k') 0 = Some b' \<and> r = Err EAGAIN \<and> pb_contents b' = []"
  using pipe_write_atomic [of pipe_kernel 0 piped 1 "pb_new 4" "[1, 2, 3, 4, 5]" quiet_host] pipe_kernel_facts pb_new_wf(1) [of 4]
  by (auto simp: pb_is_read_end_open_def pb_free_space_def pb_capacity_def pb_new_def [of 4] pb_contents_def)

section \<open>Event counters\<close>

text \<open>The event counter behind a descriptor.\<close>

definition eventfd_of :: "Process \<Rightarrow> i32 \<Rightarrow> EventFdState option" where
  "eventfd_of p fd = (case fdt_get (p_fd_table p) fd of
     Inl _ \<Rightarrow> None
   | Inr e \<Rightarrow> (case ofdt_get (p_ofd_table p) (ofd_ref e) of
       None \<Rightarrow> None
     | Some d \<Rightarrow> if ofd_file_type d = EventFd \<and> ofd_status_flags d AND O_ACCMODE = O_RDWR
                 then slot_get (p_eventfds p) (kernel_idx (ofd_host_handle d)) else None))"

lemma eventfd_ofE:
  assumes "eventfd_of p fd = Some ev"
  obtains e d where "fdt_get (p_fd_table p) fd = Ok e" "ofdt_get (p_ofd_table p) (ofd_ref e) = Some d"
    "ofd_file_type d = EventFd" "ofd_status_flags d AND O_ACCMODE = O_RDWR"
    "slot_get (p_eventfds p) (kernel_idx (ofd_host_handle d)) = Some ev"
  using assms by (auto simp: eventfd_of_def split: sum.splits option.splits if_splits)

lemma unat_max_counter: "unat (- 2 :: u64) = 2 ^ 64 - 2"
  by simp

lemma counter_room:
  assumes "v \<noteq> (- 1 :: u64)"
  shows "c > - 2 - v \<longleftrightarrow> \<not> unat c + unat v \<le> 2 ^ 64 - 2"
proof -
  have "unat (- 1 :: u64) = 2 ^ 64 - 1" by (simp add: unsigned_minus_1_eq_mask mask_eq_exp_minus_1)
  moreover have "unat v \<noteq> unat (- 1 :: u64)" using assms by (simp only: word_unat_eq_iff) simp
  moreover have "unat v < 2 ^ LENGTH(64)" by (rule unsigned_less)
  ultimately have v: "unat v \<le> 2 ^ 64 - 2" by simp
  then have "v \<le> - 2" by (simp add: word_le_nat_alt unat_max_counter)
  then have "unat (- 2 - v) = 2 ^ 64 - 2 - unat v" by (simp add: unat_sub unat_max_counter)
  with v show ?thesis by (simp add: word_less_nat_alt) linarith
qed

lemma unat_counter_add:
  fixes c v :: u64
  assumes "unat c + unat v \<le> 2 ^ 64 - 2"
  shows "unat (c + v) = unat c + unat v"
  using assms by (simp add: unat_add_lem [THEN iffD1])

lemma eventfd_write_call:
  assumes mode: "is_centralized_mode k" and fd: "eventfd_of p fd = Some ev" and v: "v \<noteq> - 1"
  shows "\<exists>p'. sys_write host fd (to_le 8 v) p k =
      Some (if unat (ev_counter ev) + unat v \<le> 2 ^ 64 - 2 then Ok 8 else Err EAGAIN, p', k) \<and>
    eventfd_of p' fd = Some (if unat (ev_counter ev) + unat v \<le> 2 ^ 64 - 2
      then ev\<lparr>ev_counter := ev_counter ev + v\<rparr> else ev)"
proof -
  obtain e d where e: "fdt_get (p_fd_table p) fd = Ok e" "ofdt_get (p_ofd_table p) (ofd_ref e) = Some d"
    "ofd_file_type d = EventFd" "ofd_status_flags d AND O_ACCMODE = O_RDWR"
    "slot_get (p_eventfds p) (kernel_idx (ofd_host_handle d)) = Some ev"
    using eventfd_ofE [OF fd] .
  let ?i = "kernel_idx (ofd_host_handle d)"
  have i: "?i < length (p_eventfds p)" using slot_get_SomeD [OF e(5)] by simp
  have nw: "no_wait (ofd_status_flags d) k" using mode by (simp add: no_wait_def)
  have ne: "to_le 8 v \<noteq> []" by (simp add: eval_nat_numeral)
  have run: "sys_write host fd (to_le 8 v) p k =
      Some (case eventfd_try_write ?i v p k of (r, p, k) \<Rightarrow> (case r of None \<Rightarrow> Err EAGAIN | Some r \<Rightarrow> r, p, k))"
    using e ne v by (simp add: sys_write_def Let_def try_or_wait_returns [OF keeps_mode_attempts(4) nw])
  show ?thesis
    using fd e i by (simp add: run eventfd_try_write_def counter_room [OF v] eventfd_of_def Let_def)
qed

lemma eventfd_read_call:
  assumes mode: "is_centralized_mode k" and fd: "eventfd_of p fd = Some ev" and buf: "8 \<le> length buf"
  shows "\<exists>buf' p'. sys_read host fd buf p k =
      Some ((if ev_counter ev = 0 then Err EAGAIN else Ok 8, buf'), p', k) \<and>
    eventfd_of p' fd = Some (ev\<lparr>ev_counter := (if ev_counter ev = 0 then 0 else if ev_semaphore ev then ev_counter ev - 1 else 0)\<rparr>) \<and>
    (ev_counter ev \<noteq> 0 \<longrightarrow> from_le (take 8 buf') = (if ev_semaphore ev then 1 else ev_counter ev))"
proof -
  obtain e d where e: "fdt_get (p_fd_table p) fd = Ok e" "ofdt_get (p_ofd_table p) (ofd_ref e) = Some d"
    "ofd_file_type d = EventFd" "ofd_status_flags d AND O_ACCMODE = O_RDWR"
    "slot_get (p_eventfds p) (kernel_idx (ofd_host_handle d)) = Some ev"
    using eventfd_ofE [OF fd] .
  let ?i = "kernel_idx (ofd_host_handle d)"
  have i: "?i < length (p_eventfds p)" using slot_get_SomeD [OF e(5)] by simp
  have nw: "no_wait (ofd_status_flags d) k" using mode by (simp add: no_wait_def)
  have run: "sys_read host fd buf p k =
      Some (case eventfd_try_read ?i buf p k of (r, p, k) \<Rightarrow> (case r of None \<Rightarrow> (Err EAGAIN, buf) | Some r \<Rightarrow> r, p, k))"
    using e buf by (simp add: sys_read_def Let_def try_or_wait_returns [OF keeps_mode_attempts(3) nw])
  show ?thesis
    using fd e i buf by (simp add: run eventfd_try_read_def eventfd_of_def Let_def copy_at_def)
qed

text \<open>A run of reads and writes on one event counter: the sum of what was added, and of what was taken.\<close>

datatype event_call = Signal u64 | Take bytes

fun event_run :: "host \<Rightarrow> i32 \<Rightarrow> event_call list \<Rightarrow> Process \<Rightarrow> Kernel \<Rightarrow> (nat \<times> nat \<times> Process \<times> Kernel) option" where
  "event_run host fd [] p k = Some (0, 0, p, k)"
| "event_run host fd (Signal v # cs) p k = Option.bind (sys_write host fd (to_le 8 v) p k) (\<lambda>(r, p, k).
     map_option (\<lambda>(added, taken, s). ((case r of Inl _ \<Rightarrow> 0 | Inr _ \<Rightarrow> unat v) + added, taken, s)) (event_run host fd cs p k))"
| "event_run host fd (Take buf # cs) p k = Option.bind (sys_read host fd buf p k) (\<lambda>((r, buf), p, k).
     map_option (\<lambda>(added, taken, s). (added, (case r of Inl _ \<Rightarrow> 0 | Inr _ \<Rightarrow> unat (from_le (take 8 buf) :: u64)) + taken, s))
       (event_run host fd cs p k))"

fun event_call_ok :: "event_call \<Rightarrow> bool" where
  "event_call_ok (Signal v) \<longleftrightarrow> v \<noteq> - 1"
| "event_call_ok (Take buf) \<longleftrightarrow> 8 \<le> length buf"

text \<open>
  C20: an event counter loses no event and never overflows. For every sequence of writes and reads on an
  eventfd in the centralised mode, whichever of them succeed, the value at the start and the values
  successfully written add up to the values read, plus one unit per read in semaphore mode, and the
  value left; the sum is taken in the natural numbers, so no addition wrapped around, and the counter
  stays at most \<open>2 ^ 64 - 2\<close>.
\<close>

theorem eventfd_conserves:
  assumes "is_centralized_mode k" "eventfd_of p fd = Some ev" "unat (ev_counter ev) \<le> 2 ^ 64 - 2"
    "list_all event_call_ok cs"
  shows "\<exists>added taken p' ev'. event_run host fd cs p k = Some (added, taken, p', k) \<and> eventfd_of p' fd = Some ev' \<and>
    unat (ev_counter ev) + added = taken + unat (ev_counter ev') \<and> unat (ev_counter ev') \<le> 2 ^ 64 - 2"
  using assms
proof (induction cs arbitrary: p ev)
  case (Cons c cs)
  show ?case
  proof (cases c)
    case (Signal v)
    obtain p' where w: "sys_write host fd (to_le 8 v) p k =
        Some (if unat (ev_counter ev) + unat v \<le> 2 ^ 64 - 2 then Ok 8 else Err EAGAIN, p', k)"
      "eventfd_of p' fd = Some (if unat (ev_counter ev) + unat v \<le> 2 ^ 64 - 2
        then ev\<lparr>ev_counter := ev_counter ev + v\<rparr> else ev)"
      using eventfd_write_call [OF Cons.prems(1,2), of v host] Cons.prems(4) Signal by auto
    let ?ev = "if unat (ev_counter ev) + unat v \<le> 2 ^ 64 - 2 then ev\<lparr>ev_counter := ev_counter ev + v\<rparr> else ev"
    have ev: "unat (ev_counter ?ev) \<le> 2 ^ 64 - 2"
        "unat (ev_counter ?ev) = unat (ev_counter ev) + (if unat (ev_counter ev) + unat v \<le> 2 ^ 64 - 2 then unat v else 0)"
      using Cons.prems(3) by (simp_all add: unat_counter_add)
    obtain added taken p'' ev' where ih: "event_run host fd cs p' k = Some (added, taken, p'', k)"
        "eventfd_of p'' fd = Some ev'" "unat (ev_counter ?ev) + added = taken + unat (ev_counter ev')"
        "unat (ev_counter ev') \<le> 2 ^ 64 - 2"
      using Cons.IH [OF Cons.prems(1) w(2) ev(1)] Cons.prems(4) by auto
    show ?thesis
      using ih(2-4) unfolding ev(2) by (auto simp: Signal w(1) ih(1))
  next
    case (Take buf)
    let ?c = "if ev_counter ev = 0 then 0 else if ev_semaphore ev then ev_counter ev - 1 else 0"
    obtain buf' p' where r: "sys_read host fd buf p k =
        Some ((if ev_counter ev = 0 then Err EAGAIN else Ok 8, buf'), p', k)"
      "eventfd_of p' fd = Some (ev\<lparr>ev_counter := ?c\<rparr>)"
      "ev_counter ev \<noteq> 0 \<longrightarrow> from_le (take 8 buf') = (if ev_semaphore ev then 1 else ev_counter ev)"
      using eventfd_read_call [OF Cons.prems(1,2), of buf host] Cons.prems(4) Take by auto
    let ?t = "if ev_counter ev = 0 then 0 else if ev_semaphore ev then 1 else unat (ev_counter ev)"
    have c: "unat ?c + ?t = unat (ev_counter ev)"
      by (simp add: unat_minus_one unat_gt_0)
    have "unat ?c \<le> 2 ^ 64 - 2" using c Cons.prems(3) by linarith
    then have ok: "unat (ev_counter (ev\<lparr>ev_counter := ?c\<rparr>)) \<le> 2 ^ 64 - 2" by simp
    obtain added taken p'' ev' where ih: "event_run host fd cs p' k = Some (added, taken, p'', k)"
        "eventfd_of p'' fd = Some ev'" "unat ?c + added = taken + unat (ev_counter ev')"
        "unat (ev_counter ev') \<le> 2 ^ 64 - 2"
      using Cons.IH [OF Cons.prems(1) r(2) ok] Cons.prems(4) by auto
    have "event_run host fd (c # cs) p k = Some (added, ?t + taken, p'', k)"
      using r(3) by (simp add: Take r(1) ih(1))
    moreover have "unat (ev_counter ev) + added = (?t + taken) + unat (ev_counter ev')"
      using c ih(3) by linarith
    ultimately show ?thesis using ih(2,4) by blast
  qed
qed simp

text \<open>A process with an event counter, a memory file and a timer, for the examples.\<close>

definition gadgets :: Process where
  "gadgets = (process_new 5)\<lparr>p_ofd_table := [Some (ofd_fresh EventFd O_RDWR (- 1) []), Some (ofd_fresh MemFd O_RDWR (- 1) [])],
     p_fd_table := (p_fd_table (process_new 5))\<lparr>fdt_entries := [Some \<lparr>ofd_ref = 0, fd_flags = 0\<rparr>, Some \<lparr>ofd_ref = 1, fd_flags = 0\<rparr>]\<rparr>,
     p_eventfds := [Some \<lparr>ev_counter = 3, ev_semaphore = False\<rparr>], p_memfds := [Some [1, 2, 3]]\<rparr>"

theorem eventfd_conserves_witness:
  "\<exists>added taken p' ev'.
    event_run quiet_host 0 [Signal 5, Take (replicate 8 0), Signal 1] gadgets kernel_new = Some (added, taken, p', kernel_new) \<and>
    eventfd_of p' 0 = Some ev' \<and> 3 + added = taken + unat (ev_counter ev')"
proof -
  have "is_centralized_mode kernel_new" by (simp add: is_centralized_mode_def kernel_new_def)
  moreover have "eventfd_of gadgets 0 = Some \<lparr>ev_counter = 3, ev_semaphore = False\<rparr>"
    by (simp add: eventfd_of_def gadgets_def fdt_get_def ofdt_get_def slot_get_def ofd_fresh_def kernel_idx_def Let_def)
  ultimately show ?thesis
    using eventfd_conserves [of kernel_new gadgets 0 "\<lparr>ev_counter = 3, ev_semaphore = False\<rparr>"
        "[Signal 5, Take (replicate 8 0), Signal 1]" quiet_host] by fastforce
qed

section \<open>Memory files\<close>

text \<open>The contents of the memory file behind a descriptor, and the position.\<close>

definition memfd_of :: "Process \<Rightarrow> i32 \<Rightarrow> (bytes \<times> nat) option" where
  "memfd_of p fd = (case fdt_get (p_fd_table p) fd of
     Inl _ \<Rightarrow> None
   | Inr e \<Rightarrow> (case ofdt_get (p_ofd_table p) (ofd_ref e) of
       None \<Rightarrow> None
     | Some d \<Rightarrow>
         if ofd_file_type d = MemFd \<and> ofd_status_flags d AND O_ACCMODE = O_RDWR \<and> - 150 < sint (ofd_host_handle d)
         then map_option (\<lambda>c. (c, unat (ofd_offset d))) (slot_get (p_memfds p) (kernel_idx (ofd_host_handle d)))
         else None))"

text \<open>A file as it should be: contents and a position, which may lie beyond the end.\<close>

datatype file_call = FWrite bytes | FRead bytes | FSeek i64 u32

definition seek_target :: "i64 \<Rightarrow> u32 \<Rightarrow> bytes \<times> nat \<Rightarrow> int" where
  "seek_target off whence = (\<lambda>(c, pos).
     (if whence = SEEK_SET then 0 else if whence = SEEK_CUR then int pos else int (length c)) + sint off)"

fun file_step :: "file_call \<Rightarrow> bytes \<times> nat \<Rightarrow> (nat kresult \<times> bytes) \<times> (bytes \<times> nat)" where
  "file_step (FWrite data) (c, pos) =
    (if data = [] then ((Ok 0, []), c, pos)
     else ((Ok (length data), []),
           take pos c @ replicate (pos - length c) 0 @ data @ drop (pos + length data) c, pos + length data))"
| "file_step (FRead buf) (c, pos) =
    (let n = min (length buf) (length c - pos) in ((Ok n, take n (drop pos c) @ drop n buf), c, pos + n))"
| "file_step (FSeek off whence) (c, pos) =
    (let new = seek_target off whence (c, pos)
     in if whence \<notin> {SEEK_SET, SEEK_CUR, SEEK_END} \<or> new < 0 then ((Err EINVAL, []), c, pos)
        else ((Ok (nat new), []), c, nat new))"

fun file_fits :: "file_call \<Rightarrow> bytes \<times> nat \<Rightarrow> bool" where
  "file_fits (FWrite data) (c, pos) \<longleftrightarrow> pos + length data < 2 ^ 63"
| "file_fits (FRead buf) s \<longleftrightarrow> True"
| "file_fits (FSeek off whence) s \<longleftrightarrow> seek_target off whence s < 2 ^ 63"

fun memfd_step :: "host \<Rightarrow> i32 \<Rightarrow> file_call \<Rightarrow> Process \<Rightarrow> Kernel \<Rightarrow> ((nat kresult \<times> bytes) \<times> Process \<times> Kernel) option" where
  "memfd_step host fd (FWrite data) p k = map_option (\<lambda>(r, s). ((r, []), s)) (sys_write host fd data p k)"
| "memfd_step host fd (FRead buf) p k = sys_read host fd buf p k"
| "memfd_step host fd (FSeek off whence) p k =
    map_option (\<lambda>(r, s). ((case r of Inl e \<Rightarrow> Err e | Inr v \<Rightarrow> Ok (unat v), []), s)) (sys_lseek host fd off whence p k)"

lemma memfd_ofE:
  assumes "memfd_of p fd = Some (c, pos)"
  obtains e d where "fdt_get (p_fd_table p) fd = Ok e" "ofdt_get (p_ofd_table p) (ofd_ref e) = Some d"
    "ofd_file_type d = MemFd" "ofd_status_flags d AND O_ACCMODE = O_RDWR" "- 150 < sint (ofd_host_handle d)"
    "slot_get (p_memfds p) (kernel_idx (ofd_host_handle d)) = Some c" "pos = unat (ofd_offset d)"
  using assms by (auto simp: memfd_of_def split: sum.splits option.splits if_splits)

lemma memfd_of_moved:
  assumes "fdt_get (p_fd_table p) fd = Ok e" "ofdt_get (p_ofd_table p) (ofd_ref e) = Some d"
    "ofd_file_type d = MemFd" "ofd_status_flags d AND O_ACCMODE = O_RDWR" "- 150 < sint (ofd_host_handle d)"
    "slot_get (p_memfds p) (kernel_idx (ofd_host_handle d)) = Some c"
  shows "memfd_of (set_offset (ofd_ref e) f p) fd = Some (c, unat (f (ofd_offset d)))"
    "memfd_of (set_offset (ofd_ref e) f (p\<lparr>p_memfds := (p_memfds p)[kernel_idx (ofd_host_handle d) := Some c']\<rparr>)) fd
      = Some (c', unat (f (ofd_offset d)))"
  using assms slot_get_SomeD [OF assms(6)]
  by (simp_all add: memfd_of_def set_offset_def ofdt_get_def slot_get_modify)

lemma unat_add_of_nat:
  "unat off + n < 2 ^ 64 \<Longrightarrow> unat (off + word_of_nat n :: u64) = unat off + n"
  by (subst unat_add_lem [THEN iffD1]) (simp_all add: unat_of_nat)

lemma sint_add_exact:
  fixes a b :: i64
  assumes "- (2 ^ 63) \<le> sint a + sint b" "sint a + sint b < 2 ^ 63"
  shows "sint (a + b) = sint a + sint b"
  using assms by (simp add: sint_word_ariths signed_take_bit_int_eq_self)

lemma sint_small:
  fixes w :: i64
  assumes "unat w < 2 ^ 63"
  shows "sint w = int (unat w)"
proof -
  have "int (unat w) < int (2 ^ 63)" using assms by (simp only: of_nat_less_iff)
  then have "uint w < 2 ^ 63" by simp
  then have "signed_take_bit 63 (uint w) = uint w" 
    by (intro signed_take_bit_int_eq_self order.trans [OF _ uint_ge_0]) simp_all
  then show ?thesis by (simp add: sint_uint)
qed

lemma sint_low: "- (2 ^ 63) \<le> sint (w :: i64)"
  using sint_greater_eq [of w] by simp

lemma unat_nonneg: "0 \<le> sint (w :: i64) \<Longrightarrow> unat w = nat (sint w)"
  using sint_less [of w] by (simp add: unat_eq_nat_uint uint_sint take_bit_int_eq_self)

lemma memfd_write_step:
  assumes m: "memfd_of p fd = Some (c, pos)" and fits: "pos + length data < 2 ^ 63"
  shows "\<exists>p'. sys_write host fd data p k = Some (fst (fst (file_step (FWrite data) (c, pos))), p', k) \<and>
    memfd_of p' fd = Some (snd (file_step (FWrite data) (c, pos)))"
proof -
  obtain e d where e: "fdt_get (p_fd_table p) fd = Ok e" "ofdt_get (p_ofd_table p) (ofd_ref e) = Some d"
    "ofd_file_type d = MemFd" "ofd_status_flags d AND O_ACCMODE = O_RDWR" "- 150 < sint (ofd_host_handle d)"
    "slot_get (p_memfds p) (kernel_idx (ofd_host_handle d)) = Some c" "pos = unat (ofd_offset d)"
    using memfd_ofE [OF m] .
  have pos: "unat (ofd_offset d + word_of_nat (length data)) = pos + length data"
    using fits e(7) by (simp add: unat_add_of_nat)
  have pad: "copy_at pos data (if pos + length data > length c then c @ replicate (pos + length data - length c) 0 else c)
      = take pos c @ replicate (pos - length c) 0 @ data @ drop (pos + length data) c"
    by (auto simp: copy_at_def min_def)
  show ?thesis
  proof (cases "data = []")
    case False
    then have "sys_write host fd data p k = Some (write_memfd (ofd_ref e) d data p k)"
      using e by (simp add: sys_write_def)
    with False show ?thesis
      using e(6) pos pad by (simp add: write_memfd_def Let_def memfd_of_moved [OF e(1-6)] e(7) [symmetric])
  qed (use e m in \<open>simp add: sys_write_def\<close>)
qed

lemma memfd_read_step:
  assumes m: "memfd_of p fd = Some (c, pos)" and fits: "length c < 2 ^ 63"
  shows "\<exists>p'. sys_read host fd buf p k = Some (fst (file_step (FRead buf) (c, pos)), p', k) \<and>
    memfd_of p' fd = Some (snd (file_step (FRead buf) (c, pos)))"
proof -
  obtain e d where e: "fdt_get (p_fd_table p) fd = Ok e" "ofdt_get (p_ofd_table p) (ofd_ref e) = Some d"
    "ofd_file_type d = MemFd" "ofd_status_flags d AND O_ACCMODE = O_RDWR" "- 150 < sint (ofd_host_handle d)"
    "slot_get (p_memfds p) (kernel_idx (ofd_host_handle d)) = Some c" "pos = unat (ofd_offset d)"
    using memfd_ofE [OF m] .
  have run: "sys_read host fd buf p k = Some (read_snapshot (ofd_ref e) (ofd_offset d) (Some c) buf p k)"
    using e by (simp add: sys_read_def read_file_def is_procfs_buf_handle_def Let_def)
  show ?thesis
  proof (cases "pos < length c")
    case True
    let ?n = "min (length buf) (length c - pos)"
    have "pos + ?n \<le> length c" using True by simp
    then have "pos + ?n < 2 ^ 64" using fits by simp
    then have "unat (ofd_offset d + word_of_nat ?n) = pos + ?n"
      unfolding e(7) by (rule unat_add_of_nat)
    with True show ?thesis
      by (simp add: run read_snapshot_def Let_def memfd_of_moved [OF e(1-6)] e(7) [symmetric] copy_at_def)
  qed (use m in \<open>simp add: run read_snapshot_def e(7)\<close>)
qed

lemma memfd_seek_step:
  assumes m: "memfd_of p fd = Some (c, pos)" and fits: "length c < 2 ^ 63" "pos < 2 ^ 63"
    "seek_target off whence (c, pos) < 2 ^ 63"
  shows "\<exists>p'. memfd_step host fd (FSeek off whence) p k = Some (fst (file_step (FSeek off whence) (c, pos)), p', k) \<and>
    memfd_of p' fd = Some (snd (file_step (FSeek off whence) (c, pos)))"
proof -
  obtain e d where e: "fdt_get (p_fd_table p) fd = Ok e" "ofdt_get (p_ofd_table p) (ofd_ref e) = Some d"
    "ofd_file_type d = MemFd" "ofd_status_flags d AND O_ACCMODE = O_RDWR" "- 150 < sint (ofd_host_handle d)"
    "slot_get (p_memfds p) (kernel_idx (ofd_host_handle d)) = Some c" "pos = unat (ofd_offset d)"
    using memfd_ofE [OF m] .
  let ?new = "if whence = SEEK_SET then off else if whence = SEEK_CUR then ofd_offset d + off
    else word_of_nat (length c) + off"
  have h: "ofd_host_handle d \<noteq> - 150" "ofd_host_handle d \<noteq> - 160" using e(5) by auto
  have new: "sint ?new = seek_target off whence (c, pos)"
  proof -
    have "sint (ofd_offset d) = int pos" "sint (word_of_nat (length c) :: i64) = int (length c)"
      using fits(1,2) e(7) by (simp_all add: sint_small unat_of_nat)
    then show ?thesis
      using fits(3) sint_low [of off]
      by (auto simp: seek_target_def sint_add_exact)
  qed
  have run: "sys_lseek host fd off whence p k =
      (let (r, p) = lseek_sized (ofd_ref e) d (word_of_nat (length c)) off whence p in Some (r, p, k))"
    using e h by (simp add: sys_lseek_def unseekable_def is_procfs_buf_handle_def Let_def)
  show ?thesis
  proof (cases "whence \<notin> {SEEK_SET, SEEK_CUR, SEEK_END} \<or> seek_target off whence (c, pos) < 0")
    case True
    with m show ?thesis using new by (auto simp: run lseek_sized_def Let_def)
  next
    case False
    then have "unat ?new = nat (seek_target off whence (c, pos))" using new by (simp add: unat_nonneg)
    moreover have "lseek_sized (ofd_ref e) d (word_of_nat (length c)) off whence p =
        (Ok ?new, set_offset (ofd_ref e) (\<lambda>_. ?new) p)"
      using False new by (simp add: lseek_sized_def Let_def)
    ultimately show ?thesis using False by (simp add: run memfd_of_moved [OF e(1-6)] Let_def)
  qed
qed

text \<open>
  C13: a memory file behaves as a file. Through a descriptor of a memory file, every write, read and seek
  returns what the same operation on a plain sequence of bytes with a position returns, and leaves the
  contents and the position it leaves: a write beyond the end fills the gap with zeros, a read stops at the
  end of the contents, a seek to a negative position or with a bad \<open>whence\<close> fails with \<open>EINVAL\<close>. Positions
  are below \<open>2 ^ 63\<close>, and the file is one of the first 149 of its process, beyond which its handle is
  taken for that of another object.
\<close>

theorem memfd_is_file:
  assumes "memfd_of p fd = Some (c, pos)" "length c < 2 ^ 63" "pos < 2 ^ 63" "file_fits op (c, pos)"
  shows "\<exists>p'. memfd_step host fd op p k = Some (fst (file_step op (c, pos)), p', k) \<and>
    memfd_of p' fd = Some (snd (file_step op (c, pos)))"
proof (cases op)
  case (FWrite data)
  with assms memfd_write_step [OF assms(1), of data host k] show ?thesis by fastforce
next
  case (FRead buf)
  with memfd_read_step [OF assms(1,2), of host buf k] show ?thesis by simp
next
  case (FSeek off whence)
  with assms memfd_seek_step [OF assms(1-3), of off whence host k] show ?thesis by simp
qed

theorem memfd_is_file_witness:
  "\<exists>p'. memfd_step quiet_host 1 (FWrite [7, 8]) gadgets kernel_new = Some ((Ok 2, []), p', kernel_new) \<and>
    memfd_of p' 1 = Some ([7, 8, 3], 2)"
proof -
  have "memfd_of gadgets 1 = Some ([1, 2, 3], 0)"
    by (simp add: memfd_of_def gadgets_def fdt_get_def ofdt_get_def slot_get_def ofd_fresh_def kernel_idx_def Let_def)
  then show ?thesis
    using memfd_is_file [of gadgets 1 "[1, 2, 3]" 0 "FWrite [7, 8]" quiet_host kernel_new]
    by (simp flip: numeral_2_eq_2)
qed

section \<open>Timers\<close>

text \<open>A time in nanoseconds.\<close>

definition nanos :: "i64 \<Rightarrow> i64 \<Rightarrow> int" where
  "nanos s n = sint s * 1000000000 + sint n"

definition timespec_ok :: "i64 \<Rightarrow> i64 \<Rightarrow> bool" where
  "timespec_ok s n \<longleftrightarrow> 0 \<le> sint s \<and> sint s < 2 ^ 31 \<and> 0 \<le> sint n \<and> sint n < 1000000000"

lemma sint_i64:
  assumes "- (2 ^ 63) \<le> x" "x < 2 ^ 63"
  shows "sint (word_of_int x :: i64) = x"
  using assms by (simp add: signed_of_int signed_take_bit_int_eq_self)

lemma word_nanos: "s * 1000000000 + n = word_of_int (nanos s n)" for s n :: i64
  by (simp add: nanos_def)

lemma nanos_bounds:
  assumes "timespec_ok s n"
  shows "0 \<le> nanos s n" "nanos s n < 2 ^ 31 * 1000000000"
  using assms by (auto simp: nanos_def timespec_ok_def)

lemma sdiv_nonneg:
  fixes x y :: int
  assumes "0 \<le> x" "0 < y"
  shows "x sdiv y = x div y" "x smod y = x mod y"
  using assms by (cases "x = 0"; simp add: signed_divide_int_def signed_modulo_int_def)+

lemma i64_div_nonneg:
  assumes "0 \<le> x" "x < 2 ^ 63" "0 < y" "y < 2 ^ 63"
  shows "i64_div (word_of_int x) (word_of_int y) = word_of_int (x div y)"
    "i64_rem (word_of_int x) (word_of_int y) = word_of_int (x mod y)"
  using assms by (simp_all add: i64_div_def i64_rem_def sint_i64 sdiv_nonneg)

lemma nanos_split:
  assumes "0 \<le> x" "x < 2 ^ 63"
  shows "nanos (word_of_int (x div 1000000000)) (word_of_int (x mod 1000000000)) = x"
proof -
  have q: "0 \<le> x div 1000000000" "0 \<le> x mod 1000000000" "x mod 1000000000 < 1000000000"
    using assms(1) by simp_all
  moreover have "x div 1000000000 \<le> x"
    using q div_mult_mod_eq [of x 1000000000] by linarith
  ultimately show ?thesis using assms(2) by (simp add: nanos_def sint_i64)
qed

lemma seconds_first:
  fixes s s' n n' :: int
  assumes "0 \<le> n" "n < 1000000000" "0 \<le> n'" "n' < 1000000000"
  shows "s * 1000000000 + n \<le> s' * 1000000000 + n' \<longleftrightarrow> s < s' \<or> (s' = s \<and> n \<le> n')"
proof (cases s s' rule: linorder_cases)
  case less
  then have "s * 1000000000 + 1000000000 \<le> s' * 1000000000" by simp
  with assms less show ?thesis by simp
next
  case greater
  then have "s' * 1000000000 + 1000000000 \<le> s * 1000000000" by simp
  with assms greater show ?thesis by simp
qed simp

lemma nanos_le:
  assumes "timespec_ok s n" "timespec_ok s' n'"
  shows "nanos s n \<le> nanos s' n' \<longleftrightarrow> sint s < sint s' \<or> (s' = s \<and> sint n \<le> sint n')"
  unfolding sint_eq_iff [symmetric, of s' s] nanos_def
  by (rule seconds_first) (use assms in \<open>simp_all add: timespec_ok_def\<close>)

lemma expirations_card:
  fixes i v now :: int
  assumes "0 < i" "0 \<le> now - v"
  shows "int (card {j. v + int j * i \<le> now}) = (now - v) div i + 1"
proof -
  have "v + int j * i \<le> now \<longleftrightarrow> j \<le> nat ((now - v) div i)" for j
  proof
    assume "v + int j * i \<le> now"
    then have "int j * i div i \<le> (now - v) div i" by (intro zdiv_mono1 assms(1)) simp
    then show "j \<le> nat ((now - v) div i)" using assms(1) by simp
  next
    assume "j \<le> nat ((now - v) div i)"
    then have "int j \<le> (now - v) div i" using assms by (simp add: le_nat_iff pos_imp_zdiv_nonneg_iff)
    then have "int j * i \<le> (now - v) div i * i" using assms(1) by (simp add: mult_right_mono)
    also have "\<dots> \<le> now - v" using assms(1) pos_mod_sign [of i "now - v"] div_mult_mod_eq [of "now - v" i] by linarith
    finally show "v + int j * i \<le> now" by linarith
  qed
  then have "{j. v + int j * i \<le> now} = {..nat ((now - v) div i)}" by auto
  then show ?thesis using assms by (simp add: pos_imp_zdiv_nonneg_iff)
qed

lemma timerfd_advance:
  assumes ok: "timespec_ok now_sec now_nsec" "timespec_ok (tf_value_sec t) (tf_value_nsec t)"
      "timespec_ok (tf_interval_sec t) (tf_interval_nsec t)"
    and armed: "tf_value_sec t \<noteq> 0 \<or> tf_value_nsec t \<noteq> 0"
    and periodic: "0 < nanos (tf_interval_sec t) (tf_interval_nsec t)"
    and due: "nanos (tf_value_sec t) (tf_value_nsec t) \<le> nanos now_sec now_nsec"
  defines "v \<equiv> nanos (tf_value_sec t) (tf_value_nsec t)" and "i \<equiv> nanos (tf_interval_sec t) (tf_interval_nsec t)"
    and "now \<equiv> nanos now_sec now_nsec"
  defines "cnt \<equiv> (now - v) div i + 1"
  shows "timerfd_compute_expirations now_sec now_nsec t =
    t\<lparr>tf_expirations := tf_expirations t + word_of_int cnt,
      tf_value_sec := word_of_int ((v + cnt * i) div 1000000000),
      tf_value_nsec := word_of_int ((v + cnt * i) mod 1000000000)\<rparr>"
    "now < v + cnt * i" "v + cnt * i \<le> now + i"
proof -
  note b = nanos_bounds [OF ok(1), folded now_def] nanos_bounds [OF ok(2), folded v_def] nanos_bounds [OF ok(3), folded i_def]
  have pos: "0 < i" "0 \<le> now - v" using periodic due by (simp_all add: i_def now_def v_def)
  have div: "cnt * i = now - v - (now - v) mod i + i"
    unfolding cnt_def using div_mult_mod_eq [of "now - v" i] by (simp add: algebra_simps)
  then show bounds: "now < v + cnt * i" "v + cnt * i \<le> now + i"
    using pos pos_mod_bound [OF pos(1), of "now - v"] pos_mod_sign [OF pos(1), of "now - v"] by linarith+
  have sizes: "0 \<le> v + cnt * i" "v + cnt * i < 2 ^ 63" "now - v < 2 ^ 63" "i < 2 ^ 63"
    using bounds b by simp_all
  have elapsed: "(now_sec - tf_value_sec t) * 1000000000 + (now_nsec - tf_value_nsec t) = word_of_int (now - v)"
    by (simp add: now_def v_def nanos_def algebra_simps)
  have interval: "tf_interval_sec t * 1000000000 + tf_interval_nsec t = word_of_int i"
    by (simp add: i_def nanos_def)
  have upd: "(tf_value_sec t * 1000000000 + tf_value_nsec t) + word_of_int cnt * word_of_int i = word_of_int (v + cnt * i)"
    by (simp add: v_def nanos_def)
  have count: "i64_div (word_of_int (now - v)) (word_of_int i) + 1 = word_of_int cnt"
    using pos sizes by (simp only: i64_div_nonneg) (simp add: cnt_def)
  have zero: "\<not> (tf_interval_sec t = 0 \<and> tf_interval_nsec t = 0)" using periodic by (auto simp: nanos_def)
  have "sint (word_of_int i :: i64) = i" using pos sizes(4) by (simp add: sint_i64)
  moreover have "word_of_int 1000000000 = (1000000000 :: i64)" by simp
  moreover note i64_div_nonneg [OF sizes(1,2), of 1000000000]
  ultimately show "timerfd_compute_expirations now_sec now_nsec t =
    t\<lparr>tf_expirations := tf_expirations t + word_of_int cnt,
      tf_value_sec := word_of_int ((v + cnt * i) div 1000000000),
      tf_value_nsec := word_of_int ((v + cnt * i) mod 1000000000)\<rparr>"
    using armed zero due pos(1) unfolding timerfd_compute_expirations_def Let_def elapsed interval count upd nanos_le [OF ok(2,1)]
    by auto
qed

text \<open>
  A periodic timer reports every expiration once. When a periodic timerfd is examined at or after
  its next deadline, the count of expirations grows by the number of deadlines up to now, and the next
  deadline becomes the first one after now on the same schedule. Times are valid, with seconds below
  \<open>2 ^ 31\<close>.
\<close>

theorem timerfd_counts_deadlines:
  assumes "timespec_ok now_sec now_nsec" "timespec_ok (tf_value_sec t) (tf_value_nsec t)"
      "timespec_ok (tf_interval_sec t) (tf_interval_nsec t)"
    and "tf_value_sec t \<noteq> 0 \<or> tf_value_nsec t \<noteq> 0"
    and "0 < nanos (tf_interval_sec t) (tf_interval_nsec t)"
    and "nanos (tf_value_sec t) (tf_value_nsec t) \<le> nanos now_sec now_nsec"
  defines "deadline j \<equiv> nanos (tf_value_sec t) (tf_value_nsec t) + int j * nanos (tf_interval_sec t) (tf_interval_nsec t)"
    and "t' \<equiv> timerfd_compute_expirations now_sec now_nsec t"
  defines "due \<equiv> card {j. deadline j \<le> nanos now_sec now_nsec}"
  shows "tf_expirations t' = tf_expirations t + word_of_nat due \<and>
    nanos (tf_value_sec t') (tf_value_nsec t') = deadline due \<and>
    deadline due > nanos now_sec now_nsec \<and> deadline (due - 1) \<le> nanos now_sec now_nsec \<and> 0 < due"
  proof -
  note adv = timerfd_advance [OF assms(1-6)]
  let ?v = "nanos (tf_value_sec t) (tf_value_nsec t)" and ?i = "nanos (tf_interval_sec t) (tf_interval_nsec t)"
    and ?now = "nanos now_sec now_nsec"
  have cnt: "int due = (?now - ?v) div ?i + 1"
    unfolding due_def deadline_def by (rule expirations_card) (use assms(5,6) in simp_all)
  then have pos: "0 < due" using assms(5,6) pos_imp_zdiv_nonneg_iff [OF assms(5), of "?now - ?v"] by linarith
  note adv = adv [folded cnt]
  have dl: "deadline due = ?v + int due * ?i" "deadline (due - 1) = ?v + int due * ?i - ?i"
    using pos by (simp_all add: deadline_def of_nat_diff algebra_simps)
  have "0 \<le> ?v + int due * ?i" "?v + int due * ?i < 2 ^ 63"
    using adv(2,3) nanos_bounds [OF assms(1)] nanos_bounds [OF assms(3)] by simp_all
  with adv dl pos show ?thesis by (simp add: t'_def nanos_split)
qed

definition ticker :: TimerFdState where
  "ticker = \<lparr>tf_clock_id = 1, tf_interval_sec = 2, tf_interval_nsec = 0, tf_value_sec = 10, tf_value_nsec = 500000000,
     tf_expirations = 0\<rparr>"

theorem timerfd_counts_deadlines_witness:
  "tf_expirations (timerfd_compute_expirations 15 0 ticker) =
     word_of_nat (card {j. 10500000000 + int j * 2000000000 \<le> 15000000000})"
  using timerfd_counts_deadlines [of 15 0 ticker] by (simp add: ticker_def timespec_ok_def nanos_def)

end
