(* ===== verification/Sig_Calls.thy ===== *)
theory Sig_Calls
  imports Io ProcTable
begin

text \<open>
  Signals at the system call interface: the mask and the actions, waiting for a signal, sending one to a
  process, a process group or a thread, and delivery, from \<^verbatim>\<open>src/crates/kernel/src/syscalls.rs\<close> and
  \<^verbatim>\<open>src/crates/kernel/src/wasm_api.rs\<close>. The thread that a call serves, which the source keeps in the
  process table, is the argument \<open>tid\<close>.
\<close>

abbreviation (input) SIG_DFL :: u32 where "SIG_DFL \<equiv> 0"
abbreviation (input) SIG_IGN :: u32 where "SIG_IGN \<equiv> 1"
abbreviation (input) SIG_BLOCK :: u32 where "SIG_BLOCK \<equiv> 0"
abbreviation (input) SIG_UNBLOCK :: u32 where "SIG_UNBLOCK \<equiv> 1"
abbreviation (input) SIG_SETMASK :: u32 where "SIG_SETMASK \<equiv> 2"
abbreviation (input) CLOCK_MONOTONIC :: u32 where "CLOCK_MONOTONIC \<equiv> 1"

text \<open>The two signals that cannot be blocked.\<close>

definition sig_guard :: u64 where
  "sig_guard = sig_bit SIGKILL OR sig_bit SIGSTOP"

section \<open>Masks and actions\<close>

definition sys_sigprocmask :: "u32 \<Rightarrow> u32 \<Rightarrow> u64 \<Rightarrow> Process \<Rightarrow> u64 kresult \<times> Process" where
  "sys_sigprocmask tid how s p =
    (let old_mask = blocked_for p tid in
     if how \<notin> {SIG_BLOCK, SIG_UNBLOCK, SIG_SETMASK} then (Err EINVAL, p)
     else
       (let new_mask = (if how = SIG_BLOCK then old_mask OR s else if how = SIG_UNBLOCK then old_mask AND NOT s else s)
        in (Ok old_mask, snd (set_blocked_for tid (new_mask AND NOT sig_guard) p))))"

definition handler_of_u32 :: "u32 \<Rightarrow> SignalHandler" where
  "handler_of_u32 v = (if v = SIG_DFL then HDefault else if v = SIG_IGN then HIgnore else Handler v)"

definition u32_of_handler :: "SignalHandler \<Rightarrow> u32" where
  "u32_of_handler h = (case h of HDefault \<Rightarrow> SIG_DFL | HIgnore \<Rightarrow> SIG_IGN | Handler ptr \<Rightarrow> ptr)"

definition sys_sigaction :: "u32 \<Rightarrow> u32 \<Rightarrow> u32 \<Rightarrow> u64 \<Rightarrow> Process \<Rightarrow> (u32 \<times> u32 \<times> u64) kresult \<times> Process" where
  "sys_sigaction sig handler_val flags smask p =
    (if sig = 0 \<or> sig \<ge> NSIG then (Err EINVAL, p)
     else if sig = SIGKILL \<or> sig = SIGSTOP then (Err EINVAL, p)
     else
       (let (old, signals) =
          ss_set_action sig \<lparr>sa_handler = handler_of_u32 handler_val, sa_flags = flags, sa_mask = smask\<rparr> (p_signals p)
        in case old of
             Inl _ \<Rightarrow> (Err EINVAL, p\<lparr>p_signals := signals\<rparr>)
           | Inr old \<Rightarrow> (Ok (u32_of_handler (sa_handler old), sa_flags old, sa_mask old), p\<lparr>p_signals := signals\<rparr>)))"

definition sys_signal :: "u32 \<Rightarrow> u32 \<Rightarrow> Process \<Rightarrow> i32 kresult \<times> Process" where
  "sys_signal signum handler_val p =
    (let (old, signals) = ss_set_handler signum (handler_of_u32 handler_val) (p_signals p)
     in (case old of Inl _ \<Rightarrow> Err EINVAL | Inr h \<Rightarrow> Ok (u32_of_handler h), p\<lparr>p_signals := signals\<rparr>))"

section \<open>Alarms and interval timers\<close>

definition now_ns :: "i64 \<times> i64 \<Rightarrow> u64" where
  "now_ns = (\<lambda>(sec, nsec). sec * 1000000000 + nsec)"

definition sys_alarm :: "host \<Rightarrow> u32 \<Rightarrow> Process \<Rightarrow> Kernel \<Rightarrow> u32 kresult \<times> Process \<times> Kernel" where
  "sys_alarm host seconds p k = (case host_clock_gettime host CLOCK_MONOTONIC k of
     (Inl e, k) \<Rightarrow> (Err e, p, k)
   | (Inr t, k) \<Rightarrow>
       (let now = now_ns t;
            remaining = (if p_alarm_deadline_ns p > now
              then ucast ((p_alarm_deadline_ns p - now + 999999999) div 1000000000) else 0);
            p = p\<lparr>p_alarm_deadline_ns := (if seconds > 0 then now + ucast seconds * 1000000000 else 0)\<rparr>;
            (r, k) = host_unit host (HostSetAlarm seconds) k
        in (case r of Inl e \<Rightarrow> Err e | Inr _ \<Rightarrow> Ok remaining, p, k)))"

definition sys_getitimer :: "host \<Rightarrow> u32 \<Rightarrow> Process \<Rightarrow> Kernel \<Rightarrow> (i64 \<times> i64 \<times> i64 \<times> i64) kresult \<times> Kernel" where
  "sys_getitimer host which p k =
    (if which = 0 then
       (let interval_sec = p_alarm_interval_ns p div 1000000000;
            interval_usec = (p_alarm_interval_ns p mod 1000000000) div 1000
        in if p_alarm_deadline_ns p = 0 then (Ok (interval_sec, interval_usec, 0, 0), k)
           else (case host_clock_gettime host CLOCK_MONOTONIC k of
               (Inl e, k) \<Rightarrow> (Err e, k)
             | (Inr t, k) \<Rightarrow>
                 (let now = now_ns t;
                      remaining = (if p_alarm_deadline_ns p > now then p_alarm_deadline_ns p - now else 0)
                  in (Ok (interval_sec, interval_usec, remaining div 1000000000, (remaining mod 1000000000) div 1000), k))))
     else if which = 1 \<or> which = 2 then (Ok (0, 0, 0, 0), k)
     else (Err EINVAL, k))"

definition sys_setitimer ::
    "host \<Rightarrow> u32 \<Rightarrow> i64 \<Rightarrow> i64 \<Rightarrow> i64 \<Rightarrow> i64 \<Rightarrow> Process \<Rightarrow> Kernel \<Rightarrow> (i64 \<times> i64 \<times> i64 \<times> i64) kresult \<times> Process \<times> Kernel" where
  "sys_setitimer host which isec iusec vsec vusec p k = (case sys_getitimer host which p k of
     (Inl e, k) \<Rightarrow> (Err e, p, k)
   | (Inr old, k) \<Rightarrow>
       if which \<noteq> 0 then (Ok old, p, k)
       else
         (let interval_ns = isec * 1000000000 + iusec * 1000; value_ns = vsec * 1000000000 + vusec * 1000;
              p = p\<lparr>p_alarm_interval_ns := interval_ns\<rparr>
          in if value_ns > 0
             then (case host_clock_gettime host CLOCK_MONOTONIC k of
                 (Inl e, k) \<Rightarrow> (Err e, p, k)
               | (Inr t, k) \<Rightarrow>
                   (let p = p\<lparr>p_alarm_deadline_ns := now_ns t + value_ns\<rparr>;
                        secs = (ucast ((value_ns + 999999999) div 1000000000) :: u32);
                        (r, k) = host_unit host (HostSetAlarm (if secs = 0 then 1 else secs)) k
                    in (case r of Inl e \<Rightarrow> Err e | Inr _ \<Rightarrow> Ok old, p, k)))
             else
               (let p = p\<lparr>p_alarm_deadline_ns := 0, p_alarm_interval_ns := 0\<rparr>;
                    (r, k) = host_unit host (HostSetAlarm 0) k
                in (case r of Inl e \<Rightarrow> Err e | Inr _ \<Rightarrow> Ok old, p, k))))"

section \<open>Taking a signal\<close>

text \<open>The thread's own pending signals come before those of the process.\<close>

definition dequeue_signal_for :: "u32 \<Rightarrow> u32 \<Rightarrow> Process \<Rightarrow> (u32 \<times> i32 \<times> i32) \<times> Process" where
  "dequeue_signal_for tid signum p =
    (let shared = (let ((v, c), s) = ss_consume_one signum (p_signals p) in ((signum, v, c), p\<lparr>p_signals := s\<rparr>)) in
     case (if is_main_thread p tid then None else get_thread p tid) of
       None \<Rightarrow> shared
     | Some t \<Rightarrow>
         if pts_pending (th_signals t) AND sig_bit signum \<noteq> 0
         then
           (let ((v, c), pending, q) = sigq_consume signum (pts_pending (th_signals t)) (pts_rt_queue (th_signals t))
            in ((signum, v, c), modify_thread tid (\<lambda>s. s\<lparr>pts_pending := pending, pts_rt_queue := q\<rparr>) p))
         else shared)"

definition lowest_signal :: "u64 \<Rightarrow> u32" where
  "lowest_signal smask = word_of_nat (trailing_zeros smask) + 1"

section \<open>Waiting for a signal\<close>

fun sigtimedwait_loop ::
    "host \<Rightarrow> u32 \<Rightarrow> u64 \<Rightarrow> nat \<Rightarrow> Process \<Rightarrow> Kernel \<Rightarrow> (u32 \<times> i32 \<times> i32) kresult \<times> Process \<times> Kernel" where
  "sigtimedwait_loop host tid smask 0 p k = (Err EAGAIN, p, k)"
| "sigtimedwait_loop host tid smask (Suc n) p k =
    (let (r, k) = host_unit host (HostNanosleep 0 1000000) k; (p, k) = h_others host (k_calls k) (p, k) in
     case r of
       Inl e \<Rightarrow> (Err e, p, k)
     | Inr _ \<Rightarrow>
         (let found = pending_for p tid AND smask; signum = lowest_signal found in
          if found \<noteq> 0 \<and> signum < NSIG
          then (let ((v, c), s) = ss_consume_one signum (p_signals p) in (Ok (signum, v, c), p\<lparr>p_signals := s\<rparr>, k))
          else sigtimedwait_loop host tid smask n p k))"

definition sys_sigtimedwait ::
    "host \<Rightarrow> u32 \<Rightarrow> u64 \<Rightarrow> i32 \<Rightarrow> Process \<Rightarrow> Kernel \<Rightarrow> (u32 \<times> i32 \<times> i32) kresult \<times> Process \<times> Kernel" where
  "sys_sigtimedwait host tid smask timeout_ms p k =
    (let found = pending_for p tid AND smask; signum = lowest_signal found in
     if found \<noteq> 0 \<and> signum < NSIG then (let (r, p) = dequeue_signal_for tid signum p in (Ok r, p, k))
     else if timeout_ms = 0 \<or> is_centralized_mode k then (Err EAGAIN, p, k)
     else sigtimedwait_loop host tid smask (if sint timeout_ms < 0 then 2 ^ 31 - 1 else nat (sint timeout_ms)) p k)"

partial_function (option) sigsuspend_loop :: "host \<Rightarrow> u32 \<Rightarrow> Process \<Rightarrow> Kernel \<Rightarrow> (Process \<times> Kernel) option" where
  "sigsuspend_loop host tid p k =
    (let (r, k) = host_size host HostSigsuspendWait k; (p, k) = h_others host (k_calls k) (p, k) in
     case r of
       Inl _ \<Rightarrow> Some (p, k)
     | Inr n \<Rightarrow>
         (let sig = (word_of_nat n :: u32); p = (if 0 < sig \<and> sig < NSIG then raise_signal sig p else p) in
          if deliverable_for p tid \<noteq> 0 then Some (p, k) else sigsuspend_loop host tid p k))"

definition sys_sigsuspend :: "host \<Rightarrow> u32 \<Rightarrow> u64 \<Rightarrow> Process \<Rightarrow> Kernel \<Rightarrow> (unit kresult \<times> Process \<times> Kernel) option" where
  "sys_sigsuspend host tid smask p k =
    (let new_mask = smask AND NOT sig_guard in
     if is_centralized_mode k then
       (let p = (if sigsuspend_saved_mask_for p tid = None
           then snd (set_blocked_for tid new_mask (set_sigsuspend_saved_mask_for tid (Some (blocked_for p tid)) p)) else p)
        in Some (if deliverable_for p tid \<noteq> 0 then Err EINTR else Err EAGAIN, p, k))
     else
       (let old_mask = blocked_for p tid; p = snd (set_blocked_for tid new_mask p) in
        if deliverable_for p tid \<noteq> 0 then Some (Err EINTR, snd (set_blocked_for tid old_mask p), k)
        else (case sigsuspend_loop host tid p k of
            None \<Rightarrow> None
          | Some (p, k) \<Rightarrow> Some (Err EINTR, snd (set_blocked_for tid old_mask p), k))))"

definition sys_pause :: "host \<Rightarrow> u32 \<Rightarrow> Process \<Rightarrow> Kernel \<Rightarrow> (unit kresult \<times> Process \<times> Kernel) option" where
  "sys_pause host tid p k = sys_sigsuspend host tid (ss_blocked (p_signals p)) p k"

section \<open>Delivery\<close>

definition default_terminates :: "u32 \<Rightarrow> bool" where
  "default_terminates signum \<longleftrightarrow> default_action signum = Terminate \<or> default_action signum = CoreDump"

definition exit_by_signal :: "u32 \<Rightarrow> Process \<Rightarrow> Process" where
  "exit_by_signal signum p = p\<lparr>p_state := Exited, p_exit_status := 128 + signum\<rparr>"

definition default_effect :: "u32 \<Rightarrow> Process \<Rightarrow> Process" where
  "default_effect signum p = (if default_terminates signum then exit_by_signal signum p else p)"

partial_function (option) deliver_pending_signals :: "host \<Rightarrow> u32 \<Rightarrow> Process \<Rightarrow> Kernel \<Rightarrow> (Process \<times> Kernel) option" where
  "deliver_pending_signals host tid p k =
    (if is_centralized_mode k then
       (let deliverable = deliverable_for p tid; signum = lowest_signal deliverable in
        if deliverable = 0 \<or> signum \<ge> NSIG then Some (p, k)
        else (case sa_handler (ss_get_action (p_signals p) signum) of
            Handler _ \<Rightarrow> Some (p, k)
          | HDefault \<Rightarrow>
              (let p = default_effect signum (snd (dequeue_signal_for tid signum p))
               in if p_state p = Exited then Some (p, k) else deliver_pending_signals host tid p k)
          | HIgnore \<Rightarrow>
              (let p = snd (dequeue_signal_for tid signum p)
               in if p_state p = Exited then Some (p, k) else deliver_pending_signals host tid p k)))
     else (case ss_dequeue (p_signals p) of
         (None, s) \<Rightarrow> Some (p\<lparr>p_signals := s\<rparr>, k)
       | (Some (signum, _, _), s) \<Rightarrow>
           (let p = p\<lparr>p_signals := s\<rparr> in
            if p_state p = Exited then Some (p, k)
            else
              (let action = ss_get_action (p_signals p) signum;
                   (p, k) = (case sa_handler action of
                       Handler idx \<Rightarrow>
                         (let (r, k) = host_unit host (HostCallSignalHandler idx signum (sa_flags action)) k;
                              (p, k) = h_others host (k_calls k) (p, k)
                          in (case r of Inl _ \<Rightarrow> default_effect signum p | Inr _ \<Rightarrow> p, k))
                     | HDefault \<Rightarrow> (default_effect signum p, k)
                     | HIgnore \<Rightarrow> (p, k))
               in if p_state p = Exited then Some (p, k) else deliver_pending_signals host tid p k))))"

text \<open>What the glue code of the program is told about the signal it has to run a handler for.\<close>

definition signal_info :: "u32 \<Rightarrow> u32 \<Rightarrow> u32 \<Rightarrow> i32 \<Rightarrow> u64 \<Rightarrow> i32 \<Rightarrow> Process \<Rightarrow> bool \<Rightarrow> bytes" where
  "signal_info signum idx flags si_value old_mask si_code p alt =
    to_le 4 signum @ to_le 4 idx @ to_le 4 flags @ to_le 4 si_value @ to_le 8 old_mask @ to_le 4 si_code @
    to_le 4 (p_pid p) @ to_le 4 (p_uid p) @
    (if alt then to_le 4 (ucast (p_alt_stack_sp p) :: u32) @ to_le 4 (ucast (p_alt_stack_size p) :: u32) else replicate 8 0)"

abbreviation (input) SA_ONSTACK :: u32 where "SA_ONSTACK \<equiv> 0x08000000"
abbreviation (input) SS_ONSTACK :: u32 where "SS_ONSTACK \<equiv> 1"
abbreviation (input) SS_DISABLE :: u32 where "SS_DISABLE \<equiv> 2"

definition enter_handler :: "u32 \<Rightarrow> u32 \<Rightarrow> SignalAction \<Rightarrow> Process \<Rightarrow> bytes \<times> Process" where
  "enter_handler tid signum action p =
    (let ((_, si_value, si_code), p) = dequeue_signal_for tid signum p;
         (saved, p) = take_sigsuspend_saved_mask_for tid p;
         p = (case saved of None \<Rightarrow> p | Some m \<Rightarrow> snd (set_blocked_for tid m p));
         old_mask = blocked_for p tid;
         p = snd (set_blocked_for tid (old_mask OR sa_mask action OR sig_bit signum) p);
         on_alt = (sa_flags action AND SA_ONSTACK \<noteq> 0 \<and> p_alt_stack_flags p AND SS_DISABLE = 0 \<and> p_alt_stack_sp p \<noteq> 0);
         switch = (on_alt \<and> p_alt_stack_depth p = 0);
         p = (if on_alt then p\<lparr>p_alt_stack_depth := p_alt_stack_depth p + 1, p_alt_stack_flags := p_alt_stack_flags p OR SS_ONSTACK\<rparr> else p)
     in (signal_info signum (u32_of_handler (sa_handler action)) (sa_flags action) si_value old_mask si_code p switch, p))"

definition clear_saved_masks :: "Process \<Rightarrow> Process" where
  "clear_saved_masks p = p\<lparr>p_sigsuspend_saved_mask := None,
     p_threads := map (\<lambda>t. t\<lparr>th_signals := (th_signals t)\<lparr>pts_sigsuspend_saved_mask := None\<rparr>\<rparr>) (p_threads p)\<rparr>"

partial_function (option) kernel_dequeue_signal :: "u32 \<Rightarrow> Process \<Rightarrow> ((i32 \<times> bytes) \<times> Process) option" where
  "kernel_dequeue_signal tid p =
    (let deliverable = deliverable_for p tid; signum = lowest_signal deliverable; action = ss_get_action (p_signals p) signum in
     if deliverable = 0 \<or> signum \<ge> NSIG then Some ((0, []), p)
     else (case sa_handler action of
         Handler _ \<Rightarrow> (let (info, p) = enter_handler tid signum action p in Some ((signum, info), p))
       | HDefault \<Rightarrow>
           (let p = snd (dequeue_signal_for tid signum p) in
            if default_terminates signum then Some ((0, []), exit_by_signal signum (clear_saved_masks p))
            else kernel_dequeue_signal tid p)
       | HIgnore \<Rightarrow> kernel_dequeue_signal tid (snd (dequeue_signal_for tid signum p))))"

section \<open>Sending\<close>

definition can_signal :: "u32 \<Rightarrow> u32 \<Rightarrow> u32 \<Rightarrow> u32 \<Rightarrow> bool" where
  "can_signal sender_uid sender_euid target_uid target_euid \<longleftrightarrow> sender_euid = 0 \<or>
    sender_uid = target_uid \<or> sender_uid = target_euid \<or> sender_euid = target_uid \<or> sender_euid = target_euid"

definition is_local :: "i32 \<Rightarrow> Process \<Rightarrow> bool" where
  "is_local pid p \<longleftrightarrow> pid = p_pid p \<or> pid = 0 \<or> pid = - p_pgid p"

definition sys_kill :: "host \<Rightarrow> i32 \<Rightarrow> u32 \<Rightarrow> Process \<Rightarrow> Kernel \<Rightarrow> unit kresult \<times> Process \<times> Kernel" where
  "sys_kill host pid sig p k =
    (if sig \<ge> NSIG \<and> sig \<noteq> 0 then (Err EINVAL, p, k)
     else if is_local pid p then (Ok (), if sig = 0 then p else raise_signal sig p, k)
     else (let (r, k) = host_unit host (HostKill pid sig) k in (r, p, k)))"

text \<open>
  The calls on the table of processes. The caller is its current process; in the traditional mode it is
  the only one.
\<close>

type_synonym table_state = "ProcessTable \<times> Kernel"

definition deliver_to :: "host \<Rightarrow> u32 \<Rightarrow> table_state \<Rightarrow> table_state option" where
  "deliver_to host pid = (\<lambda>(t, k). case pr_get t pid of
     None \<Rightarrow> Some (t, k)
   | Some p \<Rightarrow> map_option (\<lambda>(p, k). (pr_insert pid p t, k)) (deliver_pending_signals host (pr_current_tid t) p k))"

definition queue_signal :: "u32 \<Rightarrow> i32 \<Rightarrow> Process \<Rightarrow> Process" where
  "queue_signal sig si_value p = p\<lparr>p_signals := snd (ss_raise_with_value sig si_value (p_signals p))\<rparr>"

text \<open>One target: \<open>None\<close> for a process that is gone, else whether it may be signalled.\<close>

definition signal_one :: "host \<Rightarrow> Process \<Rightarrow> u32 \<Rightarrow> i32 \<Rightarrow> u32 \<Rightarrow> table_state \<Rightarrow> (bool option \<times> table_state) option" where
  "signal_one host sender sig si_value pid = (\<lambda>(t, k). case pr_get t pid of
     None \<Rightarrow> Some (None, t, k)
   | Some target \<Rightarrow>
       if \<not> can_signal (p_uid sender) (p_euid sender) (p_uid target) (p_euid target) then Some (Some False, t, k)
       else if sig > 0
       then map_option (\<lambda>s. (Some True, s)) (deliver_to host pid (pr_insert pid (queue_signal sig si_value target) t, k))
       else Some (Some True, t, k))"

fun signal_group ::
    "host \<Rightarrow> Process \<Rightarrow> u32 \<Rightarrow> i32 \<Rightarrow> u32 list \<Rightarrow> bool \<times> bool \<Rightarrow> table_state \<Rightarrow> ((bool \<times> bool) \<times> table_state) option" where
  "signal_group host sender sig si_value [] acc s = Some (acc, s)"
| "signal_group host sender sig si_value (pid # pids) (delivered, denied) s =
    Option.bind (signal_one host sender sig si_value pid s) (\<lambda>(r, s).
      signal_group host sender sig si_value pids (delivered \<or> r = Some True, denied \<or> r = Some False) s)"

definition with_delivery :: "host \<Rightarrow> 'r \<Rightarrow> table_state \<Rightarrow> ('r \<times> table_state) option" where
  "with_delivery host r s = map_option (\<lambda>s. (r, s)) (deliver_to host (pr_current_pid (fst s)) s)"

definition kernel_kill_with_value ::
    "host \<Rightarrow> i32 \<Rightarrow> u32 \<Rightarrow> i32 \<Rightarrow> Process \<Rightarrow> table_state \<Rightarrow> (unit kresult \<times> table_state) option" where
  "kernel_kill_with_value host pid sig si_value p = (\<lambda>(t, k).
     if \<not> is_local pid p \<and> is_centralized_mode k \<and> 0 < sint pid then
       (if sig \<ge> NSIG \<and> sig \<noteq> 0 then with_delivery host (Err EINVAL) (t, k)
        else Option.bind (signal_one host p sig si_value pid (ensure_init t, k)) (\<lambda>(r, s).
          with_delivery host (case r of None \<Rightarrow> Err ESRCH | Some ok \<Rightarrow> if ok then Ok () else Err EPERM) s))
     else if \<not> is_local pid p \<and> is_centralized_mode k \<and> sint pid < - 1 then
       (if sig \<ge> NSIG \<and> sig \<noteq> 0 then with_delivery host (Err EINVAL) (t, k)
        else
          (let pids = pids_in_group t (- pid) in
           if pids = [] then with_delivery host (Err ESRCH) (t, k)
           else Option.bind (signal_group host p sig si_value pids (False, False) (t, k)) (\<lambda>((delivered, denied), s).
             with_delivery host (if delivered then Ok () else if denied then Err EPERM else Err ESRCH) s)))
     else if si_value \<noteq> 0 \<and> sig > 0 then with_delivery host (Ok ()) (pr_insert (p_pid p) (queue_signal sig si_value p) t, k)
     else
       (let (r, p, k) = sys_kill host pid sig p k in with_delivery host r (pr_insert (p_pid p) p t, k)))"

definition raise_maybe_value :: "u32 \<Rightarrow> i32 \<Rightarrow> i32 \<Rightarrow> Process \<Rightarrow> Process" where
  "raise_maybe_value sig si_value si_code p =
    (if sig = 0 then p else if si_code \<noteq> 0 \<or> si_value \<noteq> 0 then queue_signal sig si_value p else raise_signal sig p)"

definition kernel_tkill_with_value ::
    "host \<Rightarrow> u32 \<Rightarrow> u32 \<Rightarrow> u32 \<Rightarrow> i32 \<Rightarrow> i32 \<Rightarrow> Process \<Rightarrow> Kernel \<Rightarrow> (unit kresult \<times> Process \<times> Kernel) option" where
  "kernel_tkill_with_value host current_tid tid sig si_value si_code p k =
    (let finish = (\<lambda>r p. map_option (\<lambda>s. (r, s)) (deliver_pending_signals host current_tid p k)) in
     if sig \<ge> NSIG then finish (Err EINVAL) p
     else if is_main_thread p tid \<or> get_thread p tid = None then finish (Ok ()) (raise_maybe_value sig si_value si_code p)
     else if sig = 0 then finish (Ok ()) p
     else finish (Ok ()) (modify_thread tid
       (\<lambda>s. snd (if si_code \<noteq> 0 \<or> si_value \<noteq> 0 then pts_raise_with_value sig si_value s else pts_raise sig s)) p))"

definition kernel_sigaltstack ::
    "host \<Rightarrow> u32 \<Rightarrow> (u32 \<times> u32 \<times> u32) option \<Rightarrow> Process \<Rightarrow> Kernel \<Rightarrow> ((unit kresult \<times> u32 \<times> u32 \<times> u32) \<times> Process \<times> Kernel) option" where
  "kernel_sigaltstack host tid ss p k =
    (let old = (ucast (p_alt_stack_sp p), p_alt_stack_flags p, ucast (p_alt_stack_size p));
         finish = (\<lambda>p. map_option (\<lambda>s. ((Ok (), old), s)) (deliver_pending_signals host tid p k))
     in case ss of
       None \<Rightarrow> finish p
     | Some (sp, flags, size') \<Rightarrow>
         if p_alt_stack_flags p AND SS_ONSTACK \<noteq> 0 then Some ((Err EPERM, old), p, k)
         else if flags AND SS_DISABLE \<noteq> 0
         then finish (p\<lparr>p_alt_stack_sp := 0, p_alt_stack_flags := SS_DISABLE, p_alt_stack_size := 0\<rparr>)
         else finish (p\<lparr>p_alt_stack_sp := ucast sp, p_alt_stack_flags := flags, p_alt_stack_size := ucast size'\<rparr>))"

end
