(* ===== verification/Events.thy ===== *)
theory Events
  imports Sig_Calls
begin

text \<open>
  Descriptors for events, and waiting on descriptors, from \<^verbatim>\<open>src/crates/kernel/src/syscalls.rs\<close>: \<open>eventfd2\<close>,
  the \<open>epoll\<close>, \<open>timerfd\<close> and \<open>signalfd\<close> calls, \<open>memfd_create\<close>, \<open>poll\<close>, \<open>ppoll\<close>, \<open>select\<close> and \<open>pselect6\<close>.
\<close>

section \<open>Creating a descriptor for a kernel object\<close>

text \<open>The description and the descriptor for a new object; \<open>undo\<close> frees the object when no descriptor is left.\<close>

definition open_object ::
    "FileType \<Rightarrow> u32 \<Rightarrow> nat \<Rightarrow> bytes \<Rightarrow> bool \<Rightarrow> (Process \<Rightarrow> Process) \<Rightarrow> Process \<Rightarrow> i32 kresult \<times> Process" where
  "open_object ft status_flags idx path cloexec undo p =
    (let (ofd_idx, ofds) = ofdt_create ft status_flags (- (word_of_nat idx + 1)) path (p_ofd_table p);
         p = p\<lparr>p_ofd_table := ofds\<rparr>
     in case fdt_alloc (p_fd_table p) ofd_idx (if cloexec then FD_CLOEXEC else 0) of
          (Inr fd, fds) \<Rightarrow> (Ok fd, p\<lparr>p_fd_table := fds\<rparr>)
        | (Inl e, fds) \<Rightarrow> (Err e, undo (p\<lparr>p_fd_table := fds, p_ofd_table := snd (ofdt_dec_ref ofd_idx (p_ofd_table p))\<rparr>)))"

definition nonblock_flag :: "u32 \<Rightarrow> u32" where
  "nonblock_flag flags = (if flags AND O_NONBLOCK \<noteq> 0 then O_NONBLOCK else 0)"

abbreviation (input) EFD_SEMAPHORE :: u32 where "EFD_SEMAPHORE \<equiv> 1"

definition sys_eventfd2 :: "u32 \<Rightarrow> u32 \<Rightarrow> Process \<Rightarrow> i32 kresult \<times> Process" where
  "sys_eventfd2 initval flags p =
    (if flags AND NOT (EFD_SEMAPHORE OR O_CLOEXEC OR O_NONBLOCK) \<noteq> 0 then (Err EINVAL, p)
     else
       (let (i, s) = slot_insert \<lparr>ev_counter = ucast initval, ev_semaphore = flags AND EFD_SEMAPHORE \<noteq> 0\<rparr> (p_eventfds p)
        in open_object EventFd (O_RDWR OR nonblock_flag flags) i (bstr ''/dev/eventfd'') (flags AND O_CLOEXEC \<noteq> 0)
             (\<lambda>p. p\<lparr>p_eventfds := (p_eventfds p)[i := None]\<rparr>) (p\<lparr>p_eventfds := s\<rparr>)))"

definition sys_inotify_init :: "Process \<Rightarrow> i32 kresult \<times> Process" where
  "sys_inotify_init p = sys_eventfd2 0 (O_CLOEXEC OR O_NONBLOCK) p"

definition sys_epoll_create1 :: "u32 \<Rightarrow> Process \<Rightarrow> i32 kresult \<times> Process" where
  "sys_epoll_create1 flags p =
    (if flags AND NOT O_CLOEXEC \<noteq> 0 then (Err EINVAL, p)
     else
       (let (i, s) = slot_insert [] (p_epolls p)
        in open_object Epoll O_RDWR i (bstr ''/dev/epoll'') (flags AND O_CLOEXEC \<noteq> 0)
             (\<lambda>p. p\<lparr>p_epolls := (p_epolls p)[i := None]\<rparr>) (p\<lparr>p_epolls := s\<rparr>)))"

definition sys_timerfd_create :: "u32 \<Rightarrow> u32 \<Rightarrow> Process \<Rightarrow> i32 kresult \<times> Process" where
  "sys_timerfd_create clock_id flags p =
    (if flags AND NOT (O_CLOEXEC OR O_NONBLOCK) \<noteq> 0 then (Err EINVAL, p)
     else
       (let (i, s) = slot_insert \<lparr>tf_clock_id = clock_id, tf_interval_sec = 0, tf_interval_nsec = 0, tf_value_sec = 0,
              tf_value_nsec = 0, tf_expirations = 0\<rparr> (p_timerfds p)
        in open_object TimerFd (O_RDWR OR nonblock_flag flags) i (bstr ''/dev/timerfd'') (flags AND O_CLOEXEC \<noteq> 0)
             (\<lambda>p. p\<lparr>p_timerfds := (p_timerfds p)[i := None]\<rparr>) (p\<lparr>p_timerfds := s\<rparr>)))"

text \<open>The object of a given type behind a descriptor.\<close>

definition object_idx :: "FileType \<Rightarrow> i32 \<Rightarrow> Process \<Rightarrow> nat kresult" where
  "object_idx ft fd p = (case fdt_get (p_fd_table p) fd of
     Inl e \<Rightarrow> Err e
   | Inr entry \<Rightarrow> (case ofdt_get (p_ofd_table p) (ofd_ref entry) of
       None \<Rightarrow> Err EBADF
     | Some ofd \<Rightarrow> if ofd_file_type ofd \<noteq> ft then Err EINVAL else Ok (kernel_idx (ofd_host_handle ofd))))"

definition sys_signalfd4 :: "i32 \<Rightarrow> u64 \<Rightarrow> u32 \<Rightarrow> Process \<Rightarrow> i32 kresult \<times> Process" where
  "sys_signalfd4 fd smask flags p =
    (if flags AND NOT (O_CLOEXEC OR O_NONBLOCK) \<noteq> 0 then (Err EINVAL, p)
     else if fd \<noteq> - 1 then
       (case object_idx SignalFd fd p of
          Inl e \<Rightarrow> (Err e, p)
        | Inr i \<Rightarrow> (case slot_get (p_signalfds p) i of
            None \<Rightarrow> (Err EBADF, p)
          | Some sfd \<Rightarrow> (Ok fd, p\<lparr>p_signalfds := (p_signalfds p)[i := Some (sfd\<lparr>sf_mask := smask\<rparr>)]\<rparr>)))
     else
       (let (i, s) = slot_insert \<lparr>sf_mask = smask\<rparr> (p_signalfds p)
        in open_object SignalFd (O_RDONLY OR nonblock_flag flags) i (bstr ''/dev/signalfd'') (flags AND O_CLOEXEC \<noteq> 0)
             (\<lambda>p. p\<lparr>p_signalfds := (p_signalfds p)[i := None]\<rparr>) (p\<lparr>p_signalfds := s\<rparr>)))"

abbreviation (input) MFD_CLOEXEC :: u32 where "MFD_CLOEXEC \<equiv> 1"
abbreviation (input) MFD_ALLOW_SEALING :: u32 where "MFD_ALLOW_SEALING \<equiv> 2"

text \<open>Here nothing is taken back when no descriptor is left.\<close>

definition sys_memfd_create :: "bytes \<Rightarrow> u32 \<Rightarrow> Process \<Rightarrow> i32 kresult \<times> Process" where
  "sys_memfd_create name flags p =
    (if flags AND NOT (MFD_CLOEXEC OR MFD_ALLOW_SEALING) \<noteq> 0 then (Err EINVAL, p)
     else
       (let memfd_idx = length (p_memfds p); p = p\<lparr>p_memfds := p_memfds p @ [Some []]\<rparr>;
            path = bstr ''memfd:'' @ take 249 name;
            (ofd_idx, ofds) = ofdt_create MemFd O_RDWR (- (word_of_nat memfd_idx + 1)) path (p_ofd_table p);
            (r, fds) = fdt_alloc (p_fd_table p) ofd_idx (if flags AND MFD_CLOEXEC \<noteq> 0 then FD_CLOEXEC else 0)
        in (r, p\<lparr>p_ofd_table := ofds, p_fd_table := fds\<rparr>)))"

section \<open>Timers\<close>

abbreviation (input) TFD_TIMER_ABSTIME :: u32 where "TFD_TIMER_ABSTIME \<equiv> 1"

type_synonym itimer = "i64 \<times> i64 \<times> i64 \<times> i64"

definition put_timerfd :: "nat \<Rightarrow> TimerFdState \<Rightarrow> Process \<Rightarrow> Process" where
  "put_timerfd i tfd p = p\<lparr>p_timerfds := (p_timerfds p)[i := Some tfd]\<rparr>"

definition sys_timerfd_settime :: "host \<Rightarrow> i32 \<Rightarrow> u32 \<Rightarrow> itimer \<Rightarrow> Process \<Rightarrow> Kernel \<Rightarrow> itimer kresult \<times> Process \<times> Kernel" where
  "sys_timerfd_settime host fd flags = (\<lambda>(interval_sec, interval_nsec, value_sec, value_nsec) p k.
    (case object_idx TimerFd fd p of
       Inl e \<Rightarrow> (Err e, p, k)
     | Inr i \<Rightarrow> (case slot_get (p_timerfds p) i of
         None \<Rightarrow> (Err EBADF, p, k)
       | Some tfd \<Rightarrow>
           (let old = (tf_interval_sec tfd, tf_interval_nsec tfd, tf_value_sec tfd, tf_value_nsec tfd) in
            if value_sec = 0 \<and> value_nsec = 0
            then (Ok old, put_timerfd i (tfd\<lparr>tf_interval_sec := 0, tf_interval_nsec := 0, tf_value_sec := 0,
                    tf_value_nsec := 0, tf_expirations := 0\<rparr>) p, k)
            else
              (let tfd = tfd\<lparr>tf_interval_sec := interval_sec, tf_interval_nsec := interval_nsec\<rparr> in
               if flags AND TFD_TIMER_ABSTIME \<noteq> 0
               then (Ok old, put_timerfd i (tfd\<lparr>tf_value_sec := value_sec, tf_value_nsec := value_nsec, tf_expirations := 0\<rparr>) p, k)
               else (case host_clock_gettime host (tf_clock_id tfd) k of
                   (Inl e, k) \<Rightarrow> (Err e, put_timerfd i tfd p, k)
                 | (Inr (now_sec, now_nsec), k) \<Rightarrow>
                     (let total_nsec = now_nsec + value_nsec; total_sec = now_sec + value_sec;
                          (total_sec, total_nsec) = (if 1000000000 \<le> sint total_nsec
                            then (total_sec + i64_div total_nsec 1000000000, i64_rem total_nsec 1000000000)
                            else (total_sec, total_nsec))
                      in (Ok old, put_timerfd i (tfd\<lparr>tf_value_sec := total_sec, tf_value_nsec := total_nsec,
                            tf_expirations := 0\<rparr>) p, k))))))))"

definition sys_timerfd_gettime :: "host \<Rightarrow> i32 \<Rightarrow> Process \<Rightarrow> Kernel \<Rightarrow> itimer kresult \<times> Kernel" where
  "sys_timerfd_gettime host fd p k = (case object_idx TimerFd fd p of
     Inl e \<Rightarrow> (Err e, k)
   | Inr i \<Rightarrow> (case slot_get (p_timerfds p) i of
       None \<Rightarrow> (Err EBADF, k)
     | Some tfd \<Rightarrow>
         if tf_value_sec tfd = 0 \<and> tf_value_nsec tfd = 0 then (Ok (0, 0, 0, 0), k)
         else (case host_clock_gettime host (tf_clock_id tfd) k of
             (Inl e, k) \<Rightarrow> (Err e, k)
           | (Inr (now_sec, now_nsec), k) \<Rightarrow>
               (let remain_sec = tf_value_sec tfd - now_sec; remain_nsec = tf_value_nsec tfd - now_nsec;
                    (remain_sec, remain_nsec) = (if sint remain_nsec < 0
                      then (remain_sec - 1, remain_nsec + 1000000000) else (remain_sec, remain_nsec));
                    (remain_sec, remain_nsec) = (if sint remain_sec < 0 then (0, 0) else (remain_sec, remain_nsec))
                in (Ok (tf_interval_sec tfd, tf_interval_nsec tfd, remain_sec, remain_nsec), k)))))"

section \<open>Readiness\<close>

record WasmPollFd =
  pf_fd :: i32
  pf_events :: i16
  pf_revents :: i16

text \<open>An event that is asked for and there.\<close>

definition event :: "i16 \<Rightarrow> i16 \<Rightarrow> bool \<Rightarrow> i16" where
  "event events flag there = (if events AND flag \<noteq> 0 \<and> there then flag else 0)"

definition poll_socket :: "i16 \<Rightarrow> SocketInfo \<Rightarrow> Process \<Rightarrow> Kernel \<Rightarrow> i16" where
  "poll_socket events sock p k =
    (let pipe = (\<lambda>i. Option.bind i (\<lambda>i. pipe_lookup (sk_global_pipes sock) i p k));
         pending = (sk_listen_backlog sock \<noteq> [] \<or>
           (case sk_shared_backlog_idx sock of None \<Rightarrow> False | Some i \<Rightarrow> blt_len (k_backlogs k) i > 0));
         external = (sk_host_net_handle sock \<noteq> None \<and> sk_recv_buf_idx sock = None \<and> sk_send_buf_idx sock = None \<and>
           sk_state sock = Connected)
     in (if sk_shut_wr sock \<and> sk_shut_rd sock then POLLERR else 0) OR
        event events POLLIN (sk_state sock = Listening \<and> pending) OR
        event events POLLIN (sk_dgram_queue sock \<noteq> []) OR
        (case pipe (sk_recv_buf_idx sock) of
           None \<Rightarrow> 0
         | Some b \<Rightarrow> event events POLLIN (pb_available b > 0) OR (if pb_is_write_end_open b then 0 else POLLHUP)) OR
        (case pipe (sk_send_buf_idx sock) of None \<Rightarrow> 0 | Some b \<Rightarrow> event events POLLOUT (pb_free_space b > 0)) OR
        event events POLLOUT external OR event events POLLIN external)"

definition poll_revents :: "i16 \<Rightarrow> OpenFileDesc \<Rightarrow> Process \<Rightarrow> Kernel \<Rightarrow> i16" where
  "poll_revents events ofd p k =
    (let h = ofd_host_handle ofd; idx = kernel_idx h;
         dev = (if ofd_file_type ofd = CharDevice then vd_from_host_handle h else None);
         always = event events POLLIN True OR event events POLLOUT True
     in case ofd_file_type ofd of
          EventFd \<Rightarrow> (case slot_get (p_eventfds p) idx of
              None \<Rightarrow> 0
            | Some efd \<Rightarrow> event events POLLIN (ev_counter efd > 0) OR event events POLLOUT (ev_counter efd < - 1 - 1))
        | Epoll \<Rightarrow> 0
        | TimerFd \<Rightarrow> (case slot_get (p_timerfds p) idx of
              None \<Rightarrow> 0 | Some tfd \<Rightarrow> event events POLLIN (tf_expirations tfd > 0))
        | SignalFd \<Rightarrow> (case slot_get (p_signalfds p) idx of
              None \<Rightarrow> 0 | Some sfd \<Rightarrow> event events POLLIN (ss_pending (p_signals p) AND sf_mask sfd \<noteq> 0))
        | PtyMaster \<Rightarrow> (case get_pty (k_ptys k) (unat h) of
              None \<Rightarrow> 0
            | Some pty \<Rightarrow> event events POLLIN (master_has_data pty) OR event events POLLOUT True OR
                (if pty_slave_refs pty = 0 then POLLHUP else 0))
        | PtySlave \<Rightarrow> (case get_pty (k_ptys k) (unat h) of
              None \<Rightarrow> 0
            | Some pty \<Rightarrow> event events POLLIN (slave_has_data pty) OR event events POLLOUT True OR
                (if pty_master_refs pty = 0 then POLLHUP else 0))
        | Pipe \<Rightarrow>
            if 0 \<le> sint h then always
            else (case pipe_lookup (is_centralized_mode k) idx p k of
                None \<Rightarrow> 0
              | Some b \<Rightarrow> event events POLLIN (pb_available b > 0) OR event events POLLOUT (pb_free_space b > 0) OR
                  (if pb_is_write_end_open b then 0 else POLLHUP))
        | Socket \<Rightarrow> (case skt_get (p_sockets p) idx of None \<Rightarrow> 0 | Some sock \<Rightarrow> poll_socket events sock p k)
        | _ \<Rightarrow>
            if dev = Some DevMice then event events POLLIN (mice_has_data (k_mice k))
            else if dev = Some DevDsp then event events POLLOUT True
            else always)"

definition poll_one :: "Process \<Rightarrow> Kernel \<Rightarrow> WasmPollFd \<Rightarrow> WasmPollFd" where
  "poll_one p k pf = pf\<lparr>pf_revents :=
    (if sint (pf_fd pf) < 0 then 0
     else (case fdt_get (p_fd_table p) (pf_fd pf) of
         Inl _ \<Rightarrow> POLLNVAL
       | Inr entry \<Rightarrow> (case ofdt_get (p_ofd_table p) (ofd_ref entry) of
           None \<Rightarrow> POLLNVAL
         | Some ofd \<Rightarrow> poll_revents (pf_events pf) ofd p k)))\<rparr>"

definition poll_check :: "Process \<Rightarrow> Kernel \<Rightarrow> WasmPollFd list \<Rightarrow> i32 \<times> WasmPollFd list" where
  "poll_check p k fds =
    (let fds = map (poll_one p k) fds in (word_of_nat (length (filter (\<lambda>pf. pf_revents pf \<noteq> 0) fds)), fds))"

section \<open>Waiting\<close>

text \<open>
  The loop of the traditional mode. \<open>check\<close> is one test of all descriptors: how many are ready, and
  what is written to the arrays of the caller.
\<close>

partial_function (option) poll_loop ::
    "host \<Rightarrow> (Process \<Rightarrow> Kernel \<Rightarrow> i32 \<times> 'a) \<Rightarrow> u64 option \<Rightarrow> 'a \<Rightarrow> Process \<Rightarrow> Kernel \<Rightarrow> ((i32 kresult \<times> 'a) \<times> Process \<times> Kernel) option" where
  "poll_loop host check deadline out p k =
    (if ss_deliverable (p_signals p) \<noteq> 0 \<and> \<not> ss_should_restart (p_signals p) then Some ((Err EINTR, out), p, k)
     else (case host_sleep host p k of (p, k) \<Rightarrow> (case check p k of (ready, out) \<Rightarrow>
       if 0 < sint ready then Some ((Ok ready, out), p, k)
       else (case deadline of
           None \<Rightarrow> poll_loop host check deadline out p k
         | Some dl \<Rightarrow> (case host_clock_gettime host 1 k of
             (Inl e, k) \<Rightarrow> Some ((Err e, out), p, k)
           | (Inr t, k) \<Rightarrow>
               if now_ns t \<ge> dl then Some ((Ok 0, out), p, k) else poll_loop host check deadline out p k)))))"

definition poll_wait ::
    "host \<Rightarrow> (Process \<Rightarrow> Kernel \<Rightarrow> i32 \<times> 'a) \<Rightarrow> i32 \<Rightarrow> Process \<Rightarrow> Kernel \<Rightarrow> ((i32 kresult \<times> 'a) \<times> Process \<times> Kernel) option" where
  "poll_wait host check timeout_ms p k =
    (let (ready, out) = check p k in
     if 0 < sint ready \<or> timeout_ms = 0 then Some ((Ok ready, out), p, k)
     else if is_centralized_mode k then Some ((Err EAGAIN, out), p, k)
     else if 0 < sint timeout_ms then
       (case host_clock_gettime host 1 k of
          (Inl e, k) \<Rightarrow> Some ((Err e, out), p, k)
        | (Inr t, k) \<Rightarrow> poll_loop host check (Some (now_ns t + scast timeout_ms * 1000000)) out p k)
     else poll_loop host check None out p k)"

definition sys_poll ::
    "host \<Rightarrow> WasmPollFd list \<Rightarrow> i32 \<Rightarrow> Process \<Rightarrow> Kernel \<Rightarrow> ((i32 kresult \<times> WasmPollFd list) \<times> Process \<times> Kernel) option" where
  "sys_poll host fds timeout_ms p k = poll_wait host (\<lambda>p k. poll_check p k fds) timeout_ms p k"

text \<open>A set of descriptors for \<open>select\<close> is an optional array of bits; the entry points pass arrays of 128 bytes.\<close>

type_synonym fd_sets = "bytes option \<times> bytes option \<times> bytes option"

definition in_set :: "bytes option \<Rightarrow> nat \<Rightarrow> bool" where
  "in_set s fd = (case s of None \<Rightarrow> False | Some b \<Rightarrow> bit (b ! (fd div 8)) (fd mod 8))"

definition clear_set :: "nat \<Rightarrow> bytes option \<Rightarrow> bytes option" where
  "clear_set n s = map_option (copy_at 0 (replicate n 0)) s"

definition add_fd :: "nat \<Rightarrow> bytes option \<Rightarrow> bytes option" where
  "add_fd fd s = map_option (\<lambda>b. b[fd div 8 := b ! (fd div 8) OR push_bit (fd mod 8) 1]) s"

definition select_one :: "Process \<Rightarrow> Kernel \<Rightarrow> fd_sets \<Rightarrow> nat \<Rightarrow> i32 \<times> fd_sets \<Rightarrow> i32 \<times> fd_sets" where
  "select_one p k = (\<lambda>(rin, win, ein) fd (ready, rs, ws, es).
    (let want_read = in_set rin fd; want_write = in_set win fd; want_except = in_set ein fd in
     if \<not> want_read \<and> \<not> want_write \<and> \<not> want_except then (ready, rs, ws, es)
     else
       (let events = (if want_read then POLLIN else 0) OR (if want_write then POLLOUT else 0) OR (if want_except then POLLPRI else 0);
            revents = pf_revents (poll_one p k \<lparr>pf_fd = word_of_nat fd, pf_events = events, pf_revents = 0\<rparr>);
            r = (want_read \<and> revents AND (POLLIN OR POLLHUP OR POLLERR) \<noteq> 0);
            w = (want_write \<and> revents AND (POLLOUT OR POLLERR) \<noteq> 0);
            e = (want_except \<and> revents AND POLLPRI \<noteq> 0)
        in (if r \<or> w \<or> e then ready + 1 else ready, if r then add_fd fd rs else rs, if w then add_fd fd ws else ws,
            if e then add_fd fd es else es))))"

definition select_check :: "nat \<Rightarrow> fd_sets \<Rightarrow> Process \<Rightarrow> Kernel \<Rightarrow> i32 \<times> fd_sets" where
  "select_check nfds sets p k =
    (let (rs, ws, es) = sets; n = (nfds + 7) div 8
     in fold (select_one p k sets) [0..<nfds] (0, clear_set n rs, clear_set n ws, clear_set n es))"

definition sys_select :: "host \<Rightarrow> i32 \<Rightarrow> fd_sets \<Rightarrow> i32 \<Rightarrow> Process \<Rightarrow> Kernel \<Rightarrow> ((i32 kresult \<times> fd_sets) \<times> Process \<times> Kernel) option" where
  "sys_select host nfds sets timeout_ms p k =
    (if sint nfds < 0 \<or> 1024 < sint nfds then Some ((Err EINVAL, sets), p, k)
     else poll_wait host (select_check (unat nfds) sets) timeout_ms p k)"

section \<open>Waiting with another signal mask\<close>

definition restore_saved_mask :: "u32 \<Rightarrow> Process \<Rightarrow> Process" where
  "restore_saved_mask tid p =
    (if deliverable_for p tid = 0
     then (case take_sigsuspend_saved_mask_for tid p of
         (None, p) \<Rightarrow> p | (Some saved, p) \<Rightarrow> snd (set_blocked_for tid saved p))
     else p)"

definition masked_wait ::
    "u32 \<Rightarrow> u64 option \<Rightarrow> 'a \<Rightarrow> (Process \<Rightarrow> Kernel \<Rightarrow> ((i32 kresult \<times> 'a) \<times> Process \<times> Kernel) option) \<Rightarrow> Process \<Rightarrow> Kernel \<Rightarrow>
     ((i32 kresult \<times> 'a) \<times> Process \<times> Kernel) option" where
  "masked_wait tid smask out wait p k =
    (if is_centralized_mode k then
       (let p = (case smask of
              None \<Rightarrow> p
            | Some new_mask \<Rightarrow>
                if sigsuspend_saved_mask_for p tid = None
                then snd (set_blocked_for tid (new_mask AND NOT sig_guard)
                       (set_sigsuspend_saved_mask_for tid (Some (blocked_for p tid)) p))
                else p)
        in if smask \<noteq> None \<and> deliverable_for p tid \<noteq> 0 then Some ((Err EINTR, out), p, k)
           else map_option (\<lambda>((r, out), p, k). if r = Err EAGAIN then ((r, out), p, k) else ((r, out), restore_saved_mask tid p, k))
                  (wait p k))
     else (case smask of
         None \<Rightarrow> wait p k
       | Some new_mask \<Rightarrow> (case sys_sigprocmask tid SIG_SETMASK new_mask p of
           (Inl e, p) \<Rightarrow> Some ((Err e, out), p, k)
         | (Inr old, p) \<Rightarrow> map_option (\<lambda>(r, p, k). (r, snd (sys_sigprocmask tid SIG_SETMASK old p), k)) (wait p k))))"

definition sys_ppoll where
  "sys_ppoll host tid fds timeout_ms smask p k = masked_wait tid smask fds (sys_poll host fds timeout_ms) p k"

definition sys_pselect6 where
  "sys_pselect6 host tid nfds sets timeout_ms smask p k = masked_wait tid smask sets (sys_select host nfds sets timeout_ms) p k"

section \<open>epoll\<close>

abbreviation (input) EPOLL_CTL_ADD :: i32 where "EPOLL_CTL_ADD \<equiv> 1"
abbreviation (input) EPOLL_CTL_DEL :: i32 where "EPOLL_CTL_DEL \<equiv> 2"
abbreviation (input) EPOLL_CTL_MOD :: i32 where "EPOLL_CTL_MOD \<equiv> 3"

definition epoll_update :: "i32 \<Rightarrow> i32 \<Rightarrow> u32 \<Rightarrow> u64 \<Rightarrow> EpollInterest list \<Rightarrow> EpollInterest list kresult" where
  "epoll_update op fd events data interests =
    (let at = position (\<lambda>e. ep_fd e = fd) interests in
     if op = EPOLL_CTL_ADD then
       (if at \<noteq> None then Err EEXIST else Ok (interests @ [\<lparr>ep_fd = fd, ep_events = events, ep_data = data\<rparr>]))
     else if op = EPOLL_CTL_DEL then
       (case at of None \<Rightarrow> Err ENOENT | Some i \<Rightarrow> Ok (swap_remove i interests))
     else if op = EPOLL_CTL_MOD then
       (case at of None \<Rightarrow> Err ENOENT
        | Some i \<Rightarrow> Ok (interests[i := (interests ! i)\<lparr>ep_events := events, ep_data := data\<rparr>]))
     else Err EINVAL)"

definition sys_epoll_ctl :: "i32 \<Rightarrow> i32 \<Rightarrow> i32 \<Rightarrow> u32 \<Rightarrow> u64 \<Rightarrow> Process \<Rightarrow> unit kresult \<times> Process" where
  "sys_epoll_ctl epfd op fd events data p = (case object_idx Epoll epfd p of
     Inl e \<Rightarrow> (Err e, p)
   | Inr i \<Rightarrow> (case fdt_get (p_fd_table p) fd of
       Inl e \<Rightarrow> (Err e, p)
     | Inr _ \<Rightarrow> (case slot_get (p_epolls p) i of
         None \<Rightarrow> (Err EBADF, p)
       | Some interests \<Rightarrow> (case epoll_update op fd events data interests of
           Inl e \<Rightarrow> (Err e, p)
         | Inr interests \<Rightarrow> (Ok (), p\<lparr>p_epolls := (p_epolls p)[i := Some interests]\<rparr>)))))"

abbreviation (input) EPOLLIN :: u32 where "EPOLLIN \<equiv> 1"
abbreviation (input) EPOLLOUT :: u32 where "EPOLLOUT \<equiv> 4"
abbreviation (input) EPOLLERR :: u32 where "EPOLLERR \<equiv> 8"
abbreviation (input) EPOLLHUP :: u32 where "EPOLLHUP \<equiv> 16"

definition to_pollfd :: "EpollInterest \<Rightarrow> WasmPollFd" where
  "to_pollfd e = \<lparr>pf_fd = ep_fd e,
     pf_events = (if ep_events e AND EPOLLIN \<noteq> 0 then POLLIN else 0) OR (if ep_events e AND EPOLLOUT \<noteq> 0 then POLLOUT else 0),
     pf_revents = 0\<rparr>"

definition to_epoll :: "i16 \<Rightarrow> u32" where
  "to_epoll r = (if r AND POLLIN \<noteq> 0 then EPOLLIN else 0) OR (if r AND POLLOUT \<noteq> 0 then EPOLLOUT else 0) OR
     (if r AND POLLERR \<noteq> 0 then EPOLLERR else 0) OR (if r AND POLLHUP \<noteq> 0 then EPOLLHUP else 0)"

definition epoll_results :: "EpollInterest list \<Rightarrow> WasmPollFd list \<Rightarrow> nat \<Rightarrow> (u32 \<times> u64) list" where
  "epoll_results interests pollfds maxevents =
    take maxevents (map (\<lambda>(pf, e). (to_epoll (pf_revents pf), ep_data e)) (filter (\<lambda>(pf, _). pf_revents pf \<noteq> 0) (zip pollfds interests)))"

definition sys_epoll_pwait ::
    "host \<Rightarrow> u32 \<Rightarrow> i32 \<Rightarrow> i32 \<Rightarrow> i32 \<Rightarrow> u64 option \<Rightarrow> Process \<Rightarrow> Kernel \<Rightarrow> ((i32 \<times> (u32 \<times> u64) list) kresult \<times> Process \<times> Kernel) option" where
  "sys_epoll_pwait host tid epfd maxevents timeout_ms sigmask p k =
    (if sint maxevents \<le> 0 then Some (Err EINVAL, p, k)
     else (case object_idx Epoll epfd p of
       Inl e \<Rightarrow> Some (Err e, p, k)
     | Inr i \<Rightarrow> (case slot_get (p_epolls p) i of
         None \<Rightarrow> Some (Err EBADF, p, k)
       | Some interests \<Rightarrow>
           if interests = [] then
             (case sigmask of
                None \<Rightarrow> Some (Ok (0, []), p, k)
              | Some new_mask \<Rightarrow> (case sys_sigprocmask tid SIG_SETMASK new_mask p of
                  (Inl e, p) \<Rightarrow> Some (Err e, p, k)
                | (Inr old, p) \<Rightarrow>
                    (let (p, k) = (if 0 < sint timeout_ms
                       then h_others host (k_calls k) (p, snd (host_unit host (HostNanosleep 0 (scast timeout_ms * 1000000)) k))
                       else (p, k))
                     in Some (Ok (0, []), snd (sys_sigprocmask tid SIG_SETMASK old p), k))))
           else
             (let pollfds = map to_pollfd interests;
                  finish = (\<lambda>((r, pollfds), p, k).
                    (case r of
                       Inl e \<Rightarrow> Err e
                     | Inr _ \<Rightarrow> (let out = epoll_results interests pollfds (nat (sint maxevents)) in Ok (word_of_nat (length out), out)),
                     p, k))
              in case sigmask of
                   None \<Rightarrow> map_option finish (sys_poll host pollfds timeout_ms p k)
                 | Some new_mask \<Rightarrow> (case sys_sigprocmask tid SIG_SETMASK new_mask p of
                     (Inl e, p) \<Rightarrow> Some (Err e, p, k)
                   | (Inr old, p) \<Rightarrow>
                       map_option (\<lambda>(r, p, k). finish (r, snd (sys_sigprocmask tid SIG_SETMASK old p), k))
                         (sys_poll host pollfds timeout_ms p k))))))"

end
