(* ===== verification/Sig_Correct.thy ===== *)
theory Sig_Correct
  imports Sig_Calls Files_Correct
begin

text \<open>
  Signal delivery is correct: it comes to an end, it acts by the dispositions, the two signals that
  cannot be blocked are never put into a mask by the calls that take one, and a signal handler that
  interrupts \<open>sigsuspend\<close> runs with the mask from before the call to return to.
\<close>

section \<open>Threads\<close>

lemma find_update_first:
  assumes "\<And>x. P x \<Longrightarrow> P (f x)"
  shows "find P (case position P xs of None \<Rightarrow> xs | Some i \<Rightarrow> xs[i := f (xs ! i)]) = map_option f (find P xs)"
proof (induction xs)
  case (Cons x xs)
  then show ?case using assms by (cases "position P xs") auto
qed simp

lemma get_modify_thread [simp]:
  "get_thread (modify_thread tid f p) tid = map_option (\<lambda>t. t\<lparr>th_signals := f (th_signals t)\<rparr>) (get_thread p tid)"
proof -
  let ?P = "\<lambda>t. th_tid t = tid" and ?f = "\<lambda>t. t\<lparr>th_signals := f (th_signals t)\<rparr>"
  have "p_threads (modify_thread tid f p) =
      (case position ?P (p_threads p) of None \<Rightarrow> p_threads p | Some i \<Rightarrow> (p_threads p)[i := ?f (p_threads p ! i)])"
    by (simp add: modify_thread_def split: option.split)
  then show ?thesis using find_update_first [of ?P ?f "p_threads p"] by (simp add: get_thread_def)
qed

lemma modify_thread_frame [simp]:
  "p_signals (modify_thread tid f p) = p_signals p" "p_pid (modify_thread tid f p) = p_pid p"
  "p_state (modify_thread tid f p) = p_state p" "p_exit_status (modify_thread tid f p) = p_exit_status p"
  "p_sigsuspend_saved_mask (modify_thread tid f p) = p_sigsuspend_saved_mask p"
  "is_main_thread (modify_thread tid f p) t = is_main_thread p t"
  by (auto simp: modify_thread_def is_main_thread_def split: option.split)

text \<open>The thread with pending signals of its own that a call serves: none for the main thread.\<close>

definition worker :: "Process \<Rightarrow> u32 \<Rightarrow> ThreadInfo option" where
  "worker p tid = (if is_main_thread p tid then None else get_thread p tid)"

lemma pending_for_worker:
  "pending_for p tid = ss_pending (p_signals p) OR (case worker p tid of None \<Rightarrow> 0 | Some t \<Rightarrow> pts_pending (th_signals t))"
  by (auto simp: pending_for_def worker_def split: option.split)

lemma blocked_for_worker:
  "blocked_for p tid = (case worker p tid of None \<Rightarrow> ss_blocked (p_signals p) | Some t \<Rightarrow> pts_blocked (th_signals t))"
  by (auto simp: blocked_for_def worker_def split: option.split)

section \<open>Every step takes one signal\<close>

definition sigq_size :: "u64 \<Rightarrow> RtSigEntry list \<Rightarrow> nat" where
  "sigq_size p q = card {i. bit p i} + length q"

definition sig_load :: "Process \<Rightarrow> u32 \<Rightarrow> nat" where
  "sig_load p tid = sigq_size (ss_pending (p_signals p)) (ss_rt_queue (p_signals p)) +
    (case worker p tid of None \<Rightarrow> 0 | Some t \<Rightarrow> sigq_size (pts_pending (th_signals t)) (pts_rt_queue (th_signals t)))"

lemma finite_bits: "finite {i. bit (w :: u64) i}"
  by (rule finite_subset [of _ "{..<64}"]) (auto dest: bit_imp_le_length)

lemma rt_take_length:
  "rt_take s q = (vc, q') \<Longrightarrow> length q' = (if rt_any s q then length q - 1 else length q)"
  by (auto simp: rt_take_def rt_any_def remove_nth_def list_ex_iff position_None_iff position_Some_iff split: option.splits)

lemma sigq_consume_less:
  assumes "sig_valid s" "bit p (sig_idx s)" "sigq_consume s p q = (vc, p', q')"
  shows "sigq_size p' q' < sigq_size p q" "bit p' i \<Longrightarrow> bit p i"
proof -
  have take: "rt_take s q = (vc, q')"
    using assms(3) by (auto simp: sigq_consume_def split: prod.splits)
  have p': "p' = (if SIGRTMIN \<le> s \<and> rt_any s q' then p else p AND NOT (sig_bit s))"
    using assms(3) take by (simp add: sigq_consume_def)
  then show "bit p' i \<Longrightarrow> bit p i" by (auto simp: bit_clear_mask split: if_splits)
  have "card {i. bit (p AND NOT (sig_bit s)) i} < card {i. bit p i}"
    using assms(1,2) by (intro psubset_card_mono finite_bits) (auto simp: bit_clear_mask)
  moreover have "rt_any s q \<Longrightarrow> length q' < length q"
    using rt_take_length [OF take] by (cases q) (auto simp: rt_any_def)
  moreover have "\<not> rt_any s q \<Longrightarrow> q' = q" using take
    by (auto simp: rt_take_def rt_any_def list_ex_iff split: option.splits dest: nth_mem simp: position_Some_iff)
  ultimately show "sigq_size p' q' < sigq_size p q" unfolding p' sigq_size_def
    by (cases "rt_any s q") auto
qed

lemma dequeue_signal_for_worker:
  "snd (dequeue_signal_for tid s p) = (case worker p tid of
     None \<Rightarrow> p\<lparr>p_signals := snd (ss_consume_one s (p_signals p))\<rparr>
   | Some t \<Rightarrow>
       if pts_pending (th_signals t) AND sig_bit s \<noteq> 0
       then (case sigq_consume s (pts_pending (th_signals t)) (pts_rt_queue (th_signals t)) of
         (_, pending, q) \<Rightarrow> modify_thread tid (\<lambda>s. s\<lparr>pts_pending := pending, pts_rt_queue := q\<rparr>) p)
       else p\<lparr>p_signals := snd (ss_consume_one s (p_signals p))\<rparr>)"
  by (auto simp: dequeue_signal_for_def worker_def Let_def split: prod.split option.split)

lemma dequeue_signal_for_cases:
  assumes s: "sig_valid s" and pend: "bit (pending_for p tid) (sig_idx s)"
  obtains (thread) t vc P Q where "worker p tid = Some t" "bit (pts_pending (th_signals t)) (sig_idx s)"
      "sigq_consume s (pts_pending (th_signals t)) (pts_rt_queue (th_signals t)) = (vc, P, Q)"
      "snd (dequeue_signal_for tid s p) = modify_thread tid (\<lambda>s. s\<lparr>pts_pending := P, pts_rt_queue := Q\<rparr>) p"
    | (shared) vc P Q where "bit (ss_pending (p_signals p)) (sig_idx s)"
      "sigq_consume s (ss_pending (p_signals p)) (ss_rt_queue (p_signals p)) = (vc, P, Q)"
      "snd (dequeue_signal_for tid s p) = p\<lparr>p_signals := (p_signals p)\<lparr>ss_pending := P, ss_rt_queue := Q\<rparr>\<rparr>"
proof (cases "\<exists>t. worker p tid = Some t \<and> bit (pts_pending (th_signals t)) (sig_idx s)")
  case True
  then obtain t where t: "worker p tid = Some t" "bit (pts_pending (th_signals t)) (sig_idx s)" by blast
  obtain vc P Q where c: "sigq_consume s (pts_pending (th_signals t)) (pts_rt_queue (th_signals t)) = (vc, P, Q)"
    by (metis prod_cases3)
  show thesis by (rule thread [OF t c]) (use t s in \<open>simp add: dequeue_signal_for_worker and_sig_bit c\<close>)
next
  case False
  then have b: "bit (ss_pending (p_signals p)) (sig_idx s)"
    using pend by (auto simp: pending_for_worker bit_or_iff split: option.splits)
  obtain vc P Q where c: "sigq_consume s (ss_pending (p_signals p)) (ss_rt_queue (p_signals p)) = (vc, P, Q)"
    by (metis prod_cases3)
  have nv: "\<not> (s = 0 \<or> 65 \<le> s)" using s by (auto simp: sig_valid_def not_le)
  then have "snd (ss_consume_one s (p_signals p)) = (p_signals p)\<lparr>ss_pending := P, ss_rt_queue := Q\<rparr>"
    by (simp add: ss_consume_one_eq c)
  then show thesis
    using shared [OF b c] False s by (cases "worker p tid") (simp_all add: dequeue_signal_for_worker and_sig_bit)
qed

lemma worker_modify_thread:
  "worker (modify_thread tid f p) tid = map_option (\<lambda>t. t\<lparr>th_signals := f (th_signals t)\<rparr>) (worker p tid)"
  by (simp add: worker_def)

lemma worker_signals: "worker (p\<lparr>p_signals := S\<rparr>) tid = worker p tid"
  by (simp add: worker_def is_main_thread_def get_thread_def)

lemma saved_mask_worker:
  "sigsuspend_saved_mask_for p tid = (if is_main_thread p tid then p_sigsuspend_saved_mask p
     else case worker p tid of None \<Rightarrow> None | Some t \<Rightarrow> pts_sigsuspend_saved_mask (th_signals t))"
  by (auto simp: sigsuspend_saved_mask_for_def worker_def split: option.split)

lemma dequeue_signal_for_less:
  assumes s: "sig_valid s" and pend: "bit (pending_for p tid) (sig_idx s)"
  shows "sig_load (snd (dequeue_signal_for tid s p)) tid < sig_load p tid"
  using assms
proof (cases rule: dequeue_signal_for_cases)
  case (thread t vc P Q)
  then show ?thesis
    using sigq_consume_less(1) [OF s thread(2,3)] by (simp add: sig_load_def worker_modify_thread)
next
  case (shared vc P Q)
  then show ?thesis
    using sigq_consume_less(1) [OF s shared(1,2)] by (simp add: sig_load_def worker_signals)
qed

lemma dequeue_signal_for_frame:
  assumes s: "sig_valid s" and pend: "bit (pending_for p tid) (sig_idx s)"
  defines "p' \<equiv> snd (dequeue_signal_for tid s p)"
  shows "blocked_for p' tid = blocked_for p tid \<and> ss_actions (p_signals p') = ss_actions (p_signals p) \<and>
    is_main_thread p' tid = is_main_thread p tid \<and> p_state p' = p_state p \<and> p_exit_status p' = p_exit_status p \<and>
    sigsuspend_saved_mask_for p' tid = sigsuspend_saved_mask_for p tid"
  using s pend
proof (cases rule: dequeue_signal_for_cases)
  case (thread t vc P Q)
  then show ?thesis by (simp add: p'_def blocked_for_worker saved_mask_worker worker_modify_thread)
next
  case (shared vc P Q)
  then show ?thesis
    by (simp add: p'_def blocked_for_worker saved_mask_worker worker_signals is_main_thread_def split: option.split)
qed

lemma dequeue_signal_for_pending:
  assumes s: "sig_valid s" and pend: "bit (pending_for p tid) (sig_idx s)"
    and "bit (pending_for (snd (dequeue_signal_for tid s p)) tid) i"
  shows "bit (pending_for p tid) i"
  using s pend
proof (cases rule: dequeue_signal_for_cases)
  case (thread t vc P Q)
  then show ?thesis
    using sigq_consume_less(2) [OF s thread(2,3), of i] assms(3) by (auto simp: pending_for_worker worker_modify_thread bit_or_iff)
next
  case (shared vc P Q)
  then show ?thesis
    using sigq_consume_less(2) [OF s shared(1,2), of i] assms(3)
    by (auto simp: pending_for_worker worker_signals bit_or_iff)
qed

lemma lowest_signal_props:
  assumes "d \<noteq> 0"
  shows "sig_valid (lowest_signal d)" "bit d (sig_idx (lowest_signal d))" "\<not> 65 \<le> lowest_signal d"
    "i < sig_idx (lowest_signal d) \<Longrightarrow> \<not> bit d i"
  using next_signal [OF assms] trailing_zeros_props [OF assms] by (simp_all add: lowest_signal_def)

lemma deliverable_pending: "bit (deliverable_for p tid) i \<Longrightarrow> bit (pending_for p tid) i"
  by (simp add: deliverable_for_def Let_def bit_and_iff)

lemma dequeue_signal_for_others:
  assumes s: "sig_valid s" and pend: "bit (pending_for p tid) (sig_idx s)" and i: "i \<noteq> sig_idx s"
  shows "bit (pending_for (snd (dequeue_signal_for tid s p)) tid) i = bit (pending_for p tid) i"
proof -
  have other: "bit P i = bit p i" if "sigq_consume s p q = (vc, P, Q)" for p q vc P Q
    using that i by (auto simp: sigq_consume_def Let_def bit_clear_mask split: prod.splits if_splits)
  from s pend show ?thesis
  proof (cases rule: dequeue_signal_for_cases)
    case (thread t vc P Q)
    then show ?thesis using other [OF thread(3)] by (simp add: pending_for_worker worker_modify_thread bit_or_iff)
  next
    case (shared vc P Q)
    then show ?thesis using other [OF shared(2)] by (simp add: pending_for_worker worker_signals bit_or_iff)
  qed
qed

section \<open>Delivery comes to an end\<close>

text \<open>A deliverable signal whose default action ends the process.\<close>

definition kills :: "Process \<Rightarrow> u32 \<Rightarrow> u32 \<Rightarrow> bool" where
  "kills p tid s \<longleftrightarrow> sig_valid s \<and> bit (deliverable_for p tid) (sig_idx s) \<and>
    sa_handler (ss_get_action (p_signals p) s) = HDefault \<and> default_terminates s"

text \<open>Nothing is left to do in the kernel: the next signal, if any, has a handler.\<close>

definition settled :: "Process \<Rightarrow> u32 \<Rightarrow> bool" where
  "settled p tid \<longleftrightarrow> deliverable_for p tid = 0 \<or>
    (\<exists>h. sa_handler (ss_get_action (p_signals p) (lowest_signal (deliverable_for p tid))) = Handler h)"

text \<open>What delivery keeps: the mask, the actions, and every pending signal that has a handler.\<close>

definition delivery_keeps :: "u32 \<Rightarrow> Process \<Rightarrow> Process \<Rightarrow> bool" where
  "delivery_keeps tid p p' \<longleftrightarrow> blocked_for p' tid = blocked_for p tid \<and> ss_actions (p_signals p') = ss_actions (p_signals p) \<and>
    (\<forall>s h. sig_valid s \<and> sa_handler (ss_get_action (p_signals p) s) = Handler h \<longrightarrow>
      bit (pending_for p' tid) (sig_idx s) = bit (pending_for p tid) (sig_idx s)) \<and>
    (\<forall>i. bit (pending_for p' tid) i \<longrightarrow> bit (pending_for p tid) i)"

lemma ss_get_action_cong: "ss_actions a = ss_actions b \<Longrightarrow> ss_get_action a s = ss_get_action b s"
  by (simp add: ss_get_action_def)

lemma delivery_keepsD:
  assumes "delivery_keeps tid p p'"
  shows "blocked_for p' tid = blocked_for p tid" "ss_actions (p_signals p') = ss_actions (p_signals p)"
    "ss_get_action (p_signals p') s = ss_get_action (p_signals p) s"
    "sig_valid s \<Longrightarrow> sa_handler (ss_get_action (p_signals p) s) = Handler h \<Longrightarrow>
      bit (pending_for p' tid) (sig_idx s) = bit (pending_for p tid) (sig_idx s)"
    "bit (pending_for p' tid) i \<Longrightarrow> bit (pending_for p tid) i"
  using assms unfolding delivery_keeps_def by (blast intro: ss_get_action_cong)+

lemma delivery_keeps_trans:
  assumes 1: "delivery_keeps tid p p'" and 2: "delivery_keeps tid p' p''"
  shows "delivery_keeps tid p p''"
  unfolding delivery_keeps_def
proof (intro conjI allI impI)
  show "blocked_for p'' tid = blocked_for p tid" "ss_actions (p_signals p'') = ss_actions (p_signals p)"
    using delivery_keepsD(1,2) [OF 1] delivery_keepsD(1,2) [OF 2] by simp_all
  show "bit (pending_for p tid) i" if "bit (pending_for p'' tid) i" for i
    using delivery_keepsD(5) [OF 1] delivery_keepsD(5) [OF 2] that by blast
  fix s h
  assume "sig_valid s \<and> sa_handler (ss_get_action (p_signals p) s) = Handler h"
  then show "bit (pending_for p'' tid) (sig_idx s) = bit (pending_for p tid) (sig_idx s)"
    using delivery_keepsD(4) [OF 1, of s h] delivery_keepsD(4) [OF 2, of s h] delivery_keepsD(3) [OF 1, of s] by simp
qed

lemma delivery_keeps_refl: "delivery_keeps tid p p"
  by (simp add: delivery_keeps_def)

lemma delivery_keeps_kills:
  assumes "delivery_keeps tid p p'" "kills p' tid s"
  shows "kills p tid s"
  using assms(2) delivery_keepsD(1,3) [OF assms(1)] delivery_keepsD(5) [OF assms(1), of "sig_idx s"]
  by (simp add: kills_def deliverable_for_def Let_def bit_and_iff)

lemma dequeue_keeps:
  assumes "deliverable_for p tid \<noteq> 0" "s = lowest_signal (deliverable_for p tid)"
    "\<And>h. sa_handler (ss_get_action (p_signals p) s) \<noteq> Handler h"
  shows "delivery_keeps tid p (snd (dequeue_signal_for tid s p))"
proof -
  have s: "sig_valid s" "bit (pending_for p tid) (sig_idx s)"
    using lowest_signal_props [OF assms(1)] assms(2) deliverable_pending by auto
  show ?thesis
    using dequeue_signal_for_frame [OF s] dequeue_signal_for_pending [OF s] dequeue_signal_for_others [OF s] assms(3) s(1)
    unfolding delivery_keeps_def by (metis sig_idx_inj)
qed

lemma default_effect_frame [simp]:
  "blocked_for (default_effect s p) tid = blocked_for p tid" "pending_for (default_effect s p) tid = pending_for p tid"
  "p_signals (default_effect s p) = p_signals p"
  by (simp_all add: default_effect_def exit_by_signal_def blocked_for_def pending_for_def is_main_thread_def get_thread_def
      split: option.split)

lemma delivery_keeps_effect: "delivery_keeps tid p (default_effect s p') = delivery_keeps tid p p'"
  by (simp add: delivery_keeps_def)

lemma default_effect_exited:
  "p_state (default_effect s p) = Exited \<longleftrightarrow> p_state p = Exited \<or> default_terminates s"
  "sig_load (default_effect s p) tid = sig_load p tid"
  by (simp_all add: default_effect_def exit_by_signal_def sig_load_def worker_def is_main_thread_def get_thread_def)

definition act_on :: "u32 \<Rightarrow> Process \<Rightarrow> u32 \<Rightarrow> Process" where
  "act_on tid p s = (if sa_handler (ss_get_action (p_signals p) s) = HDefault
     then default_effect s (snd (dequeue_signal_for tid s p)) else snd (dequeue_signal_for tid s p))"

lemma deliver_stops:
  assumes "is_centralized_mode k" "settled p tid"
  shows "deliver_pending_signals host tid p k = Some (p, k)"
  using assms by (subst deliver_pending_signals.simps) (auto simp: Let_def settled_def)

lemma deliver_step:
  assumes "is_centralized_mode k" "\<not> settled p tid"
  defines "q \<equiv> act_on tid p (lowest_signal (deliverable_for p tid))"
  shows "deliver_pending_signals host tid p k = (if p_state q = Exited then Some (q, k) else deliver_pending_signals host tid q k)"
proof -
  have d: "deliverable_for p tid \<noteq> 0" using assms(2) by (simp add: settled_def)
  show ?thesis
    using assms(1,2) d lowest_signal_props(3) [OF d]
    by (subst deliver_pending_signals.simps, cases "sa_handler (ss_get_action (p_signals p) (lowest_signal (deliverable_for p tid)))")
      (simp_all add: Let_def settled_def q_def act_on_def)
qed

lemma act_on_props:
  assumes ns: "\<not> settled p tid" and live: "p_state p \<noteq> Exited"
  defines "s \<equiv> lowest_signal (deliverable_for p tid)"
  shows "delivery_keeps tid p (act_on tid p s)" "sig_load (act_on tid p s) tid < sig_load p tid"
    "p_state (act_on tid p s) = Exited \<Longrightarrow> kills p tid s \<and> p_exit_status (act_on tid p s) = 128 + s"
proof -
  have d: "deliverable_for p tid \<noteq> 0" and h: "\<And>h. sa_handler (ss_get_action (p_signals p) s) \<noteq> Handler h"
    using ns by (auto simp: settled_def s_def)
  note v = lowest_signal_props [OF d, folded s_def] and pend = deliverable_pending [OF lowest_signal_props(2) [OF d], folded s_def]
  show "delivery_keeps tid p (act_on tid p s)"
    using dequeue_keeps [OF d s_def [THEN meta_eq_to_obj_eq] h] by (simp add: act_on_def delivery_keeps_effect)
  show "sig_load (act_on tid p s) tid < sig_load p tid"
    using dequeue_signal_for_less [OF v(1) pend] by (simp add: act_on_def default_effect_exited)
  assume "p_state (act_on tid p s) = Exited"
  then have "sa_handler (ss_get_action (p_signals p) s) = HDefault" "default_terminates s"
    using dequeue_signal_for_frame [OF v(1) pend] live by (auto simp: act_on_def default_effect_exited split: if_splits)
  then show "kills p tid s \<and> p_exit_status (act_on tid p s) = 128 + s"
    using v by (simp add: kills_def act_on_def default_effect_def exit_by_signal_def)
qed

lemma deliver_total:
  assumes "is_centralized_mode k" "p_state p \<noteq> Exited"
  shows "\<exists>p'. deliver_pending_signals host tid p k = Some (p', k) \<and> delivery_keeps tid p p' \<and>
    (if p_state p' = Exited then \<exists>s. kills p tid s \<and> p_exit_status p' = 128 + s else settled p' tid)"
  using assms(2)
proof (induction "sig_load p tid" arbitrary: p rule: less_induct)
  case less
  show ?case
  proof (cases "settled p tid")
    case True
    then show ?thesis using deliver_stops [OF assms(1) True] less.prems delivery_keeps_refl by auto
  next
    case False
    define q where "q = act_on tid p (lowest_signal (deliverable_for p tid))"
    note q = act_on_props [OF False less.prems, folded q_def] and run = deliver_step [OF assms(1) False, folded q_def]
    show ?thesis
    proof (cases "p_state q = Exited")
      case True
      then show ?thesis using q(1,3) run by auto
    next
      case live: False
      from less.hyps [OF q(2) live] obtain p' where p': "deliver_pending_signals host tid q k = Some (p', k)"
        "delivery_keeps tid q p'"
        "if p_state p' = Exited then \<exists>s. kills q tid s \<and> p_exit_status p' = 128 + s else settled p' tid" by blast
      show ?thesis
        using p' run live delivery_keeps_trans [OF q(1) p'(2)] delivery_keeps_kills [OF q(1)] by (auto split: if_splits)
    qed
  qed
qed

text \<open>
  C8: delivery at the end of a system call comes to an end and does what the dispositions say. In the
  centralised mode it returns for every live process. Afterwards the process has exited, or the next
  deliverable signal has a handler, or there is none. The process exits only through a deliverable signal
  whose action is the default one and ends the process, with that signal in the exit status. The mask, the
  actions and every pending signal with a handler are kept.
\<close>

theorem delivery_settles:
  assumes "is_centralized_mode k" "p_state p \<noteq> Exited"
  shows "\<exists>p'. deliver_pending_signals host tid p k = Some (p', k) \<and> delivery_keeps tid p p' \<and>
    (if p_state p' = Exited then \<exists>s. kills p tid s \<and> p_exit_status p' = 128 + s else settled p' tid)"
  using deliver_total [OF assms] .

theorem delivery_settles_witness:
  "\<exists>p'. deliver_pending_signals quiet_host 0 (raise_signal 15 (process_new 3)) kernel_new = Some (p', kernel_new) \<and>
    (if p_state p' = Exited then \<exists>s. kills (raise_signal 15 (process_new 3)) 0 s \<and> p_exit_status p' = 128 + s else settled p' 0)"
proof -
  have "is_centralized_mode kernel_new" "p_state (raise_signal 15 (process_new 3)) \<noteq> Exited"
    by (simp_all add: is_centralized_mode_def kernel_new_def raise_signal_def process_new_def Let_def case_prod_unfold)
  then show ?thesis using delivery_settles [of kernel_new "raise_signal 15 (process_new 3)" quiet_host 0] by blast
qed

section \<open>Running a handler\<close>

lemma blocked_for_set [simp]: "blocked_for (snd (set_blocked_for tid m p)) tid = m"
  by (auto simp: set_blocked_for_def blocked_for_def set_process_blocked_def is_main_thread_def get_thread_def
      split: option.splits) (auto simp flip: get_thread_def)

lemma set_blocked_frame [simp]:
  "sigsuspend_saved_mask_for (snd (set_blocked_for tid m p)) tid = sigsuspend_saved_mask_for p tid"
  "is_main_thread (snd (set_blocked_for tid m p)) t = is_main_thread p t"
  "pending_for (snd (set_blocked_for tid m p)) tid = pending_for p tid"
  "ss_actions (p_signals (snd (set_blocked_for tid m p))) = ss_actions (p_signals p)"
  by (auto simp: set_blocked_for_def set_process_blocked_def saved_mask_worker pending_for_worker worker_modify_thread
      worker_signals is_main_thread_def split: option.split)

lemma take_saved_mask:
  "fst (take_sigsuspend_saved_mask_for tid p) = sigsuspend_saved_mask_for p tid"
  "sigsuspend_saved_mask_for (snd (take_sigsuspend_saved_mask_for tid p)) tid = None"
  "blocked_for (snd (take_sigsuspend_saved_mask_for tid p)) tid = blocked_for p tid"
  by (auto simp: take_sigsuspend_saved_mask_for_def sigsuspend_saved_mask_for_def blocked_for_def is_main_thread_def
      get_thread_def split: option.splits) (auto simp flip: get_thread_def split: option.splits Option.bind_splits)

text \<open>The mask to return to: the one from before a \<open>sigsuspend\<close> that the signal interrupts.\<close>

definition return_mask :: "Process \<Rightarrow> u32 \<Rightarrow> u64" where
  "return_mask p tid = (case sigsuspend_saved_mask_for p tid of None \<Rightarrow> blocked_for p tid | Some m \<Rightarrow> m)"

lemma signal_info_fields:
  "from_le (take 4 (signal_info s idx flags v old c p alt)) = s"
  "from_le (take 8 (drop 16 (signal_info s idx flags v old c p alt))) = old"
  by (simp_all add: signal_info_def)

lemma enter_handler_props:
  assumes "sig_valid s" "bit (pending_for p tid) (sig_idx s)" "enter_handler tid s action p = (info, p')"
  shows "from_le (take 4 info) = s" "from_le (take 8 (drop 16 info)) = return_mask p tid"
    "blocked_for p' tid = return_mask p tid OR sa_mask action OR sig_bit s" "sigsuspend_saved_mask_for p' tid = None"
proof -
  obtain x v c q where q: "dequeue_signal_for tid s p = ((x, v, c), q)" by (metis prod.collapse)
  obtain m r where r: "take_sigsuspend_saved_mask_for tid q = (m, r)" by fastforce
  let ?r = "case m of None \<Rightarrow> r | Some m \<Rightarrow> snd (set_blocked_for tid m r)"
  have qp: "sigsuspend_saved_mask_for q tid = sigsuspend_saved_mask_for p tid" "blocked_for q tid = blocked_for p tid"
    using dequeue_signal_for_frame [OF assms(1,2)] q by simp_all
  have old: "blocked_for ?r tid = return_mask p tid" "sigsuspend_saved_mask_for ?r tid = None"
    using take_saved_mask [of tid q] r qp by (auto simp: return_mask_def split: option.split)
  let ?u = "snd (set_blocked_for tid (return_mask p tid OR sa_mask action OR sig_bit s) ?r)"
  let ?w = "?u\<lparr>p_alt_stack_depth := p_alt_stack_depth ?u + 1, p_alt_stack_flags := p_alt_stack_flags ?u OR SS_ONSTACK\<rparr>"
  have p': "p' = ?u \<or> p' = ?w" and info: "\<exists>pp alt. info = signal_info s (u32_of_handler (sa_handler action)) (sa_flags action) v (return_mask p tid) c pp alt"
    using assms(3) by (auto simp: enter_handler_def q r old Let_def split: if_splits)
  from info show "from_le (take 4 info) = s" "from_le (take 8 (drop 16 info)) = return_mask p tid"
    by (auto simp: signal_info_fields)
  have "blocked_for ?w tid = blocked_for ?u tid" "sigsuspend_saved_mask_for ?w tid = sigsuspend_saved_mask_for ?u tid"
    by (simp_all add: blocked_for_def sigsuspend_saved_mask_for_def is_main_thread_def get_thread_def split: option.split)
  with p' old(2) show "blocked_for p' tid = return_mask p tid OR sa_mask action OR sig_bit s" "sigsuspend_saved_mask_for p' tid = None"
    by auto
qed

text \<open>What is known about the result of a dequeue.\<close>

definition dequeue_result :: "u32 \<Rightarrow> Process \<Rightarrow> (i32 \<times> bytes) \<times> Process \<Rightarrow> bool" where
  "dequeue_result tid p = (\<lambda>((r, info), p').
     if r = 0 then p_state p' = Exited \<and> (\<exists>s. kills p tid s \<and> p_exit_status p' = 128 + s) \<or> deliverable_for p' tid = 0
     else sig_valid r \<and> bit (deliverable_for p tid) (sig_idx r) \<and>
       (\<exists>h. sa_handler (ss_get_action (p_signals p) r) = Handler h) \<and>
       from_le (take 4 info) = r \<and> from_le (take 8 (drop 16 info)) = return_mask p tid \<and>
       blocked_for p' tid = return_mask p tid OR sa_mask (ss_get_action (p_signals p) r) OR sig_bit r \<and>
       sigsuspend_saved_mask_for p' tid = None)"

lemma dequeue_result_later:
  assumes "delivery_keeps tid p q" "sigsuspend_saved_mask_for q tid = sigsuspend_saved_mask_for p tid" "dequeue_result tid q x"
  shows "dequeue_result tid p x"
proof -
  note keeps = delivery_keepsD [OF assms(1)]
  have "bit (deliverable_for q tid) i \<Longrightarrow> bit (deliverable_for p tid) i" for i
    using keeps(1,5) by (auto simp: deliverable_for_def Let_def bit_and_iff)
  moreover have "return_mask q tid = return_mask p tid" using keeps(1) assms(2) by (simp add: return_mask_def cong: option.case_cong)
  ultimately show ?thesis
    using assms(3) keeps(3) delivery_keeps_kills [OF assms(1)] unfolding dequeue_result_def
    by (auto split: prod.splits if_splits)
qed

lemma kernel_dequeue_eq:
  assumes "deliverable_for p tid \<noteq> 0" "s = lowest_signal (deliverable_for p tid)" "q = snd (dequeue_signal_for tid s p)"
  shows "sa_handler (ss_get_action (p_signals p) s) = HDefault \<Longrightarrow> kernel_dequeue_signal tid p =
      (if default_terminates s then Some ((0, []), exit_by_signal s (clear_saved_masks q)) else kernel_dequeue_signal tid q)"
    "sa_handler (ss_get_action (p_signals p) s) = HIgnore \<Longrightarrow> kernel_dequeue_signal tid p = kernel_dequeue_signal tid q"
    "sa_handler (ss_get_action (p_signals p) s) = Handler h \<Longrightarrow> kernel_dequeue_signal tid p =
      (case enter_handler tid s (ss_get_action (p_signals p) s) p of (info, p') \<Rightarrow> Some ((s, info), p'))"
  using assms(1) lowest_signal_props(3) [OF assms(1)]
  by (subst kernel_dequeue_signal.simps; simp add: Let_def assms(2,3))+

lemma kernel_dequeue_total:
  "\<exists>x. kernel_dequeue_signal tid p = Some x \<and> dequeue_result tid p x"
proof (induction "sig_load p tid" arbitrary: p rule: less_induct)
  case less
  define s where "s = lowest_signal (deliverable_for p tid)"
  define q where "q = snd (dequeue_signal_for tid s p)"
  show ?case
  proof (cases "deliverable_for p tid = 0")
    case True
    then show ?thesis by (subst kernel_dequeue_signal.simps) (simp add: Let_def dequeue_result_def)
  next
    case d: False
    note v = lowest_signal_props [OF d, folded s_def] and run = kernel_dequeue_eq [OF d s_def q_def]
    note pend = deliverable_pending [OF v(2)]
    have later: "\<exists>x. kernel_dequeue_signal tid q = Some x \<and> dequeue_result tid p x"
      if "\<And>h. sa_handler (ss_get_action (p_signals p) s) \<noteq> Handler h"
      using less.hyps [OF dequeue_signal_for_less [OF v(1) pend, folded q_def]] dequeue_signal_for_frame [OF v(1) pend, folded q_def]
        dequeue_result_later [OF dequeue_keeps [OF d s_def that, folded q_def]] by blast
    show ?thesis
    proof (cases "sa_handler (ss_get_action (p_signals p) s)")
      case HDefault
      then have "default_terminates s \<Longrightarrow> dequeue_result tid p ((0, []), exit_by_signal s (clear_saved_masks q))"
        using v by (auto simp: dequeue_result_def exit_by_signal_def kills_def)
      with run(1) [OF HDefault] later HDefault show ?thesis by (cases "default_terminates s") auto
    next
      case HIgnore
      then show ?thesis using run(2) later by simp
    next
      case (Handler h)
      obtain info p' where e: "enter_handler tid s (ss_get_action (p_signals p) s) p = (info, p')" by fastforce
      then have "dequeue_result tid p ((s, info), p')"
        using enter_handler_props [OF v(1) pend e] v Handler by (auto simp: dequeue_result_def sig_valid_def)
      with run(3) [OF Handler] e show ?thesis by simp
    qed
  qed
qed

text \<open>
  C18: taking the next signal for a handler always returns, and gives the handler the right mask. Either
  there is no deliverable signal left, or the process has exited by a deliverable signal whose default
  action ends it, or the result is a deliverable signal that has a handler. In that case the record for the
  program holds the number of the signal and the mask to return to, which is the mask from before
  \<open>sigsuspend\<close>, \<open>ppoll\<close> or \<open>pselect\<close> if the signal interrupts such a call; the handler runs with that mask,
  the mask of the action and the signal itself blocked; and the saved mask is used up.
\<close>

theorem dequeue_returns:
  "\<exists>x. kernel_dequeue_signal tid p = Some x \<and> dequeue_result tid p x"
  by (rule kernel_dequeue_total)

section \<open>Suspending\<close>

lemma raise_signal_frame [simp]:
  "blocked_for (raise_signal s p) tid = blocked_for p tid" "is_main_thread (raise_signal s p) tid = is_main_thread p tid"
  "sigsuspend_saved_mask_for (raise_signal s p) tid = sigsuspend_saved_mask_for p tid"
proof -
  have "ss_blocked (snd (ss_raise s (p_signals p))) = ss_blocked (p_signals p)"
    by (simp add: ss_raise_def ss_raise_internal_def split: prod.split)
  then show "blocked_for (raise_signal s p) tid = blocked_for p tid" "is_main_thread (raise_signal s p) tid = is_main_thread p tid"
      "sigsuspend_saved_mask_for (raise_signal s p) tid = sigsuspend_saved_mask_for p tid"
    by (simp_all add: raise_signal_def blocked_for_worker saved_mask_worker worker_signals is_main_thread_def cong: option.case_cong)
qed

lemma fold_raise_frame:
  "blocked_for (fold raise_signal ss p) tid = blocked_for p tid"
  "sigsuspend_saved_mask_for (fold raise_signal ss p) tid = sigsuspend_saved_mask_for p tid"
  by (induction ss arbitrary: p) simp_all

lemma set_saved_mask:
  assumes "is_main_thread p tid \<or> get_thread p tid \<noteq> None"
  shows "sigsuspend_saved_mask_for (set_sigsuspend_saved_mask_for tid (Some m) p) tid = Some m"
  using assms by (auto simp: set_sigsuspend_saved_mask_for_def sigsuspend_saved_mask_for_def is_main_thread_def)

text \<open>
  C17: \<open>sigsuspend\<close> replaces the mask for its duration only. In the centralised mode the call is made again
  and again until a signal is there. The first call installs the new mask, without \<open>SIGKILL\<close> and \<open>SIGSTOP\<close>.
  After any signals, possibly none, have been raised, a repeated call changes nothing and returns \<open>EINTR\<close> if a
  signal is pending that this mask does not block, and \<open>EAGAIN\<close> otherwise; the first call answers by the same
  rule. A signal that is then taken for its handler is not blocked by the temporary mask, and the handler
  returns to the mask from before the first call.
\<close>

theorem sigsuspend_returns_to_mask:
  assumes "is_centralized_mode k" "is_main_thread p tid \<or> get_thread p tid \<noteq> None"
    and "sigsuspend_saved_mask_for p tid = None"
    and "sys_sigsuspend host tid m p k = Some (r, p1, k1)"
    and "q = fold raise_signal sigs p1"
  defines "tmp \<equiv> m AND NOT sig_guard"
  shows "r = (if pending_for p1 tid AND NOT tmp \<noteq> 0 then Err EINTR else Err EAGAIN) \<and> blocked_for q tid = tmp \<and>
    sys_sigsuspend host tid m' q k = Some (if pending_for q tid AND NOT tmp \<noteq> 0 then Err EINTR else Err EAGAIN, q, k) \<and>
    (\<forall>sig info p2. kernel_dequeue_signal tid q = Some ((sig, info), p2) \<and> sig \<noteq> 0 \<longrightarrow>
      \<not> bit tmp (sig_idx sig) \<and> from_le (take 8 (drop 16 info)) = blocked_for p tid \<and>
      blocked_for p2 tid = blocked_for p tid OR sa_mask (ss_get_action (p_signals q) sig) OR sig_bit sig \<and>
      sigsuspend_saved_mask_for p2 tid = None)"
proof -
  let ?s = "set_sigsuspend_saved_mask_for tid (Some (blocked_for p tid)) p"
  have p1: "p1 = snd (set_blocked_for tid tmp ?s)" and r: "r = (if deliverable_for p1 tid \<noteq> 0 then Err EINTR else Err EAGAIN)"
    using assms(1,3,4) by (auto simp: sys_sigsuspend_def Let_def tmp_def)
  have q: "blocked_for q tid = tmp" "sigsuspend_saved_mask_for q tid = Some (blocked_for p tid)" "blocked_for p1 tid = tmp"
    using set_saved_mask [OF assms(2)] by (simp_all add: assms(5) p1 fold_raise_frame)
  then have ret: "return_mask q tid = blocked_for p tid" by (simp add: return_mask_def)
  have d: "deliverable_for q tid = pending_for q tid AND NOT tmp" "deliverable_for p1 tid = pending_for p1 tid AND NOT tmp"
    using q by (simp_all add: deliverable_for_def Let_def)
  have "\<not> bit tmp (sig_idx sig) \<and> from_le (take 8 (drop 16 info)) = blocked_for p tid \<and>
      blocked_for p2 tid = blocked_for p tid OR sa_mask (ss_get_action (p_signals q) sig) OR sig_bit sig \<and>
      sigsuspend_saved_mask_for p2 tid = None"
    if deq: "kernel_dequeue_signal tid q = Some ((sig, info), p2)" "sig \<noteq> 0" for sig info p2
  proof -
    have res: "dequeue_result tid q ((sig, info), p2)"
      using kernel_dequeue_total [of tid q] deq(1) by auto
    then have "bit (deliverable_for q tid) (sig_idx sig)" using deq(2) by (simp add: dequeue_result_def)
    then have "\<not> bit tmp (sig_idx sig)" by (simp add: d bit_and_iff bit_not_iff)
    with res deq(2) q ret show ?thesis by (simp add: dequeue_result_def)
  qed
  moreover have "sys_sigsuspend host tid m' q k = Some (if deliverable_for q tid \<noteq> 0 then Err EINTR else Err EAGAIN, q, k)"
    using assms(1) q(2) by (simp add: sys_sigsuspend_def Let_def)
  ultimately show ?thesis using q(1) r unfolding d by blast
qed

text \<open>A process that handles signal 10.\<close>

definition handling :: Process where
  "handling = snd (sys_sigaction 10 77 0 0 (process_new 3))"

lemma lowest_signal_bit: "sig_valid s \<Longrightarrow> lowest_signal (sig_bit s) = s"
  using deliverable_next_unique(2) [of "sig_bit s" s] by (simp add: lowest_signal_def deliverable_next_def bit_sig_bit)

lemma handling_facts:
  "p_sigsuspend_saved_mask handling = None" "p_pid handling = 3"
  "ss_blocked (p_signals handling) = 0" "ss_pending (p_signals handling) = 0"
  "ss_get_action (p_signals handling) 10 = \<lparr>sa_handler = Handler 77, sa_flags = 0, sa_mask = 0\<rparr>"
  by (simp_all add: handling_def sys_sigaction_def process_new_def Let_def case_prod_unfold ss_set_action_def ss_new_def
      handler_of_u32_def should_discard_pending_def ss_get_action_def)

theorem sigsuspend_returns_to_mask_witness:
  "\<exists>r p1 info p2. sys_sigsuspend quiet_host 0 0 handling kernel_new = Some (r, p1, kernel_new) \<and>
    sys_sigsuspend quiet_host 0 0 p1 kernel_new = Some (Err EAGAIN, p1, kernel_new) \<and>
    kernel_dequeue_signal 0 (raise_signal 10 p1) = Some ((10, info), p2) \<and>
    from_le (take 8 (drop 16 info)) = blocked_for handling 0"
proof -
  have mode: "is_centralized_mode kernel_new" by (simp add: is_centralized_mode_def kernel_new_def)
  have main: "is_main_thread p 0" for p by (simp add: is_main_thread_def)
  define p1 where "p1 = snd (set_blocked_for 0 0 (set_sigsuspend_saved_mask_for 0 (Some 0) handling))"
  have run: "sys_sigsuspend quiet_host 0 0 handling kernel_new =
      Some (if deliverable_for p1 0 \<noteq> 0 then Err EINTR else Err EAGAIN, p1, kernel_new)"
    using mode main by (simp add: sys_sigsuspend_def Let_def sigsuspend_saved_mask_for_def handling_facts blocked_for_def p1_def)
  let ?q = "raise_signal 10 p1"
  have sig: "p_signals p1 = (p_signals handling)\<lparr>ss_blocked := 0\<rparr>"
    using main by (simp add: p1_def set_blocked_for_def set_sigsuspend_saved_mask_for_def set_process_blocked_def)
  have d: "deliverable_for ?q 0 = sig_bit 10"
    using main by (simp add: deliverable_for_def pending_for_def blocked_for_def raise_signal_def ss_raise_def ss_raise_internal_def
        sigq_raise_def Let_def sig handling_facts)
  have act: "ss_get_action (p_signals ?q) 10 = \<lparr>sa_handler = Handler 77, sa_flags = 0, sa_mask = 0\<rparr>"
    using handling_facts(5) by (simp add: raise_signal_def ss_raise_def ss_raise_internal_def sigq_raise_def Let_def sig ss_get_action_def)
  have "sig_valid 10" by (simp add: sig_valid_def)
  then have "lowest_signal (deliverable_for ?q 0) = 10" unfolding d by (rule lowest_signal_bit)
  moreover have "deliverable_for ?q 0 \<noteq> 0" using d by (simp add: sig_bit_def)
  ultimately have "\<exists>info p2. kernel_dequeue_signal 0 ?q = Some ((10, info), p2)"
    using kernel_dequeue_eq(3) [of ?q 0 10 _ 77, OF _ _ refl] act by (simp split: prod.splits)
  then obtain info p2 where deq: "kernel_dequeue_signal 0 ?q = Some ((10, info), p2)" by blast
  have q: "?q = fold raise_signal [10] p1" "p1 = fold raise_signal [] p1" by simp_all
  have saved: "is_main_thread handling 0 \<or> get_thread handling 0 \<noteq> None" "sigsuspend_saved_mask_for handling 0 = None"
    using main by (simp_all add: sigsuspend_saved_mask_for_def handling_facts)
  have "pending_for p1 0 = 0" using main by (simp add: pending_for_def sig handling_facts)
  then show ?thesis
    using sigsuspend_returns_to_mask [OF mode saved run q(1)] sigsuspend_returns_to_mask [OF mode saved run q(2), of 0] run deq
    by auto
qed

section \<open>Permission to send a signal\<close>

lemma deliver_to_frame:
  assumes "deliver_to host pid (t, k) = Some (t', k')" "q \<noteq> pid"
  shows "pr_get t' q = pr_get t q"
  using assms by (auto simp: deliver_to_def pr_get_def pr_insert_def split: option.splits)

text \<open>
  C19: a process may not signal a process of another user. In the centralised mode, when a process whose
  real and effective user are not root and differ from both users of the target sends a signal to the target,
  the call fails with \<open>EPERM\<close> and no process but the caller itself is changed.
\<close>

theorem kill_needs_permission:
  assumes "is_centralized_mode k" "0 < sint pid" "\<not> is_local pid p" "sig < NSIG"
    and "pr_get (ensure_init t) (pr_current_pid t) = Some p" "p_state p \<noteq> Exited"
    and "pr_get (ensure_init t) pid = Some target"
    and "\<not> can_signal (p_uid p) (p_euid p) (p_uid target) (p_euid target)"
  shows "\<exists>t'. kernel_kill_with_value host pid sig v p (t, k) = Some (Err EPERM, t', k) \<and>
    (\<forall>q. q \<noteq> pr_current_pid t \<longrightarrow> pr_get t' q = pr_get (ensure_init t) q)"
proof -
  have cur: "pr_current_pid (ensure_init t) = pr_current_pid t"
    by (simp add: ensure_init_def pr_insert_def Let_def)
  obtain p' where "deliver_pending_signals host (pr_current_tid (ensure_init t)) p k = Some (p', k)"
    using deliver_total [OF assms(1,6)] by blast
  then have "deliver_to host (pr_current_pid t) (ensure_init t, k) = Some (pr_insert (pr_current_pid t) p' (ensure_init t), k)"
    using assms(5) by (simp add: deliver_to_def)
  moreover have "kernel_kill_with_value host pid sig v p (t, k) = with_delivery host (Err EPERM) (ensure_init t, k)"
    using assms(1-4,7,8) by (auto simp: kernel_kill_with_value_def signal_one_def)
  ultimately show ?thesis by (auto simp: with_delivery_def cur pr_get_def pr_insert_def)
qed

definition user_process :: "u32 \<Rightarrow> u32 \<Rightarrow> Process" where
  "user_process pid uid = (process_new pid)\<lparr>p_uid := uid, p_euid := uid\<rparr>"

definition two_users :: ProcessTable where
  "two_users = (pr_insert 3 (user_process 3 5) (pr_insert 4 (user_process 4 6) pr_new))\<lparr>pr_current_pid := 3\<rparr>"

theorem kill_needs_permission_witness:
  "\<exists>t'. kernel_kill_with_value quiet_host 4 9 0 (user_process 3 5) (two_users, kernel_new) = Some (Err EPERM, t', kernel_new) \<and>
    pr_get t' 4 = Some (user_process 4 6)"
proof -
  have t: "pr_get (ensure_init two_users) 3 = Some (user_process 3 5)" "pr_get (ensure_init two_users) 4 = Some (user_process 4 6)"
      "pr_current_pid two_users = 3"
    by (simp_all add: two_users_def ensure_init_def pr_insert_def pr_get_def pr_new_def Let_def bt_contains_def)
  have p: "p_pid (user_process a b) = a" "p_uid (user_process a b) = b" "p_euid (user_process a b) = b" "p_pgid (user_process a b) = a"
      "p_state (user_process a b) \<noteq> Exited" for a b
    by (simp_all add: user_process_def process_new_def Let_def case_prod_unfold)
  have "is_centralized_mode kernel_new" by (simp add: is_centralized_mode_def kernel_new_def)
  moreover have "\<not> is_local 4 (user_process 3 5)" "\<not> can_signal 5 5 6 6" by (simp_all add: is_local_def p can_signal_def)
  ultimately show ?thesis
    using kill_needs_permission [of kernel_new 4 "user_process 3 5" 9 two_users "user_process 4 6" quiet_host 0] t p by auto
qed

end
