(* ===== verification/Events_Correct.thy ===== *)
theory Events_Correct
  imports Events Io_Correct Sig_Correct
begin

text \<open>
  Waiting is correct: \<open>poll\<close> says of a descriptor what a read would find, a wait with a timeout comes to
  an end, and the interest list of \<open>epoll\<close> is a map. A timer is the exception: it is never reported.
\<close>

section \<open>Readiness agrees with reading\<close>

text \<open>The object behind a description exists, and reading it may find nothing.\<close>

definition waits_for_input :: "OpenFileDesc \<Rightarrow> Process \<Rightarrow> Kernel \<Rightarrow> bool" where
  "waits_for_input d p k = (let i = kernel_idx (ofd_host_handle d) in
     case ofd_file_type d of
       Pipe \<Rightarrow> is_kernel_pipe d \<and> (case pt_get (k_pipes k) i of None \<Rightarrow> False | Some b \<Rightarrow> pb_wf b)
     | EventFd \<Rightarrow> slot_get (p_eventfds p) i \<noteq> None
     | SignalFd \<Rightarrow> slot_get (p_signalfds p) i \<noteq> None
     | PtyMaster \<Rightarrow> get_pty (k_ptys k) (unat (ofd_host_handle d)) \<noteq> None
     | PtySlave \<Rightarrow> get_pty (k_ptys k) (unat (ofd_host_handle d)) \<noteq> None
     | _ \<Rightarrow> False)"

definition readable_fd :: "i32 \<Rightarrow> Process \<Rightarrow> Kernel \<Rightarrow> bool" where
  "readable_fd fd p k \<longleftrightarrow> 0 \<le> sint fd \<and> (case fdt_get (p_fd_table p) fd of
     Inl _ \<Rightarrow> False
   | Inr e \<Rightarrow> (case ofdt_get (p_ofd_table p) (ofd_ref e) of
       None \<Rightarrow> False
     | Some d \<Rightarrow> ofd_status_flags d AND O_ACCMODE \<noteq> O_WRONLY \<and> waits_for_input d p k))"

lemma readable_fdE:
  assumes "readable_fd fd p k"
  obtains e d where "0 \<le> sint fd" "fdt_get (p_fd_table p) fd = Ok e" "ofdt_get (p_ofd_table p) (ofd_ref e) = Some d"
    "ofd_status_flags d AND O_ACCMODE \<noteq> O_WRONLY" "waits_for_input d p k"
  using assms by (auto simp: readable_fd_def split: sum.splits option.splits)

lemma read_pty_again:
  assumes "get_pty (k_ptys k) (unat h) = Some pty" "buf \<noteq> []" "no_wait flags k"
  shows "fst (fst (read_pty master h flags buf p k)) = Err EAGAIN \<longleftrightarrow>
    (if master then pty_slave_refs pty \<noteq> 0 \<and> \<not> master_has_data pty else pty_master_refs pty \<noteq> 0 \<and> \<not> slave_has_data pty)"
  using assms
  by (auto simp: read_pty_def master_read_def slave_read_def master_has_data_def slave_has_data_def has_cooked_data_def
      read_cooked_def no_wait_def is_centralized_mode_def Let_def min_def split: prod.splits if_splits)

lemma event_in [simp]: "event POLLIN POLLIN b = (if b then POLLIN else 0)" "event POLLIN POLLOUT b = 0"
  by (simp_all add: event_def)

lemma pipe_readiness:
  assumes "pb_wf b" "buf \<noteq> []" "pt_get (k_pipes k) i = Some b"
  shows "\<exists>r p' k'. pipe_try_read True i buf p k = (r, p', k') \<and> (r = None \<longleftrightarrow> pb_available b = 0 \<and> pb_is_write_end_open b) \<and>
    (\<forall>x. r = Some x \<longrightarrow> fst x \<noteq> Err EAGAIN)"
proof -
  obtain n buf' b' wk where r: "pb_read buf b (k_wakeup k) = (n, buf', b', wk)" by (metis prod_cases4)
  have ends: "pb_is_write_end_open b' = pb_is_write_end_open b"
    using r by (auto simp: pb_read_def Let_def pb_is_write_end_open_def split: if_splits)
  have "n = min (length buf) (pb_available b)"
    using r by (auto simp: pb_read_def Let_def pb_available_def split: if_splits)
  with assms(2) ends show ?thesis by (simp add: pipe_try_read_def pipe_lookup_def assms(3) r pipe_store_def)
qed

text \<open>
  C10: \<open>poll\<close> and \<open>read\<close> agree. In the centralised mode, for a descriptor of a kernel pipe, an event counter,
  a signal descriptor or either side of a terminal pair that is open for reading, \<open>poll\<close> for input reports
  something exactly when a read into a buffer of at least 128 bytes would not answer \<open>EAGAIN\<close>. So a
  program that waits for readiness never misses data or the end of the stream, and never spins.
\<close>

theorem poll_agrees_with_read:
  assumes mode: "is_centralized_mode k" and fd: "readable_fd fd p k" and buf: "128 \<le> length buf"
  shows "\<exists>r buf' p' k'. sys_read host fd buf p k = Some ((r, buf'), p', k') \<and>
    (pf_revents (poll_one p k \<lparr>pf_fd = fd, pf_events = POLLIN, pf_revents = 0\<rparr>) \<noteq> 0 \<longleftrightarrow> r \<noteq> Err EAGAIN)"
proof -
  obtain e d where e: "0 \<le> sint fd" "fdt_get (p_fd_table p) fd = Ok e" "ofdt_get (p_ofd_table p) (ofd_ref e) = Some d"
    "ofd_status_flags d AND O_ACCMODE \<noteq> O_WRONLY" "waits_for_input d p k"
    using readable_fdE [OF fd] .
  let ?i = "kernel_idx (ofd_host_handle d)"
  have nw: "no_wait (ofd_status_flags d) k" using mode by (simp add: no_wait_def)
  note wait = try_or_wait_returns [OF _ nw]
  have poll: "pf_revents (poll_one p k \<lparr>pf_fd = fd, pf_events = POLLIN, pf_revents = 0\<rparr>) = poll_revents POLLIN d p k"
    using e by (simp add: poll_one_def)
  consider (pipe) "ofd_file_type d = Pipe" | (ev) "ofd_file_type d = EventFd" | (sig) "ofd_file_type d = SignalFd"
    | (pty) "ofd_file_type d = PtyMaster \<or> ofd_file_type d = PtySlave"
    using e(5) by (cases "ofd_file_type d") (auto simp: waits_for_input_def Let_def)
  then show ?thesis
  proof cases
    case pipe
    then obtain b where b: "is_kernel_pipe d" "pt_get (k_pipes k) ?i = Some b" "pb_wf b"
      using e(5) by (auto simp: waits_for_input_def split: option.splits)
    have "buf \<noteq> []" using buf by auto
    from pipe_readiness [OF b(3) this b(2)] obtain r p' k' where r: "pipe_try_read True ?i buf p k = (r, p', k')"
      "r = None \<longleftrightarrow> pb_available b = 0 \<and> pb_is_write_end_open b" "\<forall>x. r = Some x \<longrightarrow> fst x \<noteq> Err EAGAIN" by blast
    show ?thesis
      using e pipe b r mode poll
      by (cases r) (auto simp: sys_read_def is_kernel_pipe_def wait [OF keeps_mode_attempts(1)] poll_revents_def pipe_lookup_def)
  next
    case ev
    then obtain v where v: "slot_get (p_eventfds p) ?i = Some v" using e(5) by (auto simp: waits_for_input_def)
    have "sys_read host fd buf p k = Some (case eventfd_try_read ?i buf p k of
        (r, p, k) \<Rightarrow> (case r of None \<Rightarrow> (Err EAGAIN, buf) | Some r \<Rightarrow> r, p, k))"
      using e ev buf by (simp add: sys_read_def wait [OF keeps_mode_attempts(3)])
    then show ?thesis
      using ev v poll by (simp add: poll_revents_def eventfd_try_read_def Let_def word_neq_0_conv)
  next
    case sig
    then obtain v where v: "slot_get (p_signalfds p) ?i = Some v" using e(5) by (auto simp: waits_for_input_def)
    have "sys_read host fd buf p k = Some (case signalfd_try_read ?i buf p k of
        (r, p, k) \<Rightarrow> (case r of None \<Rightarrow> (Err EAGAIN, buf) | Some r \<Rightarrow> r, p, k))"
      using e sig buf by (simp add: sys_read_def wait [OF keeps_mode_attempts(6)])
    then show ?thesis
      using sig v poll by (simp add: poll_revents_def signalfd_try_read_def Let_def word_neq_0_conv)
  next
    case pty
    then obtain t where t: "get_pty (k_ptys k) (unat (ofd_host_handle d)) = Some t"
      using e(5) by (auto simp: waits_for_input_def)
    have "buf \<noteq> []" using buf by auto
    note again = read_pty_again [OF t this nw]
    define m where "m = (ofd_file_type d = PtyMaster)"
    let ?r = "read_pty m (ofd_host_handle d) (ofd_status_flags d) buf p k"
    have read: "sys_read host fd buf p k = Some ?r" using e pty by (auto simp: sys_read_def m_def)
    have "poll_revents POLLIN d p k = 0 \<longleftrightarrow> fst (fst ?r) = Err EAGAIN"
      unfolding again using pty t by (cases "slave_has_data t"; cases "pty_master_refs t = 0") (auto simp: poll_revents_def m_def)
    with read poll show ?thesis by (metis prod.collapse)
  qed
qed

theorem poll_agrees_with_read_witness:
  "\<exists>r buf' p' k'. sys_read quiet_host 0 (replicate 128 0) gadgets kernel_new = Some ((r, buf'), p', k') \<and>
    (pf_revents (poll_one gadgets kernel_new \<lparr>pf_fd = 0, pf_events = POLLIN, pf_revents = 0\<rparr>) \<noteq> 0 \<longleftrightarrow> r \<noteq> Err EAGAIN)"
proof -
  have "is_centralized_mode kernel_new" by (simp add: is_centralized_mode_def kernel_new_def)
  moreover have "readable_fd 0 gadgets kernel_new"
    by (simp add: readable_fd_def waits_for_input_def gadgets_def fdt_get_def ofdt_get_def slot_get_def ofd_fresh_def kernel_idx_def Let_def)
  ultimately show ?thesis using poll_agrees_with_read [of kernel_new 0 gadgets "replicate 128 0" quiet_host] by simp
qed

section \<open>A wait with a timeout ends\<close>

text \<open>
  The clock of the host gets past a time: after enough calls every reading is at or past it. Other threads
  only add to the record of calls. The deadline is the time of the call plus the timeout.
\<close>

definition clock_reaches :: "host \<Rightarrow> u64 \<Rightarrow> nat \<Rightarrow> bool" where
  "clock_reaches host t n \<longleftrightarrow> (\<forall>cs. n \<le> length cs \<longrightarrow>
     (let r = h_reply host cs (HostClockGettime 1) in t \<le> now_ns (hr_num1 r, hr_num2 r)))"

definition others_only_call :: "host \<Rightarrow> bool" where
  "others_only_call host \<longleftrightarrow> (\<forall>cs p k. length (k_calls k) \<le> length (k_calls (snd (h_others host cs (p, k)))))"

definition deadline_of :: "host \<Rightarrow> i32 \<Rightarrow> Kernel \<Rightarrow> u64" where
  "deadline_of host timeout_ms k =
    (let r = h_reply host (k_calls k) (HostClockGettime 1) in now_ns (hr_num1 r, hr_num2 r) + scast timeout_ms * 1000000)"

lemma poll_loop_ends:
  assumes "clock_reaches host dl n" "others_only_call host"
  shows "\<exists>y. poll_loop host check (Some dl) out p k = Some y"
proof (induction "n - length (k_calls k)" arbitrary: out p k rule: less_induct)
  case less
  obtain p1 k1 where s: "host_sleep host p k = (p1, k1)" by fastforce
  obtain ready out1 where c: "check p1 k1 = (ready, out1)" by fastforce
  have grow: "length (k_calls k) < length (k_calls k1)"
  proof -
    let ?k = "k\<lparr>k_calls := k_calls k @ [HostNanosleep 0 1000000]\<rparr>"
    have "h_others host (k_calls ?k) (p, ?k) = (p1, k1)"
      using s by (simp add: host_sleep_def host_unit_def host_call_def)
    then have "length (k_calls ?k) \<le> length (k_calls k1)"
      using assms(2) unfolding others_only_call_def by (metis snd_conv)
    then show ?thesis by simp
  qed
  obtain t k2 where g: "host_clock_gettime host 1 k1 = (t, k2)" by fastforce
  have k2: "length (k_calls k2) = Suc (length (k_calls k1))"
    using g by (auto simp: host_clock_gettime_def host_call_def)
  show ?case
  proof (cases "n \<le> length (k_calls k1)")
    case True
    then have "t = Ok x \<Longrightarrow> dl \<le> now_ns x" for x
      using assms(1) g by (auto simp: clock_reaches_def host_clock_gettime_def host_call_def Let_def split: sum.splits)
    then show ?thesis by (subst poll_loop.simps) (auto simp: s c g split: sum.split)
  next
    case False
    then have "n - length (k_calls k2) < n - length (k_calls k)" using grow k2 by simp
    from less [OF this, of out1 p1] show ?thesis
      by (subst poll_loop.simps) (auto simp: s c g split: sum.split)
  qed
qed

text \<open>
  C23: \<open>poll\<close> and \<open>select\<close> with a timeout return. In the centralised mode they always return. In the
  traditional mode, where they sleep and look again, a call whose timeout is not negative returns if the
  clock of the host gets past the time of the call plus the timeout, whatever the other threads do and
  whether or not a descriptor becomes ready. A negative timeout waits for as long as it takes, so nothing is
  said about it.
\<close>

theorem poll_returns:
  assumes "is_centralized_mode k \<or>
    0 \<le> sint timeout_ms \<and> others_only_call host \<and> (\<exists>n. clock_reaches host (deadline_of host timeout_ms k) n)"
  shows "(\<exists>y. sys_poll host fds timeout_ms p k = Some y) \<and> (\<exists>y. sys_select host nfds sets timeout_ms p k = Some y)"
proof -
  have "\<exists>y. poll_wait host check timeout_ms p k = Some y" for check :: "Process \<Rightarrow> Kernel \<Rightarrow> i32 \<times> 'a"
  proof (cases "is_centralized_mode k")
    case True
    then show ?thesis by (simp add: poll_wait_def split: prod.split)
  next
    case False
    then obtain n where h: "0 \<le> sint timeout_ms" "others_only_call host" "clock_reaches host (deadline_of host timeout_ms k) n"
      using assms by auto
    obtain t k1 where g: "host_clock_gettime host 1 k = (t, k1)" by fastforce
    have "t = Ok x \<Longrightarrow> now_ns x + scast timeout_ms * 1000000 = deadline_of host timeout_ms k" for x
      using g by (auto simp: deadline_of_def host_clock_gettime_def host_call_def Let_def split: sum.splits)
    then have "t = Ok x \<Longrightarrow> \<exists>y. poll_loop host check (Some (now_ns x + scast timeout_ms * 1000000)) out p k1 = Some y" for x out
      using poll_loop_ends [OF h(3,2)] by simp
    moreover have "timeout_ms = 0 \<or> 0 < sint timeout_ms" using h(1) by (auto simp: order_le_less signed_eq_0_iff)
    ultimately show ?thesis by (cases t) (auto simp: poll_wait_def g split: prod.split)
  qed
  then show ?thesis unfolding sys_poll_def sys_select_def by metis
qed

text \<open>A host in the traditional mode whose clock moves by a millisecond with every call, up to a second.\<close>

definition ticking_host :: host where
  "ticking_host = \<lparr>h_reply = (\<lambda>cs _. reply_zero\<lparr>hr_num2 := word_of_nat (min (length cs) 1000) * 1000000\<rparr>),
     h_others = (\<lambda>_ s. s)\<rparr>"

definition kernel_traditional :: Kernel where
  "kernel_traditional = kernel_new\<lparr>k_wakeup := \<lparr>wk_centralized = False, wk_events = []\<rparr>\<rparr>"

theorem poll_returns_witness:
  "(\<exists>y. sys_poll ticking_host [] 5 (process_new 3) kernel_traditional = Some y) \<and>
    (\<exists>y. sys_select ticking_host 0 (None, None, None) 5 (process_new 3) kernel_traditional = Some y) \<and>
    \<not> is_centralized_mode kernel_traditional"
proof -
  have o: "others_only_call ticking_host" by (simp add: others_only_call_def ticking_host_def)
  have "deadline_of ticking_host 5 kernel_traditional = 5000000"
    by (simp add: deadline_of_def ticking_host_def kernel_traditional_def kernel_new_def now_ns_def reply_zero_def)
  moreover have "clock_reaches ticking_host 5000000 1000"
    by (simp add: clock_reaches_def ticking_host_def now_ns_def reply_zero_def Let_def min_def)
  ultimately show ?thesis
    using poll_returns [of kernel_traditional 5 ticking_host "[]" "process_new 3" 0 "(None, None, None)"] o
    by (auto simp: is_centralized_mode_def kernel_traditional_def)
qed

section \<open>The interest list of epoll is a map\<close>

text \<open>What is registered for a descriptor.\<close>

definition interest_map :: "EpollInterest list \<Rightarrow> i32 \<rightharpoonup> u32 \<times> u64" where
  "interest_map xs = map_of (map (\<lambda>e. (ep_fd e, (ep_events e, ep_data e))) xs)"

definition epoll_spec :: "i32 \<Rightarrow> i32 \<Rightarrow> u32 \<times> u64 \<Rightarrow> (i32 \<rightharpoonup> u32 \<times> u64) \<Rightarrow> (i32 \<rightharpoonup> u32 \<times> u64) kresult" where
  "epoll_spec op fd v m =
    (if op = EPOLL_CTL_ADD then (if fd \<in> dom m then Err EEXIST else Ok (m(fd \<mapsto> v)))
     else if op = EPOLL_CTL_DEL then (if fd \<in> dom m then Ok (m(fd := None)) else Err ENOENT)
     else if op = EPOLL_CTL_MOD then (if fd \<in> dom m then Ok (m(fd \<mapsto> v)) else Err ENOENT)
     else Err EINVAL)"

text \<open>A list of interests with different descriptors is determined by its elements.\<close>

definition interests_wf :: "EpollInterest list \<Rightarrow> bool" where
  "interests_wf xs \<longleftrightarrow> distinct (map ep_fd xs)"

lemma interest_map_eq:
  assumes "interests_wf xs"
  shows "interest_map xs fd = Some v \<longleftrightarrow> (\<exists>e\<in>set xs. ep_fd e = fd \<and> (ep_events e, ep_data e) = v)"
  using assms unfolding interest_map_def interests_wf_def
  by (subst map_of_eq_Some_iff) (auto simp: comp_def image_iff)

lemma interest_map_dom: "fd \<in> dom (interest_map xs) \<longleftrightarrow> (\<exists>e\<in>set xs. ep_fd e = fd)"
  by (force simp: interest_map_def dom_map_of_conv_image_fst)

lemma interest_mapI:
  assumes "interests_wf xs" "\<And>fd v. m fd = Some v \<longleftrightarrow> (\<exists>e\<in>set xs. ep_fd e = fd \<and> (ep_events e, ep_data e) = v)"
  shows "interest_map xs = m"
  by (rule ext, rule option.expand) (metis assms interest_map_eq option.exhaust_sel option.sel)+

lemma mset_swap_remove:
  assumes "i < length xs"
  shows "mset (swap_remove i xs) = mset xs - {#xs ! i#}"
proof (cases "i = length xs - 1")
  case True
  with assms show ?thesis
    by (cases xs rule: rev_cases) (auto simp: swap_remove_def)
next
  case False
  with assms obtain ys x where xs: "xs = ys @ [x]" "i < length ys" by (cases xs rule: rev_cases) auto
  then show ?thesis by (simp add: swap_remove_def list_update_append nth_append mset_update)
qed

lemma swap_remove_interests:
  assumes "interests_wf xs" "i < length xs"
  shows "interests_wf (swap_remove i xs)" "set (swap_remove i xs) = {e \<in> set xs. ep_fd e \<noteq> ep_fd (xs ! i)}"
proof -
  have d: "distinct xs" "inj_on ep_fd (set xs)" using assms(1) by (simp_all add: interests_wf_def distinct_map)
  have m: "mset xs = add_mset (xs ! i) (mset (swap_remove i xs))"
    using assms(2) by (simp add: mset_swap_remove)
  have "mset (map ep_fd xs) = add_mset (ep_fd (xs ! i)) (mset (map ep_fd (swap_remove i xs)))" using m by simp
  then have "distinct (ep_fd (xs ! i) # map ep_fd (swap_remove i xs))"
    using assms(1) unfolding interests_wf_def by (metis mset.simps(2) mset_eq_imp_distinct_iff)
  then show "interests_wf (swap_remove i xs)" "set (swap_remove i xs) = {e \<in> set xs. ep_fd e \<noteq> ep_fd (xs ! i)}"
    using mset_eq_setD [of xs "xs ! i # swap_remove i xs"] m by (auto simp: interests_wf_def image_iff)
qed

lemma modify_interest:
  fixes ev :: u32 and data :: u64
  assumes "interests_wf xs" "i < length xs"
  defines "ys \<equiv> xs[i := (xs ! i)\<lparr>ep_events := ev, ep_data := data\<rparr>]"
  shows "interests_wf ys" "set ys = insert ((xs ! i)\<lparr>ep_events := ev, ep_data := data\<rparr>) {e \<in> set xs. ep_fd e \<noteq> ep_fd (xs ! i)}"
proof -
  have fds: "map ep_fd ys = map ep_fd xs" unfolding ys_def by (simp add: map_update list_update_same_conv assms(2))
  then show "interests_wf ys" using assms(1) by (simp add: interests_wf_def)
  have d: "distinct xs" "inj_on ep_fd (set xs)" using assms(1) by (simp_all add: interests_wf_def distinct_map)
  have "set xs - {xs ! i} = {e \<in> set xs. ep_fd e \<noteq> ep_fd (xs ! i)}"
    using inj_on_eq_iff [OF d(2)] nth_mem [OF assms(2)] by blast
  then show "set ys = insert ((xs ! i)\<lparr>ep_events := ev, ep_data := data\<rparr>) {e \<in> set xs. ep_fd e \<noteq> ep_fd (xs ! i)}"
    unfolding ys_def by (simp add: set_update_distinct [OF d(1) assms(2)])
qed

lemma epoll_update_refines:
  assumes "interests_wf xs"
  shows "case epoll_update op fd ev data xs of
      Inl e \<Rightarrow> epoll_spec op fd (ev, data) (interest_map xs) = Err e
    | Inr ys \<Rightarrow> interests_wf ys \<and> epoll_spec op fd (ev, data) (interest_map xs) = Ok (interest_map ys)"
proof (cases "position (\<lambda>e. ep_fd e = fd) xs")
  case None
  then have fresh: "\<forall>e\<in>set xs. ep_fd e \<noteq> fd" by (simp add: position_None_iff)
  then have dom: "fd \<notin> dom (interest_map xs)" using interest_map_dom by metis
  let ?ys = "xs @ [\<lparr>ep_fd = fd, ep_events = ev, ep_data = data\<rparr>]"
  have wf: "interests_wf ?ys" using assms fresh by (auto simp: interests_wf_def)
  have "interest_map ?ys = (interest_map xs)(fd \<mapsto> (ev, data))"
    by (rule interest_mapI [OF wf]) (use fresh in \<open>auto simp: interest_map_eq [OF assms]\<close>)
  with None wf dom show ?thesis by (auto simp: epoll_update_def epoll_spec_def)
next
  case (Some i)
  then have i: "i < length xs" "ep_fd (xs ! i) = fd" by (simp_all add: position_Some_iff)
  then have dom: "fd \<in> dom (interest_map xs)" using interest_map_dom nth_mem by metis
  note del = swap_remove_interests [OF assms i(1)] and upd = modify_interest [OF assms i(1), where ev = ev and data = data]
  have "interest_map (swap_remove i xs) = (interest_map xs)(fd := None)"
    by (rule interest_mapI [OF del(1)]) (auto simp: del(2) i(2) interest_map_eq [OF assms])
  moreover have "interest_map (xs[i := (xs ! i)\<lparr>ep_events := ev, ep_data := data\<rparr>]) = (interest_map xs)(fd \<mapsto> (ev, data))"
    by (rule interest_mapI [OF upd(1)]) (auto simp: upd(2) i(2) interest_map_eq [OF assms])
  ultimately show ?thesis using Some dom del(1) upd(1) by (simp add: epoll_update_def epoll_spec_def Let_def)
qed

text \<open>
  C24: the interest list of an epoll descriptor is a map. As long as the list has one entry per descriptor,
  which an empty list has, every \<open>epoll_ctl\<close> on an open descriptor acts on it as on a finite map from
  descriptors to events and data: adding fails with \<open>EEXIST\<close> for a registered descriptor, removing and changing
  fail with \<open>ENOENT\<close> for another one, an unknown operation with \<open>EINVAL\<close>, a failed call changes nothing, and the
  list keeps one entry per descriptor although removal reorders it.
\<close>

theorem epoll_ctl_is_map:
  assumes "object_idx Epoll epfd p = Ok i" "slot_get (p_epolls p) i = Some xs" "interests_wf xs"
    and "fdt_get (p_fd_table p) fd = Ok e"
  shows "case epoll_spec op fd (ev, data) (interest_map xs) of
      Inl er \<Rightarrow> sys_epoll_ctl epfd op fd ev data p = (Err er, p)
    | Inr m \<Rightarrow> \<exists>ys. sys_epoll_ctl epfd op fd ev data p = (Ok (), p\<lparr>p_epolls := (p_epolls p)[i := Some ys]\<rparr>) \<and>
        interests_wf ys \<and> interest_map ys = m"
  using epoll_update_refines [OF assms(3), of op fd ev data] assms
  by (cases "epoll_update op fd ev data xs") (auto simp: sys_epoll_ctl_def)

text \<open>A process with an epoll descriptor 1 that watches the event counter at descriptor 0.\<close>

definition watching :: Process where
  "watching = gadgets\<lparr>p_ofd_table := [Some (ofd_fresh EventFd O_RDWR (- 1) []), Some (ofd_fresh Epoll O_RDWR (- 1) [])],
     p_epolls := [Some [\<lparr>ep_fd = 0, ep_events = EPOLLIN, ep_data = 7\<rparr>]]\<rparr>"

lemma watching_facts:
  "object_idx Epoll 1 watching = Ok 0" "slot_get (p_epolls watching) 0 = Some [\<lparr>ep_fd = 0, ep_events = EPOLLIN, ep_data = 7\<rparr>]"
  "fdt_get (p_fd_table watching) 0 = Ok \<lparr>ofd_ref = 0, fd_flags = 0\<rparr>"
  "ofdt_get (p_ofd_table watching) 0 = Some (ofd_fresh EventFd O_RDWR (- 1) [])"
  "slot_get (p_eventfds watching) 0 = Some \<lparr>ev_counter = 3, ev_semaphore = False\<rparr>"
  by (simp_all add: object_idx_def watching_def gadgets_def fdt_get_def ofdt_get_def slot_get_def ofd_fresh_def kernel_idx_def)

theorem epoll_ctl_is_map_witness:
  "sys_epoll_ctl 1 EPOLL_CTL_ADD 0 EPOLLIN 9 watching = (Err EEXIST, watching) \<and>
    (\<exists>ys. sys_epoll_ctl 1 EPOLL_CTL_DEL 0 0 0 watching = (Ok (), watching\<lparr>p_epolls := (p_epolls watching)[0 := Some ys]\<rparr>) \<and>
      interest_map ys = Map.empty)"
proof -
  have "interests_wf [\<lparr>ep_fd = 0, ep_events = EPOLLIN, ep_data = 7\<rparr>]" by (simp add: interests_wf_def)
  note t = epoll_ctl_is_map [OF watching_facts(1,2) this watching_facts(3)]
  have m: "interest_map [\<lparr>ep_fd = 0, ep_events = EPOLLIN, ep_data = 7\<rparr>] = [0 \<mapsto> (1, 7)]" by (simp add: interest_map_def)
  show ?thesis using t [of EPOLL_CTL_ADD EPOLLIN 9] t [of EPOLL_CTL_DEL 0 0] by (auto simp: epoll_spec_def m)
qed

section \<open>What epoll reports\<close>

text \<open>What \<open>poll\<close> says of an interest.\<close>

definition ready_events :: "Process \<Rightarrow> Kernel \<Rightarrow> EpollInterest \<Rightarrow> i16" where
  "ready_events p k e = pf_revents (poll_one p k (to_pollfd e))"

lemma epoll_results_eq:
  "epoll_results xs (map (poll_one p k) (map to_pollfd xs)) n =
    map (\<lambda>e. (to_epoll (ready_events p k e), ep_data e)) (take n (filter (\<lambda>e. ready_events p k e \<noteq> 0) xs))"
proof -
  have "map (\<lambda>(pf, e). (to_epoll (pf_revents pf), ep_data e))
      (filter (\<lambda>(pf, _). pf_revents pf \<noteq> 0) (zip (map (poll_one p k) (map to_pollfd xs)) xs)) =
    map (\<lambda>e. (to_epoll (ready_events p k e), ep_data e)) (filter (\<lambda>e. ready_events p k e \<noteq> 0) xs)"
    by (induction xs) (simp_all add: ready_events_def)
  then show ?thesis by (simp add: epoll_results_def take_map)
qed

lemma ready_count:
  assumes "length xs < 2 ^ 31"
  shows "0 < sint (word_of_nat (length (filter P xs)) :: i32) \<longleftrightarrow> filter P xs \<noteq> []"
proof -
  have "length (filter P xs) < 2 ^ 31" using length_filter_le assms by (rule le_less_trans)
  then have "sint (word_of_nat (length (filter P xs)) :: i32) = int (length (filter P xs))"
    by (simp add: signed_of_nat signed_take_bit_int_eq_self)
  then show ?thesis by (simp only: of_nat_0_less_iff length_greater_0_conv)
qed

text \<open>
  \<open>epoll_wait\<close> reports what is ready. In the centralised mode the call changes nothing and always returns:
  for at least one interest, \<open>EAGAIN\<close> if none is ready and the timeout is not zero, and otherwise the first
  \<open>maxevents\<close> of the ready interests in the order of the list, each with what \<open>poll\<close> says of its descriptor
  and with its own data. So a report never names a descriptor that is not registered or not ready, none is
  left out while there is room, and one that stays ready is reported again.
\<close>

theorem epoll_reports_ready:
  assumes "is_centralized_mode k" "object_idx Epoll epfd p = Ok i" "slot_get (p_epolls p) i = Some xs"
    and "xs \<noteq> []" "length xs < 2 ^ 31" "0 < sint maxevents"
  shows "let ready = filter (\<lambda>e. ready_events p k e \<noteq> 0) xs; n = min (nat (sint maxevents)) (length ready) in
    sys_epoll_pwait host tid epfd maxevents timeout_ms None p k =
      Some (if ready = [] \<and> timeout_ms \<noteq> 0 then Err EAGAIN
            else Ok (word_of_nat n, map (\<lambda>e. (to_epoll (ready_events p k e), ep_data e)) (take n ready)), p, k)"
proof -
  let ?ready = "filter (\<lambda>e. ready_events p k e \<noteq> 0) xs"
  have c: "poll_check p k (map to_pollfd xs) = (word_of_nat (length ?ready), map (poll_one p k) (map to_pollfd xs))"
    by (simp add: poll_check_def filter_map comp_def ready_events_def)
  have "sys_poll host (map to_pollfd xs) timeout_ms p k =
      Some ((if ?ready = [] \<and> timeout_ms \<noteq> 0 then Err EAGAIN else Ok (word_of_nat (length ?ready)),
        map (poll_one p k) (map to_pollfd xs)), p, k)"
    using assms(1) ready_count [OF assms(5), of "\<lambda>e. ready_events p k e \<noteq> 0"]
    by (auto simp: sys_poll_def poll_wait_def c)
  then show ?thesis
    using assms(2-4,6) take_take [of "nat (sint maxevents)" "length ?ready" ?ready]
    by (simp add: sys_epoll_pwait_def Let_def epoll_results_eq min.commute del: map_map take_take)
qed

theorem epoll_reports_ready_witness:
  "sys_epoll_pwait quiet_host 0 1 8 (- 1) None watching kernel_new = Some (Ok (1, [(1, 7)]), watching, kernel_new)"
proof -
  have "is_centralized_mode kernel_new" by (simp add: is_centralized_mode_def kernel_new_def)
  moreover have "ready_events watching kernel_new \<lparr>ep_fd = 0, ep_events = EPOLLIN, ep_data = 7\<rparr> = 1"
    by (simp add: ready_events_def to_pollfd_def poll_one_def watching_facts(3-5) poll_revents_def event_def kernel_idx_def ofd_fresh_def)
  ultimately show ?thesis
    using epoll_reports_ready [of kernel_new 1 watching 0 _ 8 quiet_host 0 "- 1", OF _ watching_facts(1,2)]
    by (simp add: to_epoll_def)
qed

section \<open>Timers are never reported\<close>

definition timers_clear :: "Process \<Rightarrow> bool" where
  "timers_clear p \<longleftrightarrow> (\<forall>i t. slot_get (p_timerfds p) i = Some t \<longrightarrow> tf_expirations t = 0)"

text \<open>The calls on timers, in the centralised mode; a read may be of any descriptor.\<close>

inductive timer_step :: "host \<Rightarrow> Process \<times> Kernel \<Rightarrow> Process \<times> Kernel \<Rightarrow> bool" for host where
  create: "sys_timerfd_create clock_id flags p = (r, p') \<Longrightarrow> timer_step host (p, k) (p', k)"
| settime: "sys_timerfd_settime host fd flags v p k = (r, p', k') \<Longrightarrow> timer_step host (p, k) (p', k')"
| gettime: "sys_timerfd_gettime host fd p k = (r, k') \<Longrightarrow> timer_step host (p, k) (p, k')"
| read: "sys_read host fd buf p k = Some ((r, buf'), p', k') \<Longrightarrow> timer_step host (p, k) (p', k')"

lemma timers_clear_put:
  "timers_clear p \<Longrightarrow> tf_expirations t = 0 \<Longrightarrow> timers_clear (put_timerfd i t p)"
  by (auto simp: timers_clear_def put_timerfd_def split: if_splits)

lemma create_clear:
  assumes "timers_clear p" "sys_timerfd_create clock_id flags p = (r, p')"
  shows "timers_clear p'"
proof (cases "flags AND NOT (O_CLOEXEC OR O_NONBLOCK) \<noteq> 0")
  case True
  with assms show ?thesis by (simp add: sys_timerfd_create_def)
next
  case False
  obtain i s where s: "slot_insert \<lparr>tf_clock_id = clock_id, tf_interval_sec = 0, tf_interval_nsec = 0, tf_value_sec = 0,
      tf_value_nsec = 0, tf_expirations = 0\<rparr> (p_timerfds p) = (i, s)" by fastforce
  have "p_timerfds p' = s \<or> p_timerfds p' = s[i := None]"
    using assms(2) False s by (auto simp: sys_timerfd_create_def open_object_def Let_def split: prod.splits sum.splits)
  moreover have "slot_get s j = Some t \<Longrightarrow> tf_expirations t = 0" for j t
    using assms(1) by (auto simp: slot_insert_lookup [OF s] timers_clear_def split: if_splits)
  ultimately show ?thesis by (auto simp: timers_clear_def split: if_splits)
qed

lemma settime_clear:
  assumes "timers_clear p" "sys_timerfd_settime host fd flags v p k = (r, p', k')"
  shows "timers_clear p'" "is_centralized_mode k' = is_centralized_mode k"
proof -
  obtain a b c d where v: "v = (a, b, c, d)" by (metis prod_cases4)
  have old: "object_idx TimerFd fd p = Ok i \<Longrightarrow> slot_get (p_timerfds p) i = Some t \<Longrightarrow> tf_expirations t = 0" for i t
    using assms(1) by (auto simp: timers_clear_def)
  show "timers_clear p'"
    using assms old unfolding v sys_timerfd_settime_def
    by (auto simp: Let_def split: sum.splits option.splits if_splits prod.splits intro!: timers_clear_put)
  show "is_centralized_mode k' = is_centralized_mode k"
    using assms(2) unfolding v sys_timerfd_settime_def
    by (auto simp: Let_def host_clock_gettime_def host_call_def is_centralized_mode_def
        split: sum.splits option.splits if_splits prod.splits)
qed

text \<open>Reading anything but a timer keeps the timers, and every read keeps the mode.\<close>

definition reads_quietly :: "Process \<Rightarrow> Kernel \<Rightarrow> Process \<Rightarrow> Kernel \<Rightarrow> bool" where
  "reads_quietly p k p' k' \<longleftrightarrow> p_timerfds p' = p_timerfds p \<and> is_centralized_mode k' = is_centralized_mode k"

lemma host_fill_mode: "host_fill host c buf k = (n, buf', k') \<Longrightarrow> is_centralized_mode k' = is_centralized_mode k"
  by (auto simp: host_fill_def host_call_def is_centralized_mode_def)

lemma set_offset_timers [simp]: "p_timerfds (set_offset i f p) = p_timerfds p"
  by (simp add: set_offset_def)

lemma attempts_quiet:
  "pipe_try_read global idx buf p k = (r, p', k') \<Longrightarrow> reads_quietly p k p' k'"
  "eventfd_try_read idx buf p k = (r, p', k') \<Longrightarrow> reads_quietly p k p' k'"
  "signalfd_try_read idx buf p k = (r, p', k') \<Longrightarrow> reads_quietly p k p' k'"
  by (auto simp: reads_quietly_def pipe_try_read_def eventfd_try_read_def signalfd_try_read_def pipe_store_def Let_def
      is_centralized_mode_def split: option.splits prod.splits if_splits dest: pb_read_mode)

lemma tty_input_quiet: "fold (tty_input host) bs (p, k) = (p', k') \<Longrightarrow> reads_quietly p k p' k'"
proof (induction bs arbitrary: p k)
  case (Cons b bs)
  obtain p1 k1 where s: "tty_input host b (p, k) = (p1, k1)" by fastforce
  then have "reads_quietly p k p1 k1"
    by (auto simp: reads_quietly_def tty_input_def Let_def is_centralized_mode_def split: prod.splits if_splits)
  then show ?case using Cons.IH [of p1 k1] Cons.prems s by (simp add: reads_quietly_def)
qed (simp add: reads_quietly_def)

lemma read_tty_quiet: "read_tty host flags buf p k = (r, p', k') \<Longrightarrow> reads_quietly p k p' k'"
  unfolding read_tty_def
  by (auto simp: Let_def reads_quietly_def split: prod.splits sum.splits if_splits
      dest!: host_fill_mode tty_input_quiet [unfolded reads_quietly_def])

lemma read_device_quiet: "read_device host dev buf p k = (r, p', k') \<Longrightarrow> reads_quietly p k p' k'"
  unfolding read_device_def
  by (cases dev) (auto simp: Let_def reads_quietly_def is_centralized_mode_def split: prod.splits if_splits
      dest!: host_fill_mode [unfolded is_centralized_mode_def])

lemma read_snapshot_quiet: "read_snapshot i off c buf p k = (r, p', k') \<Longrightarrow> reads_quietly p k p' k'"
  by (auto simp: read_snapshot_def reads_quietly_def Let_def split: option.splits if_splits)

lemma read_file_quiet: "read_file host i d buf p k = (r, p', k') \<Longrightarrow> reads_quietly p k p' k'"
  unfolding read_file_def Let_def
  by (auto split: option.splits if_splits sum.splits prod.splits
      dest: read_device_quiet read_tty_quiet read_snapshot_quiet host_fill_mode simp: reads_quietly_def)

lemma read_pty_quiet: "read_pty m h flags buf p k = (r, p', k') \<Longrightarrow> reads_quietly p k p' k'"
  by (auto simp: read_pty_def reads_quietly_def Let_def is_centralized_mode_def split: option.splits if_splits prod.splits)

lemma try_or_wait_quiet:
  assumes "keeps_mode attempt" "is_centralized_mode k" "\<And>r p' k'. attempt p k = (r, p', k') \<Longrightarrow> reads_quietly p k p' k'"
    and "try_or_wait host flags attempt err p k = Some (r, p', k')"
  shows "reads_quietly p k p' k'"
proof -
  have nw: "no_wait flags k" using assms(2) by (simp add: no_wait_def)
  show ?thesis using assms(3,4) by (auto simp: try_or_wait_returns [OF assms(1) nw] split: prod.splits)
qed

lemma waits_quiet:
  assumes "is_centralized_mode k"
  shows "try_or_wait host flags (pipe_try_read g i buf) err p k = Some (r, p', k') \<Longrightarrow> reads_quietly p k p' k'"
    "try_or_wait host flags (eventfd_try_read i buf) err p k = Some (r, p', k') \<Longrightarrow> reads_quietly p k p' k'"
    "try_or_wait host flags (signalfd_try_read i buf) err p k = Some (r, p', k') \<Longrightarrow> reads_quietly p k p' k'"
proof -
  note quiet = try_or_wait_quiet [OF _ assms, rotated 2]
  show "try_or_wait host flags (pipe_try_read g i buf) err p k = Some (r, p', k') \<Longrightarrow> reads_quietly p k p' k'"
    by (erule quiet) (auto intro: keeps_mode_attempts dest: attempts_quiet)
  show "try_or_wait host flags (eventfd_try_read i buf) err p k = Some (r, p', k') \<Longrightarrow> reads_quietly p k p' k'"
    by (erule quiet) (auto intro: keeps_mode_attempts dest: attempts_quiet)
  show "try_or_wait host flags (signalfd_try_read i buf) err p k = Some (r, p', k') \<Longrightarrow> reads_quietly p k p' k'"
    by (erule quiet) (auto intro: keeps_mode_attempts dest: attempts_quiet)
qed

lemma read_socket_quiet:
  assumes "is_centralized_mode k" "read_socket host i flags buf p k = Some (r, p', k')"
  shows "reads_quietly p k p' k'"
proof -
  have att: "reads_quietly p k p' k'" if "or_again flags again (pipe_try_read g j buf) p k = (x, p', k')" for again g j x p' k'
    using that by (auto simp: or_again_def split: prod.splits option.splits dest: attempts_quiet(1))
  have sock: "reads_quietly p k p' k'"
    if "try_or_wait host flags (or_again flags again (pipe_try_read g j buf)) err p k = Some (r, p', k')" for again g j err
    by (rule try_or_wait_quiet [OF keeps_mode_or_again [OF keeps_mode_attempts(1)] assms(1) att that])
  from assms(2) show ?thesis
    unfolding read_socket_def
    by (auto split: option.splits if_splits prod.splits dest: sock host_fill_mode simp: reads_quietly_def)
qed

lemma timer_read_clear:
  assumes "timers_clear p" "timerfd_try_read host i buf p k = (r, p', k')"
  shows "timers_clear p'" "is_centralized_mode k' = is_centralized_mode k"
  using assms
  by (auto simp: timerfd_try_read_def timers_clear_def Let_def host_clock_gettime_def host_call_def is_centralized_mode_def
      split: sum.splits option.splits prod.splits if_splits)

lemma read_other_quiet:
  assumes "is_centralized_mode k" "sys_read host fd buf p k = Some (r, p', k')"
    and "fdt_get (p_fd_table p) fd = Ok e" "ofdt_get (p_ofd_table p) (ofd_ref e) = Some d" "ofd_file_type d \<noteq> TimerFd"
  shows "reads_quietly p k p' k'"
proof (cases "ofd_status_flags d AND O_ACCMODE = O_WRONLY")
  case True
  with assms show ?thesis by (simp add: sys_read_def reads_quietly_def)
next
  case False
  note open_fd = assms(3,4) False and waits = waits_quiet [OF assms(1)]
  have same: "reads_quietly p k p k" by (simp add: reads_quietly_def)
  have on_file: ?thesis if "ofd_file_type d \<in> {Regular, Directory, CharDevice, MemFd, Epoll}"
    using assms(2) that by (auto simp: sys_read_def open_fd dest: read_file_quiet)
  show ?thesis
  proof (cases "ofd_file_type d")
    case Pipe
    then have "(\<exists>n buf'. host_fill host (HostRead (ofd_host_handle d) (word_of_nat (length buf))) buf k = (n, buf', k') \<and> p' = p) \<or>
        try_or_wait host (ofd_status_flags d) (pipe_try_read (is_centralized_mode k) (kernel_idx (ofd_host_handle d)) buf)
          (\<lambda>e. (Err e, buf)) p k = Some (r, p', k')"
      using assms(2) by (auto simp: sys_read_def open_fd Let_def split: if_splits prod.splits)
    then show ?thesis using waits(1) host_fill_mode unfolding reads_quietly_def by blast
  next
    case Socket
    then show ?thesis using assms(2) read_socket_quiet [OF assms(1)] by (simp add: sys_read_def open_fd)
  next
    case EventFd
    then show ?thesis using assms(2) same by (auto simp: sys_read_def open_fd split: if_splits intro: waits(2))
  next
    case SignalFd
    then show ?thesis using assms(2) same by (auto simp: sys_read_def open_fd split: if_splits intro: waits(3))
  next
    case PtyMaster
    then show ?thesis using assms(2) read_pty_quiet by (simp add: sys_read_def open_fd)
  next
    case PtySlave
    then show ?thesis using assms(2) read_pty_quiet by (simp add: sys_read_def open_fd)
  qed (use on_file assms(5) in simp_all)
qed

lemma read_clear_at:
  assumes "timers_clear p" "is_centralized_mode k" "sys_read host fd buf p k = Some (r, p', k')"
    and d: "fdt_get (p_fd_table p) fd = Ok e" "ofdt_get (p_ofd_table p) (ofd_ref e) = Some d"
  shows "timers_clear p' \<and> is_centralized_mode k'"
proof (cases "ofd_file_type d = TimerFd")
  case True
  have nw: "no_wait (ofd_status_flags d) k" using assms(2) by (simp add: no_wait_def)
  obtain x q l where att: "timerfd_try_read host (kernel_idx (ofd_host_handle d)) buf p k = (x, q, l)" by (metis prod_cases3)
  have "p' = p \<and> k' = k \<or> p' = q \<and> k' = l"
    using assms(3) True
    by (simp add: sys_read_def d try_or_wait_returns [OF keeps_mode_attempts(5) nw] att split: if_splits)
  with assms(1,2) timer_read_clear [OF assms(1) att] show ?thesis by auto
next
  case False
  from read_other_quiet [OF assms(2,3) d False] assms(1,2) show ?thesis
    by (simp add: reads_quietly_def timers_clear_def)
qed

lemma read_clear:
  assumes "timers_clear p" "is_centralized_mode k" "sys_read host fd buf p k = Some (r, p', k')"
  shows "timers_clear p' \<and> is_centralized_mode k'"
proof -
  consider "p' = p" "k' = k"
    | e d where "fdt_get (p_fd_table p) fd = Ok e" "ofdt_get (p_ofd_table p) (ofd_ref e) = Some d"
    using assms(3) by (cases "fdt_get (p_fd_table p) fd") (auto simp: sys_read_def split: option.splits)
  then show ?thesis
  proof cases
    case 1
    with assms show ?thesis by simp
  next
    case d: (2 e d)
    show ?thesis by (rule read_clear_at [OF assms d])
  qed
qed

lemma timer_step_clear:
  assumes "timer_step host s t" "timers_clear (fst s) \<and> is_centralized_mode (snd s)"
  shows "timers_clear (fst t) \<and> is_centralized_mode (snd t)"
  using assms(1)
proof cases
  case (create clock_id flags p r p' k)
  with assms(2) create_clear [of p clock_id flags r p'] show ?thesis by simp
next
  case (settime fd flags v p k r p' k')
  with assms(2) settime_clear [of p host fd flags v k r p' k'] show ?thesis by simp
next
  case (gettime fd p k r k')
  then have "k_wakeup k' = k_wakeup k"
    by (auto simp: sys_timerfd_gettime_def host_clock_gettime_def host_call_def Let_def
        split: sum.splits option.splits if_splits)
  with gettime assms(2) show ?thesis by (simp add: is_centralized_mode_def)
next
  case (read fd buf p k r buf' p' k')
  with assms(2) read_clear [of p k host fd buf "(r, buf')" p' k'] show ?thesis by simp
qed

text \<open>A timer for a single expiration, whose time has come.\<close>

definition shot_due :: "i64 \<Rightarrow> i64 \<Rightarrow> TimerFdState \<Rightarrow> bool" where
  "shot_due now_sec now_nsec t \<longleftrightarrow> tf_interval_sec t = 0 \<and> tf_interval_nsec t = 0 \<and> (tf_value_sec t \<noteq> 0 \<or> tf_value_nsec t \<noteq> 0) \<and>
     (sint (tf_value_sec t) < sint now_sec \<or> now_sec = tf_value_sec t \<and> sint (tf_value_nsec t) \<le> sint now_nsec)"

lemma read_due_timer:
  assumes "fdt_get (p_fd_table p) fd = Ok e" "ofdt_get (p_ofd_table p) (ofd_ref e) = Some d"
    "ofd_file_type d = TimerFd" "ofd_status_flags d AND O_ACCMODE \<noteq> O_WRONLY" "8 \<le> length buf"
    "slot_get (p_timerfds p) (kernel_idx (ofd_host_handle d)) = Some t"
    "host_clock_gettime host 0 k = (Ok (now_sec, now_nsec), k')" "shot_due now_sec now_nsec t"
  shows "\<exists>p'. sys_read host fd buf p k = Some ((Ok 8, to_le 8 (1 :: u64) @ drop 8 buf), p', k')"
proof -
  have "timerfd_compute_expirations now_sec now_nsec t = t\<lparr>tf_expirations := 1, tf_value_sec := 0, tf_value_nsec := 0\<rparr>"
    using assms(8) by (auto simp: timerfd_compute_expirations_def shot_due_def)
  then show ?thesis
    using assms by (simp add: sys_read_def Let_def try_or_wait_def timerfd_try_read_def copy_at_def)
qed

lemma poll_timer:
  "ofd_file_type d = TimerFd \<Longrightarrow> slot_get (p_timerfds p) (kernel_idx (ofd_host_handle d)) = Some t \<Longrightarrow>
    poll_revents events d p k = event events POLLIN (0 < tf_expirations t)"
  by (simp add: poll_revents_def Let_def)

text \<open>
  C38: a timer that has expired is not reported as ready. For a timer, \<open>poll\<close> reports input exactly if the
  stored count of expirations is positive. But whatever sequence of timer calls and reads a process makes in
  the centralised mode, starting without counted expirations as a new process does, that count is zero between
  the calls and \<open>poll\<close> reports no event for any timer descriptor: expirations are counted by a read only,
  which also takes them away again. This is so also when a timer for a single expiration is due by the clock
  that reads use, and a read of eight bytes or more would return its expiration. A program that waits for its
  timer before it reads never wakes up.
\<close>

theorem timerfd_never_ready:
  assumes "(timer_step host)\<^sup>*\<^sup>* (p, k) (p', k')" "is_centralized_mode k" "timers_clear p"
    and "ofd_file_type d = TimerFd"
  shows "(\<forall>q t. slot_get (p_timerfds q) (kernel_idx (ofd_host_handle d)) = Some t \<longrightarrow>
      (poll_revents POLLIN d q k' = POLLIN \<longleftrightarrow> 0 < tf_expirations t)) \<and>
    poll_revents events d p' k' = 0 \<and>
    (\<forall>fd e t now_sec now_nsec k'' buf. fdt_get (p_fd_table p') fd = Ok e \<and> ofdt_get (p_ofd_table p') (ofd_ref e) = Some d \<and>
      ofd_status_flags d AND O_ACCMODE \<noteq> O_WRONLY \<and> 8 \<le> length buf \<and>
      slot_get (p_timerfds p') (kernel_idx (ofd_host_handle d)) = Some t \<and>
      host_clock_gettime host 0 k' = (Ok (now_sec, now_nsec), k'') \<and> shot_due now_sec now_nsec t \<longrightarrow>
      (\<exists>q. sys_read host fd buf p' k' = Some ((Ok 8, to_le 8 (1 :: u64) @ drop 8 buf), q, k'')))"
proof -
  have "timers_clear (fst s) \<and> is_centralized_mode (snd s)" if "(timer_step host)\<^sup>*\<^sup>* (p, k) s" for s
    using that by (induction rule: rtranclp_induct) (use assms(2,3) timer_step_clear in auto)
  from this [OF assms(1)] have "poll_revents events d p' k' = 0"
    using assms(4) by (auto simp: poll_revents_def timers_clear_def event_def split: option.split)
  moreover have "poll_revents POLLIN d q k' = POLLIN \<longleftrightarrow> 0 < tf_expirations t"
    if "slot_get (p_timerfds q) (kernel_idx (ofd_host_handle d)) = Some t" for q t
    using poll_timer [OF assms(4) that] by (simp add: event_def)
  moreover note read_due_timer [where p = p' and k = k' and d = d and host = host, OF _ _ assms(4)]
  ultimately show ?thesis by (intro conjI allI impI) (simp_all only:, elim conjE, simp)
qed

text \<open>A process with a timer.\<close>

definition timing :: Process where
  "timing = (process_new 3)\<lparr>p_ofd_table := [Some (ofd_fresh TimerFd O_RDWR (- 1) [])],
     p_fd_table := (p_fd_table (process_new 3))\<lparr>fdt_entries := [Some \<lparr>ofd_ref = 0, fd_flags = 0\<rparr>]\<rparr>,
     p_timerfds := [Some \<lparr>tf_clock_id = 0, tf_interval_sec = 0, tf_interval_nsec = 0, tf_value_sec = 0, tf_value_nsec = 0,
       tf_expirations = 0\<rparr>]\<rparr>"

definition kernel_later :: Kernel where
  "kernel_later = kernel_new\<lparr>k_calls := [HostClockGettime 0, HostClockGettime 0]\<rparr>"

theorem timerfd_never_ready_witness:
  "\<exists>r p' k' q k''. sys_timerfd_settime ticking_host 0 TFD_TIMER_ABSTIME (0, 0, 0, 1) timing kernel_later = (Ok r, p', k') \<and>
    poll_revents POLLIN (ofd_fresh TimerFd O_RDWR (- 1) []) p' k' = 0 \<and>
    sys_read ticking_host 0 (replicate 8 0) p' k' = Some ((Ok 8, to_le 8 (1 :: u64)), q, k'')"
proof -
  let ?d = "ofd_fresh TimerFd O_RDWR (- 1) []"
  define t where "t = \<lparr>tf_clock_id = 0, tf_interval_sec = 0, tf_interval_nsec = 0, tf_value_sec = 0, tf_value_nsec = 1, tf_expirations = 0\<rparr>"
  define p' where "p' = timing\<lparr>p_timerfds := [Some t]\<rparr>"
  have r: "sys_timerfd_settime ticking_host 0 TFD_TIMER_ABSTIME (0, 0, 0, 1) timing kernel_later = (Ok (0, 0, 0, 0), p', kernel_later)"
    by (simp add: sys_timerfd_settime_def object_idx_def timing_def fdt_get_def ofdt_get_def slot_get_def ofd_fresh_def kernel_idx_def
        put_timerfd_def p'_def t_def)
  have step: "(timer_step ticking_host)\<^sup>*\<^sup>* (timing, kernel_later) (p', kernel_later)"
    using timer_step.settime [OF r] by (rule r_into_rtranclp)
  have init: "is_centralized_mode kernel_later" "timers_clear timing" "ofd_file_type ?d = TimerFd"
    by (auto simp: is_centralized_mode_def kernel_later_def kernel_new_def timers_clear_def timing_def slot_get_def less_Suc_eq ofd_fresh_def
        split: if_splits)
  obtain k'' where clock: "host_clock_gettime ticking_host 0 kernel_later = (Ok (0, 2000000), k'')"
    by (simp add: host_clock_gettime_def host_call_def ticking_host_def reply_zero_def kernel_later_def i32_to_result_def)
  have d: "fdt_get (p_fd_table p') 0 = Ok \<lparr>ofd_ref = 0, fd_flags = 0\<rparr>" "ofdt_get (p_ofd_table p') 0 = Some ?d"
      "ofd_status_flags ?d AND O_ACCMODE \<noteq> O_WRONLY" "slot_get (p_timerfds p') (kernel_idx (ofd_host_handle ?d)) = Some t"
      "shot_due 0 2000000 t"
    by (simp_all add: p'_def timing_def fdt_get_def ofdt_get_def slot_get_def ofd_fresh_def kernel_idx_def shot_due_def t_def)
  note never = timerfd_never_ready [OF step init, of POLLIN]
  have "\<exists>q. sys_read ticking_host 0 (replicate 8 0) p' kernel_later = Some ((Ok 8, to_le 8 (1 :: u64) @ drop 8 (replicate 8 0)), q, k'')"
    by (rule never [THEN conjunct2, THEN conjunct2, rule_format, of 0 "\<lparr>ofd_ref = 0, fd_flags = 0\<rparr>" "replicate 8 0" t 0 2000000])
      (use d clock in simp)
  then show ?thesis using r never by auto
qed

end
