(* ===== verification/Proc_Calls.thy ===== *)
theory Proc_Calls
  imports Events PathNorm
begin

text \<open>
  System calls on the process itself, from \<^verbatim>\<open>src/crates/kernel/src/syscalls.rs\<close>: identity and
  credentials, sessions, priority, limits, the environment, memory, time, and the calls that end or replace
  the program.
\<close>

section \<open>Identity\<close>

definition sys_getpid :: "Process \<Rightarrow> i32" where "sys_getpid p = p_pid p"

definition sys_getppid :: "Process \<Rightarrow> i32" where "sys_getppid p = p_ppid p"

definition sys_getpgid :: "u32 \<Rightarrow> Process \<Rightarrow> u32 kresult" where
  "sys_getpgid pid p = (if pid \<noteq> 0 \<and> pid \<noteq> p_pid p then Err ESRCH else Ok (p_pgid p))"

definition sys_setpgid :: "u32 \<Rightarrow> u32 \<Rightarrow> Process \<Rightarrow> unit kresult \<times> Process" where
  "sys_setpgid pid pgid p =
    (if sint pgid < 0 then (Err EINVAL, p)
     else if pid \<noteq> 0 \<and> pid \<noteq> p_pid p then (Err ESRCH, p)
     else if p_is_session_leader p then (Err EPERM, p)
     else (Ok (), p\<lparr>p_pgid := if pgid = 0 then p_pid p else pgid\<rparr>))"

definition sys_getsid :: "u32 \<Rightarrow> Process \<Rightarrow> u32 kresult" where
  "sys_getsid pid p = (if pid \<noteq> 0 \<and> pid \<noteq> p_pid p then Err ESRCH else Ok (p_sid p))"

definition sys_setsid :: "Process \<Rightarrow> u32 kresult \<times> Process" where
  "sys_setsid p =
    (if p_is_session_leader p then (Err EPERM, p)
     else (Ok (p_pid p), p\<lparr>p_sid := p_pid p, p_pgid := p_pid p, p_is_session_leader := True\<rparr>))"

section \<open>Credentials\<close>

definition sys_setuid :: "u32 \<Rightarrow> Process \<Rightarrow> unit kresult \<times> Process" where
  "sys_setuid uid p =
    (if p_euid p = 0 then (Ok (), p\<lparr>p_uid := uid, p_euid := uid\<rparr>)
     else if uid = p_uid p then (Ok (), p\<lparr>p_euid := uid\<rparr>)
     else (Err EPERM, p))"

definition sys_setgid :: "u32 \<Rightarrow> Process \<Rightarrow> unit kresult \<times> Process" where
  "sys_setgid gid p =
    (if p_euid p = 0 then (Ok (), p\<lparr>p_gid := gid, p_egid := gid\<rparr>)
     else if gid = p_gid p then (Ok (), p\<lparr>p_egid := gid\<rparr>)
     else (Err EPERM, p))"

definition sys_seteuid :: "u32 \<Rightarrow> Process \<Rightarrow> unit kresult \<times> Process" where
  "sys_seteuid euid p = (if p_euid p = 0 \<or> euid = p_uid p then (Ok (), p\<lparr>p_euid := euid\<rparr>) else (Err EPERM, p))"

definition sys_setegid :: "u32 \<Rightarrow> Process \<Rightarrow> unit kresult \<times> Process" where
  "sys_setegid egid p = (if p_euid p = 0 \<or> egid = p_gid p then (Ok (), p\<lparr>p_egid := egid\<rparr>) else (Err EPERM, p))"

definition sys_setresuid :: "u32 \<Rightarrow> u32 \<Rightarrow> Process \<Rightarrow> unit kresult \<times> Process" where
  "sys_setresuid ruid euid p =
    (let p = (if ruid \<noteq> 0xFFFFFFFF then p\<lparr>p_uid := ruid\<rparr> else p)
     in (Ok (), if euid \<noteq> 0xFFFFFFFF then p\<lparr>p_euid := euid\<rparr> else p))"

definition sys_getresuid :: "Process \<Rightarrow> u32 \<times> u32 \<times> u32" where
  "sys_getresuid p = (p_uid p, p_euid p, p_uid p)"

definition sys_setresgid :: "u32 \<Rightarrow> u32 \<Rightarrow> Process \<Rightarrow> unit kresult \<times> Process" where
  "sys_setresgid rgid egid p =
    (let p = (if rgid \<noteq> 0xFFFFFFFF then p\<lparr>p_gid := rgid\<rparr> else p)
     in (Ok (), if egid \<noteq> 0xFFFFFFFF then p\<lparr>p_egid := egid\<rparr> else p))"

definition sys_getresgid :: "Process \<Rightarrow> u32 \<times> u32 \<times> u32" where
  "sys_getresgid p = (p_gid p, p_egid p, p_gid p)"

definition sys_getgroups :: "u32 \<Rightarrow> Process \<Rightarrow> (u32 \<times> u32) kresult" where
  "sys_getgroups sz p = (if sz = 0 then Ok (1, 0) else Ok (1, p_gid p))"

definition can_query_sched :: "u32 \<Rightarrow> u32 \<Rightarrow> u32 \<Rightarrow> bool" where
  "can_query_sched sender_euid target_uid target_euid \<longleftrightarrow>
    sender_euid = 0 \<or> sender_euid = target_uid \<or> sender_euid = target_euid"

section \<open>Priority, limits and names\<close>

definition sys_getpriority :: "i32 \<Rightarrow> u32 \<Rightarrow> Process \<Rightarrow> i32 kresult" where
  "sys_getpriority which who p =
    (if sint which < 0 \<or> 2 < sint which then Err EINVAL
     else if which = 0 \<and> who \<noteq> 0 \<and> who \<noteq> p_pid p then Err ESRCH
     else Ok (20 - p_nice p))"

definition sys_setpriority :: "i32 \<Rightarrow> u32 \<Rightarrow> i32 \<Rightarrow> Process \<Rightarrow> unit kresult \<times> Process" where
  "sys_setpriority which who prio p =
    (if sint which < 0 \<or> 2 < sint which then (Err EINVAL, p)
     else if which = 0 \<and> who \<noteq> 0 \<and> who \<noteq> p_pid p then (Err ESRCH, p)
     else (Ok (), p\<lparr>p_nice := word_of_int (min (max (sint prio) (- 20)) 19)\<rparr>))"

definition sys_getrlimit :: "u32 \<Rightarrow> Process \<Rightarrow> (u64 \<times> u64) kresult" where
  "sys_getrlimit resource p = (if 16 \<le> unat resource then Err EINVAL else Ok (p_rlimits p ! unat resource))"

definition sys_setrlimit :: "u32 \<Rightarrow> u64 \<Rightarrow> u64 \<Rightarrow> Process \<Rightarrow> unit kresult \<times> Process" where
  "sys_setrlimit resource soft hard p =
    (if 16 \<le> unat resource \<or> soft > hard then (Err EINVAL, p)
     else
       (let p = p\<lparr>p_rlimits := (p_rlimits p)[unat resource := (soft, hard)]\<rparr>;
            p = (if resource = 7
                 then p\<lparr>p_fd_table := fdt_set_max_fds (p_fd_table p) (if soft = - 1 then 1024 * 1024 else unat soft)\<rparr> else p)
        in (Ok (), if resource = 2 then p\<lparr>p_memory := mm_set_data_limit soft (p_memory p)\<rparr> else p)))"

definition sys_umask :: "u32 \<Rightarrow> Process \<Rightarrow> u32 \<times> Process" where
  "sys_umask new_mask p = (p_umask p, p\<lparr>p_umask := new_mask AND 511\<rparr>)"

abbreviation (input) PR_SET_NAME :: u32 where "PR_SET_NAME \<equiv> 15"
abbreviation (input) PR_GET_NAME :: u32 where "PR_GET_NAME \<equiv> 16"

definition sys_prctl :: "u32 \<Rightarrow> bytes \<Rightarrow> Process \<Rightarrow> (unit kresult \<times> bytes) \<times> Process" where
  "sys_prctl opt buf p =
    (if opt = PR_SET_NAME then
       (let name_len = min (case position (\<lambda>b. b = 0) buf of None \<Rightarrow> length buf | Some i \<Rightarrow> i) 15
        in ((Ok (), buf), p\<lparr>p_thread_name := copy_at 0 (take name_len buf) (replicate 16 0)\<rparr>))
     else if opt = PR_GET_NAME then
       (if length buf < 16 then ((Err EINVAL, buf), p) else ((Ok (), copy_at 0 (p_thread_name p) buf), p))
     else ((Ok (), buf), p))"

definition uname_fields :: "bytes list" where
  "uname_fields = map bstr [''wasm-posix'', ''localhost'', ''1.0.0'', ''wasm-posix-kernel'', ''wasm32'', '''']"

definition sys_uname :: "bytes \<Rightarrow> unit kresult \<times> bytes" where
  "sys_uname buf =
    (if length buf < 325 then (Err EINVAL, buf)
     else
       (let fill_len = min (length buf) 390; num_fields = (if length buf \<ge> 390 then 6 else 5)
        in (Ok (), fold (\<lambda>(i, field). copy_at (i * 65) (take 64 field)) (enumerate 0 (take num_fields uname_fields))
              (copy_at 0 (replicate fill_len 0) buf))))"

definition sys_sysconf :: "i32 \<Rightarrow> i64 kresult" where
  "sys_sysconf name = (case map_of [(0, 4096), (1, 0), (2, 100), (4, 1024), (6, 1), (8, 1), (11, 65536), (30, 65536)] name of
     Some v \<Rightarrow> Ok v | None \<Rightarrow> Err EINVAL)"

definition pathconf_value :: "i32 \<Rightarrow> i64 kresult" where
  "pathconf_value name =
    (case map_of [(1, 14), (2, 13), (3, 255), (4, 255), (5, 4096), (6, 4096), (7, 1), (8, 1), (9, 0)] name of
       Some v \<Rightarrow> Ok v | None \<Rightarrow> Err EINVAL)"

definition sys_fpathconf :: "i32 \<Rightarrow> i32 \<Rightarrow> Process \<Rightarrow> i64 kresult" where
  "sys_fpathconf fd name p = (case fdt_get (p_fd_table p) fd of Inl e \<Rightarrow> Err e | Inr _ \<Rightarrow> pathconf_value name)"

definition sys_getrusage :: "i32 \<Rightarrow> bytes \<Rightarrow> unit kresult \<times> bytes" where
  "sys_getrusage who buf =
    (if who \<noteq> 0 \<and> who \<noteq> - 1 then (Err EINVAL, buf)
     else if length buf < 144 then (Err EINVAL, buf)
     else (Ok (), copy_at 0 (replicate 144 0) buf))"

definition sys_sysinfo :: "bytes \<Rightarrow> unit kresult \<times> bytes" where
  "sys_sysinfo buf =
    (if length buf < 312 then (Err EFAULT, buf)
     else (Ok (), fold (\<lambda>(off, bs). copy_at off bs)
       [(0, to_le 4 (1 :: u32)), (16, to_le 4 (512 * 1024 * 1024 :: u32)), (20, to_le 4 (256 * 1024 * 1024 :: u32)),
        (40, to_le 2 (1 :: u16)), (52, to_le 4 (1 :: u32))]
       (copy_at 0 (replicate 312 0) buf)))"

definition sys_isatty :: "i32 \<Rightarrow> Process \<Rightarrow> i32 kresult" where
  "sys_isatty fd p = (case fdt_get (p_fd_table p) fd of
     Inl e \<Rightarrow> Err e
   | Inr entry \<Rightarrow> (case ofdt_get (p_ofd_table p) (ofd_ref entry) of
       None \<Rightarrow> Err EBADF
     | Some ofd \<Rightarrow> if ofd_file_type ofd \<in> {CharDevice, PtyMaster, PtySlave} then Ok 1 else Err ENOTTY))"

section \<open>The environment\<close>

text \<open>The name of an entry is what precedes the first \<open>=\<close>.\<close>

definition env_split :: "bytes \<Rightarrow> (bytes \<times> bytes) option" where
  "env_split entry = map_option (\<lambda>i. (take i entry, drop (Suc i) entry)) (position (\<lambda>b. b = 61) entry)"

definition env_named :: "bytes \<Rightarrow> bytes \<Rightarrow> bool" where
  "env_named name entry \<longleftrightarrow> map_option fst (env_split entry) = Some name"

definition sys_getenv :: "bytes \<Rightarrow> bytes \<Rightarrow> Process \<Rightarrow> nat kresult \<times> bytes" where
  "sys_getenv name buf p = (case find (env_named name) (p_environ p) of
     None \<Rightarrow> (Err ENOENT, buf)
   | Some entry \<Rightarrow>
       (let value = snd (the (env_split entry)) in
        if length buf < length value then (Err ERANGE, buf) else (Ok (length value), copy_at 0 value buf)))"

definition sys_setenv :: "bytes \<Rightarrow> bytes \<Rightarrow> bool \<Rightarrow> Process \<Rightarrow> unit kresult \<times> Process" where
  "sys_setenv name value overwrite p =
    (if name = [] \<or> 61 \<in> set name then (Err EINVAL, p)
     else
       (let new_entry = name @ [61] @ value in
        case position (env_named name) (p_environ p) of
          Some i \<Rightarrow> (Ok (), if overwrite then p\<lparr>p_environ := (p_environ p)[i := new_entry]\<rparr> else p)
        | None \<Rightarrow> (Ok (), p\<lparr>p_environ := p_environ p @ [new_entry]\<rparr>)))"

definition sys_unsetenv :: "bytes \<Rightarrow> Process \<Rightarrow> unit kresult \<times> Process" where
  "sys_unsetenv name p =
    (if name = [] \<or> 61 \<in> set name then (Err EINVAL, p)
     else (Ok (), p\<lparr>p_environ := filter (\<lambda>e. \<not> env_named name e) (p_environ p)\<rparr>))"

section \<open>Memory\<close>

abbreviation (input) MREMAP_MAYMOVE :: u32 where "MREMAP_MAYMOVE \<equiv> 1"

definition sys_mremap :: "usize \<Rightarrow> usize \<Rightarrow> usize \<Rightarrow> u32 \<Rightarrow> Process \<Rightarrow> usize kresult \<times> Process" where
  "sys_mremap old_addr old_len new_len flags p =
    (if old_len = 0 \<or> new_len = 0 then (Err EINVAL, p)
     else
       (let aligned_old = (old_len + 0xFFFF) AND NOT 0xFFFF; aligned_new = (new_len + 0xFFFF) AND NOT 0xFFFF; mm = p_memory p in
        if aligned_new \<le> aligned_old then
          (Ok old_addr,
           if aligned_new < aligned_old
           then p\<lparr>p_memory := snd (mm_munmap (old_addr + aligned_new) (aligned_old - aligned_new) mm)\<rparr> else p)
        else if mm_can_grow_at mm (old_addr + aligned_old) (aligned_new - aligned_old) then
          (Ok old_addr, p\<lparr>p_memory := mm_extend_mapping old_addr aligned_old aligned_new mm\<rparr>)
        else if flags AND MREMAP_MAYMOVE \<noteq> 0 then
          (let (new_addr, mm) = mm_mmap_anonymous 0 aligned_new 3 (MAP_PRIVATE OR MAP_ANONYMOUS) mm in
           if new_addr = MAP_FAILED then (Err ENOMEM, p\<lparr>p_memory := mm\<rparr>)
           else (Ok new_addr, p\<lparr>p_memory := snd (mm_munmap old_addr aligned_old mm)\<rparr>))
        else (Err ENOMEM, p)))"

definition map_region :: "usize \<Rightarrow> usize \<Rightarrow> u32 \<Rightarrow> u32 \<Rightarrow> Process \<Rightarrow> usize kresult \<times> Process" where
  "map_region addr len prot flags p =
    (let (a, mm) = mm_mmap_anonymous addr len prot (flags OR MAP_ANONYMOUS) (p_memory p); p = p\<lparr>p_memory := mm\<rparr>
     in (if a = MAP_FAILED then Err ENOMEM else Ok a, p))"

definition sys_mmap :: "host \<Rightarrow> usize \<Rightarrow> usize \<Rightarrow> u32 \<Rightarrow> u32 \<Rightarrow> i32 \<Rightarrow> Process \<Rightarrow> Kernel \<Rightarrow> usize kresult \<times> Process \<times> Kernel" where
  "sys_mmap host addr len prot flags fd p k =
    (let plain = (let (r, p) = map_region addr len prot flags p in (r, p, k)) in
     if flags AND MAP_ANONYMOUS \<noteq> 0 then plain
     else if sint fd < 0 then (Err EBADF, p, k)
     else (case fdt_get (p_fd_table p) fd of
       Inl e \<Rightarrow> (Err e, p, k)
     | Inr entry \<Rightarrow> (case ofdt_get (p_ofd_table p) (ofd_ref entry) of
         None \<Rightarrow> (Err EBADF, p, k)
       | Some ofd \<Rightarrow>
           if ofd_file_type ofd = CharDevice \<and> vd_from_host_handle (ofd_host_handle ofd) = Some DevFb0 then
             (if p_fb_binding p \<noteq> None \<or> len \<noteq> word_of_nat FB_SMEM_LEN then (Err EINVAL, p, k)
              else (case map_region addr len prot flags p of
                  (Inl e, p) \<Rightarrow> (Err e, p, k)
                | (Inr a, p) \<Rightarrow>
                    (Ok a, p\<lparr>p_fb_binding := Some \<lparr>fb_addr = a, fb_len = len, fb_w = FB_WIDTH, fb_h = FB_HEIGHT,
                       fb_stride = FB_LINE_LENGTH, fb_fmt = 0\<rparr>\<rparr>,
                     snd (host_call host (HostBindFramebuffer (p_pid p) a len FB_WIDTH FB_HEIGHT FB_LINE_LENGTH 0) k))))
           else plain)))"

definition sys_munmap :: "host \<Rightarrow> usize \<Rightarrow> usize \<Rightarrow> Process \<Rightarrow> Kernel \<Rightarrow> unit kresult \<times> Process \<times> Kernel" where
  "sys_munmap host addr len p k =
    (if len = 0 \<or> addr AND 0xFFFF \<noteq> 0 \<or> checked_add addr len = None then (Err EINVAL, p, k)
     else
       (let fb_release = (case p_fb_binding p of
              None \<Rightarrow> False
            | Some b \<Rightarrow> addr \<le> fb_addr b \<and> saturating_add addr len \<ge> saturating_add (fb_addr b) (fb_len b));
            (p, k) = (if fb_release then
               (let p = p\<lparr>p_fb_binding := None\<rparr>; k = snd (host_call host (HostUnbindFramebuffer (p_pid p)) k)
                in (p, if proc_has_device_fd DevFb0 p then k else maybe_release_fb0 (p_pid p) k))
              else (p, k))
        in (Ok (), p\<lparr>p_memory := snd (mm_munmap addr len (p_memory p))\<rparr>, k)))"

definition sys_brk :: "usize \<Rightarrow> Process \<Rightarrow> usize \<times> Process" where
  "sys_brk addr p =
    (if addr = 0 then (mm_get_brk (p_memory p), p)
     else (let (r, mm) = mm_set_brk addr (p_memory p) in (r, p\<lparr>p_memory := mm\<rparr>)))"

section \<open>Time\<close>

definition sys_time :: "host \<Rightarrow> Kernel \<Rightarrow> i64 kresult \<times> Kernel" where
  "sys_time host k = (let (r, k) = host_clock_gettime host 0 k in (case r of Inl e \<Rightarrow> Err e | Inr (sec, _) \<Rightarrow> Ok sec, k))"

definition sys_gettimeofday :: "host \<Rightarrow> Kernel \<Rightarrow> (i64 \<times> i64) kresult \<times> Kernel" where
  "sys_gettimeofday host k =
    (let (r, k) = host_clock_gettime host 0 k in (case r of Inl e \<Rightarrow> Err e | Inr (sec, nsec) \<Rightarrow> Ok (sec, i64_div nsec 1000), k))"

text \<open>A sleep of the given length, during which other threads run.\<close>

definition sleep_for :: "host \<Rightarrow> i64 \<Rightarrow> i64 \<Rightarrow> Process \<Rightarrow> Kernel \<Rightarrow> unit kresult \<times> Process \<times> Kernel" where
  "sleep_for host sec nsec p k =
    (let (r, k) = host_unit host (HostNanosleep sec nsec) k; (p, k) = h_others host (k_calls k) (p, k) in (r, p, k))"

definition timespec_ok :: "i64 \<Rightarrow> i64 \<Rightarrow> bool" where
  "timespec_ok sec nsec \<longleftrightarrow> \<not> (sint sec < 0 \<or> sint nsec < 0 \<or> 1000000000 \<le> sint nsec)"

definition sys_nanosleep :: "host \<Rightarrow> i64 \<Rightarrow> i64 \<Rightarrow> Process \<Rightarrow> Kernel \<Rightarrow> unit kresult \<times> Process \<times> Kernel" where
  "sys_nanosleep host sec nsec p k =
    (if \<not> timespec_ok sec nsec then (Err EINVAL, p, k)
     else if is_centralized_mode k then (Ok (), p, k)
     else sleep_for host sec nsec p k)"

definition sys_usleep :: "host \<Rightarrow> u32 \<Rightarrow> Process \<Rightarrow> Kernel \<Rightarrow> unit kresult \<times> Process \<times> Kernel" where
  "sys_usleep host usec p k = sleep_for host (ucast (usec div 1000000)) (ucast ((usec mod 1000000) * 1000)) p k"

definition sys_clock_getres :: "u32 \<Rightarrow> (i64 \<times> i64) kresult" where
  "sys_clock_getres clock_id = (if clock_id \<in> {0, 1, 2, 3} \<or> clock_id AND 7 = 2 then Ok (0, 1000000) else Err EINVAL)"

text \<open>In the centralised mode the remaining time is left in the memory of the request for the host.\<close>

definition sys_clock_nanosleep ::
    "host \<Rightarrow> u32 \<Rightarrow> u32 \<Rightarrow> i64 \<Rightarrow> i64 \<Rightarrow> bytes \<Rightarrow> Process \<Rightarrow> Kernel \<Rightarrow> (unit kresult \<times> bytes) \<times> Process \<times> Kernel" where
  "sys_clock_nanosleep host clock_id flags sec nsec req p k =
    (if clock_id \<notin> {0, 1} \<or> \<not> timespec_ok sec nsec then ((Err EINVAL, req), p, k)
     else if flags AND 1 \<noteq> 0 then
       (case host_clock_gettime host clock_id k of
          (Inl e, k) \<Rightarrow> ((Err e, req), p, k)
        | (Inr (now_sec, now_nsec), k) \<Rightarrow>
            (let s = sec - now_sec; ns = nsec - now_nsec;
                 (s, ns) = (if sint ns < 0 then (s - 1, ns + 1000000000) else (s, ns))
             in if is_centralized_mode k then
                  ((Ok (), copy_at 0 (if sint s < 0 then replicate 16 0 else to_le 8 s @ to_le 8 ns) req), p, k)
                else if sint s < 0 then ((Ok (), req), p, k)
                else (let (r, p, k) = sleep_for host s ns p k in ((r, req), p, k))))
     else if is_centralized_mode k then ((Ok (), req), p, k)
     else (let (r, p, k) = sleep_for host sec nsec p k in ((r, req), p, k)))"

section \<open>Ending and replacing the program\<close>

definition close_all :: "host \<Rightarrow> Process \<times> Kernel \<Rightarrow> Process \<times> Kernel" where
  "close_all host = fold (\<lambda>fd (p, k). snd (sys_close host (word_of_nat fd) p k)) [0..<1024]"

definition close_dir_stream :: "host \<Rightarrow> nat \<Rightarrow> Process \<times> Kernel \<Rightarrow> Process \<times> Kernel" where
  "close_dir_stream host i = (\<lambda>(p, k). case slot_get (p_dir_streams p) i of
     None \<Rightarrow> (p, k)
   | Some stream \<Rightarrow> (p\<lparr>p_dir_streams := (p_dir_streams p)[i := None]\<rparr>, snd (host_unit host (HostClosedir (ds_host_handle stream)) k)))"

definition sys_exit :: "host \<Rightarrow> i32 \<Rightarrow> Process \<Rightarrow> Kernel \<Rightarrow> Process \<times> Kernel" where
  "sys_exit host status p k =
    (let (p, k) = close_all host (p, k);
         (p, k) = fold (close_dir_stream host) [0..<length (p_dir_streams p)] (p, k)
     in (p\<lparr>p_lock_table := lt_remove_all_for_pid (p_pid p) (p_lock_table p), p_state := Exited, p_exit_status := status\<rparr>, k))"

definition sys_raise :: "host \<Rightarrow> u32 \<Rightarrow> Process \<Rightarrow> Kernel \<Rightarrow> unit kresult \<times> Process \<times> Kernel" where
  "sys_raise host sig p k = sys_kill host (p_pid p) sig p k"

definition sys_execve :: "host \<Rightarrow> bytes \<Rightarrow> Process \<Rightarrow> Kernel \<Rightarrow> unit kresult \<times> Process \<times> Kernel" where
  "sys_execve host path p k =
    (if path = [] then (Err ENOENT, p, k)
     else
       (let (p, k) = (if p_fb_binding p \<noteq> None
              then (p\<lparr>p_fb_binding := None\<rparr>, maybe_release_fb0 (p_pid p) (snd (host_call host (HostUnbindFramebuffer (p_pid p)) k)))
              else (p, k));
            k = maybe_release_dsp (p_pid p) (maybe_release_mice (p_pid p) k);
            (r, k) = host_unit host (HostExec (resolve_path path (p_cwd p))) k
        in (r, p, k)))"

definition sys_execveat :: "host \<Rightarrow> i32 \<Rightarrow> bytes \<Rightarrow> u32 \<Rightarrow> Process \<Rightarrow> Kernel \<Rightarrow> unit kresult \<times> Kernel" where
  "sys_execveat host dirfd path flags p k =
    (let fd_path = (case fdt_get (p_fd_table p) dirfd of
           Inl e \<Rightarrow> Err e
         | Inr entry \<Rightarrow> (case ofdt_get (p_ofd_table p) (ofd_ref entry) of None \<Rightarrow> Err EBADF | Some ofd \<Rightarrow> Ok (ofd_path ofd)))
     in if flags AND 0x1000 \<noteq> 0 \<and> path = [] then
          (case fd_path of
             Inl e \<Rightarrow> (Err e, k)
           | Inr exec_path \<Rightarrow> if exec_path = [] then (Err ENOENT, k) else host_unit host (HostExec exec_path) k)
        else if path = [] then (Err ENOENT, k)
        else if hd path = 47 then host_unit host (HostExec path) k
        else (case (if dirfd = - 100 then Ok (p_cwd p) else fd_path) of
            Inl e \<Rightarrow> (Err e, k)
          | Inr base \<Rightarrow> host_unit host (HostExec (resolve_path path base)) k))"

end
