(* ===== verification/Proc_Correct.thy ===== *)
theory Proc_Correct
  imports Proc_Calls Files_Correct
begin

text \<open>
  The calls of a process on itself are correct: privileges are not regained, the settings stay within their
  types, the environment is a map, growing a mapping extends it, and an exit releases what the process holds.
\<close>

section \<open>Privileges\<close>

datatype cred_call = Setuid u32 | Setgid u32 | Seteuid u32 | Setegid u32

fun cred_exec :: "cred_call \<Rightarrow> Process \<Rightarrow> Process" where
  "cred_exec (Setuid u) p = snd (sys_setuid u p)"
| "cred_exec (Setgid g) p = snd (sys_setgid g p)"
| "cred_exec (Seteuid u) p = snd (sys_seteuid u p)"
| "cred_exec (Setegid g) p = snd (sys_setegid g p)"

lemma cred_step:
  assumes "p_uid p \<noteq> 0" "p_euid p \<noteq> 0"
  shows "p_uid (cred_exec c p) = p_uid p" "p_gid (cred_exec c p) = p_gid p"
    "p_euid (cred_exec c p) \<in> {p_uid p, p_euid p}" "p_egid (cred_exec c p) \<in> {p_gid p, p_egid p}"
  using assms by (cases c; simp add: sys_setuid_def sys_setgid_def sys_seteuid_def sys_setegid_def)+

text \<open>
  C16: a process without privileges cannot get any. If neither the real nor the effective user is root, then
  after any sequence of \<open>setuid\<close>, \<open>setgid\<close>, \<open>seteuid\<close> and \<open>setegid\<close> the real user and group are those from
  before, and the effective ones are the real ones or those from before; so no identity is reached that the
  process did not have, and none of them is root.
\<close>

theorem unprivileged_stays_unprivileged:
  assumes "p_uid p \<noteq> 0" "p_euid p \<noteq> 0"
  shows "let q = fold cred_exec cs p in p_uid q = p_uid p \<and> p_gid q = p_gid p \<and>
    p_euid q \<in> {p_uid p, p_euid p} \<and> p_egid q \<in> {p_gid p, p_egid p} \<and> p_euid q \<noteq> 0"
  using assms
proof (induction cs arbitrary: p)
  case (Cons c cs)
  note s = cred_step [OF Cons.prems, of c]
  have "p_uid (cred_exec c p) \<noteq> 0" "p_euid (cred_exec c p) \<noteq> 0" using s(1,3) Cons.prems by auto
  from Cons.IH [OF this] s show ?case by (auto simp: Let_def)
qed (simp add: Let_def)

theorem unprivileged_stays_unprivileged_witness:
  "p_euid (fold cred_exec [Setuid 0, Seteuid 5, Setuid 7] ((process_new 3)\<lparr>p_uid := 5, p_euid := 6\<rparr>)) \<noteq> 0"
  using unprivileged_stays_unprivileged [of "(process_new 3)\<lparr>p_uid := 5, p_euid := 6\<rparr>" "[Setuid 0, Seteuid 5, Setuid 7]"]
  by (simp add: Let_def)

section \<open>Settings keep their types\<close>

datatype setting_call =
    Setpriority i32 u32 i32
  | Setrlimit u32 u64 u64
  | Umask u32
  | Prctl u32 bytes
  | Setpgid u32 u32
  | Setsid
  | Brk usize

fun setting_exec :: "setting_call \<Rightarrow> Process \<Rightarrow> Process" where
  "setting_exec (Setpriority which who prio) p = snd (sys_setpriority which who prio p)"
| "setting_exec (Setrlimit r soft hard) p = snd (sys_setrlimit r soft hard p)"
| "setting_exec (Umask m) p = snd (sys_umask m p)"
| "setting_exec (Prctl opt buf) p = snd (sys_prctl opt buf p)"
| "setting_exec (Setpgid pid pgid) p = snd (sys_setpgid pid pgid p)"
| "setting_exec Setsid p = snd (sys_setsid p)"
| "setting_exec (Brk addr) p = snd (sys_brk addr p)"

text \<open>
  The ranges of the fields, and the copies of two limits in the components that apply them.
\<close>

definition settings_wf :: "Process \<Rightarrow> bool" where
  "settings_wf p \<longleftrightarrow> - 20 \<le> sint (p_nice p) \<and> sint (p_nice p) \<le> 19 \<and> p_umask p \<le> 511 \<and>
     length (p_rlimits p) = 16 \<and> (\<forall>(soft, hard)\<in>set (p_rlimits p). soft \<le> hard) \<and>
     length (p_thread_name p) = 16 \<and> last (p_thread_name p) = 0 \<and>
     fdt_max_fds (p_fd_table p) = (let soft = fst (p_rlimits p ! 7) in if soft = - 1 then 1024 * 1024 else unat soft) \<and>
     mm_data_limit (p_memory p) = fst (p_rlimits p ! 2) \<and>
     (p_is_session_leader p \<longrightarrow> p_sid p = p_pid p \<and> p_pgid p = p_pid p)"

lemma settings_wf_new: "settings_wf (process_new pid)"
proof -
  have f: "p_nice (process_new pid) = 0" "p_umask (process_new pid) = 18" "p_thread_name (process_new pid) = replicate 16 0"
    "p_is_session_leader (process_new pid) = False"
    "p_rlimits (process_new pid) = (replicate 16 (- 1, - 1))[7 := (1024, 4096), 3 := (8 * 1024 * 1024, - 1)]"
    by (simp_all add: process_new_def Let_def case_prod_unfold)
  let ?l = "(replicate 16 (- 1, - 1))[7 := (1024, 4096), 3 := (8 * 1024 * 1024, - 1)] :: (u64 \<times> u64) list"
  have "set ?l \<subseteq> {(8 * 1024 * 1024, - 1), (1024, 4096), (- 1, - 1)}"
    using set_update_subset_insert [of "(replicate 16 (- 1, - 1))[7 := (1024, 4096)]" 3 "(8 * 1024 * 1024, - 1) :: u64 \<times> u64"]
      set_update_subset_insert [of "replicate 16 (- 1, - 1)" 7 "(1024, 4096) :: u64 \<times> u64"] by auto
  then have "\<forall>(soft, hard)\<in>set ?l. soft \<le> hard" by fastforce
  moreover have "?l ! 7 = (1024, 4096)" "?l ! 2 = (- 1, - 1)" "length ?l = 16" by simp_all
  ultimately show ?thesis
    unfolding settings_wf_def process_new_fields(2,12) f by (simp add: mm_new_def last_replicate)
qed

lemma clamp_nice: "sint (word_of_int (min (max x (- 20)) 19) :: i32) = min (max x (- 20)) 19"
  by (simp add: signed_of_int signed_take_bit_int_eq_self)

lemma last_thread_name: "n \<le> 15 \<Longrightarrow> n \<le> length buf \<Longrightarrow> last (copy_at 0 (take n buf) (replicate 16 (0 :: u8))) = 0"
  by (simp add: copy_at_def)

lemma setrlimit_wf:
  assumes "settings_wf p"
  shows "settings_wf (snd (sys_setrlimit r soft hard p))"
proof (cases "16 \<le> unat r \<or> soft > hard")
  case True
  then show ?thesis using assms by (simp add: sys_setrlimit_def)
next
  case False
  have r: "r = 7 \<longleftrightarrow> unat r = 7" "r = 2 \<longleftrightarrow> unat r = 2" by (auto simp: word_unat_eq_iff)
  have l: "length (p_rlimits p) = 16" using assms by (simp add: settings_wf_def)
  have "\<forall>(s, h)\<in>set ((p_rlimits p)[unat r := (soft, hard)]). s \<le> h"
    using assms False by (auto simp: settings_wf_def not_less dest!: set_update_subset_insert [THEN subsetD])
  with False assms l show ?thesis
    by (auto simp: sys_setrlimit_def settings_wf_def Let_def r nth_list_update fdt_set_max_fds_def mm_set_data_limit_def)
qed

lemma setting_exec_wf:
  assumes "settings_wf p"
  shows "settings_wf (setting_exec c p)"
proof (cases c)
  case (Setpriority which who prio)
  then show ?thesis using assms by (auto simp: settings_wf_def sys_setpriority_def clamp_nice)
next
  case (Setrlimit r soft hard)
  then show ?thesis using setrlimit_wf [OF assms] by simp
next
  case (Umask m)
  have "m AND 511 \<le> 511" by (rule word_and_le1)
  then show ?thesis using Umask assms by (simp add: settings_wf_def sys_umask_def)
next
  case (Prctl opt buf)
  have "(case position (\<lambda>b. b = 0) buf of None \<Rightarrow> length buf | Some i \<Rightarrow> i) \<le> length buf"
    by (auto simp: position_Some_iff split: option.split)
  then show ?thesis
    using Prctl assms by (auto simp: settings_wf_def sys_prctl_def Let_def last_thread_name copy_at_def)
next
  case (Setpgid pid pgid)
  then show ?thesis using assms by (auto simp: settings_wf_def sys_setpgid_def)
next
  case Setsid
  then show ?thesis using assms by (auto simp: settings_wf_def sys_setsid_def)
next
  case (Brk addr)
  then show ?thesis using assms by (auto simp: settings_wf_def sys_brk_def mm_set_brk_def Let_def split: prod.split)
qed

text \<open>
  C26: the settings of a process keep their types. From a new process on, and whatever the arguments, every
  sequence of \<open>setpriority\<close>, \<open>setrlimit\<close>, \<open>umask\<close>, \<open>prctl\<close>, \<open>setpgid\<close>, \<open>setsid\<close> and \<open>brk\<close> leaves the nice value
  in -20 to 19, the file mode mask within the permission bits, every soft limit at most its hard limit, the
  thread name terminated within its 16 bytes, the descriptor table and the memory manager with the limits that
  \<open>getrlimit\<close> shows, and a session leader in its own session and group.
\<close>

theorem settings_keep_types: "settings_wf (fold setting_exec cs (process_new pid))"
proof -
  have "settings_wf (fold setting_exec cs p)" if "settings_wf p" for p
    using that by (induction cs arbitrary: p) (simp_all add: setting_exec_wf)
  then show ?thesis using settings_wf_new .
qed

section \<open>The environment\<close>

text \<open>The value of a name is that of the first entry with this name.\<close>

definition env_value :: "Process \<Rightarrow> bytes \<rightharpoonup> bytes" where
  "env_value p name = Option.bind (find (env_named name) (p_environ p)) (\<lambda>e. map_option snd (env_split e))"

lemma env_split_entry:
  assumes "61 \<notin> set name"
  shows "env_split (name @ [61] @ v) = Some (name, v)"
proof -
  have "position (\<lambda>b. b = 61) (name @ [61] @ v) = Some (length name)"
    using assms by (induction name) auto
  then show ?thesis by (simp add: env_split_def)
qed

lemma env_named_entry: "61 \<notin> set name \<Longrightarrow> env_named n (name @ 61 # v) \<longleftrightarrow> n = name"
  using env_split_entry [of name v] by (auto simp: env_named_def)

lemma find_append: "find P (xs @ ys) = (case find P xs of None \<Rightarrow> find P ys | Some x \<Rightarrow> Some x)"
  by (induction xs) auto

lemma setenv_value:
  assumes "name \<noteq> []" "61 \<notin> set name"
  shows "env_value (snd (sys_setenv name v overwrite p)) =
    (if overwrite \<or> name \<notin> dom (env_value p) then (env_value p)(name \<mapsto> v) else env_value p)"
proof (cases "position (env_named name) (p_environ p)")
  case None
  then have n: "find (env_named name) (p_environ p) = None" by (auto simp: position_None_iff find_None_iff)
  then have d: "name \<notin> dom (env_value p)" by (auto simp: env_value_def)
  have "env_value (p\<lparr>p_environ := p_environ p @ [name @ [61] @ v]\<rparr>) = (env_value p)(name \<mapsto> v)"
    using n assms env_split_entry [OF assms(2), of v]
    by (auto simp: env_value_def find_append env_named_entry fun_eq_iff split: option.split)
  with None d assms show ?thesis by (simp add: sys_setenv_def Let_def)
next
  case (Some i)
  from position_split [OF Some] obtain xs e ys where e: "p_environ p = xs @ e # ys" "i = length xs" "env_named name e"
      "\<forall>x\<in>set xs. \<not> env_named name x"
    by (metis length_take min.absorb4)
  have x: "find (env_named name) xs = None" using e(4) by (simp add: find_None_iff)
  have d: "name \<in> dom (env_value p)"
    using e(3) by (auto simp: env_value_def e(1) find_append x env_named_def)
  have other: "n \<noteq> name \<Longrightarrow> \<not> env_named n e" for n using e(3) by (auto simp: env_named_def)
  have "env_value (p\<lparr>p_environ := (p_environ p)[i := name @ [61] @ v]\<rparr>) = (env_value p)(name \<mapsto> v)"
    using assms env_split_entry [OF assms(2), of v] other
    by (auto simp: env_value_def e(1,2) find_append x env_named_entry fun_eq_iff split: option.split)
  with Some d assms show ?thesis by (simp add: sys_setenv_def Let_def)
qed

lemma unsetenv_value:
  assumes "name \<noteq> []" "61 \<notin> set name"
  shows "env_value (snd (sys_unsetenv name p)) = (env_value p)(name := None)"
proof
  fix n
  have "env_named n e \<Longrightarrow> env_named name e \<Longrightarrow> n = name" for e by (auto simp: env_named_def)
  then have "find (env_named n) (filter (\<lambda>e. \<not> env_named name e) es) = (if n = name then None else find (env_named n) es)" for es
    by (cases "n = name"; induction es) auto
  with assms show "env_value (snd (sys_unsetenv name p)) n = ((env_value p)(name := None)) n"
    by (simp add: env_value_def sys_unsetenv_def)
qed

lemma getenv_value:
  "sys_getenv name buf p = (case env_value p name of
     None \<Rightarrow> (Err ENOENT, buf)
   | Some v \<Rightarrow> if length buf < length v then (Err ERANGE, buf) else (Ok (length v), copy_at 0 v buf))"
proof (cases "find (env_named name) (p_environ p)")
  case (Some e)
  then have "env_named name e" by (auto simp: find_Some_iff)
  then obtain v where "env_split e = Some (name, v)" by (auto simp: env_named_def)
  with Some show ?thesis by (simp add: sys_getenv_def env_value_def)
qed (simp add: sys_getenv_def env_value_def)

datatype env_call = Setenv bytes bytes bool | Unsetenv bytes

fun env_exec :: "env_call \<Rightarrow> Process \<Rightarrow> Process" where
  "env_exec (Setenv name v ow) p = snd (sys_setenv name v ow p)"
| "env_exec (Unsetenv name) p = snd (sys_unsetenv name p)"

text \<open>What a call does to a map from names to values; names that are empty or contain \<open>=\<close> are refused.\<close>

fun env_spec :: "env_call \<Rightarrow> (bytes \<rightharpoonup> bytes) \<Rightarrow> bytes \<rightharpoonup> bytes" where
  "env_spec (Setenv name v ow) m =
    (if name = [] \<or> 61 \<in> set name \<or> \<not> ow \<and> name \<in> dom m then m else m(name \<mapsto> v))"
| "env_spec (Unsetenv name) m = (if name = [] \<or> 61 \<in> set name then m else m(name := None))"

lemma env_exec_refines: "env_value (env_exec c p) = env_spec c (env_value p)"
proof (cases c)
  case (Setenv name v ow)
  then show ?thesis
    using setenv_value [of name v ow p] by (cases "name = [] \<or> 61 \<in> set name") (auto simp: sys_setenv_def)
next
  case (Unsetenv name)
  then show ?thesis
    using unsetenv_value [of name p] by (cases "name = [] \<or> 61 \<in> set name") (auto simp: sys_unsetenv_def)
qed

text \<open>
  C25: the environment is a map from names to values. After any sequence of \<open>setenv\<close> and \<open>unsetenv\<close> from any
  environment, also one with repeated names or entries without \<open>=\<close>, \<open>getenv\<close> gives what the same sequence of
  updates of a map gives: \<open>ENOENT\<close> for a name that is not bound, \<open>ERANGE\<close> for a value that does not fit, and
  otherwise the value and its length.
\<close>

theorem environment_is_map:
  "sys_getenv name buf (fold env_exec cs p) = (case fold env_spec cs (env_value p) name of
     None \<Rightarrow> (Err ENOENT, buf)
   | Some v \<Rightarrow> if length buf < length v then (Err ERANGE, buf) else (Ok (length v), copy_at 0 v buf))"
proof -
  have "env_value (fold env_exec cs p) = fold env_spec cs (env_value p)"
    by (induction cs arbitrary: p) (simp_all add: env_exec_refines)
  then show ?thesis by (simp add: getenv_value)
qed

section \<open>Exit\<close>

definition close_range :: "host \<Rightarrow> nat \<Rightarrow> Process \<times> Kernel \<Rightarrow> Process \<times> Kernel" where
  "close_range host n = fold (\<lambda>fd (p, k). snd (sys_close host (word_of_nat fd) p k)) [0..<n]"

lemma close_range_closes:
  assumes "counted p" "n \<le> 1024" "close_range host n (p, k) = (p', k')"
  shows "counted p' \<and> fd_map p' = (\<lambda>fd. if fd < n then None else fd_map p fd)"
  using assms(2,3)
proof (induction n arbitrary: p' k')
  case 0
  with assms(1) show ?case by (simp add: close_range_def)
next
  case (Suc n)
  obtain q l where q: "close_range host n (p, k) = (q, l)" by fastforce
  obtain r where r: "sys_close host (word_of_nat n) q l = (r, p', k')"
    using Suc.prems(2) q by (auto simp: close_range_def) (metis prod.collapse)
  have n: "sint (word_of_nat n :: i32) = int n"
    using Suc.prems(1) by (simp add: signed_of_nat signed_take_bit_int_eq_self)
  from Suc.IH [OF _ q] Suc.prems(1) have IH: "counted q" "fd_map q = (\<lambda>fd. if fd < n then None else fd_map p fd)" by auto
  from sys_close_effect [OF IH(1) r] n IH(2) show ?case by (auto simp: fun_eq_iff)
qed

lemma close_dir_streams:
  assumes "fold (close_dir_stream host) [0..<n] (p, k) = (p', k')" "n \<le> length (p_dir_streams p)"
  shows "p_fd_table p' = p_fd_table p \<and> length (p_dir_streams p') = length (p_dir_streams p) \<and>
    (\<forall>i. slot_get (p_dir_streams p') i = (if i < n then None else slot_get (p_dir_streams p) i))"
  using assms
proof (induction n arbitrary: p' k')
  case (Suc n)
  obtain q l where q: "fold (close_dir_stream host) [0..<n] (p, k) = (q, l)" by fastforce
  with Suc.prems(1) have r: "close_dir_stream host n (q, l) = (p', k')" by simp
  from Suc.IH [OF q] Suc.prems(2) r show ?case
    by (auto simp: close_dir_stream_def less_Suc_eq split: option.splits if_splits)
qed simp

text \<open>
  C27: exit releases what the process holds. When the reference counts are right, as they are after any
  sequence of descriptor calls, the process has then exited with the given status, every descriptor below 1024 is
  closed, every directory stream is closed and no advisory lock of the process is left. Descriptors from 1024 on,
  which a raised limit allows, stay as they are.
\<close>

theorem exit_releases:
  assumes "counted p" "sys_exit host status p k = (p', k')"
  shows "p_state p' = Exited \<and> p_exit_status p' = status \<and>
    fd_map p' = (\<lambda>fd. if fd < 1024 then None else fd_map p fd) \<and>
    (\<forall>i. slot_get (p_dir_streams p') i = None) \<and> list_all (\<lambda>(h, l). fl_pid l \<noteq> p_pid p') (p_lock_table p')"
proof -
  obtain q l where q: "close_range host 1024 (p, k) = (q, l)" by fastforce
  then have all: "close_all host (p, k) = (q, l)" by (simp add: close_all_def close_range_def)
  obtain s m where s: "fold (close_dir_stream host) [0..<length (p_dir_streams q)] (q, l) = (s, m)" by fastforce
  note dirs = close_dir_streams [OF s order_refl] and fds = close_range_closes [OF assms(1) order_refl q]
  have p': "p' = s\<lparr>p_lock_table := lt_remove_all_for_pid (p_pid s) (p_lock_table s), p_state := Exited, p_exit_status := status\<rparr>"
    using assms(2) by (simp add: sys_exit_def all s del: upt_Suc)
  have "fd_map p' = fd_map q" using dirs by (simp add: p' fd_map_def)
  moreover have "slot_get (p_dir_streams p') i = None" for i
    using dirs slot_get_beyond [of "p_dir_streams q" i] by (simp add: p' not_less)
  moreover have "list_all (\<lambda>(h, l). fl_pid l \<noteq> p_pid p') (p_lock_table p')"
    by (auto simp: p' lt_remove_all_for_pid_def list_all_iff)
  ultimately show ?thesis using fds by (simp add: p')
qed

theorem exit_releases_witness:
  "\<exists>p' k'. sys_exit quiet_host 3 (process_new 7) kernel_new = (p', k') \<and> p_state p' = Exited \<and> fd_map p' 1 = None \<and>
    fd_map (process_new 7) 1 \<noteq> None"
proof -
  obtain p' k' where r: "sys_exit quiet_host 3 (process_new 7) kernel_new = (p', k')" by fastforce
  have "fd_map (process_new 7) 1 \<noteq> None" by (simp add: fd_map_def process_new_fields fdt_map_def slot_get_def)
  with exit_releases [OF counted_process_new r] r show ?thesis by auto
qed

section \<open>Growing a mapping\<close>

lemma extend_first_split:
  assumes "m \<in> set ms" "mr_addr m = a" "mr_len m = l" "sorted_wrt mr_before ms" "list_all mr_ok ms"
  shows "\<exists>xs ys. ms = xs @ m # ys \<and> extend_first a l n ms = xs @ m\<lparr>mr_len := n\<rparr> # ys"
  using assms
proof (induction ms)
  case (Cons x ms)
  show ?case
  proof (cases "x = m")
    case True
    then have "x # ms = [] @ m # ms \<and> extend_first a l n (x # ms) = [] @ m\<lparr>mr_len := n\<rparr> # ms" using Cons.prems(2,3) by simp
    then show ?thesis by blast
  next
    case False
    then have m: "m \<in> set ms" using Cons.prems(1) by auto
    then have "mr_before x m" "mr_ok x" using Cons.prems(4,5) by auto
    then have "mr_addr x \<noteq> a"
      using Cons.prems(2) by (auto simp: mr_before_def mr_ok_def word_unat_eq_iff)
    moreover obtain xs ys where "ms = xs @ m # ys" "extend_first a l n ms = xs @ m\<lparr>mr_len := n\<rparr> # ys"
      using Cons.IH [OF m Cons.prems(2,3)] Cons.prems(4,5) by auto
    ultimately have "x # ms = (x # xs) @ m # ys \<and> extend_first a l n (x # ms) = (x # xs) @ m\<lparr>mr_len := n\<rparr> # ys" by simp
    then show ?thesis by blast
  qed
qed simp

text \<open>The space behind a mapping that can grow is free.\<close>

lemma grow_room:
  assumes "mm_wf mm" "m \<in> set (mm_mappings mm)" "mr_len m < n" "mm_can_grow_at mm (mr_addr m + mr_len m) (n - mr_len m)"
  shows "unat (mr_addr m) + unat n < 2 ^ 64"
    "y \<in> set (mm_mappings mm) \<Longrightarrow> mr_before m y \<Longrightarrow> unat (mr_addr m) + unat n \<le> unat (mr_addr y)"
proof -
  have ok: "mr_ok r" if "r \<in> set (mm_mappings mm)" for r using that assms(1) by (simp add: mm_wf_def list_all_iff)
  have e: "unat (mr_addr m + mr_len m) = unat (mr_addr m) + unat (mr_len m)"
    using ok [OF assms(2)] by (simp add: mr_ok_def unat_add_lem [THEN iffD1])
  have d: "unat (n - mr_len m) = unat n - unat (mr_len m)" "unat (mr_len m) < unat n"
    using assms(3) unat_sub [of "mr_len m" n] by (simp_all add: word_less_nat_alt word_le_nat_alt)
  obtain e' where g: "checked_add (mr_addr m + mr_len m) (n - mr_len m) = Some e'"
      "list_all (\<lambda>r. \<not> (mr_addr m + mr_len m < mr_end r \<and> e' > mr_addr r)) (mm_mappings mm)"
    using assms(4) by (auto simp: mm_can_grow_at_def split: option.splits if_splits)
  have E: "unat e' = unat (mr_addr m) + unat n" using checked_add_SomeD [OF g(1)] e d by simp
  have "unat e' < 2 ^ LENGTH(64)" by (rule unsigned_less)
  then show "unat (mr_addr m) + unat n < 2 ^ 64" using E by simp
  show "unat (mr_addr m) + unat n \<le> unat (mr_addr y)" if y: "y \<in> set (mm_mappings mm)" "mr_before m y"
  proof -
    have "unat (mr_addr m + mr_len m) < unat (mr_end y)"
      using y(2) ok [OF y(1)] by (simp add: e unat_mr_end mr_before_def mr_ok_def word_neq_0_conv word_less_nat_alt)
    then have "\<not> mr_addr y < e'" using g(2) y(1) by (auto simp: list_all_iff word_less_nat_alt)
    then show ?thesis by (simp add: E word_less_nat_alt)
  qed
qed

text \<open>The grown mapping takes in the free space behind it and nothing else.\<close>

lemma extend_mapping_prot:
  assumes "mm_wf mm" "m \<in> set (mm_mappings mm)" "mr_len m < n" "mm_can_grow_at mm (mr_addr m + mr_len m) (n - mr_len m)"
  defines "mm' \<equiv> mm_extend_mapping (mr_addr m) (mr_len m) n mm"
  shows "mm_wf mm'"
    "prot_at (mm_mappings mm') x = (if unat (mr_addr m) \<le> x \<and> x < unat (mr_addr m) + unat n then Some (mr_prot m, mr_flags m)
       else prot_at (mm_mappings mm) x)"
proof -
  let ?ms = "mm_mappings mm"
  have s: "sorted_wrt mr_before ?ms" "list_all mr_ok ?ms" using assms(1) by (simp_all add: mm_wf_def)
  obtain xs ys where ms: "?ms = xs @ m # ys" "mm_mappings mm' = xs @ m\<lparr>mr_len := n\<rparr> # ys"
    using extend_first_split [OF assms(2) refl refl s, of n] by (auto simp: mm'_def mm_extend_mapping_def)
  have le: "unat (mr_len m) < unat n" using assms(3) by (simp add: word_less_nat_alt)
  have after: "unat (mr_addr m) + unat n \<le> unat (mr_addr y)" if "y \<in> set ys" for y
    using that s(1) grow_room(2) [OF assms(1-4)] by (auto simp: ms(1) sorted_wrt_append)
  have before: "unat (mr_addr r) + unat (mr_len r) \<le> unat (mr_addr m)" if "r \<in> set xs" for r
    using that s(1) by (auto simp: ms(1) sorted_wrt_append mr_before_def)
  have ok': "mr_ok (m\<lparr>mr_len := n\<rparr>)" using grow_room(1) [OF assms(1-4)] le by (auto simp: mr_ok_def)
  have "sorted_wrt mr_before (mm_mappings mm')" "list_all mr_ok (mm_mappings mm')"
    using s after ok' by (auto simp: ms sorted_wrt_append mr_before_def)
  moreover have "mm_max_addr mm' = mm_max_addr mm" by (simp add: mm'_def mm_extend_mapping_def)
  ultimately show "mm_wf mm'" using assms(1) by (simp add: mm_wf_def)
  show "prot_at (mm_mappings mm') x = (if unat (mr_addr m) \<le> x \<and> x < unat (mr_addr m) + unat n then Some (mr_prot m, mr_flags m)
       else prot_at ?ms x)"
  proof (cases "unat (mr_addr m) \<le> x \<and> x < unat (mr_addr m) + unat n")
    case True
    then have "prot_at xs x = None" using before by (fastforce simp: prot_at_None_iff in_region_def)
    with True show ?thesis by (simp add: ms(2) prot_at_append prot_at_Cons in_region_def)
  next
    case False
    then have "\<not> in_region x m" "\<not> in_region x (m\<lparr>mr_len := n\<rparr>)" using le by (auto simp: in_region_def)
    then show ?thesis unfolding ms prot_at_append prot_at_Cons using False by (auto split: option.split)
  qed
qed

lemma extend_first_none:
  "\<forall>m\<in>set ms. \<not> (mr_addr m = a \<and> mr_len m = l) \<Longrightarrow> extend_first a l n ms = ms"
  by (induction ms) auto

text \<open>Lengths that are multiples of the page size.\<close>

definition pages :: "usize \<Rightarrow> bool" where
  "pages n \<longleftrightarrow> n \<noteq> 0 \<and> (n + 0xFFFF) AND NOT 0xFFFF = n"

text \<open>
  C40: \<open>mremap\<close> that grows in place extends a mapping exactly, but only a whole one. For lengths in pages and
  enough free space behind the range, the call succeeds and keeps the address. If the old range is a whole mapping,
  the grown range is mapped with its protection afterwards, every other address is as before, and the table stays
  sorted and disjoint. If the old range is not a whole mapping, for instance the end of one, the call reports the same
  success although nothing is recorded: the space behind the range is still free for the next \<open>mmap\<close>.
\<close>

theorem mremap_grows_whole_mappings:
  assumes "mm_wf (p_memory p)" "pages old_len" "pages new_len" "old_len < new_len"
    and "mm_can_grow_at (p_memory p) (old_addr + old_len) (new_len - old_len)"
    and "sys_mremap old_addr old_len new_len flags p = (r, p')"
  shows "r = Ok old_addr \<and> mm_wf (p_memory p') \<and>
    (case find (\<lambda>m. mr_addr m = old_addr \<and> mr_len m = old_len) (mm_mappings (p_memory p)) of
       Some m \<Rightarrow> (\<forall>x. prot_at (mm_mappings (p_memory p')) x =
         (if unat old_addr \<le> x \<and> x < unat old_addr + unat new_len then Some (mr_prot m, mr_flags m)
          else prot_at (mm_mappings (p_memory p)) x))
     | None \<Rightarrow> p_memory p' = p_memory p)"
proof -
  have run: "r = Ok old_addr" "p_memory p' = mm_extend_mapping old_addr old_len new_len (p_memory p)"
    using assms(2-6) by (auto simp: sys_mremap_def pages_def Let_def not_le [symmetric])
  show ?thesis
  proof (cases "find (\<lambda>m. mr_addr m = old_addr \<and> mr_len m = old_len) (mm_mappings (p_memory p))")
    case None
    then have "p_memory p' = p_memory p"
      by (simp add: run(2) mm_extend_mapping_def find_None_iff extend_first_none)
    with None run(1) assms(1) show ?thesis by simp
  next
    case (Some m)
    then have m: "m \<in> set (mm_mappings (p_memory p))" "old_addr = mr_addr m" "old_len = mr_len m"
      by (auto simp: find_Some_iff)
    have "mm_wf (p_memory p')" "prot_at (mm_mappings (p_memory p')) x =
        (if unat old_addr \<le> x \<and> x < unat old_addr + unat new_len then Some (mr_prot m, mr_flags m)
         else prot_at (mm_mappings (p_memory p)) x)" for x
      using extend_mapping_prot(1) [OF assms(1) m(1), of new_len] extend_mapping_prot(2) [OF assms(1) m(1), of new_len x] assms(4,5)
      by (simp_all add: run(2) m(2,3))
    with Some run(1) show ?thesis by simp
  qed
qed

text \<open>A process with one mapping of two pages; its second page grows by one.\<close>

definition two_pages :: Process where
  "two_pages = (process_new 3)\<lparr>p_memory := mm_new\<lparr>mm_mappings :=
     [\<lparr>mr_addr = 0x04000000, mr_len = 0x20000, mr_prot = 3, mr_flags = 0x22\<rparr>]\<rparr>\<rparr>"

theorem mremap_grows_whole_mappings_witness:
  "\<exists>p' p''. sys_mremap 0x04000000 0x20000 0x30000 0 two_pages = (Ok 0x04000000, p') \<and>
    prot_at (mm_mappings (p_memory p')) 0x04020000 = Some (3, 0x22) \<and>
    sys_mremap 0x04010000 0x10000 0x20000 0 two_pages = (Ok 0x04010000, p'') \<and> p_memory p'' = p_memory two_pages"
proof -
  have wf: "mm_wf (p_memory two_pages)" by (simp add: two_pages_def mm_wf_def mr_ok_def mm_new_def)
  have pg: "pages 0x10000" "pages 0x20000" "pages 0x30000" by (simp_all add: pages_def)
  have g: "mm_can_grow_at (p_memory two_pages) 0x04020000 0x10000"
    by (simp add: mm_can_grow_at_def checked_add_def two_pages_def mm_new_def mr_end_def saturating_add_def)
  obtain r1 p1 where r1: "sys_mremap 0x04000000 0x20000 0x30000 0 two_pages = (r1, p1)" by fastforce
  obtain r2 p2 where r2: "sys_mremap 0x04010000 0x10000 0x20000 0 two_pages = (r2, p2)" by fastforce
  show ?thesis
    using mremap_grows_whole_mappings [OF wf pg(2,3) _ _ r1] mremap_grows_whole_mappings [OF wf pg(1,2) _ _ r2] r1 r2 g
    by (auto simp: two_pages_def)
qed

end
