(* ===== verification/Sock_Calls.thy ===== *)
theory Sock_Calls
  imports Events PathNorm
begin

text \<open>
  The socket system calls, from \<^verbatim>\<open>src/crates/kernel/src/syscalls.rs\<close>. Stream sockets of one machine are
  pairs of pipes, datagram sockets have a queue each, and everything else is passed to the host. Connections
  between processes are set up by the entry points and are not part of these calls.
\<close>

section \<open>Creating sockets\<close>

definition sock_type_of :: "u32 \<Rightarrow> SocketType option" where
  "sock_type_of t = (let b = t AND NOT (SOCK_NONBLOCK OR SOCK_CLOEXEC) in
     if b = SOCK_STREAM then Some Stream else if b = SOCK_DGRAM then Some Dgram else None)"

text \<open>A description and a descriptor for a socket. Nothing is taken back when there is no descriptor left.\<close>

definition open_socket :: "nat \<Rightarrow> u32 \<Rightarrow> u32 \<Rightarrow> Process \<Rightarrow> i32 kresult \<times> Process" where
  "open_socket sock_idx status_flags fd_flgs p =
    (let (ofd_idx, ofds) = ofdt_create Socket status_flags (- (word_of_nat sock_idx + 1)) (bstr ''/dev/socket'') (p_ofd_table p);
         (r, fds) = fdt_alloc (p_fd_table p) ofd_idx fd_flgs
     in (r, p\<lparr>p_ofd_table := ofds, p_fd_table := fds\<rparr>))"

definition sock_status :: "u32 \<Rightarrow> u32" where
  "sock_status t = O_RDWR OR (if t AND SOCK_NONBLOCK \<noteq> 0 then O_NONBLOCK else 0)"

definition sock_fd_flags :: "u32 \<Rightarrow> u32" where
  "sock_fd_flags t = (if t AND SOCK_CLOEXEC \<noteq> 0 then FD_CLOEXEC else 0)"

definition sys_socket :: "u32 \<Rightarrow> u32 \<Rightarrow> u32 \<Rightarrow> Process \<Rightarrow> i32 kresult \<times> Process" where
  "sys_socket domain sock_type protocol p =
    (case map_of [(AF_UNIX, DomUnix), (AF_INET, DomInet), (AF_INET6, DomInet6)] domain of
       None \<Rightarrow> (Err EAFNOSUPPORT, p)
     | Some sdom \<Rightarrow> (case sock_type_of sock_type of
         None \<Rightarrow> (Err EPROTOTYPE, p)
       | Some stype \<Rightarrow>
           (let (sock_idx, socks) = skt_alloc (sk_new sdom stype protocol) (p_sockets p)
            in open_socket sock_idx (sock_status sock_type) (sock_fd_flags sock_type) (p\<lparr>p_sockets := socks\<rparr>))))"

text \<open>A connected socket that sends into one pipe and receives from another.\<close>

definition sk_connected :: "SocketDomain \<Rightarrow> nat \<Rightarrow> nat \<Rightarrow> bool \<Rightarrow> SocketInfo" where
  "sk_connected sdom send_idx recv_idx global =
    (sk_new sdom Stream 0)\<lparr>sk_state := Connected, sk_send_buf_idx := Some send_idx, sk_recv_buf_idx := Some recv_idx,
       sk_global_pipes := global\<rparr>"

definition sys_socketpair :: "u32 \<Rightarrow> u32 \<Rightarrow> Process \<Rightarrow> Kernel \<Rightarrow> (i32 \<times> i32) kresult \<times> Process \<times> Kernel" where
  "sys_socketpair domain sock_type p k =
    (if domain \<noteq> AF_UNIX then (Err EAFNOSUPPORT, p, k)
     else if sock_type_of sock_type \<noteq> Some Stream then (Err EPROTOTYPE, p, k)
     else
       (let (ab, pipes) = pt_alloc (pb_new DEFAULT_PIPE_CAPACITY) (k_pipes k);
            (ba, pipes) = pt_alloc (pb_new DEFAULT_PIPE_CAPACITY) pipes;
            k = k\<lparr>k_pipes := pipes\<rparr>;
            (a, socks) = skt_alloc (sk_connected DomUnix ab ba True) (p_sockets p);
            (b, socks) = skt_alloc (sk_connected DomUnix ba ab True) socks;
            socks = skt_get_mut b (\<lambda>s. s\<lparr>sk_peer_idx := Some a\<rparr>) (skt_get_mut a (\<lambda>s. s\<lparr>sk_peer_idx := Some b\<rparr>) socks);
            status = sock_status sock_type; flgs = sock_fd_flags sock_type; path = bstr ''/dev/socket'';
            (ofd_a, ofds) = ofdt_create Socket status (- (word_of_nat a + 1)) path (p_ofd_table p);
            (ofd_b, ofds) = ofdt_create Socket status (- (word_of_nat b + 1)) path ofds;
            p = p\<lparr>p_sockets := socks, p_ofd_table := ofds\<rparr>
        in case fdt_alloc (p_fd_table p) ofd_a flgs of
             (Inl e, fds) \<Rightarrow> (Err e, p\<lparr>p_fd_table := fds\<rparr>, k)
           | (Inr fd0, fds) \<Rightarrow> (case fdt_alloc fds ofd_b flgs of
               (Inl e, fds) \<Rightarrow> (Err e, p\<lparr>p_fd_table := fds\<rparr>, k)
             | (Inr fd1, fds) \<Rightarrow> (Ok (fd0, fd1), p\<lparr>p_fd_table := fds\<rparr>, k))))"

section \<open>Looking at sockets\<close>

definition socket_of :: "i32 \<Rightarrow> Process \<Rightarrow> (nat \<times> SocketInfo \<times> u32) kresult" where
  "socket_of fd p = (case fdt_get (p_fd_table p) fd of
     Inl e \<Rightarrow> Err e
   | Inr entry \<Rightarrow> (case ofdt_get (p_ofd_table p) (ofd_ref entry) of
       None \<Rightarrow> Err EBADF
     | Some ofd \<Rightarrow>
         if ofd_file_type ofd \<noteq> Socket then Err ENOTSOCK
         else (case skt_get (p_sockets p) (kernel_idx (ofd_host_handle ofd)) of
             None \<Rightarrow> Err EBADF
           | Some sock \<Rightarrow> Ok (kernel_idx (ofd_host_handle ofd), sock, ofd_status_flags ofd))))"

definition put_sock :: "nat \<Rightarrow> (SocketInfo \<Rightarrow> SocketInfo) \<Rightarrow> Process \<Rightarrow> Process" where
  "put_sock i f p = p\<lparr>p_sockets := skt_get_mut i f (p_sockets p)\<rparr>"

definition to_be16 :: "u16 \<Rightarrow> bytes" where
  "to_be16 v = [ucast (drop_bit 8 v), ucast v]"

definition from_be16 :: "bytes \<Rightarrow> u16" where
  "from_be16 bs = push_bit 8 (ucast (bs ! 0)) OR ucast (bs ! 1)"

text \<open>\<open>sockaddr_in\<close>: family, port in network order, address, zeros.\<close>

definition sockaddr_in :: "bytes \<Rightarrow> u16 \<Rightarrow> bytes" where
  "sockaddr_in addr port = [2, 0] @ to_be16 port @ take 4 addr @ replicate 8 0"

definition write_family :: "u8 \<Rightarrow> bytes \<Rightarrow> bytes" where
  "write_family f buf = (if length buf \<ge> 2 then copy_at 0 [f, 0] buf else buf)"

definition write_sockaddr_in :: "bytes \<Rightarrow> u16 \<Rightarrow> bytes \<Rightarrow> bytes" where
  "write_sockaddr_in addr port buf = copy_at 0 (take (min (length buf) 16) (sockaddr_in addr port)) buf"

definition sys_getsockname :: "i32 \<Rightarrow> bytes \<Rightarrow> Process \<Rightarrow> nat kresult \<times> bytes" where
  "sys_getsockname fd buf p = (case socket_of fd p of
     Inl e \<Rightarrow> (Err e, buf)
   | Inr (_, sock, _) \<Rightarrow> (case sk_domain sock of
       DomInet \<Rightarrow> (Ok 16, write_sockaddr_in (sk_bind_addr sock) (sk_bind_port sock) buf)
     | DomInet6 \<Rightarrow> (Ok 2, write_family 10 buf)
     | DomUnix \<Rightarrow> (case sk_bind_path sock of
         Some path \<Rightarrow>
           (let total_len = 2 + length path + 1; n = min (length buf) total_len
            in (Ok total_len, copy_at 0 (take n ([1, 0] @ path @ [0])) buf))
       | None \<Rightarrow> (Ok 2, write_family 1 buf))))"

definition sys_getpeername :: "i32 \<Rightarrow> bytes \<Rightarrow> Process \<Rightarrow> nat kresult \<times> bytes" where
  "sys_getpeername fd buf p = (case socket_of fd p of
     Inl e \<Rightarrow> (Err e, buf)
   | Inr (_, sock, _) \<Rightarrow>
       if (if sk_domain sock = DomUnix then sk_send_buf_idx sock = None else sk_state sock \<noteq> Connected) then (Err ENOTCONN, buf)
       else (case sk_domain sock of
           DomInet \<Rightarrow> (Ok 16, write_sockaddr_in (sk_peer_addr sock) (sk_peer_port sock) buf)
         | DomInet6 \<Rightarrow> (Ok 2, write_family 10 buf)
         | DomUnix \<Rightarrow> (Ok 2, write_family 1 buf)))"

section \<open>Options\<close>

abbreviation (input) SOL_SOCKET :: u32 where "SOL_SOCKET \<equiv> 1"
abbreviation (input) IPPROTO_TCP :: u32 where "IPPROTO_TCP \<equiv> 6"
abbreviation (input) SO_RCVTIMEO :: u32 where "SO_RCVTIMEO \<equiv> 66"

text \<open>The options that are only stored: of the socket level without the buffer sizes, and of the TCP level.\<close>

definition stored_options :: "u32 list" where
  "stored_options = [2, 9, 13, 6]"

definition tcp_options :: "u32 list" where
  "tcp_options = [1, 3, 4, 5, 6, 9, 12, 18]"

definition sys_getsockopt :: "i32 \<Rightarrow> u32 \<Rightarrow> u32 \<Rightarrow> Process \<Rightarrow> u32 kresult" where
  "sys_getsockopt fd level optname p = (case socket_of fd p of
     Inl e \<Rightarrow> Err e
   | Inr (_, sock, _) \<Rightarrow>
       (let stored = Ok (case sk_get_option sock level optname of None \<Rightarrow> 0 | Some v \<Rightarrow> v) in
        if level = SOL_SOCKET then
          (if optname = 3 then Ok (case sk_sock_type sock of Stream \<Rightarrow> SOCK_STREAM | Dgram \<Rightarrow> SOCK_DGRAM)
           else if optname = 39 then Ok (case sk_domain sock of DomUnix \<Rightarrow> AF_UNIX | DomInet \<Rightarrow> AF_INET | DomInet6 \<Rightarrow> AF_INET6)
           else if optname = 4 then Ok 0
           else if optname = 30 then Ok (if sk_state sock = Listening then 1 else 0)
           else if optname \<in> {7, 8} then Ok (word_of_nat DEFAULT_PIPE_CAPACITY)
           else if optname \<in> set stored_options then stored
           else Err ENOPROTOOPT)
        else if level = IPPROTO_TCP then (if optname \<in> set tcp_options then stored else Err ENOPROTOOPT)
        else Err ENOPROTOOPT))"

definition sys_setsockopt :: "i32 \<Rightarrow> u32 \<Rightarrow> u32 \<Rightarrow> u32 \<Rightarrow> Process \<Rightarrow> unit kresult \<times> Process" where
  "sys_setsockopt fd level optname val p = (case socket_of fd p of
     Inl e \<Rightarrow> (Err e, p)
   | Inr (i, _, _) \<Rightarrow>
       if level = SOL_SOCKET \<and> optname \<in> set (7 # 8 # stored_options) \<or> level = IPPROTO_TCP \<and> optname \<in> set tcp_options
       then (Ok (), put_sock i (sk_set_option level optname val) p) else (Err ENOPROTOOPT, p))"

definition sys_getsockopt_timeout :: "i32 \<Rightarrow> u32 \<Rightarrow> Process \<Rightarrow> u64 kresult" where
  "sys_getsockopt_timeout fd optname p = (case socket_of fd p of
     Inl e \<Rightarrow> Err e
   | Inr (_, sock, _) \<Rightarrow> Ok (if optname = SO_RCVTIMEO then sk_recv_timeout_us sock else sk_send_timeout_us sock))"

definition sys_setsockopt_timeout :: "i32 \<Rightarrow> u32 \<Rightarrow> u64 \<Rightarrow> Process \<Rightarrow> unit kresult \<times> Process" where
  "sys_setsockopt_timeout fd optname timeout_us p = (case socket_of fd p of
     Inl e \<Rightarrow> (Err e, p)
   | Inr (i, _, _) \<Rightarrow>
       (Ok (), put_sock i (\<lambda>s. if optname = SO_RCVTIMEO then s\<lparr>sk_recv_timeout_us := timeout_us\<rparr>
          else s\<lparr>sk_send_timeout_us := timeout_us\<rparr>) p))"

definition tcp_info_fields :: "(nat \<times> u32) list" where
  "tcp_info_fields = [(8, 200000), (12, 40000), (16, 1460), (20, 1460), (60, 1500), (64, 65535), (68, 1000), (72, 500),
     (76, 0xFFFF), (80, 10), (84, 1460), (88, 3), (96, 65535), (228, 65535)]"

definition sys_getsockopt_tcp_info :: "i32 \<Rightarrow> Process \<Rightarrow> bytes kresult" where
  "sys_getsockopt_tcp_info fd p = (case socket_of fd p of
     Inl e \<Rightarrow> Err e
   | Inr (_, sock, _) \<Rightarrow>
       (let state = (case sk_state sock of Listening \<Rightarrow> 10 | Connected \<Rightarrow> 1 | _ \<Rightarrow> 7)
        in Ok (fold (\<lambda>(off, v). copy_at off (to_le 4 v)) tcp_info_fields
             ((replicate 232 0)[0 := state, 5 := 7, 6 := push_bit 4 7 OR 7]))))"

section \<open>Shutting down\<close>

definition shut_pipe ::
    "bool \<Rightarrow> nat option \<Rightarrow> (PipeBuffer \<Rightarrow> WakeupBuffer \<Rightarrow> PipeBuffer \<times> WakeupBuffer) \<Rightarrow> Process \<times> Kernel \<Rightarrow> Process \<times> Kernel" where
  "shut_pipe global idx f = (\<lambda>(p, k). case idx of None \<Rightarrow> (p, k) | Some i \<Rightarrow> snd (pipe_update global i f p k))"

definition sys_shutdown :: "host \<Rightarrow> i32 \<Rightarrow> u32 \<Rightarrow> Process \<Rightarrow> Kernel \<Rightarrow> unit kresult \<times> Process \<times> Kernel" where
  "sys_shutdown host fd how p k = (case socket_of fd p of
     Inl e \<Rightarrow> (Err e, p, k)
   | Inr (i, sock, _) \<Rightarrow>
       (let g = sk_global_pipes sock in
        if how = SHUT_RD then (Ok (), put_sock i (\<lambda>s. s\<lparr>sk_shut_rd := True\<rparr>) p, k)
        else if how = SHUT_WR then
          (Ok (), shut_pipe g (sk_send_buf_idx sock) pb_close_write_end (put_sock i (\<lambda>s. s\<lparr>sk_shut_wr := True\<rparr>) p, k))
        else if how = SHUT_RDWR then
          (let p = put_sock i (\<lambda>s. s\<lparr>sk_shut_rd := True, sk_shut_wr := True\<rparr>) p;
               k = (case sk_host_net_handle sock of None \<Rightarrow> k | Some h \<Rightarrow> snd (host_unit host (HostNetClose h) k))
           in (Ok (), shut_pipe g (sk_recv_buf_idx sock) pb_close_read_end
                 (shut_pipe g (sk_send_buf_idx sock) pb_close_write_end (p, k))))
        else (Err EINVAL, p, k)))"

section \<open>Sending and receiving on a stream\<close>

abbreviation (input) MSG_OOB :: u32 where "MSG_OOB \<equiv> 1"
abbreviation (input) MSG_WAITALL :: u32 where "MSG_WAITALL \<equiv> 0x100"

definition sys_send :: "host \<Rightarrow> i32 \<Rightarrow> bytes \<Rightarrow> u32 \<Rightarrow> Process \<Rightarrow> Kernel \<Rightarrow> write_result option" where
  "sys_send host fd buf flags p k = (case socket_of fd p of
     Inl e \<Rightarrow> Some (Err e, p, k)
   | Inr (i, sock, _) \<Rightarrow>
       if sk_state sock \<noteq> Connected then Some (Err ENOTCONN, p, k)
       else if flags AND MSG_OOB \<noteq> 0 then
         (if buf = [] then Some (Err EINVAL, p, k)
          else Some (Ok (length buf), (case sk_peer_idx sock of
              None \<Rightarrow> p | Some j \<Rightarrow> put_sock j (\<lambda>s. s\<lparr>sk_oob_byte := Some (last buf)\<rparr>) p), k))
       else if sk_domain sock \<noteq> DomUnix then
         (if sk_send_buf_idx sock \<noteq> None then sys_write host fd buf p k
          else (case sk_host_net_handle sock of
              None \<Rightarrow> Some (Err ENOTCONN, p, k)
            | Some h \<Rightarrow> (let (r, k) = host_size host (HostNetSend h buf flags) k in Some (r, p, k))))
       else if sk_sock_type sock = Dgram then Some (Ok (length buf), p, k)
       else map_option (\<lambda>(r, p', k').
           (r, if flags AND MSG_NOSIGNAL \<noteq> 0 \<and> \<not> ss_is_pending (p_signals p) SIGPIPE
               then p'\<lparr>p_signals := ss_clear SIGPIPE (p_signals p')\<rparr> else p', k'))
         (sys_write host fd buf p k))"

partial_function (option) recv_loop ::
    "host \<Rightarrow> bool \<Rightarrow> nat \<Rightarrow> bool \<Rightarrow> bool \<Rightarrow> bool \<Rightarrow> nat \<Rightarrow> bytes \<Rightarrow> Process \<Rightarrow> Kernel \<Rightarrow> read_result option" where
  "recv_loop host global idx peek nonblock waitall got buf p k =
    (case pipe_lookup global idx p k of
       None \<Rightarrow> Some ((Err EBADF, buf), p, k)
     | Some b \<Rightarrow>
         (let (n, rest, b', wk) =
            (if peek then (let (n, rest) = pb_peek (drop got buf) b in (n, rest, b, k_wakeup k))
             else pb_read (drop got buf) b (k_wakeup k));
              (p, k) = (if peek then (p, k) else pipe_store global idx b' p (k\<lparr>k_wakeup := wk\<rparr>));
              buf = take got buf @ rest; got = got + n
          in if length buf \<le> got \<or> 0 < got \<and> \<not> waitall then Some ((Ok got, buf), p, k)
             else if n = 0 \<and> \<not> pb_is_write_end_open b' then Some ((Ok got, buf), p, k)
             else if nonblock then Some ((Err EAGAIN, buf), p, k)
             else if ss_deliverable (p_signals p) \<noteq> 0 \<and> \<not> ss_should_restart (p_signals p) then Some ((Err EINTR, buf), p, k)
             else (case host_sleep host p k of (p, k) \<Rightarrow> recv_loop host global idx peek nonblock waitall got buf p k)))"

definition sys_recv :: "host \<Rightarrow> i32 \<Rightarrow> bytes \<Rightarrow> u32 \<Rightarrow> Process \<Rightarrow> Kernel \<Rightarrow> read_result option" where
  "sys_recv host fd buf flags p k = (case socket_of fd p of
     Inl e \<Rightarrow> Some ((Err e, buf), p, k)
   | Inr (i, sock, status_flags) \<Rightarrow>
       if sk_state sock \<noteq> Connected then Some ((Err ENOTCONN, buf), p, k)
       else if sk_shut_rd sock then Some ((Ok 0, buf), p, k)
       else if flags AND MSG_OOB \<noteq> 0 then
         (case sk_oob_byte sock of
            None \<Rightarrow> Some ((Err EINVAL, buf), p, k)
          | Some b \<Rightarrow> Some ((Ok 1, if buf \<noteq> [] then buf[0 := b] else buf), put_sock i (\<lambda>s. s\<lparr>sk_oob_byte := None\<rparr>) p, k))
       else (case sk_recv_buf_idx sock of
           None \<Rightarrow>
             if sk_domain sock = DomUnix then Some ((Err ENOTCONN, buf), p, k)
             else (case sk_host_net_handle sock of
                 None \<Rightarrow> Some ((Err ENOTCONN, buf), p, k)
               | Some h \<Rightarrow>
                   (let (n, buf, k) = host_fill host (HostNetRecv h (word_of_nat (length buf)) flags) buf k in Some ((n, buf), p, k)))
         | Some idx \<Rightarrow>
             (let peek = (flags AND MSG_PEEK \<noteq> 0);
                  nonblock = (status_flags AND O_NONBLOCK \<noteq> 0 \<or> flags AND MSG_DONTWAIT \<noteq> 0 \<or> is_centralized_mode k);
                  waitall = (flags AND MSG_WAITALL \<noteq> 0 \<and> \<not> peek)
              in recv_loop host (sk_global_pipes sock) idx peek nonblock waitall 0 buf p k)))"

section \<open>Binding and listening\<close>

definition ephemeral_port :: "Process \<Rightarrow> u16 \<times> Process" where
  "ephemeral_port p =
    (let next_port = p_next_ephemeral_port p + 1
     in (p_next_ephemeral_port p, p\<lparr>p_next_ephemeral_port := if next_port = 0 then 49152 else next_port\<rparr>))"

text \<open>The path of a \<open>sockaddr_un\<close>, up to the first zero.\<close>

definition sun_path :: "bytes \<Rightarrow> Process \<Rightarrow> bytes kresult" where
  "sun_path addr p =
    (if length addr < 3 then Err EINVAL
     else (let path = takeWhile (\<lambda>b. b \<noteq> 0) (drop 2 addr) in if path = [] then Err EINVAL else Ok (resolve_path path (p_cwd p))))"

definition sys_bind :: "host \<Rightarrow> i32 \<Rightarrow> bytes \<Rightarrow> Process \<Rightarrow> Kernel \<Rightarrow> unit kresult \<times> Process \<times> Kernel" where
  "sys_bind host fd addr p k = (case socket_of fd p of
     Inl e \<Rightarrow> (Err e, p, k)
   | Inr (i, sock, _) \<Rightarrow>
       if sk_state sock \<noteq> Unbound then (Err EINVAL, p, k)
       else (case sk_domain sock of
           DomInet \<Rightarrow>
             if length addr < 8 then (Err EINVAL, p, k)
             else
               (let port = from_be16 (drop 2 addr); ip = take 4 (drop 4 addr);
                    (port, p) = (if port = 0 then ephemeral_port p else (port, p))
                in (Ok (), put_sock i (\<lambda>s. s\<lparr>sk_bind_addr := ip, sk_bind_port := port, sk_state := Bound\<rparr>) p, k))
         | DomUnix \<Rightarrow> (case sun_path addr p of
             Inl e \<Rightarrow> (Err e, p, k)
           | Inr path \<Rightarrow> (case host_i64 host (HostOpen path (O_CREAT OR O_EXCL OR O_WRONLY) 384) k of
               (Inl e, k) \<Rightarrow> (Err (if e = EEXIST then EADDRINUSE else e), p, k)
             | (Inr h, k) \<Rightarrow>
                 (let k = snd (host_unit host (HostClose h) k);
                      (ok, reg) = unix_register path (p_pid p) i (k_unix k); k = k\<lparr>k_unix := reg\<rparr>
                  in if \<not> ok then (Err EADDRINUSE, p, snd (host_unit host (HostUnlink path) k))
                     else (Ok (), put_sock i (\<lambda>s. s\<lparr>sk_bind_path := Some path, sk_state := Bound\<rparr>) p, k))))
         | DomInet6 \<Rightarrow> (Err EADDRNOTAVAIL, p, k)))"

definition sys_listen :: "host \<Rightarrow> i32 \<Rightarrow> Process \<Rightarrow> Kernel \<Rightarrow> unit kresult \<times> Process \<times> Kernel" where
  "sys_listen host fd p k = (case socket_of fd p of
     Inl e \<Rightarrow> (Err e, p, k)
   | Inr (i, sock, _) \<Rightarrow>
       if sk_sock_type sock \<noteq> Stream then (Err EOPNOTSUPP, p, k)
       else if sk_state sock \<noteq> Bound \<and> sk_state sock \<noteq> Listening then (Err EINVAL, p, k)
       else if sk_domain sock \<noteq> DomInet then (Ok (), put_sock i (\<lambda>s. s\<lparr>sk_state := Listening\<rparr>) p, k)
       else
         (let (backlog, k) = (case sk_shared_backlog_idx sock of
                Some b \<Rightarrow> (b, k)
              | None \<Rightarrow> (let (b, t) = blt_alloc (k_backlogs k) in (b, k\<lparr>k_backlogs := t\<rparr>)))
          in (Ok (), put_sock i (\<lambda>s. s\<lparr>sk_state := Listening, sk_shared_backlog_idx := Some backlog\<rparr>) p,
              snd (host_unit host (HostNetListen fd (sk_bind_port sock) (sk_bind_addr sock)) k))))"

definition sys_accept :: "i32 \<Rightarrow> Process \<Rightarrow> Kernel \<Rightarrow> i32 kresult \<times> Process \<times> Kernel" where
  "sys_accept fd p k = (case socket_of fd p of
     Inl e \<Rightarrow> (Err e, p, k)
   | Inr (i, sock, _) \<Rightarrow>
       if sk_state sock \<noteq> Listening then (Err EINVAL, p, k)
       else
         (let (pending, k) = (case sk_shared_backlog_idx sock of
                None \<Rightarrow> (None, k)
              | Some b \<Rightarrow> (let (pc, t) = blt_pop b (k_backlogs k) in (pc, k\<lparr>k_backlogs := t\<rparr>)))
          in case pending of
               Some pc \<Rightarrow>
                 (let accepted = (sk_connected DomInet (pc_send_pipe_idx pc) (pc_recv_pipe_idx pc) True)\<lparr>
                        sk_bind_addr := sk_bind_addr sock, sk_bind_port := sk_bind_port sock,
                        sk_peer_addr := pc_peer_addr pc, sk_peer_port := pc_peer_port pc\<rparr>;
                      (j, socks) = skt_alloc accepted (p_sockets p);
                      (r, p) = open_socket j O_RDWR 0 (p\<lparr>p_sockets := socks\<rparr>)
                  in (r, p, k))
             | None \<Rightarrow> (case sk_listen_backlog sock of
                 [] \<Rightarrow> (Err EAGAIN, p, k)
               | j # js \<Rightarrow>
                   (let (r, p) = open_socket j O_RDWR 0 (put_sock i (\<lambda>s. s\<lparr>sk_listen_backlog := js\<rparr>) p) in (r, p, k)))))"

section \<open>Connecting\<close>

definition LOOPBACK :: bytes where
  "LOOPBACK = [127, 0, 0, 1]"

definition name_client :: "u16 \<Rightarrow> SocketInfo \<Rightarrow> SocketInfo" where
  "name_client port s = (if sk_bind_port s = 0 then s\<lparr>sk_bind_port := port, sk_bind_addr := LOOPBACK\<rparr> else s)"

definition client_port :: "SocketInfo \<Rightarrow> Process \<Rightarrow> u16 \<times> Process" where
  "client_port sock p = (if sk_bind_port sock = 0 then ephemeral_port p else (sk_bind_port sock, p))"

definition is_listener :: "u16 \<Rightarrow> SocketInfo option \<Rightarrow> bool" where
  "is_listener port s = (case s of None \<Rightarrow> False
   | Some s \<Rightarrow> sk_state s = Listening \<and> sk_bind_port s = port \<and> sk_sock_type s = Stream)"

text \<open>The listener's backlog gets the accepted socket, and the two sockets know each other.\<close>

definition join_sockets :: "nat \<Rightarrow> nat \<Rightarrow> SocketInfo \<Rightarrow> (SocketInfo \<Rightarrow> SocketInfo) \<Rightarrow> Process \<Rightarrow> Process" where
  "join_sockets i listener accepted f p =
    (let (j, socks) = skt_alloc accepted (p_sockets p); p = p\<lparr>p_sockets := socks\<rparr>;
         p = put_sock listener (\<lambda>s. s\<lparr>sk_listen_backlog := sk_listen_backlog s @ [j]\<rparr>) p;
         p = put_sock i (\<lambda>s. f (s\<lparr>sk_peer_idx := Some j, sk_state := Connected, sk_send_buf_idx := sk_recv_buf_idx accepted,
                sk_recv_buf_idx := sk_send_buf_idx accepted\<rparr>)) p
     in put_sock j (\<lambda>s. s\<lparr>sk_peer_idx := Some i\<rparr>) p)"

definition connect_loopback :: "nat \<Rightarrow> SocketInfo \<Rightarrow> bytes \<Rightarrow> u16 \<Rightarrow> Process \<Rightarrow> unit kresult \<times> Process" where
  "connect_loopback i sock ip port p =
    (if sk_sock_type sock = Dgram then
       (let (cport, p) = client_port sock p
        in (Ok (), put_sock i (\<lambda>s. name_client cport (s\<lparr>sk_state := Connected, sk_peer_addr := ip, sk_peer_port := port\<rparr>)) p))
     else (case position (is_listener port) (p_sockets p) of
         None \<Rightarrow> (Err ECONNREFUSED, p)
       | Some l \<Rightarrow>
           (let ((pa, pb), p) = alloc_pipe_pair (pb_new 65536) (pb_new 65536) p;
                caddr = (if sk_bind_addr sock = [0, 0, 0, 0] then LOOPBACK else sk_bind_addr sock);
                (cport, p) = client_port sock p;
                accepted = (sk_connected DomInet pb pa False)\<lparr>
                  sk_bind_addr := (case skt_get (p_sockets p) l of Some s \<Rightarrow> sk_bind_addr s | None \<Rightarrow> [0, 0, 0, 0]),
                  sk_bind_port := (case skt_get (p_sockets p) l of Some s \<Rightarrow> sk_bind_port s | None \<Rightarrow> 0),
                  sk_peer_addr := caddr, sk_peer_port := cport\<rparr>
            in (Ok (), join_sockets i l accepted
                  (\<lambda>s. name_client cport (s\<lparr>sk_peer_addr := ip, sk_peer_port := port\<rparr>)) p))))"

definition connect_unix :: "nat \<Rightarrow> SocketInfo \<Rightarrow> bytes \<Rightarrow> Process \<Rightarrow> Kernel \<Rightarrow> unit kresult \<times> Process \<times> Kernel" where
  "connect_unix i sock addr p k =
    (if sk_sock_type sock = Dgram then (Ok (), put_sock i (\<lambda>s. s\<lparr>sk_state := Connected\<rparr>) p, k)
     else if sk_state sock = Connected then (Err EISCONN, p, k)
     else (case sun_path addr p of
       Inl e \<Rightarrow> (Err e, p, k)
     | Inr path \<Rightarrow> (case unix_lookup (k_unix k) path of
         None \<Rightarrow> (Err ECONNREFUSED, p, k)
       | Some entry \<Rightarrow>
           if us_pid entry \<noteq> p_pid p then (Err ECONNREFUSED, p, k)
           else (case skt_get (p_sockets p) (us_sock_idx entry) of
               None \<Rightarrow> (Err ECONNREFUSED, p, k)
             | Some l \<Rightarrow>
                 if sk_state l \<noteq> Listening then (Err ECONNREFUSED, p, k)
                 else
                   (let (pa, pipes) = pt_alloc (pb_new 65536) (k_pipes k); (pb, pipes) = pt_alloc (pb_new 65536) pipes
                    in (Ok (), join_sockets i (us_sock_idx entry) (sk_connected DomUnix pb pa True)
                          (\<lambda>s. s\<lparr>sk_global_pipes := True\<rparr>) p, k\<lparr>k_pipes := pipes\<rparr>))))))"

definition sys_connect :: "host \<Rightarrow> i32 \<Rightarrow> bytes \<Rightarrow> Process \<Rightarrow> Kernel \<Rightarrow> unit kresult \<times> Process \<times> Kernel" where
  "sys_connect host fd addr p k = (case socket_of fd p of
     Inl e \<Rightarrow> (Err e, p, k)
   | Inr (i, sock, _) \<Rightarrow>
       if sk_domain sock = DomUnix then connect_unix i sock addr p k
       else if sk_state sock = Connected then (Err EISCONN, p, k)
       else if length addr < 8 then (Err EINVAL, p, k)
       else
         (let port = from_be16 (drop 2 addr); ip = take 4 (drop 4 addr) in
          if ip = LOOPBACK \<and> sk_domain sock = DomInet then
            (let (r, p) = connect_loopback i sock ip port p in (r, p, k))
          else (case host_unit host (HostNetConnect (word_of_nat i) ip port) k of
              (Inl e, k) \<Rightarrow> (Err e, p, k)
            | (Inr _, k) \<Rightarrow>
                (Ok (), put_sock i (\<lambda>s. s\<lparr>sk_state := Connected, sk_host_net_handle := Some (word_of_nat i)\<rparr>) p, k))))"

section \<open>Datagrams\<close>

definition is_dgram_target :: "u16 \<Rightarrow> SocketInfo option \<Rightarrow> bool" where
  "is_dgram_target port s = (case s of None \<Rightarrow> False
   | Some s \<Rightarrow> sk_sock_type s = Dgram \<and> (sk_state s = Bound \<or> sk_state s = Connected) \<and> sk_bind_port s = port)"

definition sys_sendto :: "host \<Rightarrow> i32 \<Rightarrow> bytes \<Rightarrow> u32 \<Rightarrow> bytes \<Rightarrow> Process \<Rightarrow> Kernel \<Rightarrow> write_result option" where
  "sys_sendto host fd buf flags addr p k = (case socket_of fd p of
     Inl e \<Rightarrow> Some (Err e, p, k)
   | Inr (i, sock, _) \<Rightarrow>
       if sk_domain sock = DomUnix \<and> sk_sock_type sock = Dgram \<and> sk_state sock = Connected then Some (Ok (length buf), p, k)
       else if addr = [] \<and> sk_state sock = Connected then sys_send host fd buf flags p k
       else if sk_domain sock \<noteq> DomInet \<or> sk_sock_type sock \<noteq> Dgram then Some (Err EOPNOTSUPP, p, k)
       else if length addr < 8 then Some (Err EINVAL, p, k)
       else if take 4 (drop 4 addr) \<noteq> LOOPBACK then Some (Err ENETUNREACH, p, k)
       else (case position (is_dgram_target (from_be16 (drop 2 addr))) (p_sockets p) of
           None \<Rightarrow> Some (Err ECONNREFUSED, p, k)
         | Some t \<Rightarrow>
             (let dg = \<lparr>dg_data = buf, dg_src_addr = sk_bind_addr sock, dg_src_port = sk_bind_port sock\<rparr>
              in Some (Ok (length buf), put_sock t (\<lambda>s. s\<lparr>sk_dgram_queue := sk_dgram_queue s @ [dg]\<rparr>) p, k))))"

type_synonym recvfrom_result = "((nat \<times> nat) kresult \<times> bytes \<times> bytes) \<times> Process \<times> Kernel"

definition sys_recvfrom :: "host \<Rightarrow> i32 \<Rightarrow> bytes \<Rightarrow> u32 \<Rightarrow> bytes \<Rightarrow> Process \<Rightarrow> Kernel \<Rightarrow> recvfrom_result option" where
  "sys_recvfrom host fd buf flags addr_buf p k = (case socket_of fd p of
     Inl e \<Rightarrow> Some ((Err e, buf, addr_buf), p, k)
   | Inr (i, sock, _) \<Rightarrow>
       if sk_sock_type sock = Stream then
         map_option (\<lambda>((r, buf), p, k). ((case r of Inl e \<Rightarrow> Err e | Inr n \<Rightarrow> Ok (n, 0), buf, addr_buf), p, k))
           (sys_recv host fd buf flags p k)
       else if sk_domain sock \<noteq> DomInet then Some ((Err EOPNOTSUPP, buf, addr_buf), p, k)
       else (case sk_dgram_queue sock of
           [] \<Rightarrow> Some ((Err EAGAIN, buf, addr_buf), p, k)
         | dg # dgs \<Rightarrow>
             (let copy_len = min (length buf) (length (dg_data dg))
              in Some ((Ok (copy_len, if addr_buf \<noteq> [] then 16 else 0), copy_at 0 (take copy_len (dg_data dg)) buf,
                    if addr_buf \<noteq> [] then write_sockaddr_in (dg_src_addr dg) (dg_src_port dg) addr_buf else addr_buf),
                  put_sock i (\<lambda>s. s\<lparr>sk_dgram_queue := dgs\<rparr>) p, k))))"

definition sys_getaddrinfo :: "host \<Rightarrow> bytes \<Rightarrow> bytes \<Rightarrow> Kernel \<Rightarrow> nat kresult \<times> bytes \<times> Kernel" where
  "sys_getaddrinfo host name result_buf k =
    (if length result_buf < 4 then (Err EINVAL, result_buf, k)
     else host_fill host (HostGetaddrinfo name (word_of_nat (length result_buf))) result_buf k)"

end
