(* ===== verification/Sock_Correct.thy ===== *)
theory Sock_Correct
  imports Sock_Calls Io_Correct Pipe_Ends
begin

text \<open>
  Sockets are correct: two connected stream sockets are two independent byte streams, a connection that is
  accepted is joined to the socket that asked for it, and datagrams arrive whole and in order. Waiting for a
  full buffer is the exception: what has been read is lost.
\<close>

section \<open>Connected stream sockets\<close>

text \<open>A descriptor of a stream socket that sends into the shared pipe \<open>a\<close> and receives from \<open>b\<close>.\<close>

definition sock_link :: "i32 \<Rightarrow> nat \<Rightarrow> nat \<Rightarrow> Process \<Rightarrow> bool" where
  "sock_link fd a b p \<longleftrightarrow> (\<exists>e d s. fdt_get (p_fd_table p) fd = Ok e \<and> ofdt_get (p_ofd_table p) (ofd_ref e) = Some d \<and>
     ofd_file_type d = Socket \<and> ofd_status_flags d AND O_ACCMODE = O_RDWR \<and>
     skt_get (p_sockets p) (kernel_idx (ofd_host_handle d)) = Some s \<and> sk_domain s = DomUnix \<and> sk_sock_type s = Stream \<and>
     sk_state s = Connected \<and> sk_send_buf_idx s = Some a \<and> sk_recv_buf_idx s = Some b \<and> sk_global_pipes s \<and>
     \<not> sk_shut_rd s \<and> \<not> sk_shut_wr s)"

lemma sock_linkE:
  assumes "sock_link fd a b p"
  obtains e d s where "fdt_get (p_fd_table p) fd = Ok e" "ofdt_get (p_ofd_table p) (ofd_ref e) = Some d"
    "ofd_file_type d = Socket" "ofd_status_flags d AND O_ACCMODE = O_RDWR"
    "skt_get (p_sockets p) (kernel_idx (ofd_host_handle d)) = Some s" "sk_domain s = DomUnix" "sk_sock_type s = Stream"
    "sk_state s = Connected" "sk_send_buf_idx s = Some a" "sk_recv_buf_idx s = Some b" "sk_global_pipes s"
    "\<not> sk_shut_rd s" "\<not> sk_shut_wr s"
    "socket_of fd p = Ok (kernel_idx (ofd_host_handle d), s, ofd_status_flags d)"
  using assms by (auto simp: sock_link_def socket_of_def)

text \<open>A shared pipe with both ends open and its contents.\<close>

definition open_pipe :: "Kernel \<Rightarrow> nat \<Rightarrow> bytes \<Rightarrow> bool" where
  "open_pipe k i q \<longleftrightarrow> (\<exists>b. pt_get (k_pipes k) i = Some b \<and> pb_wf b \<and> pb_is_read_end_open b \<and> pb_is_write_end_open b \<and>
     pb_capacity b = DEFAULT_PIPE_CAPACITY \<and> pb_contents b = q)"

lemma open_pipe_other:
  assumes "open_pipe k j q" "i \<noteq> j" "\<And>n. n \<noteq> i \<Longrightarrow> pt_get (k_pipes k') n = pt_get (k_pipes k) n"
  shows "open_pipe k' j q"
  using assms by (auto simp: open_pipe_def)

lemma pb_write_ends:
  "pb_write data b wk = (n, b', wk') \<Longrightarrow> pb_is_read_end_open b' = pb_is_read_end_open b \<and> pb_is_write_end_open b' = pb_is_write_end_open b"
  by (auto simp: pb_write_def Let_def pb_is_read_end_open_def pb_is_write_end_open_def split: if_splits)

lemma pb_read_ends:
  "pb_read buf b wk = (n, buf', b', wk') \<Longrightarrow> pb_is_read_end_open b' = pb_is_read_end_open b \<and> pb_is_write_end_open b' = pb_is_write_end_open b"
  by (auto simp: pb_read_def Let_def pb_is_read_end_open_def pb_is_write_end_open_def split: if_splits)

text \<open>Sending puts in what fits; \<open>EAGAIN\<close> means that nothing does.\<close>

lemma send_call:
  assumes mode: "is_centralized_mode k" and fd: "sock_link fd i j p" and q: "open_pipe k i q" and data: "data \<noteq> []"
  obtains r k' where "sys_send host fd data 0 p k = Some (r, p, k')" "is_centralized_mode k'"
    "\<And>n. n \<noteq> i \<Longrightarrow> pt_get (k_pipes k') n = pt_get (k_pipes k) n"
    "let n = min (length data) (DEFAULT_PIPE_CAPACITY - length q) in
      r = (if n = 0 then Err EAGAIN else Ok n) \<and> open_pipe k' i (q @ take n data)"
proof -
  obtain e d s where e: "fdt_get (p_fd_table p) fd = Ok e" "ofdt_get (p_ofd_table p) (ofd_ref e) = Some d"
    "ofd_file_type d = Socket" "ofd_status_flags d AND O_ACCMODE = O_RDWR"
    "skt_get (p_sockets p) (kernel_idx (ofd_host_handle d)) = Some s" "sk_domain s = DomUnix" "sk_sock_type s = Stream"
    "sk_state s = Connected" "sk_send_buf_idx s = Some i" "sk_recv_buf_idx s = Some j" "sk_global_pipes s"
    "\<not> sk_shut_rd s" "\<not> sk_shut_wr s"
    "socket_of fd p = Ok (kernel_idx (ofd_host_handle d), s, ofd_status_flags d)"
    using sock_linkE [OF fd] .
  obtain b where b: "pt_get (k_pipes k) i = Some b" "pb_wf b" "pb_is_read_end_open b" "pb_is_write_end_open b"
      "pb_capacity b = DEFAULT_PIPE_CAPACITY" "pb_contents b = q"
    using q by (auto simp: open_pipe_def)
  have nw: "no_wait (ofd_status_flags d) k" using mode by (simp add: no_wait_def)
  obtain n b' wk where w: "pb_write data b (k_wakeup k) = (n, b', wk)" by (metis prod_cases3)
  note f = pb_write_fifo [OF b(2) w]
  have n: "n = min (length data) (DEFAULT_PIPE_CAPACITY - length q)"
    using f(1) b(5,6) by (auto simp: pb_free_space_def length_pb_contents [symmetric])
  let ?k = "k\<lparr>k_wakeup := wk, k_pipes := pt_get_mut i (\<lambda>_. b') (k_pipes k)\<rparr>"
  have mode': "is_centralized_mode ?k" using mode pb_write_mode [OF w] by (simp add: is_centralized_mode_def)
  have att: "pipe_try_write True i 0 data p k = (if n > 0 then Some (Ok n) else None, p, ?k)"
    using b(1,3) w data by (simp add: pipe_try_write_def pipe_lookup_def pipe_store_def)
  then have "or_again (ofd_status_flags d) (Err EAGAIN) (pipe_try_write True i 0 data) p k =
      (Some (if n > 0 then Ok n else Err EAGAIN), p, ?k)"
    using mode' by (simp add: or_again_def no_wait_def)
  then have "sys_send host fd data 0 p k = Some (if n > 0 then Ok n else Err EAGAIN, p, ?k)"
    using e data by (simp add: sys_send_def sys_write_def write_socket_def try_or_wait_def)
  then show thesis
  proof (rule that [OF _ mode'])
    show "pt_get (k_pipes ?k) m = pt_get (k_pipes k) m" if "m \<noteq> i" for m using that by (simp add: pt_get_get_mut)
    have "open_pipe ?k i (q @ take n data)"
      using f pb_write_ends [OF w] b by (simp add: open_pipe_def pt_get_get_mut)
    then have "(if 0 < n then Ok n else Err EAGAIN) = (if n = 0 then Err EAGAIN else Ok n) \<and> open_pipe ?k i (q @ take n data)" by simp
    then show "let m = min (length data) (DEFAULT_PIPE_CAPACITY - length q) in
        (if 0 < n then Ok n else Err EAGAIN) = (if m = 0 then Err EAGAIN else Ok m) \<and> open_pipe ?k i (q @ take m data)"
      unfolding Let_def n .
  qed
qed

text \<open>Receiving takes out what is there, up to the size of the buffer; \<open>EAGAIN\<close> means that nothing is.\<close>

lemma recv_call:
  assumes mode: "is_centralized_mode k" and fd: "sock_link fd i j p" and q: "open_pipe k j q" and buf: "buf \<noteq> []"
  obtains r buf' k' where "sys_recv host fd buf 0 p k = Some ((r, buf'), p, k')" "is_centralized_mode k'"
    "\<And>n. n \<noteq> j \<Longrightarrow> pt_get (k_pipes k') n = pt_get (k_pipes k) n"
    "let n = min (length buf) (length q) in
      r = (if n = 0 then Err EAGAIN else Ok n) \<and> buf' = take n q @ drop n buf \<and> open_pipe k' j (drop n q)"
proof -
  obtain d :: OpenFileDesc and s where e: "sk_state s = Connected" "sk_recv_buf_idx s = Some j" "sk_global_pipes s" "\<not> sk_shut_rd s"
    "socket_of fd p = Ok (kernel_idx (ofd_host_handle d), s, ofd_status_flags d)"
    using fd by (auto elim: sock_linkE)
  obtain b where b: "pt_get (k_pipes k) j = Some b" "pb_wf b" "pb_is_read_end_open b" "pb_is_write_end_open b"
      "pb_capacity b = DEFAULT_PIPE_CAPACITY" "pb_contents b = q"
    using q by (auto simp: open_pipe_def)
  obtain n buf' b' wk where w: "pb_read buf b (k_wakeup k) = (n, buf', b', wk)" by (metis prod_cases4)
  note f = pb_read_fifo [OF b(2) w]
  have n: "n = min (length buf) (length q)" using f(1) b(6) by auto
  let ?k = "k\<lparr>k_wakeup := wk, k_pipes := pt_get_mut j (\<lambda>_. b') (k_pipes k)\<rparr>"
  let ?r = "if 0 < n then Ok n else Err EAGAIN"
  have mode': "is_centralized_mode ?k" using mode pb_read_mode [OF w] by (simp add: is_centralized_mode_def)
  have ends: "pb_is_write_end_open b'" "pb_is_read_end_open b'" using pb_read_ends [OF w] b(3,4) by simp_all
  have "n \<le> length q" "n \<le> length buf" by (simp_all add: n)
  then have "length buf' = length buf" using f(3) unfolding b(6) by simp
  then have "length buf' \<noteq> 0" using buf by simp
  then have "recv_loop host True j False True False 0 buf p k = Some ((?r, buf'), p, ?k)"
    using ends by (subst recv_loop.simps) (simp add: pipe_lookup_def b(1) w pipe_store_def)
  then have "sys_recv host fd buf 0 p k = Some ((?r, buf'), p, ?k)" using e mode by (simp add: sys_recv_def)
  then show thesis
  proof (rule that [OF _ mode'])
    show "pt_get (k_pipes ?k) m = pt_get (k_pipes k) m" if "m \<noteq> j" for m using that by (simp add: pt_get_get_mut)
    have "open_pipe ?k j (drop n q)" using f ends b by (simp add: open_pipe_def pt_get_get_mut)
    then have "?r = (if n = 0 then Err EAGAIN else Ok n) \<and> buf' = take n q @ drop n buf \<and> open_pipe ?k j (drop n q)"
      using f(3) b(6) by simp
    then show "let m = min (length buf) (length q) in
        ?r = (if m = 0 then Err EAGAIN else Ok m) \<and> buf' = take m q @ drop m buf \<and> open_pipe ?k j (drop m q)"
      unfolding Let_def n .
  qed
qed

section \<open>A conversation\<close>

text \<open>Calls on the two sockets of a pair, and per side what it has sent and received.\<close>

datatype chat = Say bool bytes | Hear bool bytes

fun chat_run :: "host \<Rightarrow> (bool \<Rightarrow> i32) \<Rightarrow> chat list \<Rightarrow> Process \<Rightarrow> Kernel \<Rightarrow>
    ((bool \<Rightarrow> bytes) \<times> (bool \<Rightarrow> bytes) \<times> Process \<times> Kernel) option" where
  "chat_run host fd [] p k = Some (\<lambda>_. [], \<lambda>_. [], p, k)"
| "chat_run host fd (Say s data # cs) p k = Option.bind (sys_send host (fd s) data 0 p k) (\<lambda>(r, p, k).
     map_option (\<lambda>(sent, got, t). (sent(s := (case r of Inl _ \<Rightarrow> [] | Inr n \<Rightarrow> take n data) @ sent s), got, t))
       (chat_run host fd cs p k))"
| "chat_run host fd (Hear s buf # cs) p k = Option.bind (sys_recv host (fd s) buf 0 p k) (\<lambda>((r, buf'), p, k).
     map_option (\<lambda>(sent, got, t). (sent, got(s := (case r of Inl _ \<Rightarrow> [] | Inr n \<Rightarrow> take n buf') @ got s), t))
       (chat_run host fd cs p k))"

fun chat_ok :: "chat \<Rightarrow> bool" where
  "chat_ok (Say s data) \<longleftrightarrow> data \<noteq> []"
| "chat_ok (Hear s buf) \<longleftrightarrow> buf \<noteq> []"

text \<open>The pipe a side sends into is the one the other side receives from.\<close>

definition joined :: "(bool \<Rightarrow> i32) \<Rightarrow> (bool \<Rightarrow> nat) \<Rightarrow> (bool \<Rightarrow> bytes) \<Rightarrow> Process \<Rightarrow> Kernel \<Rightarrow> bool" where
  "joined fd pipe q p k \<longleftrightarrow> is_centralized_mode k \<and> pipe True \<noteq> pipe False \<and>
     (\<forall>s. sock_link (fd s) (pipe s) (pipe (\<not> s)) p \<and> open_pipe k (pipe s) (q s))"

lemma joined_change:
  assumes "joined fd pipe q p k" "open_pipe k' (pipe s) y" "is_centralized_mode k'"
    "\<And>n. n \<noteq> pipe s \<Longrightarrow> pt_get (k_pipes k') n = pt_get (k_pipes k) n"
  shows "joined fd pipe (q(s := y)) p k'"
proof -
  have "open_pipe k' (pipe t) ((q(s := y)) t)" for t
  proof (cases "t = s")
    case False
    then have "pipe s \<noteq> pipe t" using assms(1) by (cases s; cases t) (auto simp: joined_def)
    moreover have "open_pipe k (pipe t) (q t)" using assms(1) by (simp add: joined_def)
    ultimately show ?thesis using False open_pipe_other [OF _ _ assms(4)] by simp
  qed (use assms(2) in simp)
  with assms(1,3) show ?thesis by (simp add: joined_def)
qed

lemma chat_say:
  assumes "joined fd pipe q p k" "data \<noteq> []"
  obtains r k' where "sys_send host (fd s) data 0 p k = Some (r, p, k')"
    "joined fd pipe (q(s := q s @ (case r of Inl _ \<Rightarrow> [] | Inr n \<Rightarrow> take n data))) p k'"
proof -
  have l: "is_centralized_mode k" "sock_link (fd s) (pipe s) (pipe (\<not> s)) p" "open_pipe k (pipe s) (q s)"
    using assms(1) by (simp_all add: joined_def)
  obtain r k' where r: "sys_send host (fd s) data 0 p k = Some (r, p, k')" "is_centralized_mode k'"
      "\<And>n. n \<noteq> pipe s \<Longrightarrow> pt_get (k_pipes k') n = pt_get (k_pipes k) n"
      "let n = min (length data) (DEFAULT_PIPE_CAPACITY - length (q s)) in
        r = (if n = 0 then Err EAGAIN else Ok n) \<and> open_pipe k' (pipe s) (q s @ take n data)"
    by (rule send_call [OF l assms(2), of host]) (rule that)
  have "open_pipe k' (pipe s) (q s @ (case r of Inl _ \<Rightarrow> [] | Inr n \<Rightarrow> take n data))"
    using r(4) unfolding Let_def by (cases "min (length data) (DEFAULT_PIPE_CAPACITY - length (q s)) = 0") simp_all
  then show thesis by (rule that [OF r(1) joined_change [OF assms(1) _ r(2,3)]])
qed

lemma chat_hear:
  assumes "joined fd pipe q p k" "buf \<noteq> []"
  obtains r buf' k' y where "sys_recv host (fd s) buf 0 p k = Some ((r, buf'), p, k')" "joined fd pipe (q(\<not> s := y)) p k'"
    "q (\<not> s) = (case r of Inl _ \<Rightarrow> [] | Inr n \<Rightarrow> take n buf') @ y"
proof -
  have l: "is_centralized_mode k" "sock_link (fd s) (pipe s) (pipe (\<not> s)) p" "open_pipe k (pipe (\<not> s)) (q (\<not> s))"
    using assms(1) by (simp_all add: joined_def)
  let ?n = "min (length buf) (length (q (\<not> s)))"
  obtain r buf' k' where r: "sys_recv host (fd s) buf 0 p k = Some ((r, buf'), p, k')" "is_centralized_mode k'"
      "\<And>n. n \<noteq> pipe (\<not> s) \<Longrightarrow> pt_get (k_pipes k') n = pt_get (k_pipes k) n"
      "let n = ?n in r = (if n = 0 then Err EAGAIN else Ok n) \<and> buf' = take n (q (\<not> s)) @ drop n buf \<and>
        open_pipe k' (pipe (\<not> s)) (drop n (q (\<not> s)))"
    by (rule recv_call [OF l assms(2), of host]) (rule that)
  have "q (\<not> s) = (case r of Inl _ \<Rightarrow> [] | Inr n \<Rightarrow> take n buf') @ drop ?n (q (\<not> s))"
    using r(4) unfolding Let_def by (cases "?n = 0") simp_all
  moreover have "joined fd pipe (q(\<not> s := drop ?n (q (\<not> s)))) p k'"
    using r(4) joined_change [OF assms(1) _ r(2,3)] unfolding Let_def by blast
  ultimately show thesis by (rule that [OF r(1), rotated])
qed

lemma chat_run_streams:
  "joined fd pipe q p k \<Longrightarrow> \<forall>c\<in>set cs. chat_ok c \<Longrightarrow>
    \<exists>sent got k' q'. chat_run host fd cs p k = Some (sent, got, p, k') \<and> joined fd pipe q' p k' \<and>
      (\<forall>s. q s @ sent s = got (\<not> s) @ q' s)"
proof (induction cs arbitrary: k q)
  case (Cons c cs)
  have ok: "\<forall>c\<in>set cs. chat_ok c" using Cons.prems(2) by simp
  show ?case
  proof (cases c)
    case (Say s data)
    have d: "data \<noteq> []" using Cons.prems(2) Say by simp
    obtain r k' where r: "sys_send host (fd s) data 0 p k = Some (r, p, k')"
        "joined fd pipe (q(s := q s @ (case r of Inl _ \<Rightarrow> [] | Inr n \<Rightarrow> take n data))) p k'"
      by (rule chat_say [OF Cons.prems(1) d])
    let ?x = "case r of Inl _ \<Rightarrow> [] | Inr n \<Rightarrow> take n data"
    from Cons.IH [OF r(2) ok] obtain sent got k'' q' where run: "chat_run host fd cs p k' = Some (sent, got, p, k'')"
        "joined fd pipe q' p k''" "\<forall>t. (q(s := q s @ ?x)) t @ sent t = got (\<not> t) @ q' t" by blast
    have "q t @ (sent(s := ?x @ sent s)) t = got (\<not> t) @ q' t" for t using run(3) [rule_format, of t] by (cases "t = s") simp_all
    moreover have "chat_run host fd (c # cs) p k = Some (sent(s := ?x @ sent s), got, p, k'')" by (simp add: Say r(1) run(1))
    ultimately show ?thesis using run(2) by blast
  next
    case (Hear s buf)
    have d: "buf \<noteq> []" using Cons.prems(2) Hear by simp
    obtain r buf' k' y where r: "sys_recv host (fd s) buf 0 p k = Some ((r, buf'), p, k')" "joined fd pipe (q(\<not> s := y)) p k'"
        "q (\<not> s) = (case r of Inl _ \<Rightarrow> [] | Inr n \<Rightarrow> take n buf') @ y"
      by (rule chat_hear [OF Cons.prems(1) d])
    let ?x = "case r of Inl _ \<Rightarrow> [] | Inr n \<Rightarrow> take n buf'"
    from Cons.IH [OF r(2) ok] obtain sent got k'' q' where run: "chat_run host fd cs p k' = Some (sent, got, p, k'')"
        "joined fd pipe q' p k''" "\<forall>t. (q(\<not> s := y)) t @ sent t = got (\<not> t) @ q' t" by blast
    have "q t @ sent t = (got(s := ?x @ got s)) (\<not> t) @ q' t" for t
      using run(3) [rule_format, of t] r(3) by (cases t; cases s) simp_all
    moreover have "chat_run host fd (c # cs) p k = Some (sent, got(s := ?x @ got s), p, k'')" by (simp add: Hear r(1) run(1))
    ultimately show ?thesis using run(2) by blast
  qed
qed auto

text \<open>
  What the next call on either side does, given the bytes on their way from each: a receive gets them, up to
  the size of its buffer, and a send takes what fits beside them.
\<close>

definition delivers :: "host \<Rightarrow> (bool \<Rightarrow> i32) \<Rightarrow> (bool \<Rightarrow> bytes) \<Rightarrow> Process \<Rightarrow> Kernel \<Rightarrow> bool" where
  "delivers host fd q p k \<longleftrightarrow>
    (\<forall>s buf. buf \<noteq> [] \<longrightarrow> (\<exists>k'. sys_recv host (fd (\<not> s)) buf 0 p k =
       Some ((let n = min (length buf) (length (q s)) in (if n = 0 then Err EAGAIN else Ok n, take n (q s) @ drop n buf)), p, k'))) \<and>
    (\<forall>s data. data \<noteq> [] \<longrightarrow> (\<exists>k'. sys_send host (fd s) data 0 p k =
       Some ((let n = min (length data) (DEFAULT_PIPE_CAPACITY - length (q s)) in if n = 0 then Err EAGAIN else Ok n), p, k')))"

lemma joined_delivers:
  assumes "joined fd pipe q p k"
  shows "delivers host fd q p k"
proof -
  have l: "is_centralized_mode k" "\<And>s. sock_link (fd s) (pipe s) (pipe (\<not> s)) p" "\<And>s. open_pipe k (pipe s) (q s)"
    using assms by (simp_all add: joined_def)
  have "\<exists>k'. sys_recv host (fd (\<not> s)) buf 0 p k =
      Some ((let n = min (length buf) (length (q s)) in (if n = 0 then Err EAGAIN else Ok n, take n (q s) @ drop n buf)), p, k')"
    if ne: "buf \<noteq> []" for s buf
  proof -
    have lk: "sock_link (fd (\<not> s)) (pipe (\<not> s)) (pipe s) p" using l(2) [of "\<not> s"] by simp
    obtain r buf' k' where "sys_recv host (fd (\<not> s)) buf 0 p k = Some ((r, buf'), p, k')"
        "let n = min (length buf) (length (q s)) in
          r = (if n = 0 then Err EAGAIN else Ok n) \<and> buf' = take n (q s) @ drop n buf \<and> open_pipe k' (pipe s) (drop n (q s))"
      by (rule recv_call [OF l(1) lk l(3) ne, of host]) (rule that)
    then show ?thesis unfolding Let_def by blast
  qed
  moreover have "\<exists>k'. sys_send host (fd s) data 0 p k =
      Some ((let n = min (length data) (DEFAULT_PIPE_CAPACITY - length (q s)) in if n = 0 then Err EAGAIN else Ok n), p, k')"
    if ne: "data \<noteq> []" for s data
  proof -
    obtain r k' where "sys_send host (fd s) data 0 p k = Some (r, p, k')"
        "let n = min (length data) (DEFAULT_PIPE_CAPACITY - length (q s)) in
          r = (if n = 0 then Err EAGAIN else Ok n) \<and> open_pipe k' (pipe s) (q s @ take n data)"
      by (rule send_call [OF l(1) l(2) l(3) ne, of host]) (rule that)
    then show ?thesis unfolding Let_def by blast
  qed
  ultimately show ?thesis unfolding delivers_def by blast
qed

section \<open>How two sockets get joined\<close>

text \<open>A descriptor that names socket \<open>j\<close>.\<close>

definition names_socket :: "i32 \<Rightarrow> nat \<Rightarrow> FdTable \<Rightarrow> OfdTable \<Rightarrow> bool" where
  "names_socket fd j fds ofds \<longleftrightarrow> (\<exists>e d. fdt_get fds fd = Ok e \<and> ofdt_get ofds (ofd_ref e) = Some d \<and>
     ofd_file_type d = Socket \<and> ofd_status_flags d AND O_ACCMODE = O_RDWR \<and> kernel_idx (ofd_host_handle d) = j)"

definition stream_between :: "nat \<Rightarrow> nat \<Rightarrow> SocketInfo \<Rightarrow> bool" where
  "stream_between a b s \<longleftrightarrow> sk_domain s = DomUnix \<and> sk_sock_type s = Stream \<and> sk_state s = Connected \<and>
     sk_send_buf_idx s = Some a \<and> sk_recv_buf_idx s = Some b \<and> sk_global_pipes s \<and> \<not> sk_shut_rd s \<and> \<not> sk_shut_wr s"

lemma sock_linkI:
  "names_socket fd j (p_fd_table p) (p_ofd_table p) \<Longrightarrow> skt_get (p_sockets p) j = Some s \<Longrightarrow> stream_between a b s \<Longrightarrow>
    sock_link fd a b p"
  by (auto simp: names_socket_def stream_between_def sock_link_def)

lemma skt_get_get_mut:
  "skt_get (skt_get_mut i f t) j = (if i = j then map_option f (skt_get t j) else skt_get t j)"
  by (simp add: skt_get_def skt_get_mut_def slot_get_modify)

lemma skt_alloc_get:
  "skt_alloc s t = (i, t') \<Longrightarrow> skt_get t i = None \<and> skt_get t' = (skt_get t)(i \<mapsto> s) \<and> i \<le> length t \<and> length t' \<le> Suc (length t)"
  using slot_insert_length [of s t i t'] slot_insert_lowest [of s t i t' "length t"]
  by (cases "i \<le> length t") (auto simp: skt_alloc_def skt_get_def slot_insert_lookup slot_get_beyond dest: slot_insert_fresh)

text \<open>New descriptors and descriptions leave the others alone.\<close>

lemma fdt_alloc_new:
  assumes "fdt_wf t" "fdt_alloc t r fl = (Inr fd, t')"
  shows "fdt_wf t'" "fdt_get t' fd = Ok \<lparr>ofd_ref = r, fd_flags = fl\<rparr>" "fdt_get t f = Ok e \<Longrightarrow> fdt_get t' f = Ok e"
proof -
  from fdt_alloc_cases [OF assms(1) assms(2) [unfolded fdt_alloc_def]] obtain n where n: "n < 2 ^ 31" "fd = word_of_nat n"
    "fdt_map t n = None" "fdt_wf t'" "fdt_map t' = (fdt_map t)(n \<mapsto> \<lparr>ofd_ref = r, fd_flags = fl\<rparr>)" by auto
  have s: "sint (word_of_nat n :: i32) = int n" using n(1) by (simp add: signed_of_nat signed_take_bit_int_eq_self)
  show "fdt_wf t'" by (rule n(4))
  show "fdt_get t' fd = Ok \<lparr>ofd_ref = r, fd_flags = fl\<rparr>" using n(2,5) s by (simp add: fdt_get_eq ok_or_def)
  show "fdt_get t f = Ok e \<Longrightarrow> fdt_get t' f = Ok e"
    using n(3,5) by (auto simp: fdt_get_eq ok_or_def split: if_splits option.splits)
qed

lemma names_socket_new:
  assumes "fdt_get fds fd = Ok \<lparr>ofd_ref = r, fd_flags = fl\<rparr>" "ofdt_get ofds r = Some (ofd_fresh Socket st (- (word_of_nat j + 1)) path)"
    "j < 2 ^ 63" "st AND O_ACCMODE = O_RDWR"
  shows "names_socket fd j fds ofds"
  using assms kernel_idx_pipe(1) [OF assms(3)] by (simp add: names_socket_def ofd_fresh_def)

lemma sock_status_rdwr: "sock_status ty AND O_ACCMODE = O_RDWR"
  by (simp add: sock_status_def)

lemma open_pipe_new:
  assumes "pt_wf (k_pipes k)" "pt_alloc (pb_new DEFAULT_PIPE_CAPACITY) (k_pipes k) = (a, t)" "pt_alloc (pb_new DEFAULT_PIPE_CAPACITY) t = (b, t')"
  shows "a \<noteq> b" "open_pipe (k\<lparr>k_pipes := t'\<rparr>) a []" "open_pipe (k\<lparr>k_pipes := t'\<rparr>) b []"
proof -
  note g1 = pt_alloc_get [OF assms(1,2)] and g2 = pt_alloc_get [OF pt_alloc_wf(1) [OF assms(1,2)] assms(3)]
  show ab: "a \<noteq> b" using g1 g2 by auto
  have "pb_wf (pb_at (pb_new DEFAULT_PIPE_CAPACITY) i) \<and> pb_contents (pb_at (pb_new DEFAULT_PIPE_CAPACITY) i) = []" for i
    by (simp add: pb_wf_def pb_at_def pb_new_def pb_contents_def)
  then show "open_pipe (k\<lparr>k_pipes := t'\<rparr>) a []" "open_pipe (k\<lparr>k_pipes := t'\<rparr>) b []"
    using g1 g2 ab by (simp_all add: open_pipe_def pb_at_def pb_new_def pb_is_read_end_open_def pb_is_write_end_open_def
        pb_capacity_def)
qed

definition ends_of :: "'a \<Rightarrow> 'a \<Rightarrow> bool \<Rightarrow> 'a" where
  "ends_of x y s = (if s then x else y)"

lemma joinedI:
  assumes "is_centralized_mode k" "a \<noteq> b" "sock_link fa a b p" "sock_link fb b a p" "open_pipe k a []" "open_pipe k b []"
  shows "joined (ends_of fa fb) (ends_of a b) (\<lambda>_. []) p k"
  using assms by (simp add: joined_def ends_of_def all_bool_eq)

lemma stream_between_new: "stream_between a b ((sk_connected DomUnix a b True)\<lparr>sk_peer_idx := x\<rparr>)"
  by (simp add: stream_between_def sk_connected_def sk_new_def)

text \<open>The two descriptors of a pair.\<close>

lemma two_names:
  assumes "fdt_wf fds" "fdt_alloc fds ra fl = (Inr fa, f1)" "fdt_alloc f1 rb fl = (Inr fb, f2)"
    "ofdt_create Socket st (- (word_of_nat a + 1)) path t = (ra, t1)" "ofdt_create Socket st (- (word_of_nat b + 1)) path t1 = (rb, t2)"
    "a < 2 ^ 63" "b < 2 ^ 63" "st AND O_ACCMODE = O_RDWR"
  shows "names_socket fa a f2 t2" "names_socket fb b f2 t2"
proof -
  note n1 = fdt_alloc_new [OF assms(1,2)] and n2 = fdt_alloc_new [OF fdt_alloc_new(1) [OF assms(1,2)] assms(3)]
  note o = ofdt_create_get [OF assms(4)] ofdt_create_get [OF assms(5)]
  have "ofdt_get t2 ra = Some (ofd_fresh Socket st (- (word_of_nat a + 1)) path)" using o by auto
  from names_socket_new [OF n2(3) [OF n1(2)] this assms(6,8)] show "names_socket fa a f2 t2" .
  have "ofdt_get t2 rb = Some (ofd_fresh Socket st (- (word_of_nat b + 1)) path)" using o by auto
  from names_socket_new [OF n2(2) this assms(7,8)] show "names_socket fb b f2 t2" .
qed

lemma socketpair_joined:
  assumes "pt_wf (k_pipes k)" "fdt_wf (p_fd_table p)" "length (p_sockets p) < 2 ^ 62" "is_centralized_mode k"
    and call: "sys_socketpair domain ty p k = (Ok (fa, fb), p', k')"
  shows "\<exists>pipe. joined (ends_of fa fb) pipe (\<lambda>_. []) p' k'"
proof -
  let ?path = "bstr ''/dev/socket''" and ?st = "sock_status ty"
  obtain ab t1 where ab: "pt_alloc (pb_new DEFAULT_PIPE_CAPACITY) (k_pipes k) = (ab, t1)" by fastforce
  obtain ba t2 where ba: "pt_alloc (pb_new DEFAULT_PIPE_CAPACITY) t1 = (ba, t2)" by fastforce
  obtain a s1 where a: "skt_alloc (sk_connected DomUnix ab ba True) (p_sockets p) = (a, s1)" by fastforce
  obtain b s2 where b: "skt_alloc (sk_connected DomUnix ba ab True) s1 = (b, s2)" by fastforce
  obtain ra o1 where ra: "ofdt_create Socket ?st (- (word_of_nat a + 1)) ?path (p_ofd_table p) = (ra, o1)" by fastforce
  obtain rb o2 where rb: "ofdt_create Socket ?st (- (word_of_nat b + 1)) ?path o1 = (rb, o2)" by fastforce
  let ?socks = "skt_get_mut b (\<lambda>s. s\<lparr>sk_peer_idx := Some a\<rparr>) (skt_get_mut a (\<lambda>s. s\<lparr>sk_peer_idx := Some b\<rparr>) s2)"
  obtain f1 f2 where al: "fdt_alloc (p_fd_table p) ra (sock_fd_flags ty) = (Inr fa, f1)"
      "fdt_alloc f1 rb (sock_fd_flags ty) = (Inr fb, f2)"
      and p': "p' = p\<lparr>p_sockets := ?socks, p_ofd_table := o2, p_fd_table := f2\<rparr>" and k': "k' = k\<lparr>k_pipes := t2\<rparr>"
    using call ab ba a b ra rb by (auto simp: sys_socketpair_def Let_def split: if_splits prod.splits sum.splits)
  note ga = skt_alloc_get [OF a] and gb = skt_alloc_get [OF b] and pipes = open_pipe_new [OF assms(1) ab ba]
  have "a \<noteq> b" using ga gb by auto
  then have socks: "skt_get ?socks a = Some ((sk_connected DomUnix ab ba True)\<lparr>sk_peer_idx := Some b\<rparr>)"
      "skt_get ?socks b = Some ((sk_connected DomUnix ba ab True)\<lparr>sk_peer_idx := Some a\<rparr>)"
    using ga gb by (simp_all add: skt_get_get_mut)
  have small: "a < 2 ^ 63" "b < 2 ^ 63" using ga gb assms(3) by auto
  note nm = two_names [OF assms(2) al ra rb small sock_status_rdwr]
  have "sock_link fa ab ba p'" "sock_link fb ba ab p'"
    using sock_linkI [OF _ _ stream_between_new] nm socks by (simp_all add: p')
  then have "joined (ends_of fa fb) (ends_of ab ba) (\<lambda>_. []) p' k'"
    using pipes assms(4) by (intro joinedI) (simp_all add: k' is_centralized_mode_def)
  then show ?thesis by blast
qed

text \<open>
  C7: \<open>sys_socketpair\<close> gives two independent, reliable byte streams. In the centralised mode, whatever the calls
  of \<open>sys_send\<close> and \<open>sys_recv\<close> without flags on its two descriptors and their order, no call hangs, and what one side has sent (as the calls
  reported it) is what the other has received followed by what is still on its way, which is what its next
  receive gets: no byte is lost, duplicated, reordered or mixed up with the other direction.
\<close>

theorem socketpair_two_streams:
  assumes "pt_wf (k_pipes k)" and "fdt_wf (p_fd_table p)" and "length (p_sockets p) < 2 ^ 62" and "is_centralized_mode k"
    and "sys_socketpair domain ty p k = (Ok (fa, fb), p', k')"
    and "\<forall>c\<in>set cs. chat_ok c"
  shows "\<exists>sent got k'' on_the_way. chat_run host (ends_of fa fb) cs p' k' = Some (sent, got, p', k'') \<and>
    (\<forall>s. sent s = got (\<not> s) @ on_the_way s) \<and> delivers host (ends_of fa fb) on_the_way p' k''"
proof -
  from socketpair_joined [OF assms(1-5)] obtain pipe where "joined (ends_of fa fb) pipe (\<lambda>_. []) p' k'" ..
  then obtain sent got k'' q where "chat_run host (ends_of fa fb) cs p' k' = Some (sent, got, p', k'')" "joined (ends_of fa fb) pipe q p' k''"
      "\<forall>s. [] @ sent s = got (\<not> s) @ q s" using chat_run_streams [OF _ assms(6), of _ _ _ _ _ host] by blast
  then show ?thesis using joined_delivers by fastforce
qed

lemma socketpair_example:
  "\<exists>p' k'. sys_socketpair AF_UNIX SOCK_STREAM (process_new 3) kernel_new = (Ok (3, 4), p', k')"
  by (simp add: sys_socketpair_def sock_type_of_def kernel_new_def pt_new_def pt_alloc_def process_new_def fdt_new_def
      fdt_with_max_def fdt_preopen_stdio_def fdt_alloc_def fdt_alloc_at_min_def Let_def split_beta)

lemma fresh_machine:
  "pt_wf (k_pipes kernel_new)" "fdt_wf (p_fd_table (process_new 3))" "length (p_sockets (process_new 3)) < 2 ^ 62"
  "is_centralized_mode kernel_new"
  by (simp_all add: kernel_new_def pt_wf_def pt_new_def process_new_def fdt_wf_def fdt_new_def fdt_with_max_def fdt_preopen_stdio_def
      fdt_alloc_def fdt_alloc_at_min_def Let_def split_beta skt_new_def is_centralized_mode_def)

theorem socketpair_two_streams_witness:
  "\<exists>p' k' sent got k'' on_the_way. sys_socketpair AF_UNIX SOCK_STREAM (process_new 3) kernel_new = (Ok (3, 4), p', k') \<and>
    chat_run quiet_host (ends_of 3 4) [Say True [1, 2, 3], Hear False [0, 0], Say False [9], Hear True [0]] p' k' = Some (sent, got, p', k'') \<and>
    sent True = got False @ on_the_way True"
proof -
  obtain p' k' where c: "sys_socketpair AF_UNIX SOCK_STREAM (process_new 3) kernel_new = (Ok (3, 4), p', k')"
    using socketpair_example by blast
  have "\<forall>c\<in>set [Say True [1, 2, 3], Hear False [0, 0], Say False [9], Hear True [0]]. chat_ok c" by simp
  from socketpair_two_streams [OF fresh_machine c this, of quiet_host] c show ?thesis by fastforce
qed

text \<open>
  C39: receiving with \<open>MSG_WAITALL\<close> loses data. If some bytes are there but fewer than the buffer holds, and the
  peer is still connected, \<open>sys_recv\<close> takes them out of the pipe and then fails with \<open>EAGAIN\<close>. The host calls
  again, and the second call no longer finds them.
\<close>

theorem recv_waitall_loses_data:
  assumes "is_centralized_mode k" and "sock_link fd i j p" and "open_pipe k j q"
    and "q \<noteq> []" and "length q < length buf"
  shows "\<exists>buf' k'. sys_recv host fd buf MSG_WAITALL p k = Some ((Err EAGAIN, buf'), p, k') \<and> open_pipe k' j []"
proof -
  obtain d :: OpenFileDesc and s where e: "sk_state s = Connected" "sk_recv_buf_idx s = Some j" "sk_global_pipes s" "\<not> sk_shut_rd s"
    "socket_of fd p = Ok (kernel_idx (ofd_host_handle d), s, ofd_status_flags d)"
    using assms(2) by (auto elim: sock_linkE)
  obtain b where b: "pt_get (k_pipes k) j = Some b" "pb_wf b" "pb_is_read_end_open b" "pb_is_write_end_open b"
      "pb_capacity b = DEFAULT_PIPE_CAPACITY" "pb_contents b = q"
    using assms(3) by (auto simp: open_pipe_def)
  obtain n buf' b' wk where w: "pb_read buf b (k_wakeup k) = (n, buf', b', wk)" by (metis prod_cases4)
  note f = pb_read_fifo [OF b(2) w]
  have n: "n = length q" using f(1) b(6) assms(5) by auto
  have len: "length buf' = length buf" using f(3) assms(5) by (simp add: b(6) n)
  have ends: "pb_is_write_end_open b'" "pb_is_read_end_open b'" using pb_read_ends [OF w] b(3,4) by simp_all
  let ?k = "k\<lparr>k_wakeup := wk, k_pipes := pt_get_mut j (\<lambda>_. b') (k_pipes k)\<rparr>"
  have "recv_loop host True j False True True 0 buf p k = Some ((Err EAGAIN, buf'), p, ?k)"
    using ends len n assms(4,5) by (subst recv_loop.simps) (simp add: pipe_lookup_def b(1) w pipe_store_def)
  then have "sys_recv host fd buf MSG_WAITALL p k = Some ((Err EAGAIN, buf'), p, ?k)"
    using e assms(1) by (simp add: sys_recv_def)
  moreover have "open_pipe ?k j []" using f ends b n by (simp add: open_pipe_def pt_get_get_mut)
  ultimately show ?thesis by blast
qed

theorem recv_waitall_loses_data_witness:
  "\<exists>p k k' buf' j. sys_recv quiet_host 4 [0, 0] MSG_WAITALL p k = Some ((Err EAGAIN, buf'), p, k') \<and>
    open_pipe k j [7] \<and> open_pipe k' j []"
proof -
  obtain p k where c: "sys_socketpair AF_UNIX SOCK_STREAM (process_new 3) kernel_new = (Ok (3, 4), p, k)"
    using socketpair_example by blast
  from socketpair_joined [OF fresh_machine c] obtain pipe where j: "joined (ends_of 3 4) pipe (\<lambda>_. []) p k" ..
  then have "is_centralized_mode k" "sock_link 3 (pipe True) (pipe False) p" "open_pipe k (pipe True) []"
    by (auto simp: joined_def ends_of_def all_bool_eq)
  from send_call [OF this, of "[7]" quiet_host] obtain k1 where k1: "is_centralized_mode k1" "open_pipe k1 (pipe True) [7]"
    by (auto simp: Let_def)
  have "sock_link 4 (pipe False) (pipe True) p" using j by (auto simp: joined_def ends_of_def all_bool_eq)
  from recv_waitall_loses_data [OF k1(1) this k1(2), of "[0, 0]" quiet_host] k1(2) show ?thesis by auto
qed

section \<open>A connection\<close>

text \<open>After a connection the listener has a new socket in its backlog that is joined to the client.\<close>

lemma join_sockets_get:
  assumes "skt_get (p_sockets p) i = Some c" "skt_get (p_sockets p) l = Some ls" "i \<noteq> l"
    "join_sockets i l acc f p = p'" "skt_alloc acc (p_sockets p) = (j, socks)"
  shows "skt_get (p_sockets p') j = Some (acc\<lparr>sk_peer_idx := Some i\<rparr>)"
    "skt_get (p_sockets p') i = Some (f (c\<lparr>sk_peer_idx := Some j, sk_state := Connected, sk_send_buf_idx := sk_recv_buf_idx acc,
                sk_recv_buf_idx := sk_send_buf_idx acc\<rparr>))"
    "skt_get (p_sockets p') l = Some (ls\<lparr>sk_listen_backlog := sk_listen_backlog ls @ [j]\<rparr>)"
    "p_fd_table p' = p_fd_table p" "p_ofd_table p' = p_ofd_table p"
proof -
  note a = skt_alloc_get [OF assms(5)]
  have "j \<noteq> i" "j \<noteq> l" using a assms(1,2) by auto
  with a assms show "skt_get (p_sockets p') j = Some (acc\<lparr>sk_peer_idx := Some i\<rparr>)"
    "skt_get (p_sockets p') i = Some (f (c\<lparr>sk_peer_idx := Some j, sk_state := Connected, sk_send_buf_idx := sk_recv_buf_idx acc,
                sk_recv_buf_idx := sk_send_buf_idx acc\<rparr>))"
    "skt_get (p_sockets p') l = Some (ls\<lparr>sk_listen_backlog := sk_listen_backlog ls @ [j]\<rparr>)"
    "p_fd_table p' = p_fd_table p" "p_ofd_table p' = p_ofd_table p"
    by (auto simp: join_sockets_def Let_def put_sock_def skt_get_get_mut)
qed

lemma open_socket_names:
  assumes "fdt_wf (p_fd_table p)" "open_socket j O_RDWR fl p = (Inr fd, p')" "j < 2 ^ 63"
  shows "names_socket fd j (p_fd_table p') (p_ofd_table p')" "p_sockets p' = p_sockets p"
    "names_socket f i (p_fd_table p) (p_ofd_table p) \<Longrightarrow> names_socket f i (p_fd_table p') (p_ofd_table p')"
proof -
  let ?path = "bstr ''/dev/socket''"
  obtain r ofds where r: "ofdt_create Socket O_RDWR (- (word_of_nat j + 1)) ?path (p_ofd_table p) = (r, ofds)" by fastforce
  obtain fds where a: "fdt_alloc (p_fd_table p) r fl = (Inr fd, fds)" and p': "p' = p\<lparr>p_ofd_table := ofds, p_fd_table := fds\<rparr>"
    using assms(2) r by (auto simp: open_socket_def Let_def split: prod.splits)
  note o = ofdt_create_get [OF r] and n = fdt_alloc_new [OF assms(1) a]
  have rw: "O_RDWR AND O_ACCMODE = O_RDWR" by simp
  have "names_socket fd j fds ofds" using o by (intro names_socket_new [OF n(2) _ assms(3) rw]) simp
  then show "names_socket fd j (p_fd_table p') (p_ofd_table p')" "p_sockets p' = p_sockets p" by (simp_all add: p')
  show "names_socket f i (p_fd_table p') (p_ofd_table p')" if "names_socket f i (p_fd_table p) (p_ofd_table p)"
    using that o n(3) by (fastforce simp: names_socket_def p')
qed

lemma names_socket_iff:
  "names_socket fd i (p_fd_table p) (p_ofd_table p) \<Longrightarrow> skt_get (p_sockets p) i = Some s \<Longrightarrow> \<exists>fl. socket_of fd p = Ok (i, s, fl)"
  by (auto simp: names_socket_def socket_of_def)

text \<open>What a client needs to be, and a listener whose next connection is the client's.\<close>

definition fresh_stream :: "SocketInfo \<Rightarrow> bool" where
  "fresh_stream s \<longleftrightarrow> sk_domain s = DomUnix \<and> sk_sock_type s = Stream \<and> \<not> sk_shut_rd s \<and> \<not> sk_shut_wr s"

lemma unix_connect_accept_joined:
  assumes wf: "pt_wf (k_pipes k)" "fdt_wf (p_fd_table p)" "length (p_sockets p) < 2 ^ 62" "is_centralized_mode k"
    and client: "names_socket cfd i (p_fd_table p) (p_ofd_table p)" "skt_get (p_sockets p) i = Some c" "fresh_stream c"
    and listener: "names_socket lfd l (p_fd_table p) (p_ofd_table p)" "skt_get (p_sockets p) l = Some ls"
      "sk_shared_backlog_idx ls = None" "sk_listen_backlog ls = []" "i \<noteq> l"
    and name: "sun_path addr p = Ok path" "unix_lookup (k_unix k) path = Some \<lparr>us_pid = p_pid p, us_sock_idx = l\<rparr>"
    and connect: "sys_connect host cfd addr p k = (Ok (), p1, k1)"
    and accept: "sys_accept lfd p1 k1 = (Ok sfd, p2, k2)"
  shows "\<exists>pipe. joined (ends_of cfd sfd) pipe (\<lambda>_. []) p2 k2"
proof -
  obtain a t1 where a: "pt_alloc (pb_new DEFAULT_PIPE_CAPACITY) (k_pipes k) = (a, t1)" by fastforce
  obtain b t2 where b: "pt_alloc (pb_new DEFAULT_PIPE_CAPACITY) t1 = (b, t2)" by fastforce
  let ?acc = "sk_connected DomUnix b a True" and ?f = "\<lambda>s. s\<lparr>sk_global_pipes := True\<rparr>"
  obtain j socks where j: "skt_alloc ?acc (p_sockets p) = (j, socks)" by fastforce
  obtain fl where "socket_of cfd p = Ok (i, c, fl)" using names_socket_iff [OF client(1,2)] ..
  then have p1: "join_sockets i l ?acc ?f p = p1" and k1: "k1 = k\<lparr>k_pipes := t2\<rparr>"
    using connect client(3) name listener(2) a b
    by (auto simp: sys_connect_def connect_unix_def fresh_stream_def split: if_splits)
  note g = join_sockets_get [OF client(2) listener(2,5) p1 j]
  obtain lf where "socket_of lfd p1 = Ok (l, ls\<lparr>sk_listen_backlog := [j]\<rparr>, lf)"
    using names_socket_iff [OF _ g(3), of lfd] listener(1,4) g(4,5) by auto
  then have o: "open_socket j O_RDWR 0 (put_sock l (\<lambda>s. s\<lparr>sk_listen_backlog := []\<rparr>) p1) = (Inr sfd, p2)" and k2: "k2 = k1"
    using accept listener(3) by (auto simp: sys_accept_def Let_def split: if_splits prod.splits)
  let ?p = "put_sock l (\<lambda>s. s\<lparr>sk_listen_backlog := []\<rparr>) p1"
  have tabs: "p_fd_table ?p = p_fd_table p" "p_ofd_table ?p = p_ofd_table p" using g(4,5) by (simp_all add: put_sock_def)
  note ja = skt_alloc_get [OF j]
  have "j < 2 ^ 63" using ja wf(3) by auto
  note nm = open_socket_names [OF wf(2) [folded tabs(1)] o this]
  have jl: "j \<noteq> l" using ja listener(2) by auto
  have "sock_link cfd a b p2"
    using nm(2) client(1,3) g(2) listener(5)
    by (intro sock_linkI [OF nm(3)]) (auto simp: g(4,5) put_sock_def skt_get_get_mut stream_between_def sk_connected_def sk_new_def fresh_stream_def)
  moreover have "sock_link sfd b a p2"
    using nm(2) g(1) jl by (intro sock_linkI [OF nm(1) _ stream_between_new]) (simp add: put_sock_def skt_get_get_mut)
  ultimately have "joined (ends_of cfd sfd) (ends_of a b) (\<lambda>_. []) p2 k2"
    using open_pipe_new [OF wf(1) a b] wf(4) by (intro joinedI) (simp_all add: k1 k2 is_centralized_mode_def)
  then show ?thesis by blast
qed

text \<open>
  C4: a connection to a name joins the right sockets. In the centralised mode, if
  \<open>sys_connect\<close> of a stream socket to the path of a listening socket of the same process succeeds, and no other
  connection waits there, the descriptor \<open>sys_accept\<close> of the listener returns and the client's are the two ends
  of two independent, reliable byte streams, for every sequence of \<open>sys_send\<close> and \<open>sys_recv\<close> calls without flags
  on them: what one has sent is what the other has received followed by what its next receive gets.
\<close>

theorem unix_connection_two_streams:
  assumes "pt_wf (k_pipes k)" and "fdt_wf (p_fd_table p)" and "length (p_sockets p) < 2 ^ 62" and "is_centralized_mode k"
    and "names_socket cfd i (p_fd_table p) (p_ofd_table p)" and "skt_get (p_sockets p) i = Some c" and "fresh_stream c"
    and "names_socket lfd l (p_fd_table p) (p_ofd_table p)" and "skt_get (p_sockets p) l = Some ls"
    and "sk_shared_backlog_idx ls = None" and "sk_listen_backlog ls = []" and "i \<noteq> l"
    and "sun_path addr p = Ok path" and "unix_lookup (k_unix k) path = Some \<lparr>us_pid = p_pid p, us_sock_idx = l\<rparr>"
    and "sys_connect host cfd addr p k = (Ok (), p1, k1)" and "sys_accept lfd p1 k1 = (Ok sfd, p2, k2)"
    and "\<forall>c\<in>set cs. chat_ok c"
  shows "\<exists>sent got k' on_the_way. chat_run host (ends_of cfd sfd) cs p2 k2 = Some (sent, got, p2, k') \<and>
    (\<forall>s. sent s = got (\<not> s) @ on_the_way s) \<and> delivers host (ends_of cfd sfd) on_the_way p2 k'"
proof -
  from unix_connect_accept_joined [OF assms(1-16)] obtain pipe where "joined (ends_of cfd sfd) pipe (\<lambda>_. []) p2 k2" ..
  then obtain sent got k' q where "chat_run host (ends_of cfd sfd) cs p2 k2 = Some (sent, got, p2, k')" "joined (ends_of cfd sfd) pipe q p2 k'"
      "\<forall>s. [] @ sent s = got (\<not> s) @ q s" using chat_run_streams [OF _ assms(17), of _ _ _ _ _ host] by blast
  then show ?thesis using joined_delivers by fastforce
qed

text \<open>A process that listens at \<^verbatim>\<open>/s\<close> on descriptor 0 and has a fresh socket on descriptor 1.\<close>

definition listening :: Process where
  "listening = (process_new 3)\<lparr>
     p_sockets := [Some ((sk_new DomUnix Stream 0)\<lparr>sk_state := Listening, sk_bind_path := Some ([47, 115])\<rparr>),
       Some (sk_new DomUnix Stream 0)],
     p_ofd_table := [Some (ofd_fresh Socket O_RDWR (- 1) []), Some (ofd_fresh Socket O_RDWR (- 2) [])],
     p_fd_table := \<lparr>fdt_entries = [Some \<lparr>ofd_ref = 0, fd_flags = 0\<rparr>, Some \<lparr>ofd_ref = 1, fd_flags = 0\<rparr>], fdt_max_fds = 1024\<rparr>\<rparr>"

definition kernel_named :: Kernel where
  "kernel_named = kernel_new\<lparr>k_unix := snd (unix_register ([47, 115]) 3 0 (k_unix kernel_new))\<rparr>"

lemma listening_facts:
  "fdt_wf (p_fd_table listening)" "length (p_sockets listening) < 2 ^ 62" "p_pid listening = 3"
  "names_socket 1 1 (p_fd_table listening) (p_ofd_table listening)" "skt_get (p_sockets listening) 1 = Some (sk_new DomUnix Stream 0)"
  "names_socket 0 0 (p_fd_table listening) (p_ofd_table listening)"
  "skt_get (p_sockets listening) 0 = Some ((sk_new DomUnix Stream 0)\<lparr>sk_state := Listening, sk_bind_path := Some ([47, 115])\<rparr>)"
  "fresh_stream (sk_new DomUnix Stream 0)"
  by (simp_all add: listening_def fdt_wf_def names_socket_def fdt_get_def ofdt_get_def slot_get_def ofd_fresh_def kernel_idx_def skt_get_def
      Let_def process_new_def split_beta fresh_stream_def sk_new_def)

lemma kernel_named_facts:
  "pt_wf (k_pipes kernel_named)" "is_centralized_mode kernel_named"
  "unix_lookup (k_unix kernel_named) ([47, 115]) = Some \<lparr>us_pid = 3, us_sock_idx = 0\<rparr>"
  using fresh_machine(1,4)
  by (simp_all add: kernel_named_def is_centralized_mode_def kernel_new_def unix_register_def unix_lookup_def unix_new_def bt_contains_def)

lemma listening_path: "sun_path [1, 0, 47, 115] listening = Ok ([47, 115])"
  by (simp add: sun_path_def listening_def process_new_def split_beta resolve_path_def normalize_path_def path_components_def path_push_def
      path_join_def)

lemma connect_example:
  "\<exists>p1 k1 p2 k2. sys_connect quiet_host 1 [1, 0, 47, 115] listening kernel_named = (Ok (), p1, k1) \<and>
    sys_accept 0 p1 k1 = (Ok 2, p2, k2)"
proof -
  obtain fl where c: "socket_of 1 listening = Ok (1, sk_new DomUnix Stream 0, fl)" using names_socket_iff [OF listening_facts(4,5)] ..
  obtain a t1 where a: "pt_alloc (pb_new 65536) (k_pipes kernel_named) = (a, t1)" by fastforce
  obtain b t2 where b: "pt_alloc (pb_new 65536) t1 = (b, t2)" by fastforce
  obtain p1 where p1: "join_sockets 1 0 (sk_connected DomUnix b a True) (\<lambda>s. s\<lparr>sk_global_pipes := True\<rparr>) listening = p1" by blast
  obtain j socks where j: "skt_alloc (sk_connected DomUnix b a True) (p_sockets listening) = (j, socks)" by fastforce
  have ne: "(1 :: nat) \<noteq> 0" by simp
  note g = join_sockets_get [OF listening_facts(5,7) ne p1 j]
  have "sys_connect quiet_host 1 [1, 0, 47, 115] listening kernel_named = (Ok (), p1, kernel_named\<lparr>k_pipes := t2\<rparr>)"
    using a b by (simp add: sys_connect_def connect_unix_def c listening_path listening_facts kernel_named_facts p1 [simplified]) (simp add: sk_new_def p1 [simplified])
  moreover have "names_socket 0 0 (p_fd_table p1) (p_ofd_table p1)" unfolding g(4,5) by (rule listening_facts(6))
  from names_socket_iff [OF this] g(3) obtain lf where
    l: "socket_of 0 p1 = Ok (0, (sk_new DomUnix Stream 0)\<lparr>sk_state := Listening, sk_bind_path := Some [47, 115], sk_listen_backlog := [j]\<rparr>, lf)"
    by (auto simp: sk_new_def)
  have "\<exists>p2. open_socket j O_RDWR 0 (put_sock 0 (\<lambda>s. s\<lparr>sk_listen_backlog := []\<rparr>) p1) = (Ok 2, p2)"
    using g(4) by (simp add: open_socket_def put_sock_def split_beta listening_def fdt_alloc_def fdt_alloc_at_min_def Let_def)
  then obtain p2 where "open_socket j O_RDWR 0 (put_sock 0 (\<lambda>s. s\<lparr>sk_listen_backlog := []\<rparr>) p1) = (Ok 2, p2)" ..
  then have "sys_accept 0 p1 k' = (Ok 2, p2, k')" for k' by (simp add: sys_accept_def l sk_new_def)
  ultimately show ?thesis by blast
qed

theorem unix_connection_two_streams_witness:
  "\<exists>p1 k1 p2 k2 sent got k' on_the_way. sys_connect quiet_host 1 [1, 0, 47, 115] listening kernel_named = (Ok (), p1, k1) \<and>
    sys_accept 0 p1 k1 = (Ok 2, p2, k2) \<and>
    chat_run quiet_host (ends_of 1 2) [Say True [5], Hear False [0]] p2 k2 = Some (sent, got, p2, k') \<and>
    sent True = got False @ on_the_way True"
proof -
  obtain p1 k1 p2 k2 where c: "sys_connect quiet_host 1 [1, 0, 47, 115] listening kernel_named = (Ok (), p1, k1)"
      "sys_accept 0 p1 k1 = (Ok 2, p2, k2)" using connect_example by blast
  let ?l = "(sk_new DomUnix Stream 0)\<lparr>sk_state := Listening, sk_bind_path := Some [47, 115]\<rparr>"
  have l: "sk_shared_backlog_idx ?l = None" "sk_listen_backlog ?l = []" "(1 :: nat) \<noteq> 0" by (simp_all add: sk_new_def)
  have n: "unix_lookup (k_unix kernel_named) [47, 115] = Some \<lparr>us_pid = p_pid listening, us_sock_idx = 0\<rparr>"
    by (simp add: kernel_named_facts listening_facts)
  have ok: "\<forall>c\<in>set [Say True [5], Hear False [0]]. chat_ok c" by simp
  from unix_connection_two_streams [OF kernel_named_facts(1) listening_facts(1,2) kernel_named_facts(2) listening_facts(4,5,8,6,7) l
      listening_path n c ok] c
  show ?thesis by fastforce
qed

section \<open>Datagrams\<close>

text \<open>Messages are posted one after the other, each from a socket of its own, and then fetched.\<close>

fun post_all :: "host \<Rightarrow> bytes \<Rightarrow> (i32 \<times> bytes) list \<Rightarrow> Process \<Rightarrow> Kernel \<Rightarrow> (nat kresult list \<times> Process \<times> Kernel) option" where
  "post_all host addr [] p k = Some ([], p, k)"
| "post_all host addr ((fd, data) # ms) p k = Option.bind (sys_sendto host fd data 0 addr p k) (\<lambda>(r, p, k).
     map_option (map_prod (Cons r) id) (post_all host addr ms p k))"

fun fetch_all :: "host \<Rightarrow> i32 \<Rightarrow> bytes \<Rightarrow> nat \<Rightarrow> Process \<Rightarrow> Kernel \<Rightarrow>
    (((nat \<times> nat) kresult \<times> bytes \<times> bytes) list \<times> Process \<times> Kernel) option" where
  "fetch_all host fd buf 0 p k = Some ([], p, k)"
| "fetch_all host fd buf (Suc n) p k = Option.bind (sys_recvfrom host fd buf 0 (replicate 16 0) p k) (\<lambda>(r, p, k).
     map_option (map_prod (Cons r) id) (fetch_all host fd buf n p k))"

definition with_mail :: "nat \<Rightarrow> Datagram list \<Rightarrow> Process \<Rightarrow> Process" where
  "with_mail t dgs p = put_sock t (\<lambda>s. s\<lparr>sk_dgram_queue := dgs\<rparr>) p"

definition inet_sender :: "i32 \<Rightarrow> bytes \<Rightarrow> u16 \<Rightarrow> Process \<Rightarrow> bool" where
  "inet_sender fd addr port p \<longleftrightarrow> (\<exists>i s fl. socket_of fd p = Ok (i, s, fl) \<and> sk_domain s = DomInet \<and> sk_sock_type s = Dgram \<and>
     sk_bind_addr s = addr \<and> sk_bind_port s = port)"

lemma skt_get_mut_twice: "skt_get_mut i f (skt_get_mut i g t) = skt_get_mut i (f \<circ> g) t"
  by (auto simp: skt_get_mut_def slot_modify_def slot_get_def split: option.split)

lemma with_mail_twice: "with_mail t ds (with_mail t ds' p) = with_mail t ds p"
  by (simp add: with_mail_def put_sock_def skt_get_mut_twice comp_def)

lemma socket_of_with_mail:
  "socket_of fd (with_mail t ds p) = (case socket_of fd p of Inl e \<Rightarrow> Err e
    | Inr (i, s, fl) \<Rightarrow> Ok (i, if i = t then s\<lparr>sk_dgram_queue := ds\<rparr> else s, fl))"
  by (cases "fdt_get (p_fd_table p) fd") (simp_all add: socket_of_def with_mail_def put_sock_def skt_get_get_mut split: option.split)

lemma position_update: "P x = P (xs ! i) \<Longrightarrow> position P (xs[i := x]) = position P xs"
proof (induction xs arbitrary: i)
  case (Cons y ys)
  show ?case
  proof (cases i)
    case 0
    with Cons.prems show ?thesis by auto
  next
    case (Suc j)
    then have "position P (ys[j := x]) = position P ys" using Cons.prems by (intro Cons.IH) simp
    with Suc show ?thesis by simp
  qed
qed simp

lemma target_with_mail: "position (is_dgram_target port) (p_sockets (with_mail t ds p)) = position (is_dgram_target port) (p_sockets p)"
proof (cases "slot_get (p_sockets p) t")
  case (Some s)
  then have "is_dgram_target port (Some (s\<lparr>sk_dgram_queue := ds\<rparr>)) = is_dgram_target port (p_sockets p ! t)"
    using slot_get_SomeD [OF Some] by (simp add: is_dgram_target_def)
  from position_update [where P = "is_dgram_target port", OF this] show ?thesis
    by (simp add: with_mail_def put_sock_def skt_get_mut_def slot_modify_def Some)
qed (simp add: with_mail_def put_sock_def skt_get_mut_def slot_modify_def)

lemma with_mail_same: "skt_get (p_sockets p) t = Some s \<Longrightarrow> with_mail t (sk_dgram_queue s) p = p"
  using slot_get_SomeD [of "p_sockets p" t s]
  by (simp add: with_mail_def put_sock_def skt_get_mut_def skt_get_def slot_modify_def list_update_same_conv [THEN iffD2])

abbreviation (input) letter :: "(i32 \<Rightarrow> bytes) \<Rightarrow> (i32 \<Rightarrow> u16) \<Rightarrow> i32 \<times> bytes \<Rightarrow> Datagram" where
  "letter src port m \<equiv> \<lparr>dg_data = snd m, dg_src_addr = src (fst m), dg_src_port = port (fst m)\<rparr>"

lemma post_all_mail:
  assumes addr: "8 \<le> length addr" "take 4 (drop 4 addr) = LOOPBACK"
    "position (is_dgram_target (from_be16 (drop 2 addr))) (p_sockets p) = Some t"
    and senders: "\<forall>m\<in>set ms. inet_sender (fst m) (src (fst m)) (port (fst m)) p"
    and t: "skt_get (p_sockets p) t = Some s"
  shows "post_all host addr ms (with_mail t ds p) k = Some (map (\<lambda>m. Ok (length (snd m))) ms, with_mail t (ds @ map (letter src port) ms) p, k)"
  using senders
proof (induction ms arbitrary: ds)
  case (Cons m ms)
  obtain fd data where m: "m = (fd, data)" by fastforce
  obtain i snder fl where sd: "socket_of fd p = Ok (i, snder, fl)" "sk_domain snder = DomInet" "sk_sock_type snder = Dgram"
      "sk_bind_addr snder = src fd" "sk_bind_port snder = port fd"
    using Cons.prems by (auto simp: m inet_sender_def)
  have "addr \<noteq> []" using addr(1) by auto
  then have "sys_sendto host fd data 0 addr (with_mail t ds p) k =
      Some (Ok (length data), with_mail t (ds @ [letter src port m]) p, k)"
    using sd addr t
    by (simp add: sys_sendto_def socket_of_with_mail target_with_mail m)
      (simp add: with_mail_def put_sock_def skt_get_mut_twice comp_def)
  with Cons.IH [of "ds @ [letter src port m]"] Cons.prems show ?case by (simp add: m)
qed simp

lemma length_sockaddr_in: "length a = 4 \<Longrightarrow> length (sockaddr_in a pt) = 16"
  by (simp add: sockaddr_in_def to_be16_def)

lemma fetch_all_mail:
  assumes "socket_of fd p = Ok (t, s, fl)" "sk_domain s = DomInet" "sk_sock_type s = Dgram"
    and "\<forall>d\<in>set ds. length (dg_data d) \<le> length buf \<and> length (dg_src_addr d) = 4"
  shows "fetch_all host fd buf (length ds) (with_mail t ds p) k =
    Some (map (\<lambda>d. (Ok (length (dg_data d), 16), dg_data d @ drop (length (dg_data d)) buf, sockaddr_in (dg_src_addr d) (dg_src_port d))) ds,
      with_mail t [] p, k)"
  using assms(4)
proof (induction ds)
  case (Cons d ds)
  have "sys_recvfrom host fd buf 0 (replicate 16 0) (with_mail t (d # ds) p) k =
      Some ((Ok (length (dg_data d), 16), dg_data d @ drop (length (dg_data d)) buf, sockaddr_in (dg_src_addr d) (dg_src_port d)),
        with_mail t ds p, k)"
    using assms(1-3) Cons.prems
    by (simp add: sys_recvfrom_def socket_of_with_mail min_absorb2 copy_at_def write_sockaddr_in_def length_sockaddr_in Let_def)
      (simp add: with_mail_def put_sock_def skt_get_mut_twice comp_def)
  with Cons show ?case by simp
qed simp

text \<open>
  C22: datagrams arrive whole, in order and with their sender. Messages sent with \<open>sys_sendto\<close> to the address of a
  socket are what the calls of \<open>sys_recvfrom\<close> on it return, one message per call if its buffer is as long as each of them, each with the address and
  the port of the socket it was sent from; afterwards everything is as before.
\<close>

theorem datagrams_whole_in_order:
  assumes "socket_of fd p = Ok (t, s, fl)" and "sk_domain s = DomInet" and "sk_sock_type s = Dgram" and "sk_dgram_queue s = []"
    and "8 \<le> length addr" and "take 4 (drop 4 addr) = LOOPBACK"
    and "position (is_dgram_target (from_be16 (drop 2 addr))) (p_sockets p) = Some t"
    and "\<forall>m\<in>set ms. inet_sender (fst m) (src (fst m)) (port (fst m)) p \<and> length (src (fst m)) = 4 \<and> length (snd m) \<le> length buf"
  shows "\<exists>p'. post_all host addr ms p k = Some (map (\<lambda>m. Ok (length (snd m))) ms, p', k) \<and>
    fetch_all host fd buf (length ms) p' k =
      Some (map (\<lambda>(sfd, data). (Ok (length data, 16), data @ drop (length data) buf, sockaddr_in (src sfd) (port sfd))) ms, p, k)"
proof -
  have t: "skt_get (p_sockets p) t = Some s"
    using assms(1) by (auto simp: socket_of_def split: sum.splits option.splits if_splits)
  have same: "with_mail t [] p = p" using with_mail_same [OF t] assms(4) by simp
  have senders: "\<forall>m\<in>set ms. inet_sender (fst m) (src (fst m)) (port (fst m)) p" using assms(8) by blast
  note post = post_all_mail [OF assms(5-7) senders t, of host "[]" k, unfolded same]
  have "\<forall>d\<in>set (map (letter src port) ms). length (dg_data d) \<le> length buf \<and> length (dg_src_addr d) = 4" using assms(8) by auto
  from fetch_all_mail [OF assms(1-3) this, of host k] same
  have "fetch_all host fd buf (length ms) (with_mail t (map (letter src port) ms) p) k =
      Some (map (\<lambda>(sfd, data). (Ok (length data, 16), data @ drop (length data) buf, sockaddr_in (src sfd) (port sfd))) ms, p, k)"
    by (simp add: comp_def split_beta)
  with post show ?thesis by auto
qed

definition post_office :: Process where
  "post_office = (process_new 3)\<lparr>
     p_sockets := [Some ((sk_new DomInet Dgram 0)\<lparr>sk_state := Bound, sk_bind_port := 0x5060, sk_bind_addr := LOOPBACK\<rparr>),
       Some ((sk_new DomInet Dgram 0)\<lparr>sk_bind_port := 9, sk_bind_addr := LOOPBACK\<rparr>)],
     p_ofd_table := [Some (ofd_fresh Socket O_RDWR (- 1) []), Some (ofd_fresh Socket O_RDWR (- 2) [])],
     p_fd_table := \<lparr>fdt_entries = [Some \<lparr>ofd_ref = 0, fd_flags = 0\<rparr>, Some \<lparr>ofd_ref = 1, fd_flags = 0\<rparr>], fdt_max_fds = 1024\<rparr>\<rparr>"

theorem datagrams_whole_in_order_witness:
  "\<exists>p'. post_all quiet_host [2, 0, 0x50, 0x60, 127, 0, 0, 1] [(1, [7]), (1, [8, 9])] post_office kernel_new = Some ([Ok 1, Ok 2], p', kernel_new) \<and>
    fetch_all quiet_host 0 [0, 0] 2 p' kernel_new = Some ([(Ok (1, 16), [7, 0], sockaddr_in LOOPBACK 9),
      (Ok (2, 16), [8, 9], sockaddr_in LOOPBACK 9)], post_office, kernel_new)"
proof -
  let ?s = "(sk_new DomInet Dgram 0)\<lparr>sk_state := Bound, sk_bind_port := 0x5060, sk_bind_addr := LOOPBACK\<rparr>"
  have "socket_of 0 post_office = Ok (0, ?s, O_RDWR)"
    by (simp add: socket_of_def post_office_def fdt_get_def ofdt_get_def slot_get_def ofd_fresh_def kernel_idx_def skt_get_def Let_def)
  moreover have "inet_sender 1 LOOPBACK 9 post_office"
    by (simp add: inet_sender_def socket_of_def post_office_def fdt_get_def ofdt_get_def slot_get_def ofd_fresh_def kernel_idx_def skt_get_def
        Let_def sk_new_def)
  moreover have "position (is_dgram_target (from_be16 (drop 2 [2, 0, 0x50, 0x60, 127, 0, 0, 1]))) (p_sockets post_office) = Some 0"
    by (simp add: post_office_def is_dgram_target_def from_be16_def sk_new_def)
  ultimately show ?thesis
    using datagrams_whole_in_order [of 0 post_office 0 ?s O_RDWR "[2, 0, 0x50, 0x60, 127, 0, 0, 1]" "[(1, [7]), (1, [8, 9])]"
        "\<lambda>_. LOOPBACK" "\<lambda>_. 9" "[0, 0]" quiet_host kernel_new]
    by (simp add: sk_new_def LOOPBACK_def numeral_2_eq_2 del: post_all.simps fetch_all.simps)
qed

end
