(* ===== verification/Spec2Isabelle.thy ===== *)
theory Spec2Isabelle
  imports FdTable OfdTable PathNorm Wakeup PipeBuf Lock Memory Signal Pty Mqueue Ipc Pshared Exec_Correct Files_Correct Proc_Pipes Io_Correct Events_Correct Proc_Correct Sock_Correct
begin

text \<open>
  A verification development for a POSIX kernel that runs in WebAssembly. One kernel instance
  (\<^verbatim>\<open>src/crates/kernel\<close>) serves many processes: user programs make system calls through the entry points of
  \<^verbatim>\<open>wasm_api.rs\<close>, \<^verbatim>\<open>syscalls.rs\<close> carries them out on the tables of the calling process and on global
  tables, and what the kernel cannot do itself (files, clocks, network) it asks the embedding host for. In the
  centralised mode a call never waits: it fails with \<open>EAGAIN\<close> and the host repeats it. In the traditional
  mode it sleeps in a loop.

  \<^bold>\<open>Conventions.\<close> Integers are words of their Rust width, with \<open>usize\<close> of 64 bits; \<open>sint\<close> reads signed
  ones. Lengths and vector indices are natural numbers. A method with \<open>&mut self\<close> returns its result together
  with the new state. \<open>Result\<close> is a sum type (\<open>Ok\<close>, \<open>Err\<close>), with every early return as a branch. \<open>BTreeMap\<close>
  is a sorted association list (\<^verbatim>\<open>Btree_Map\<close>), \<open>Vec<Option<T>>\<close> a list of options (\<^verbatim>\<open>Slots\<close>). A system call
  takes and returns the \<open>Process\<close> and the \<open>Kernel\<close> record; calls on several processes take the process table.
  The host is the argument \<open>host\<close> (\<^verbatim>\<open>Kernel\<close>): a function from the calls made so far to the next answer, and
  what other threads do while a call sleeps. Nothing is assumed about it unless a theorem says so. A loop that
  may wait is a \<open>partial_function (option)\<close> whose value \<open>None\<close> means that it never returns; no fuel is used,
  and that calls return is proved (\<open>io_returns\<close>, \<open>dequeue_returns\<close>, \<open>delivery_settles\<close>, \<open>poll_returns\<close>).

  \<^bold>\<open>Interfaces.\<close> \<open>slot_table\<close> and \<open>first_fit_table\<close> (\<^verbatim>\<open>Slots\<close>) are the contracts of the allocators,
  interpreted for descriptions, sockets, backlogs and pipes; \<open>key_map\<close> (\<^verbatim>\<open>Btree_Map\<close>) that of the ordered
  maps; \<open>handle_refs\<close> (\<^verbatim>\<open>Handle_Refs\<close>) that of shared host handles, interpreted for files and for network
  handles; \<open>signal_queue\<close> (\<^verbatim>\<open>Signal\<close>) that of a queue of pending signals, for processes and threads;
  \<open>record_codec\<close> (\<^verbatim>\<open>Codec\<close>) that of a writer and its reader, for the sections of the fork and exec images.

  \<^bold>\<open>Components\<close>, each in the theory of its source file under \<^verbatim>\<open>src/crates/kernel/src\<close>:

  \<^item> \<^verbatim>\<open>Prelude\<close>, \<^verbatim>\<open>Abi\<close>: types, list operations, and the constants of \<^verbatim>\<open>src/crates/shared/src/lib.rs\<close>.
  \<^item> \<^verbatim>\<open>FdTable\<close> (\<^verbatim>\<open>fd.rs\<close>): the descriptor table is a finite map, and allocation takes the lowest free number.
    \<^verbatim>\<open>OfdTable\<close> (\<^verbatim>\<open>ofd.rs\<close>): descriptions, status flags, and host handles closed by their last owner.
  \<^item> \<^verbatim>\<open>PathNorm\<close> (\<^verbatim>\<open>path.rs\<close>): resolution gives normal paths and composes.
  \<^item> \<^verbatim>\<open>PipeBuf\<close> (\<^verbatim>\<open>pipe.rs\<close>): the ring buffer refines a bounded queue. \<^verbatim>\<open>Wakeup\<close> (\<^verbatim>\<open>wakeup.rs\<close>): its events.
  \<^item> \<^verbatim>\<open>Lock\<close> (\<^verbatim>\<open>lock.rs\<close>): conflicting byte-range locks never coexist. \<^verbatim>\<open>Memory\<close> (\<^verbatim>\<open>memory.rs\<close>): mappings are
    fresh, and unmapping removes exactly the pages asked for.
  \<^item> \<^verbatim>\<open>Signal\<close> (\<^verbatim>\<open>signal.rs\<close>), \<^verbatim>\<open>Terminal\<close> (\<^verbatim>\<open>terminal.rs\<close>), \<^verbatim>\<open>Pty\<close> (\<^verbatim>\<open>pty.rs\<close>): pending signals and their order,
    and the line discipline.
  \<^item> \<^verbatim>\<open>Mqueue\<close> (\<^verbatim>\<open>mqueue.rs\<close>), \<^verbatim>\<open>Ipc\<close> (\<^verbatim>\<open>ipc.rs\<close>), \<^verbatim>\<open>Pshared\<close> (\<^verbatim>\<open>pshared.rs\<close>): stable priority queues, semaphore
    operations that happen as a whole or not at all, and a step relation for condition variables and barriers.
  \<^item> \<^verbatim>\<open>Socket\<close> (\<^verbatim>\<open>socket.rs\<close>), \<^verbatim>\<open>Unix_Registry\<close> (\<^verbatim>\<open>unix_socket.rs\<close>), \<^verbatim>\<open>Devices\<close> (\<^verbatim>\<open>audio.rs\<close>, \<^verbatim>\<open>mouse.rs\<close>),
    \<^verbatim>\<open>Process\<close> (\<^verbatim>\<open>process.rs\<close>), \<^verbatim>\<open>ProcTable\<close> (\<^verbatim>\<open>process_table.rs\<close>): the remaining tables.
  \<^item> \<^verbatim>\<open>Codec\<close>, \<^verbatim>\<open>Fork\<close> (\<^verbatim>\<open>fork.rs\<close>): the images that fork and exec write and read. \<^verbatim>\<open>Fork_Correct\<close> and
    \<^verbatim>\<open>Exec_Correct\<close>: reading an image gives the process the child or the new program has to start from.

  \<^bold>\<open>System calls\<close> (\<^verbatim>\<open>syscalls.rs\<close>, with the signal entry points of \<^verbatim>\<open>wasm_api.rs\<close>), each with its theorems:

  \<^item> \<^verbatim>\<open>Files\<close>: \<open>close\<close>, \<open>dup\<close>, \<open>pipe\<close>, \<open>fcntl\<close>. \<^verbatim>\<open>Files_Correct\<close>: reference counts equal the descriptors that
    refer to a description. \<^verbatim>\<open>Pipe_Ends\<close>, \<^verbatim>\<open>Proc_Pipes\<close>: over all processes and interleavings, with fork and
    removal, the ends of a pipe are counted exactly, so end of file and \<open>EPIPE\<close> come when they should.
  \<^item> \<^verbatim>\<open>Io\<close>: \<open>read\<close>, \<open>write\<close>, \<open>lseek\<close>, \<open>pread\<close>, \<open>pwrite\<close> on every file type. \<^verbatim>\<open>Io_Correct\<close>: pipes are byte
    streams, event counters conserve their value, and memory files are files.
  \<^item> \<^verbatim>\<open>Sig_Calls\<close>, \<^verbatim>\<open>Sig_Correct\<close>: masks, waiting, sending and delivery; delivery ends and follows the
    dispositions, \<open>sigsuspend\<close> returns to its mask, and \<open>kill\<close> needs permission.
  \<^item> \<^verbatim>\<open>Events\<close>, \<^verbatim>\<open>Events_Correct\<close>: event descriptors and waiting; \<open>poll\<close> agrees with \<open>read\<close> and returns, the
    interest list of epoll is a map, and timer descriptors are never reported, which is a defect.
  \<^item> \<^verbatim>\<open>Proc_Calls\<close>, \<^verbatim>\<open>Proc_Correct\<close>: calls of a process on itself; privileges are not regained through the calls
    that check them, settings keep their types, the environment is a map, and exit releases what is held.
  \<^item> \<^verbatim>\<open>Sock_Calls\<close>, \<^verbatim>\<open>Sock_Correct\<close>: sockets; pairs and accepted connections are two independent byte streams,
    datagrams arrive whole and in order, and \<open>MSG_WAITALL\<close> loses data, which is a defect.

  \<^bold>\<open>Bounds.\<close> Theorems about descriptors assume tables of fewer than \<open>2 ^ 31\<close> entries and sockets fewer than
  \<open>2 ^ 62\<close>, far above the limits the kernel sets, so that indices survive the conversion to handles.

  \<^bold>\<open>Not modelled.\<close> The calls on paths and directories, \<open>ioctl\<close>, \<open>futex\<close> and \<open>clone\<close> of \<^verbatim>\<open>syscalls.rs\<close>, which
  mostly pass on to the host; the marshalling of arguments through linear memory, and connections between
  processes, in \<^verbatim>\<open>wasm_api.rs\<close>: they work on raw pointers; \<^verbatim>\<open>spawn.rs\<close> and \<open>spawn_child\<close>; the text of
  \<^verbatim>\<open>procfs.rs\<close> and the static tree of \<^verbatim>\<open>devfs.rs\<close>; the panic handler and allocator of \<^verbatim>\<open>lib.rs\<close> and
  \<^verbatim>\<open>src/crates/userspace\<close>; the build tool \<^verbatim>\<open>src/xtask\<close>, which works on the developer's machine; and the host
  under \<^verbatim>\<open>src/host\<close> and the C code under \<^verbatim>\<open>src/glue\<close>, which the kernel sees as answers of the host only.
\<close>

end
